(* ===== verification/Fabric_Prelude.thy ===== *)
theory Fabric_Prelude
  imports Main
begin

text \<open>
  Shared vocabulary of the development: results that are either an error or a value,
  JavaScript numbers that may be NaN, splitting and joining of strings, and the lemmas on
  lists and maps that several components use.  Three theorem collections are filled by the
  components and used by their proofs:
  \<^item> \<open>num_defs\<close>: the comparison and arithmetic of JavaScript numbers;
  \<^item> \<open>result_splits\<close>: the case splits of the result type;
  \<^item> \<open>inv_intros\<close>: preservation lemmas of the component invariants.
\<close>

named_theorems num_defs
named_theorems result_splits
named_theorems inv_intros

subsection \<open>Results\<close>

text \<open>A throwing function returns \<open>Inl e\<close> where the source throws and \<open>Inr v\<close> where it
  returns.\<close>

type_synonym ('e, 'a) result = "'e + 'a"

lemmas sum_case_splits [result_splits] = sum.splits sum.split_asm
lemmas option_case_splits [result_splits] = option.splits option.split_asm

definition is_ok :: "('e, 'a) result \<Rightarrow> bool" where
  "is_ok r = (case r of Inl _ \<Rightarrow> False | Inr _ \<Rightarrow> True)"

lemma is_ok_simps [simp]: "is_ok (Inr v)" "\<not> is_ok (Inl e)"
  by (simp_all add: is_ok_def)

lemma is_ok_iff: "is_ok r \<longleftrightarrow> (\<exists>v. r = Inr v)"
  by (cases r) simp_all

text \<open>Run a check over a list and stop at the first error, as a loop that throws does.\<close>

fun check_all :: "('a \<Rightarrow> ('e, unit) result) \<Rightarrow> 'a list \<Rightarrow> ('e, unit) result" where
  "check_all f [] = Inr ()"
| "check_all f (x # xs) = (case f x of Inl e \<Rightarrow> Inl e | Inr _ \<Rightarrow> check_all f xs)"

lemma check_all_ok_iff: "check_all f xs = Inr () \<longleftrightarrow> (\<forall>x \<in> set xs. f x = Inr ())"
  by (induction xs) (auto split: sum.splits)

subsection \<open>JavaScript numbers\<close>

text \<open>
  \<open>Date.parse\<close> and \<open>Date.prototype.getTime\<close> return an integer number of milliseconds or NaN.
  NaN is \<open>None\<close>; every comparison with NaN is false, and arithmetic with NaN is NaN.
\<close>

type_synonym jsnum = "int option"

definition num_lt :: "jsnum \<Rightarrow> jsnum \<Rightarrow> bool" where
  "num_lt a b = (case a of None \<Rightarrow> False | Some x \<Rightarrow> (case b of None \<Rightarrow> False | Some y \<Rightarrow> x < y))"

definition num_le :: "jsnum \<Rightarrow> jsnum \<Rightarrow> bool" where
  "num_le a b = (case a of None \<Rightarrow> False | Some x \<Rightarrow> (case b of None \<Rightarrow> False | Some y \<Rightarrow> x \<le> y))"

definition num_add :: "jsnum \<Rightarrow> jsnum \<Rightarrow> jsnum" where
  "num_add a b = (case a of None \<Rightarrow> None | Some x \<Rightarrow> map_option (\<lambda>y. x + y) b)"

definition num_sub :: "jsnum \<Rightarrow> jsnum \<Rightarrow> jsnum" where
  "num_sub a b = (case a of None \<Rightarrow> None | Some x \<Rightarrow> map_option (\<lambda>y. x - y) b)"

definition is_finite :: "jsnum \<Rightarrow> bool" where
  "is_finite a = (a \<noteq> None)"

lemma num_some [simp, num_defs]:
  "num_lt (Some x) (Some y) = (x < y)" "num_le (Some x) (Some y) = (x \<le> y)"
  "num_add (Some x) (Some y) = Some (x + y)" "num_sub (Some x) (Some y) = Some (x - y)"
  by (simp_all add: num_lt_def num_le_def num_add_def num_sub_def)

lemma num_nan [simp, num_defs]:
  "\<not> num_lt None b" "\<not> num_lt a None" "\<not> num_le None b" "\<not> num_le a None"
  "num_add None b = None" "num_add a None = None" "num_sub None b = None" "num_sub a None = None"
  by (simp_all add: num_lt_def num_le_def num_add_def num_sub_def split: option.splits)

lemma is_finite_simps [simp]: "is_finite (Some x)" "\<not> is_finite None"
  by (simp_all add: is_finite_def)

lemma is_finite_iff: "is_finite a \<longleftrightarrow> (\<exists>x. a = Some x)"
  by (cases a) simp_all

subsection \<open>Strings\<close>

text \<open>
  A JavaScript string is modelled by a list of characters; the development uses it for strings
  whose code units are at most \<open>0xFF\<close>, so that one character is one code unit.
  \<open>utf8_length\<close> is \<open>Buffer.byteLength\<close>: two bytes for a code unit above \<open>0x7F\<close>.
\<close>

definition utf8_length :: "string \<Rightarrow> nat" where
  "utf8_length s = sum_list (map (\<lambda>c. if of_char c < (128 :: nat) then 1 else 2) s)"

definition starts_with :: "string \<Rightarrow> string \<Rightarrow> bool" where
  "starts_with s p = (take (length p) s = p)"

definition ends_with :: "string \<Rightarrow> string \<Rightarrow> bool" where
  "ends_with s p = (length p \<le> length s \<and> drop (length s - length p) s = p)"

fun split_on :: "char \<Rightarrow> string \<Rightarrow> string list" where
  "split_on c [] = [[]]"
| "split_on c (x # xs) =
     (if x = c then [] # split_on c xs
      else (case split_on c xs of [] \<Rightarrow> [[x]] | p # ps \<Rightarrow> (x # p) # ps))"

fun join_with :: "string \<Rightarrow> string list \<Rightarrow> string" where
  "join_with sep [] = []"
| "join_with sep [p] = p"
| "join_with sep (p # q # ps) = p @ sep @ join_with sep (q # ps)"

lemma starts_with_iff: "starts_with s p \<longleftrightarrow> (\<exists>t. s = p @ t)"
  unfolding starts_with_def by (metis append_eq_conv_conj append_take_drop_id)

lemma split_on_ne [simp]: "split_on c s \<noteq> []"
  by (induction s) (auto split: list.splits)

lemma split_on_parts: "\<forall>p \<in> set (split_on c s). c \<notin> set p"
  by (induction s) (auto split: list.splits)

lemma join_split: "join_with [c] (split_on c s) = s"
proof (induction s)
  case (Cons x xs)
  then show ?case
    by (cases "split_on c xs"; cases "tl (split_on c xs)") (auto split: list.splits)
qed simp

lemma split_on_append: "c \<notin> set p \<Longrightarrow> split_on c (p @ c # s) = p # split_on c s"
  by (induction p) (auto split: list.splits)

lemma split_on_single: "c \<notin> set p \<Longrightarrow> split_on c p = [p]"
  by (induction p) (auto split: list.splits)

lemma split_join:
  "ps \<noteq> [] \<Longrightarrow> \<forall>p \<in> set ps. c \<notin> set p \<Longrightarrow> split_on c (join_with [c] ps) = ps"
proof (induction ps rule: induct_list012)
  case (3 p q ps)
  then have "split_on c (join_with [c] (q # ps)) = q # ps" by simp
  with 3 show ?case by (simp add: split_on_append)
qed (simp_all add: split_on_single)

lemma join_with_append:
  "ps \<noteq> [] \<Longrightarrow> qs \<noteq> [] \<Longrightarrow> join_with sep (ps @ qs) = join_with sep ps @ sep @ join_with sep qs"
proof (induction ps)
  case (Cons p ps)
  then show ?case by (cases ps; cases qs) auto
qed simp

subsection \<open>Lists and maps\<close>

lemma find_SomeD: "List.find P xs = Some x \<Longrightarrow> x \<in> set xs \<and> P x"
  by (auto simp: find_Some_iff)

lemma find_None_all: "List.find P xs = None \<longleftrightarrow> (\<forall>x \<in> set xs. \<not> P x)"
  by (auto simp: find_None_iff)

lemma find_distinct_key:
  assumes "distinct (map k xs)" "x \<in> set xs" "P x" "\<And>y. y \<in> set xs \<Longrightarrow> P y \<Longrightarrow> k y = k x"
  shows "List.find P xs = Some x"
proof (cases "List.find P xs")
  case None
  with assms(2,3) show ?thesis by (auto simp: find_None_iff)
next
  case (Some y)
  then have "y \<in> set xs" "k y = k x" using assms(4) by (auto dest: find_SomeD)
  with assms(1,2) have "y = x" by (auto simp: distinct_map dest: inj_onD)
  with Some show ?thesis by simp
qed

text \<open>\<open>new Map(entries)\<close>: a later entry for a key replaces an earlier one.\<close>

definition js_map_of :: "('k \<times> 'v) list \<Rightarrow> 'k \<Rightarrow> 'v option" where
  "js_map_of kvs = map_of (rev kvs)"

lemma js_map_of_SomeD: "js_map_of kvs k = Some v \<Longrightarrow> (k, v) \<in> set kvs"
  unfolding js_map_of_def by (auto dest: map_of_SomeD)

lemma js_map_of_distinct:
  "distinct (map fst kvs) \<Longrightarrow> (k, v) \<in> set kvs \<Longrightarrow> js_map_of kvs k = Some v"
  unfolding js_map_of_def by (rule map_of_is_SomeI) (auto simp: rev_map [symmetric])

text \<open>\<open>insert ... on conflict do nothing\<close>: the first row for a key stays.\<close>

definition insert_new :: "'k \<Rightarrow> 'v \<Rightarrow> ('k \<rightharpoonup> 'v) \<Rightarrow> ('k \<rightharpoonup> 'v)" where
  "insert_new k v m = (case m k of None \<Rightarrow> m(k \<mapsto> v) | Some _ \<Rightarrow> m)"

lemma insert_new_other [simp]: "k' \<noteq> k \<Longrightarrow> insert_new k v m k' = m k'"
  by (simp add: insert_new_def split: option.splits)

lemma insert_new_same: "insert_new k v m k = (case m k of None \<Rightarrow> Some v | Some w \<Rightarrow> Some w)"
  by (simp add: insert_new_def split: option.splits)

lemma insert_new_keeps: "m k' = Some w \<Longrightarrow> insert_new k v m k' = Some w"
  by (auto simp: insert_new_def split: option.splits)

subsection \<open>Stores that only advance\<close>

text \<open>
  The contract of a durable store whose entries move forward: every operation keeps an entry or
  replaces it by one that is above it in the order \<open>above\<close>.  Clients get the same statement for
  any sequence of operations.
\<close>

locale advancing_store =
  fixes look :: "'s \<Rightarrow> 'k \<Rightarrow> 'v option"
    and step :: "'op \<Rightarrow> 's \<Rightarrow> 's"
    and above :: "'v \<Rightarrow> 'v \<Rightarrow> bool"
  assumes above_refl: "above v v"
    and above_trans: "above u v \<Longrightarrow> above v w \<Longrightarrow> above u w"
    and step_advances: "look s k = Some v \<Longrightarrow> \<exists>w. look (step op s) k = Some w \<and> above v w"
begin

lemma run_advances: "look s k = Some v \<Longrightarrow> \<exists>w. look (fold step ops s) k = Some w \<and> above v w"
proof (induction ops arbitrary: s v)
  case (Cons op ops)
  from step_advances [OF Cons.prems] obtain u where u: "look (step op s) k = Some u" "above v u" by blast
  from Cons.IH [OF u(1)] u(2) show ?case by (auto intro: above_trans)
qed (auto intro: above_refl)

lemma never_lost: "look s k = Some v \<Longrightarrow> look (fold step ops s) k \<noteq> None"
  using run_advances by fastforce

end

end
