(* ===== verification/Canonical_Json.thy ===== *)
theory Canonical_Json
  imports Fabric_Prelude "HOL-Library.Multiset"
begin

text \<open>
  The canonical serialisation that every signature and digest of the fabric is taken over:
  \<open>canonicalValue\<close> and \<open>canonicalize\<close> of packages/contracts/src/index.ts, with the parts of
  \<open>JSON.stringify\<close>, \<open>Array.prototype.sort\<close> and \<open>Object.fromEntries\<close> that they use.
  \<open>localeCompare\<close> is a parameter \<open>le\<close> (the collation is chosen by the host); \<open>code_unit_le\<close> is
  the order of a \<open>sort()\<close> without a comparator.  Numbers are integers.
  The main facts: the printed text determines the canonical value, and two values have the same
  canonical text exactly when they mean the same JSON value, whatever the order of their keys.
\<close>

datatype json =
    JNull
  | JBool bool
  | JNum int
  | JStr string
  | JArr "json list"
  | JObj "(string \<times> json) list"

subsection \<open>Printing\<close>

definition digit_char :: "nat \<Rightarrow> char" where
  "digit_char n = char_of (48 + n)"

fun nat_string :: "nat \<Rightarrow> string" where
  "nat_string n = (if n < 10 then [digit_char n] else nat_string (n div 10) @ [digit_char (n mod 10)])"

declare nat_string.simps [simp del]

definition int_string :: "int \<Rightarrow> string" where
  "int_string i = (if i < 0 then CHR ''-'' # nat_string (nat (- i)) else nat_string (nat i))"

definition hex_char :: "nat \<Rightarrow> char" where
  "hex_char n = (if n < 10 then char_of (48 + n) else char_of (87 + n))"

definition short_escape :: "nat \<Rightarrow> char option" where
  "short_escape n = map_of [(34, CHR 0x22), (92, CHR 0x5C), (8, CHR ''b''), (12, CHR ''f''),
     (10, CHR ''n''), (13, CHR ''r''), (9, CHR ''t'')] n"

definition escape_char :: "char \<Rightarrow> string" where
  "escape_char c = (let n = of_char c :: nat in
     case short_escape n of
       Some e \<Rightarrow> [CHR 0x5C, e]
     | None \<Rightarrow>
         if n < 32 then [CHR 0x5C, CHR ''u'', CHR ''0'', CHR ''0'', hex_char (n div 16), hex_char (n mod 16)]
         else [c])"

definition quote_json :: "string \<Rightarrow> string" where
  "quote_json s = CHR 0x22 # concat (map escape_char s) @ [CHR 0x22]"

fun stringify :: "json \<Rightarrow> string" where
  "stringify JNull = ''null''"
| "stringify (JBool b) = (if b then ''true'' else ''false'')"
| "stringify (JNum i) = int_string i"
| "stringify (JStr s) = quote_json s"
| "stringify (JArr xs) = CHR ''['' # join_with '','' (map stringify xs) @ '']''"
| "stringify (JObj kvs) =
     CHR ''{'' # join_with '','' (map (\<lambda>(k, v). quote_json k @ '':'' @ stringify v) kvs) @ ''}''"

subsection \<open>Canonical order\<close>

text \<open>\<open>sort\<close> with a consistent comparator is a stable sort.\<close>

fun insort_by :: "('a \<Rightarrow> 'a \<Rightarrow> bool) \<Rightarrow> 'a \<Rightarrow> 'a list \<Rightarrow> 'a list" where
  "insort_by le x [] = [x]"
| "insort_by le x (y # ys) = (if le x y then x # y # ys else y # insort_by le x ys)"

definition sort_by :: "('a \<Rightarrow> 'a \<Rightarrow> bool) \<Rightarrow> 'a list \<Rightarrow> 'a list" where
  "sort_by le xs = foldr (insort_by le) xs []"

lemma mset_insort_by: "mset (insort_by le x ys) = add_mset x (mset ys)"
  by (induction ys) auto

lemma mset_sort_by [simp]: "mset (sort_by le xs) = mset xs"
  by (induction xs) (simp_all add: sort_by_def mset_insort_by)

lemma set_sort_by [simp, termination_simp]: "set (sort_by le xs) = set xs"
  by (rule mset_eq_setD) simp

text \<open>An object lists its array-index keys first, in numeric order, then its other keys in the
  order of their creation.\<close>

definition is_digit :: "char \<Rightarrow> bool" where
  "is_digit c = (48 \<le> (of_char c :: nat) \<and> (of_char c :: nat) \<le> 57)"

definition decimal_value :: "string \<Rightarrow> nat" where
  "decimal_value s = foldl (\<lambda>n c. 10 * n + (of_char c - 48)) 0 s"

definition is_index_key :: "string \<Rightarrow> bool" where
  "is_index_key k = (k \<noteq> [] \<and> list_all is_digit k \<and> (k = ''0'' \<or> hd k \<noteq> CHR ''0'')
     \<and> decimal_value k < 4294967295)"

definition own_order :: "(string \<times> 'v) list \<Rightarrow> (string \<times> 'v) list" where
  "own_order kvs = sort_key (decimal_value \<circ> fst) (filter (is_index_key \<circ> fst) kvs)
     @ filter (Not \<circ> is_index_key \<circ> fst) kvs"

fun canonicalValue :: "(string \<Rightarrow> string \<Rightarrow> bool) \<Rightarrow> json \<Rightarrow> json" where
  "canonicalValue le (JArr xs) = JArr (map (canonicalValue le) xs)"
| "canonicalValue le (JObj kvs) =
     JObj (own_order (map (\<lambda>(k, v). (k, canonicalValue le v))
       (sort_by (\<lambda>a b. le (fst a) (fst b)) kvs)))"
| "canonicalValue le v = v"

definition canonicalize :: "(string \<Rightarrow> string \<Rightarrow> bool) \<Rightarrow> json \<Rightarrow> string" where
  "canonicalize le v = stringify (canonicalValue le v)"

fun code_unit_le :: "string \<Rightarrow> string \<Rightarrow> bool" where
  "code_unit_le [] t = True"
| "code_unit_le (c # s) [] = False"
| "code_unit_le (c # s) (d # t) =
     (if c = d then code_unit_le s t else (of_char c :: nat) < of_char d)"

text \<open>Distinct keys in every object, as JavaScript objects have.\<close>

fun wf_json :: "json \<Rightarrow> bool" where
  "wf_json (JArr xs) = list_all wf_json xs"
| "wf_json (JObj kvs) = (distinct (map fst kvs) \<and> list_all (\<lambda>(k, v). wf_json v) kvs)"
| "wf_json v = True"

text \<open>What a JSON value means: an object is a finite map from keys to values.\<close>

datatype jval =
    VNull
  | VBool bool
  | VNum int
  | VStr string
  | VArr "jval list"
  | VObj "string \<Rightarrow> jval option"

fun meaning :: "json \<Rightarrow> jval" where
  "meaning JNull = VNull"
| "meaning (JBool b) = VBool b"
| "meaning (JNum i) = VNum i"
| "meaning (JStr s) = VStr s"
| "meaning (JArr xs) = VArr (map meaning xs)"
| "meaning (JObj kvs) = VObj (map_of (map (\<lambda>(k, v). (k, meaning v)) kvs))"

subsection \<open>The printed text determines the value\<close>

text \<open>The texts that can follow a value inside a printed document.\<close>

definition followed :: "string \<Rightarrow> bool" where
  "followed x = (x = [] \<or> hd x \<in> {CHR '','', CHR '']'', CHR ''}''})"

lemma followed_simps [simp]:
  "followed []" "followed (CHR '','' # x)" "followed (CHR '']'' # x)" "followed (CHR ''}'' # x)"
  by (simp_all add: followed_def)

lemma of_char_eqD: "(of_char c :: nat) = of_char d \<Longrightarrow> c = d"
  by simp

lemma digit_char_inj: "a < 10 \<Longrightarrow> b < 10 \<Longrightarrow> digit_char a = digit_char b \<longleftrightarrow> a = b"
  by (simp add: digit_char_def char_of_eq_iff take_bit_eq_mod)

lemma is_digit_digit_char: "n < 10 \<Longrightarrow> is_digit (digit_char n)"
  by (simp add: is_digit_def digit_char_def)

lemma nat_string_ne [simp]: "nat_string n \<noteq> []"
  by (subst nat_string.simps) simp

lemma nat_string_digits: "list_all is_digit (nat_string n)"
proof (induction n rule: nat_string.induct)
  case (1 n)
  then show ?case
    by (subst nat_string.simps) (auto simp: is_digit_digit_char)
qed

lemma nat_string_inj: "nat_string m = nat_string n \<Longrightarrow> m = n"
proof (induction m arbitrary: n rule: nat_string.induct)
  case (1 m)
  have len: "length (nat_string k) = 1 \<longleftrightarrow> k < 10" for k
    by (subst nat_string.simps) simp
  from "1.prems" have same: "m < 10 \<longleftrightarrow> n < 10" by (metis len)
  show ?case
  proof (cases "m < 10")
    case True
    with same "1.prems" show ?thesis
      by (simp add: nat_string.simps [of m] nat_string.simps [of n] digit_char_inj)
  next
    case False
    with same have n: "\<not> n < 10" by simp
    from "1.prems" False n have "nat_string (m div 10) = nat_string (n div 10)"
      and "digit_char (m mod 10) = digit_char (n mod 10)"
      by (simp_all add: nat_string.simps [of m] nat_string.simps [of n])
    with "1.IH" False have "m div 10 = n div 10" "m mod 10 = n mod 10"
      by (simp_all add: digit_char_inj)
    then show ?thesis by (metis div_mult_mod_eq)
  qed
qed

lemma followed_not_digit: "followed (c # x) \<Longrightarrow> \<not> is_digit c"
  by (auto simp: followed_def is_digit_def)

lemma digits_prefix:
  "list_all is_digit s \<Longrightarrow> list_all is_digit t \<Longrightarrow> followed x \<Longrightarrow> followed y \<Longrightarrow> s @ x = t @ y
     \<Longrightarrow> s = t \<and> x = y"
proof (induction s arbitrary: t)
  case Nil
  then show ?case by (cases t) (auto dest: followed_not_digit)
next
  case (Cons c s)
  then show ?case by (cases t) (auto dest: followed_not_digit)
qed

lemma nat_string_prefix:
  "followed x \<Longrightarrow> followed y \<Longrightarrow> nat_string m @ x = nat_string n @ y \<Longrightarrow> m = n \<and> x = y"
  using digits_prefix [OF nat_string_digits nat_string_digits] nat_string_inj by blast

lemma nat_string_no_minus: "nat_string n @ x \<noteq> CHR ''-'' # y"
proof
  assume "nat_string n @ x = CHR ''-'' # y"
  then have "hd (nat_string n) = CHR ''-''" by (metis hd_append2 list.sel(1) nat_string_ne)
  moreover have "is_digit (hd (nat_string n))"
    using nat_string_digits [of n] by (cases "nat_string n") auto
  ultimately show False by (simp add: is_digit_def)
qed

lemma int_string_prefix:
  assumes x: "followed x" and y: "followed y" and eq: "int_string i @ x = int_string j @ y"
  shows "i = j \<and> x = y"
proof (cases "i < 0"; cases "j < 0")
  assume "i < 0" "j < 0"
  with eq have "nat_string (nat (- i)) @ x = nat_string (nat (- j)) @ y" by (simp add: int_string_def)
  from nat_string_prefix [OF x y this] \<open>i < 0\<close> \<open>j < 0\<close> show ?thesis by auto
next
  assume "\<not> i < 0" "\<not> j < 0"
  with eq have "nat_string (nat i) @ x = nat_string (nat j) @ y" by (simp add: int_string_def)
  from nat_string_prefix [OF x y this] \<open>\<not> i < 0\<close> \<open>\<not> j < 0\<close> show ?thesis by auto
next
  assume "i < 0" "\<not> j < 0"
  with eq have "nat_string (nat j) @ y = CHR ''-'' # (nat_string (nat (- i)) @ x)" by (simp add: int_string_def)
  then show ?thesis by (simp add: nat_string_no_minus)
next
  assume "\<not> i < 0" "j < 0"
  with eq have "nat_string (nat i) @ x = CHR ''-'' # (nat_string (nat (- j)) @ y)" by (simp add: int_string_def)
  then show ?thesis by (simp add: nat_string_no_minus)
qed

lemma hex_char_inj: "a < 16 \<Longrightarrow> b < 16 \<Longrightarrow> hex_char a = hex_char b \<Longrightarrow> a = b"
  by (auto simp: hex_char_def char_of_eq_iff take_bit_eq_mod split: if_splits)

lemma hex_pair_inj:
  assumes "m < 32" "n < 32" "hex_char (m div 16) = hex_char (n div 16)" "hex_char (m mod 16) = hex_char (n mod 16)"
  shows "m = (n :: nat)"
proof -
  from assms have "m div 16 = n div 16" "m mod 16 = n mod 16"
    by (auto intro!: hex_char_inj)
  then show ?thesis by (metis div_mult_mod_eq)
qed

lemma short_escape_inj: "short_escape m = Some e \<Longrightarrow> short_escape n = Some e \<Longrightarrow> m = n"
  by (auto simp: short_escape_def split: if_splits)

lemma short_escape_not_u: "short_escape m \<noteq> Some (CHR ''u'')"
  by (simp add: short_escape_def)

lemma short_escape_backslash: "short_escape (of_char (CHR 0x5C)) \<noteq> None"
  by (simp add: short_escape_def)

lemma escape_char_cases:
  obtains (short) e where "short_escape (of_char c) = Some e" "escape_char c = [CHR 0x5C, e]" "e \<noteq> CHR ''u''"
  | (hex) "of_char c < (32 :: nat)" "escape_char c = [CHR 0x5C, CHR ''u'', CHR ''0'', CHR ''0'',
      hex_char (of_char c div 16), hex_char (of_char c mod 16)]"
  | (plain) "escape_char c = [c]" "c \<noteq> CHR 0x5C" "c \<noteq> CHR 0x22"
proof (cases "short_escape (of_char c)")
  case None
  then have "c \<noteq> CHR 0x5C" "c \<noteq> CHR 0x22" by (auto simp: short_escape_def)
  with None that show ?thesis by (cases "of_char c < (32 :: nat)") (simp_all add: escape_char_def Let_def)
next
  case (Some e)
  moreover have "e \<noteq> CHR ''u''" using Some short_escape_not_u by auto
  ultimately show ?thesis using that by (simp add: escape_char_def Let_def)
qed

lemma escape_char_prefix:
  assumes eq: "escape_char c @ x = escape_char d @ y"
  shows "c = d \<and> x = y"
proof (cases c rule: escape_char_cases)
  case (short e)
  with eq show ?thesis
    by (cases d rule: escape_char_cases) (auto dest: short_escape_inj of_char_eqD)
next
  case c: hex
  show ?thesis
  proof (cases d rule: escape_char_cases)
    case hex
    with eq c have "x = y" "hex_char (of_char c div 16) = hex_char (of_char d div 16)"
      "hex_char (of_char c mod 16) = hex_char (of_char d mod 16)" by simp_all
    with hex_pair_inj [OF c(1) hex(1)] show ?thesis by simp
  qed (use eq c in auto)
next
  case plain
  with eq show ?thesis
    by (cases d rule: escape_char_cases) auto
qed

lemma escape_char_head: "escape_char c \<noteq> [] \<and> hd (escape_char c) \<noteq> CHR 0x22"
  by (cases c rule: escape_char_cases) simp_all

lemma escape_body_prefix:
  "concat (map escape_char s) @ CHR 0x22 # x = concat (map escape_char t) @ CHR 0x22 # y \<Longrightarrow> s = t \<and> x = y"
proof (induction s arbitrary: t)
  case Nil
  show ?case
  proof (cases t)
    case (Cons d t')
    with Nil have "CHR 0x22 # x = escape_char d @ (concat (map escape_char t') @ CHR 0x22 # y)" by simp
    with escape_char_head [of d] show ?thesis by (metis hd_append2 list.sel(1))
  qed (use Nil in simp)
next
  case (Cons c s)
  show ?case
  proof (cases t)
    case Nil
    with Cons.prems have "CHR 0x22 # y = escape_char c @ (concat (map escape_char s) @ CHR 0x22 # x)" by simp
    with escape_char_head [of c] show ?thesis by (metis hd_append2 list.sel(1))
  next
    case (Cons d t')
    with Cons.prems have "escape_char c @ (concat (map escape_char s) @ CHR 0x22 # x)
      = escape_char d @ (concat (map escape_char t') @ CHR 0x22 # y)" by simp
    from escape_char_prefix [OF this] Cons.IH Cons show ?thesis by auto
  qed
qed

lemma quote_json_prefix: "quote_json s @ x = quote_json t @ y \<Longrightarrow> s = t \<and> x = y"
  using escape_body_prefix [of s x t y] by (simp add: quote_json_def)

text \<open>A comma-separated sequence between brackets is read back uniquely when its items are.\<close>

lemma join_prefix:
  assumes "\<And>a b x y. a \<in> set xs \<Longrightarrow> followed x \<Longrightarrow> followed y \<Longrightarrow> f a @ x = f b @ y \<Longrightarrow> a = b \<and> x = y"
    and "\<And>a z. f a @ z \<noteq> [] \<and> hd (f a @ z) \<noteq> c"
    and "c \<in> {CHR '']'', CHR ''}''}"
    and "join_with '','' (map f xs) @ c # x = join_with '','' (map f ys) @ c # y"
  shows "xs = ys \<and> x = y"
  using assms(1,4)
proof (induction xs arbitrary: ys)
  case Nil
  show ?case
  proof (cases ys)
    case (Cons b ys')
    then obtain z where "join_with '','' (map f ys) @ c # y = f b @ z" by (cases ys') auto
    with Nil.prems assms(2) [of b z] show ?thesis by (metis append_Nil join_with.simps(1) list.map(1) list.sel(1))
  qed (use Nil in simp)
next
  case (Cons a xs)
  show ?case
  proof (cases ys)
    case Nil
    obtain z where "join_with '','' (map f (a # xs)) @ c # x = f a @ z" by (cases xs) auto
    with Cons.prems(2) Nil assms(2) [of a z] show ?thesis
      by (metis append_Nil join_with.simps(1) list.map(1) list.sel(1))
  next
    case (Cons b ys')
    define rest where "rest zs w = (if zs = [] then c # w else CHR '','' # join_with '','' (map f zs) @ c # w)" for zs w
    have split: "join_with '','' (map f (d # zs)) @ c # w = f d @ rest zs w" for d zs w
      by (cases zs) (simp_all add: rest_def)
    have fol: "followed (rest zs w)" for zs w
      using assms(3) by (auto simp: rest_def)
    from Cons.prems(2) \<open>ys = b # ys'\<close> have "f a @ rest xs x = f b @ rest ys' y" by (simp only: split)
    with Cons.prems(1) [of a "rest xs x" "rest ys' y" b] fol
    have "a = b" and r: "rest xs x = rest ys' y" by simp_all
    have "c \<noteq> CHR '',''" using assms(3) by auto
    with r have e: "xs = [] \<longleftrightarrow> ys' = []" by (auto simp: rest_def split: if_splits)
    have "xs = ys' \<and> x = y"
    proof (cases "xs = []")
      case True
      with e r show ?thesis by (simp add: rest_def)
    next
      case False
      with e r have "join_with '','' (map f xs) @ c # x = join_with '','' (map f ys') @ c # y"
        by (simp add: rest_def)
      from Cons.IH [OF _ this] Cons.prems(1) show ?thesis by (meson list.set_intros(2))
    qed
    with \<open>a = b\<close> \<open>ys = b # ys'\<close> show ?thesis by simp
  qed
qed


text \<open>What the first character of a printed value can be.\<close>

lemma nat_string_head: "is_digit (hd (nat_string n))"
  using nat_string_digits [of n] by (cases "nat_string n") auto

lemma int_string_head: "hd (int_string i) = CHR ''-'' \<or> is_digit (hd (int_string i))"
  by (simp add: int_string_def nat_string_head)

lemma int_string_ne [simp]: "int_string i \<noteq> []"
  by (simp add: int_string_def)

definition value_head :: "char \<Rightarrow> bool" where
  "value_head c = (c \<in> {CHR ''n'', CHR ''t'', CHR ''f'', CHR 0x22, CHR ''['', CHR ''{'', CHR ''-''} \<or> is_digit c)"

lemma quote_json_ne [simp]: "quote_json s \<noteq> []" "hd (quote_json s) = CHR 0x22"
  by (simp_all add: quote_json_def)

lemma stringify_ne [simp]: "stringify v \<noteq> []"
  by (cases v) simp_all

lemma stringify_head: "value_head (hd (stringify v))"
  using int_string_head by (cases v) (auto simp: value_head_def)

lemma stringify_kind:
  assumes "stringify a @ x = stringify b @ y"
  shows "hd (stringify a) = hd (stringify b)"
  using assms by (metis hd_append2 stringify_ne)

lemma digit_ne [simp]:
  "\<not> is_digit (CHR ''n'')" "\<not> is_digit (CHR ''t'')" "\<not> is_digit (CHR ''f'')" "\<not> is_digit (CHR 0x22)"
  "\<not> is_digit (CHR ''['')" "\<not> is_digit (CHR ''{'')" "\<not> is_digit (CHR '']'')" "\<not> is_digit (CHR ''}'')"
  by (simp_all add: is_digit_def)

lemma int_string_head_ne [simp]:
  "hd (int_string i) \<noteq> CHR ''n''" "hd (int_string i) \<noteq> CHR ''t''" "hd (int_string i) \<noteq> CHR ''f''"
  "hd (int_string i) \<noteq> CHR 0x22" "hd (int_string i) \<noteq> CHR ''[''" "hd (int_string i) \<noteq> CHR ''{''"
  using int_string_head [of i] by auto

lemmas int_string_head_ne' [simp] = int_string_head_ne [symmetric]

lemma stringify_prefix:
  "followed x \<Longrightarrow> followed y \<Longrightarrow> stringify a @ x = stringify b @ y \<Longrightarrow> a = b \<and> x = y"
proof (induction a arbitrary: b x y)
  case JNull
  then show ?case using stringify_kind [OF JNull.prems(3)]
    by (cases b) (auto split: if_splits)
next
  case (JBool p)
  then show ?case using stringify_kind [OF JBool.prems(3)]
    by (cases b) (auto split: if_splits)
next
  case (JNum i)
  then show ?case using stringify_kind [OF JNum.prems(3)]
    by (cases b) (auto split: if_splits dest: int_string_prefix)
next
  case (JStr s)
  then show ?case using stringify_kind [OF JStr.prems(3)]
    by (cases b) (auto split: if_splits dest: quote_json_prefix)
next
  case (JArr xs)
  have kind: "hd (stringify b) = CHR ''[''" using stringify_kind [OF JArr.prems(3)] by simp
  then obtain ys where b: "b = JArr ys"
    by (cases b) (auto split: if_splits)
  have sep: "stringify v @ z \<noteq> [] \<and> hd (stringify v @ z) \<noteq> CHR '']''" for v z
    using stringify_head [of v] by (auto simp: value_head_def)
  from JArr.prems(3) b have "join_with '','' (map stringify xs) @ CHR '']'' # x
      = join_with '','' (map stringify ys) @ CHR '']'' # y" by simp
  from join_prefix [OF _ sep _ this] JArr.IH b show ?case by simp
next
  case (JObj kvs)
  have kind: "hd (stringify b) = CHR ''{''" using stringify_kind [OF JObj.prems(3)] by simp
  then obtain lws where b: "b = JObj lws"
    by (cases b) (auto split: if_splits)
  let ?f = "\<lambda>(k, v). quote_json k @ '':'' @ stringify v"
  have sep: "?f kv @ z \<noteq> [] \<and> hd (?f kv @ z) \<noteq> CHR ''}''" for kv z
    by (simp add: case_prod_unfold)
  have item: "kv = lw \<and> x = y"
    if "kv \<in> set kvs" "followed x" "followed y" "?f kv @ x = ?f lw @ y" for kv lw x y
  proof -
    obtain k v l w where kv: "kv = (k, v)" and lw: "lw = (l, w)" by (cases kv; cases lw) auto
    from that(4) kv lw have "quote_json k @ (CHR '':'' # stringify v @ x) = quote_json l @ (CHR '':'' # stringify w @ y)"
      by simp
    from quote_json_prefix [OF this] have "k = l" "stringify v @ x = stringify w @ y" by simp_all
    with JObj.IH [OF that(1)] that(2,3) kv lw show ?thesis by auto
  qed
  from JObj.prems(3) b have "join_with '','' (map ?f kvs) @ CHR ''}'' # x
      = join_with '','' (map ?f lws) @ CHR ''}'' # y" by simp
  from join_prefix [OF item sep _ this] b show ?case by simp
qed

lemma stringify_inj: "stringify a = stringify b \<longleftrightarrow> a = b"
  using stringify_prefix [of "[]" "[]" a b] by auto

subsection \<open>The interface of a key order\<close>

text \<open>
  What \<open>canonicalValue\<close> relies on in its comparator: \<open>le a b\<close> says that \<open>a.localeCompare(b)\<close> is
  not positive.  A consistent comparator is total and transitive; that it separates distinct
  keys (\<open>antisym\<close>) is what makes the serialisation canonical.
\<close>

locale key_order =
  fixes le :: "string \<Rightarrow> string \<Rightarrow> bool"
  assumes le_total: "le a b \<or> le b a"
    and le_trans: "le a b \<Longrightarrow> le b c \<Longrightarrow> le a c"
    and le_antisym: "le a b \<Longrightarrow> le b a \<Longrightarrow> a = b"
begin

abbreviation ordered :: "(string \<times> 'v) list \<Rightarrow> bool" where
  "ordered \<equiv> sorted_wrt (\<lambda>p q. le (fst p) (fst q))"

lemma ordered_insort: "ordered kvs \<Longrightarrow> ordered (insort_by (\<lambda>p q. le (fst p) (fst q)) x kvs)"
proof (induction kvs)
  case (Cons y kvs)
  have "set (insort_by (\<lambda>p q. le (fst p) (fst q)) x kvs) = insert x (set kvs)"
    using mset_insort_by by (metis set_mset_add_mset_insert set_mset_mset)
  with Cons le_total show ?case by (auto intro: le_trans)
qed simp

lemma ordered_sort: "ordered (sort_by (\<lambda>p q. le (fst p) (fst q)) kvs)"
  by (induction kvs) (simp_all add: sort_by_def ordered_insort)

lemma ordered_unique:
  "ordered xs \<Longrightarrow> ordered ys \<Longrightarrow> distinct (map fst xs) \<Longrightarrow> distinct (map fst ys) \<Longrightarrow> set xs = set ys
     \<Longrightarrow> xs = ys"
proof (induction xs arbitrary: ys)
  case (Cons p xs)
  then obtain q ys' where ys: "ys = q # ys'" by (cases ys) auto
  have "le (fst p) (fst q) \<or> p = q" "le (fst q) (fst p) \<or> p = q"
    using Cons.prems ys by auto
  then have "fst p = fst q" using le_antisym by blast
  moreover have "q \<in> set (p # xs)" using Cons.prems ys by simp
  ultimately have "q = p" using Cons.prems(3) by (cases q) (force simp: image_iff)
  moreover from this have "set xs = set ys'"
    using Cons.prems ys by (auto simp: insert_ident distinct_map)
  ultimately show ?case using Cons ys by auto
qed simp

end

lemma code_unit_le_total: "code_unit_le a b \<or> code_unit_le b a"
  by (induction a b rule: code_unit_le.induct) (auto simp: not_less le_less dest: of_char_eqD)

lemma code_unit_le_antisym: "code_unit_le a b \<Longrightarrow> code_unit_le b a \<Longrightarrow> a = b"
  by (induction a b rule: code_unit_le.induct) (auto split: if_splits elim: code_unit_le.elims)

lemma code_unit_le_trans: "code_unit_le a b \<Longrightarrow> code_unit_le b c \<Longrightarrow> code_unit_le a c"
proof (induction a b arbitrary: c rule: code_unit_le.induct)
  case (3 x s y t)
  then show ?case by (cases c) (auto split: if_splits)
qed auto

interpretation code_units: key_order code_unit_le
  by unfold_locales (fact code_unit_le_total code_unit_le_trans code_unit_le_antisym)+

subsection \<open>Canonical text and meaning\<close>

lemma mset_own_order: "mset (own_order kvs) = mset kvs"
  using multiset_partition [of "mset kvs" "\<lambda>x. is_index_key (fst x)"]
  by (simp add: own_order_def comp_def)

lemma set_own_order [simp]: "set (own_order kvs) = set kvs"
  by (rule mset_eq_setD [OF mset_own_order])

lemma distinct_keys_mset: "mset xs = mset ys \<Longrightarrow> distinct (map fst xs) \<longleftrightarrow> distinct (map fst ys)"
  by (metis mset_eq_imp_distinct_iff mset_map)

lemma canonical_fields_mset:
  "mset (own_order (map g (sort_by le kvs))) = mset (map g kvs)"
  by (simp add: mset_own_order)

lemma map_of_mset: "mset xs = mset ys \<Longrightarrow> distinct (map fst xs) \<Longrightarrow> map_of xs = map_of ys"
  by (metis distinct_keys_mset map_of_inject_set mset_eq_setD)

lemma meaning_canonical: "wf_json v \<Longrightarrow> meaning (canonicalValue le v) = meaning v"
proof (induction v)
  case (JArr xs)
  then show ?case by (simp add: list_all_iff)
next
  case (JObj kvs)
  let ?g = "\<lambda>(k, v). (k, canonicalValue le v)" and ?m = "\<lambda>(k, v). (k, meaning v)"
  have "map_of (map ?m (own_order (map ?g (sort_by (\<lambda>a b. le (fst a) (fst b)) kvs))))
      = map_of (map ?m (map ?g kvs))"
  proof (rule map_of_mset)
    show "mset (map ?m (own_order (map ?g (sort_by (\<lambda>a b. le (fst a) (fst b)) kvs))))
        = mset (map ?m (map ?g kvs))"
      by (simp only: mset_map canonical_fields_mset)
    then show "distinct (map fst (map ?m (own_order (map ?g (sort_by (\<lambda>a b. le (fst a) (fst b)) kvs)))))"
      using JObj.prems by (subst distinct_keys_mset) (assumption, simp add: case_prod_unfold comp_def)
  qed
  also have "map ?m (map ?g kvs) = map ?m kvs"
    using JObj by (fastforce simp: list_all_iff)
  finally show ?case by simp
qed simp_all

context key_order
begin

lemma canonical_of_meaning:
  "wf_json a \<Longrightarrow> wf_json b \<Longrightarrow> meaning a = meaning b \<Longrightarrow> canonicalValue le a = canonicalValue le b"
proof (induction a arbitrary: b)
  case (JArr xs)
  then obtain ys where b: "b = JArr ys" by (cases b) auto
  with JArr.prems have len: "length xs = length ys" and m: "map meaning xs = map meaning ys"
    by (auto dest: map_eq_imp_length_eq)
  have "canonicalValue le (xs ! i) = canonicalValue le (ys ! i)" if "i < length xs" for i
    using JArr.IH [of "xs ! i" "ys ! i"] JArr.prems b len m that
    by (auto simp: list_all_length) (metis nth_map)
  with b len show ?case by (simp add: list_eq_iff_nth_eq)
next
  case (JObj kvs)
  then obtain lws where b: "b = JObj lws" by (cases b) auto
  let ?g = "\<lambda>(k, v). (k, canonicalValue le v)" and ?m = "\<lambda>(k, v). (k, meaning v)"
  let ?s = "sort_by (\<lambda>p q. le (fst p) (fst q))"
  have da: "distinct (map fst kvs)" and db: "distinct (map fst lws)"
    using JObj.prems b by simp_all
  have keys: "map fst (map ?m zs) = map fst zs" "map fst (map ?g zs) = map fst zs" for zs :: "(string \<times> json) list"
    by (simp_all add: case_prod_unfold comp_def)
  have dm: "distinct (map fst (map ?m kvs))" "distinct (map fst (map ?m lws))"
    by (simp_all only: keys da db)
  have "map_of (map ?m kvs) = map_of (map ?m lws)" using JObj.prems b by simp
  then have means: "set (map ?m kvs) = set (map ?m lws)"
    by (simp only: map_of_inject_set [OF dm])
  have match: "\<exists>w. (k, w) \<in> set lws \<and> canonicalValue le v = canonicalValue le w" if kv: "(k, v) \<in> set kvs" for k v
  proof -
    from kv means obtain w where w: "(k, w) \<in> set lws" "meaning v = meaning w" by force
    moreover have "wf_json v" "wf_json w"
      using JObj.prems b kv w(1) by (auto simp: list_all_iff)
    ultimately show ?thesis using JObj.IH [OF kv, of v w] by auto
  qed
  have match': "\<exists>v. (k, v) \<in> set kvs \<and> canonicalValue le v = canonicalValue le w" if lw: "(k, w) \<in> set lws" for k w
  proof -
    from lw means obtain v where v: "(k, v) \<in> set kvs" "meaning v = meaning w" by force
    moreover have "wf_json v" "wf_json w"
      using JObj.prems b lw v(1) by (auto simp: list_all_iff)
    ultimately show ?thesis using JObj.IH [OF v(1), of v w] by auto
  qed
  have "map ?g (?s kvs) = map ?g (?s lws)"
  proof (rule ordered_unique)
    have sorted_map: "ordered (map ?g (?s zs))" for zs :: "(string \<times> json) list"
      using ordered_sort [of zs] by (simp add: sorted_wrt_map case_prod_unfold)
    show "ordered (map ?g (?s kvs))" "ordered (map ?g (?s lws))" by (fact sorted_map)+
    show "distinct (map fst (map ?g (?s kvs)))" "distinct (map fst (map ?g (?s lws)))"
      by (simp_all only: keys distinct_keys_mset [OF mset_sort_by] da db)
    have in_fields: "p \<in> set (map ?g (?s zs)) \<longleftrightarrow> (\<exists>k v. (k, v) \<in> set zs \<and> p = (k, canonicalValue le v))" for p zs
      by (force simp: image_iff)
    show "set (map ?g (?s kvs)) = set (map ?g (?s lws))"
      unfolding set_eq_iff in_fields using match match' by metis
  qed
  with b show ?case by simp
next
  case JNull then show ?case by (cases b) simp_all
next
  case (JBool p) then show ?case by (cases b) simp_all
next
  case (JNum i) then show ?case by (cases b) simp_all
next
  case (JStr s) then show ?case by (cases b) simp_all
qed

end

lemma canonical_text_iff:
  assumes "key_order le" "wf_json a" "wf_json b"
  shows "canonicalize le a = canonicalize le b \<longleftrightarrow> meaning a = meaning b"
proof -
  have "canonicalize le a = canonicalize le b \<longleftrightarrow> canonicalValue le a = canonicalValue le b"
    by (simp add: canonicalize_def stringify_inj)
  also have "\<dots> \<longleftrightarrow> meaning a = meaning b"
    using assms key_order.canonical_of_meaning meaning_canonical by metis
  finally show ?thesis .
qed



end
