(* ===== verification/Host.thy ===== *)
theory Host
  imports Canonical_Json
begin

text \<open>
  What the fabric takes from the Node.js host: the clock parser \<open>Date.parse\<close>, the collation of
  \<open>localeCompare\<close>, \<open>Date.prototype.toISOString\<close>, SHA-256, and Ed25519 keys and signatures of \<open>node:crypto\<close>.  They are the
  fields of a record that the definitions using them take as an argument.  The functions
  \<open>sha256\<close> and \<open>verifyCanonicalObject\<close> of packages/contracts/src/index.ts are defined over it.
  \<open>importKey x\<close> is \<open>createPublicKey\<close> on a raw Ed25519 coordinate; \<open>None\<close> is its exception.
\<close>

record 'key host =
  dateParse :: "string \<Rightarrow> jsnum"
  collation :: "string \<Rightarrow> string \<Rightarrow> bool"
  sha256Hex :: "string \<Rightarrow> string"
  edVerify :: "'key \<Rightarrow> string \<Rightarrow> string \<Rightarrow> bool"
  importKey :: "string \<Rightarrow> 'key option"
  exportX :: "'key \<Rightarrow> string"
  isoString :: "int \<Rightarrow> string"

definition sha256 :: "'key host \<Rightarrow> string \<Rightarrow> string" where
  "sha256 h text = ''sha256:'' @ sha256Hex h text"

definition verifyCanonicalObject :: "'key host \<Rightarrow> json \<Rightarrow> string \<Rightarrow> 'key \<Rightarrow> bool" where
  "verifyCanonicalObject h v signature key = edVerify h key (canonicalize (collation h) v) signature"

definition objectDigest :: "'key host \<Rightarrow> json \<Rightarrow> string" where
  "objectDigest h v = sha256 h (canonicalize (collation h) v)"

lemma sha256_eq_iff [simp]: "sha256 h a = sha256 h b \<longleftrightarrow> sha256Hex h a = sha256Hex h b"
  by (simp add: sha256_def)

subsection \<open>Encoding of lists and optional fields\<close>

definition str_array :: "string list \<Rightarrow> json" where
  "str_array xs = JArr (map JStr xs)"

definition opt_field :: "string \<Rightarrow> json option \<Rightarrow> (string \<times> json) list" where
  "opt_field k v = (case v of None \<Rightarrow> [] | Some x \<Rightarrow> [(k, x)])"

lemma opt_field_simps [simp]: "opt_field k None = []" "opt_field k (Some v) = [(k, v)]"
  by (simp_all add: opt_field_def)

lemma wf_str_array [simp]: "wf_json (str_array xs)"
  by (induction xs) (simp_all add: str_array_def)

lemma wf_str_map [simp]: "list_all wf_json (map JStr xs)"
  by (induction xs) simp_all

text \<open>Objects with the same meaning have the same meaning at every key.\<close>

lemma map_of_meaning: "map_of (map (\<lambda>(k, v). (k, meaning v)) zs) k = map_option meaning (map_of zs k)"
  by (induction zs) auto

lemma meaning_obj_iff:
  "meaning (JObj xs) = meaning (JObj ys)
     \<longleftrightarrow> (\<forall>k. map_option meaning (map_of xs k) = map_option meaning (map_of ys k))"
  by (simp add: fun_eq_iff map_of_meaning)

lemma meaning_field:
  "meaning (JObj xs) = meaning (JObj ys) \<Longrightarrow>
     map_option meaning (map_of xs k) = map_option meaning (map_of ys k)"
  using meaning_obj_iff by blast

lemma meaning_str_array: "meaning (str_array xs) = meaning (str_array ys) \<longleftrightarrow> xs = ys"
proof -
  have "map (meaning \<circ> JStr) xs = map (meaning \<circ> JStr) ys \<longleftrightarrow> xs = ys"
    by (rule inj_map_eq_map) (auto intro: injI)
  then show ?thesis by (simp add: str_array_def)
qed

text \<open>A small host used by the closed instances: a timestamp is a decimal numeral, a digest is
  the text itself, and a signature is the key followed by the text.\<close>

definition demo_parse :: "string \<Rightarrow> jsnum" where
  "demo_parse s = (if s \<noteq> [] \<and> list_all is_digit s then Some (int (decimal_value s)) else None)"

definition demo_host :: "string host" where
  "demo_host = \<lparr>dateParse = demo_parse, collation = code_unit_le, sha256Hex = (\<lambda>s. s),
     edVerify = (\<lambda>key text sig. sig = key @ text), importKey = Some, exportX = (\<lambda>k. k), isoString = int_string\<rparr>"

lemma demo_host_simps [simp]:
  "dateParse demo_host = demo_parse" "collation demo_host = code_unit_le"
  "sha256Hex demo_host s = s" "edVerify demo_host key text sig = (sig = key @ text)"
  "importKey demo_host x = Some x" "exportX demo_host k = k"
  "isoString demo_host = int_string"
  by (simp_all add: demo_host_def)

lemma demo_host_key_order: "key_order (collation demo_host)"
  by (simp add: code_units.key_order_axioms)

end
