(* ===== verification/Decisions.thy ===== *)
theory Decisions
  imports Host
begin

text \<open>
  The signed messages of packages/contracts/src/index.ts other than the keyset: canonical task
  actions and the decision receipts that release them, session questions, protocol envelopes and
  acknowledgements.  The interfaces are records, one field per property; the \<open>schema\<close> property,
  a literal, is added by the JSON encoders.  A property that may be absent is an \<open>option\<close> and is
  left out of the encoding, as \<open>JSON.stringify\<close> leaves out \<open>undefined\<close>.  The compiled schema
  validators are the parameters \<open>actionOk\<close>, \<open>receiptOk\<close>, \<open>questionOk\<close> and \<open>ackOk\<close>.
\<close>

subsection \<open>JSON encoding of the records\<close>

datatype task_type = ExternalRequest | A2aHandoff | EvaluationRetest | RemediationSmoke

fun task_type_name :: "task_type \<Rightarrow> string" where
  "task_type_name ExternalRequest = ''external_request''"
| "task_type_name A2aHandoff = ''a2a_handoff''"
| "task_type_name EvaluationRetest = ''evaluation_retest''"
| "task_type_name RemediationSmoke = ''remediation_smoke''"

datatype provider_id = Codex | Claude | Agy | Hermes

fun provider_name :: "provider_id \<Rightarrow> string" where
  "provider_name Codex = ''codex''"
| "provider_name Claude = ''claude''"
| "provider_name Agy = ''agy''"
| "provider_name Hermes = ''hermes''"

record task_source =
  so_taskId :: string
  so_endpointId :: string

record state_envelope =
  se_intent :: string
  se_evidence_used :: "string list"
  se_known_state :: "(string \<times> json) list"
  se_unknown_or_missing_state :: "string list"
  se_allowed_next_actions :: "string list"
  se_blocked_actions :: "string list"
  se_decision_authority :: string
  se_tool_results :: "json list"

record evidence_reference =
  er_trajectoryId :: string
  er_revision :: int
  er_capsuleHash :: string

record skill_bundle =
  sk_bundleId :: string
  sk_bundleHash :: string

record required_skill =
  rs_skillId :: string
  rs_version :: string
  rs_commit :: string
  rs_contentHash :: string

text \<open>A command reference \<open>{commandId}\<close> is its identifier.\<close>

record authority =
  au_readPaths :: "string list"
  au_writePaths :: "string list"
  au_commands :: "string list"
  au_network :: string
  au_git :: string
  au_allowlistedDomains :: "string list option"

record execution_limits =
  ex_isolation :: string
  ex_timeoutSeconds :: int
  ex_leaseSeconds :: int
  ex_maximumConcurrentAgents :: int

record acceptance =
  ac_commands :: "string list"
  ac_requiredArtifacts :: "string list"
  ac_externalEffectReceiptCommandId :: "string option"

text \<open>\<open>maximumProviderCostCents\<close> may be absent, null or a number.\<close>

record budget =
  bu_mode :: string
  bu_maximumDharmaCostCents :: int
  bu_maximumProviderCostCents :: "int option option"

record task_action =
  ta_organizationId :: string
  ta_actionId :: string
  ta_taskId :: string
  ta_targetEndpointId :: string
  ta_workspaceId :: string
  ta_taskType :: task_type
  ta_instructions :: string
  ta_source :: "task_source option"
  ta_stateEnvelope :: "state_envelope option"
  ta_evidenceReferences :: "evidence_reference list option"
  ta_skillBundle :: "skill_bundle option"
  ta_requiredSkills :: "required_skill list"
  ta_authority :: authority
  ta_execution :: execution_limits
  ta_acceptance :: acceptance
  ta_budget :: budget
  ta_expiresAt :: string

definition source_json :: "task_source \<Rightarrow> json" where
  "source_json s = JObj [(''taskId'', JStr (so_taskId s)), (''endpointId'', JStr (so_endpointId s))]"

definition state_envelope_json :: "state_envelope \<Rightarrow> json" where
  "state_envelope_json s = JObj
     [(''intent'', JStr (se_intent s)),
      (''evidence_used'', str_array (se_evidence_used s)),
      (''known_state'', JObj (se_known_state s)),
      (''unknown_or_missing_state'', str_array (se_unknown_or_missing_state s)),
      (''allowed_next_actions'', str_array (se_allowed_next_actions s)),
      (''blocked_actions'', str_array (se_blocked_actions s)),
      (''decision_authority'', JStr (se_decision_authority s)),
      (''tool_results'', JArr (se_tool_results s))]"

definition evidence_reference_json :: "evidence_reference \<Rightarrow> json" where
  "evidence_reference_json e = JObj
     [(''trajectoryId'', JStr (er_trajectoryId e)), (''revision'', JNum (er_revision e)),
      (''capsuleHash'', JStr (er_capsuleHash e))]"

definition skill_bundle_json :: "skill_bundle option \<Rightarrow> json" where
  "skill_bundle_json b = (case b of None \<Rightarrow> JNull
     | Some s \<Rightarrow> JObj [(''bundleId'', JStr (sk_bundleId s)), (''bundleHash'', JStr (sk_bundleHash s))])"

definition required_skill_json :: "required_skill \<Rightarrow> json" where
  "required_skill_json s = JObj
     [(''skillId'', JStr (rs_skillId s)), (''version'', JStr (rs_version s)),
      (''commit'', JStr (rs_commit s)), (''contentHash'', JStr (rs_contentHash s))]"

definition command_ref_json :: "string \<Rightarrow> json" where
  "command_ref_json c = JObj [(''commandId'', JStr c)]"

definition authority_json :: "authority \<Rightarrow> json" where
  "authority_json a = JObj
     ([(''readPaths'', str_array (au_readPaths a)), (''writePaths'', str_array (au_writePaths a)),
       (''commands'', JArr (map command_ref_json (au_commands a))),
       (''network'', JStr (au_network a)), (''git'', JStr (au_git a))]
      @ opt_field ''allowlistedDomains'' (map_option str_array (au_allowlistedDomains a)))"

definition execution_json :: "execution_limits \<Rightarrow> json" where
  "execution_json e = JObj
     [(''isolation'', JStr (ex_isolation e)), (''timeoutSeconds'', JNum (ex_timeoutSeconds e)),
      (''leaseSeconds'', JNum (ex_leaseSeconds e)),
      (''maximumConcurrentAgents'', JNum (ex_maximumConcurrentAgents e))]"

definition acceptance_json :: "acceptance \<Rightarrow> json" where
  "acceptance_json a = JObj
     ([(''commands'', JArr (map command_ref_json (ac_commands a))),
       (''requiredArtifacts'', str_array (ac_requiredArtifacts a))]
      @ opt_field ''externalEffectReceiptCommandId'' (map_option JStr (ac_externalEffectReceiptCommandId a)))"

definition budget_json :: "budget \<Rightarrow> json" where
  "budget_json b = JObj
     ([(''mode'', JStr (bu_mode b)), (''maximumDharmaCostCents'', JNum (bu_maximumDharmaCostCents b))]
      @ opt_field ''maximumProviderCostCents''
          (map_option (case_option JNull JNum) (bu_maximumProviderCostCents b)))"

definition action_json :: "task_action \<Rightarrow> json" where
  "action_json a = JObj
     ([(''schema'', JStr ''dharma.task-action/v1''),
       (''organizationId'', JStr (ta_organizationId a)), (''actionId'', JStr (ta_actionId a)),
       (''taskId'', JStr (ta_taskId a)), (''targetEndpointId'', JStr (ta_targetEndpointId a)),
       (''workspaceId'', JStr (ta_workspaceId a)), (''taskType'', JStr (task_type_name (ta_taskType a))),
       (''instructions'', JStr (ta_instructions a)),
       (''skillBundle'', skill_bundle_json (ta_skillBundle a)),
       (''requiredSkills'', JArr (map required_skill_json (ta_requiredSkills a))),
       (''authority'', authority_json (ta_authority a)),
       (''execution'', execution_json (ta_execution a)),
       (''acceptance'', acceptance_json (ta_acceptance a)),
       (''budget'', budget_json (ta_budget a)), (''expiresAt'', JStr (ta_expiresAt a))]
      @ opt_field ''source'' (map_option source_json (ta_source a))
      @ opt_field ''stateEnvelope'' (map_option state_envelope_json (ta_stateEnvelope a))
      @ opt_field ''evidenceReferences'' (map_option (JArr \<circ> map evidence_reference_json) (ta_evidenceReferences a)))"

text \<open>The values of open type inside an action have distinct keys, as parsed JSON has.\<close>

definition wf_state_envelope :: "state_envelope \<Rightarrow> bool" where
  "wf_state_envelope s = (wf_json (JObj (se_known_state s)) \<and> list_all wf_json (se_tool_results s))"

definition wf_action :: "task_action \<Rightarrow> bool" where
  "wf_action a = pred_option wf_state_envelope (ta_stateEnvelope a)"

subsection \<open>Decision receipts\<close>

datatype decision_outcome = Release | Block | Escalate | Withhold

fun outcome_name :: "decision_outcome \<Rightarrow> string" where
  "outcome_name Release = ''release''"
| "outcome_name Block = ''block''"
| "outcome_name Escalate = ''escalate''"
| "outcome_name Withhold = ''withhold''"

text \<open>\<open>confidence\<close>, a JSON number, is kept as it is encoded.\<close>

record decision_receipt =
  dr_decisionId :: string
  dr_organizationId :: string
  dr_actionId :: string
  dr_taskId :: string
  dr_targetEndpointId :: string
  dr_workspaceId :: string
  dr_evaluationContractId :: string
  dr_evaluationContractVersion :: int
  dr_actionDigest :: string
  dr_stateEnvelopeHash :: string
  dr_evidenceReferences :: "evidence_reference list"
  dr_outcome :: decision_outcome
  dr_reasonCodes :: "string list"
  dr_confidence :: json
  dr_evaluator_provider :: string
  dr_evaluator_model :: string
  dr_evaluator_configDigest :: string
  dr_nonce :: string
  dr_issuedAt :: string
  dr_expiresAt :: string
  dr_keyVersion :: string

record decision_envelope =
  de_id :: string
  de_actionDigest :: string
  de_receipt :: decision_receipt
  de_signature :: string
  de_keyVersion :: string

definition receipt_json :: "decision_receipt \<Rightarrow> json" where
  "receipt_json r = JObj
     [(''schema'', JStr ''dharma.action-decision-receipt/v1''),
      (''decisionId'', JStr (dr_decisionId r)), (''organizationId'', JStr (dr_organizationId r)),
      (''actionId'', JStr (dr_actionId r)), (''taskId'', JStr (dr_taskId r)),
      (''targetEndpointId'', JStr (dr_targetEndpointId r)), (''workspaceId'', JStr (dr_workspaceId r)),
      (''evaluationContractId'', JStr (dr_evaluationContractId r)),
      (''evaluationContractVersion'', JNum (dr_evaluationContractVersion r)),
      (''actionDigest'', JStr (dr_actionDigest r)), (''stateEnvelopeHash'', JStr (dr_stateEnvelopeHash r)),
      (''evidenceReferences'', JArr (map evidence_reference_json (dr_evidenceReferences r))),
      (''outcome'', JStr (outcome_name (dr_outcome r))), (''reasonCodes'', str_array (dr_reasonCodes r)),
      (''confidence'', dr_confidence r),
      (''evaluator'', JObj [(''provider'', JStr (dr_evaluator_provider r)),
         (''model'', JStr (dr_evaluator_model r)), (''configDigest'', JStr (dr_evaluator_configDigest r))]),
      (''nonce'', JStr (dr_nonce r)), (''issuedAt'', JStr (dr_issuedAt r)),
      (''expiresAt'', JStr (dr_expiresAt r)), (''keyVersion'', JStr (dr_keyVersion r))]"

definition ACTION_DECISION_RECEIPT_MAX_LIFETIME_MS :: int where
  "ACTION_DECISION_RECEIPT_MAX_LIFETIME_MS = 30 * 60000"

text \<open>\<open>Inl ()\<close> is the exception of \<open>actionDecisionDigest\<close> on an action that fails its schema.\<close>

definition actionDecisionDigest ::
  "'key host \<Rightarrow> (task_action \<Rightarrow> bool) \<Rightarrow> task_action \<Rightarrow> (unit, string) result" where
  "actionDecisionDigest h actionOk a =
     (if actionOk a then Inr (objectDigest h (action_json a)) else Inl ())"

datatype decision_reason =
    ActionSchemaInvalid | ReceiptSchemaInvalid | DecisionInvalidLifetime | DecisionExpired
  | DecisionNotYetValid | BindingMismatch | DigestMismatch | UnknownKey | DecisionBadSignature

datatype decision_verdict = DecisionOk | DecisionRejected decision_reason | DecisionThrows

definition receipt_bound :: "decision_envelope \<Rightarrow> task_action \<Rightarrow> bool" where
  "receipt_bound e a = (let r = de_receipt e in
     de_id e = dr_decisionId r \<and> de_keyVersion e = dr_keyVersion r
     \<and> dr_organizationId r = ta_organizationId a \<and> dr_taskId r = ta_taskId a
     \<and> dr_actionId r = ta_actionId a \<and> dr_targetEndpointId r = ta_targetEndpointId a
     \<and> dr_workspaceId r = ta_workspaceId a)"

definition verifyActionDecisionReceipt ::
  "'key host \<Rightarrow> (task_action \<Rightarrow> bool) \<Rightarrow> (decision_receipt \<Rightarrow> bool) \<Rightarrow> decision_envelope \<Rightarrow> task_action
     \<Rightarrow> (string \<Rightarrow> 'key option) \<Rightarrow> jsnum \<Rightarrow> decision_verdict" where
  "verifyActionDecisionReceipt h actionOk receiptOk envelope action resolvePublicKey now =
     (if \<not> actionOk action then DecisionRejected ActionSchemaInvalid
      else let receipt = de_receipt envelope in
      if \<not> receiptOk receipt then DecisionRejected ReceiptSchemaInvalid
      else let issuedAt = dateParse h (dr_issuedAt receipt); expiresAt = dateParse h (dr_expiresAt receipt) in
      if num_le expiresAt issuedAt
         \<or> num_lt (Some ACTION_DECISION_RECEIPT_MAX_LIFETIME_MS) (num_sub expiresAt issuedAt)
         \<or> num_lt (dateParse h (ta_expiresAt action)) expiresAt
      then DecisionRejected DecisionInvalidLifetime
      else if num_le expiresAt now then DecisionRejected DecisionExpired
      else if num_lt (num_add now (Some (5 * 60000))) issuedAt then DecisionRejected DecisionNotYetValid
      else if \<not> receipt_bound envelope action then DecisionRejected BindingMismatch
      else case actionDecisionDigest h actionOk action of
        Inl _ \<Rightarrow> DecisionThrows
      | Inr digest \<Rightarrow>
          if dr_actionDigest receipt \<noteq> digest \<or> de_actionDigest envelope \<noteq> digest
          then DecisionRejected DigestMismatch
          else case resolvePublicKey (dr_keyVersion receipt) of
            None \<Rightarrow> DecisionRejected UnknownKey
          | Some publicKey \<Rightarrow>
              if verifyCanonicalObject h (receipt_json receipt) (de_signature envelope) publicKey
              then DecisionOk else DecisionRejected DecisionBadSignature)"

subsection \<open>Acknowledgements\<close>

datatype disposition = Executed | Contained | UnknownDisposition

record acknowledgement =
  ak_taskId :: string
  ak_endpointId :: string
  ak_actionDigest :: string
  ak_disposition :: disposition
  ak_externalIdempotencyKeyHash :: string
  ak_resultDigest :: string
  ak_acknowledgedAt :: string

datatype ack_error = AckSchemaInvalid | RefreshedAckSchemaInvalid | InvalidTimeValue

definition buildActionDecisionAcknowledgement ::
  "'key host \<Rightarrow> (acknowledgement \<Rightarrow> bool) \<Rightarrow> string \<Rightarrow> string \<Rightarrow> string \<Rightarrow> disposition \<Rightarrow> string \<Rightarrow> json
     \<Rightarrow> jsnum \<Rightarrow> (ack_error, acknowledgement) result" where
  "buildActionDecisionAcknowledgement h ackOk taskId endpointId actionDigest disp idempotencyKey res now =
     (case now of
        None \<Rightarrow> Inl InvalidTimeValue
      | Some t \<Rightarrow>
          let a = \<lparr>ak_taskId = taskId, ak_endpointId = endpointId, ak_actionDigest = actionDigest,
             ak_disposition = disp, ak_externalIdempotencyKeyHash = sha256Hex h idempotencyKey,
             ak_resultDigest = objectDigest h res, ak_acknowledgedAt = isoString h t\<rparr>
          in if ackOk a then Inr a else Inl AckSchemaInvalid)"

definition refreshActionDecisionAcknowledgement ::
  "'key host \<Rightarrow> (acknowledgement \<Rightarrow> bool) \<Rightarrow> acknowledgement \<Rightarrow> jsnum \<Rightarrow> (ack_error, acknowledgement) result" where
  "refreshActionDecisionAcknowledgement h ackOk a now =
     (if \<not> ackOk a then Inl AckSchemaInvalid
      else case now of
        None \<Rightarrow> Inl InvalidTimeValue
      | Some t \<Rightarrow>
          let r = a\<lparr>ak_acknowledgedAt := isoString h t\<rparr>
          in if ackOk r then Inr r else Inl RefreshedAckSchemaInvalid)"

subsection \<open>Protocol envelopes\<close>

record envelope =
  en_messageId :: string
  en_organizationId :: string
  en_deviceId :: string
  en_sessionId :: string
  en_sentAt :: string
  en_expiresAt :: string
  en_sequence :: int
  en_nonce :: string
  en_type :: string
  en_payload :: "(string \<times> json) list"
  en_signature :: string

definition unsigned_envelope :: "envelope \<Rightarrow> json" where
  "unsigned_envelope e = JObj
     [(''schema'', JStr ''dharma.protocol-envelope/v1''), (''messageId'', JStr (en_messageId e)),
      (''organizationId'', JStr (en_organizationId e)), (''deviceId'', JStr (en_deviceId e)),
      (''sessionId'', JStr (en_sessionId e)), (''sentAt'', JStr (en_sentAt e)),
      (''expiresAt'', JStr (en_expiresAt e)), (''sequence'', JNum (en_sequence e)),
      (''nonce'', JStr (en_nonce e)), (''type'', JStr (en_type e)), (''payload'', JObj (en_payload e))]"

definition envelopeSigningPayload :: "'key host \<Rightarrow> envelope \<Rightarrow> string" where
  "envelopeSigningPayload h e = canonicalize (collation h) (unsigned_envelope e)"

text \<open>\<open>edSign\<close> is \<open>sign(null, _, privateKey)\<close>.\<close>

definition signEnvelope :: "'key host \<Rightarrow> (string \<Rightarrow> string) \<Rightarrow> envelope \<Rightarrow> envelope" where
  "signEnvelope h edSign e = e\<lparr>en_signature := edSign (envelopeSigningPayload h e)\<rparr>"

datatype envelope_verdict = EnvelopeOk | EnvelopeExpired | EnvelopeNotYetValid | EnvelopeBadSignature

definition verifyEnvelope :: "'key host \<Rightarrow> envelope \<Rightarrow> 'key \<Rightarrow> jsnum \<Rightarrow> envelope_verdict" where
  "verifyEnvelope h e publicKey now =
     (let sentAt = dateParse h (en_sentAt e); expiresAt = dateParse h (en_expiresAt e) in
      if num_le expiresAt now then EnvelopeExpired
      else if num_lt (num_add now (Some (5 * 60000))) sentAt then EnvelopeNotYetValid
      else if edVerify h publicKey (envelopeSigningPayload h e) (en_signature e)
      then EnvelopeOk else EnvelopeBadSignature)"

subsection \<open>Session questions\<close>

record party =
  pt_workspaceId :: string
  pt_endpointId :: string
  pt_membershipId :: string
  pt_deviceId :: string

record question_target =
  qt_party :: party
  qt_bindingId :: string
  qt_provider :: provider_id

text \<open>\<open>None\<close> in the budget of a binding is a number that is not an integer.\<close>

record binding_scope =
  bs_organizationId :: string
  bs_repositoryBindingId :: string
  bs_party :: party
  bs_bindingId :: string
  bs_provider :: provider_id
  bs_expiresAt :: string
  bs_maximumProviderCostCents :: "int option"

text \<open>The literal fields of \<open>authority\<close> (\<open>read_only\<close>, \<open>['.']\<close>, \<open>deny\<close>) are added by the
  encoder.\<close>

record session_question =
  sq_questionId :: string
  sq_taskId :: string
  sq_organizationId :: string
  sq_repositoryBindingId :: string
  sq_source :: party
  sq_target :: question_target
  sq_category :: string
  sq_question :: string
  sq_maximumProviderCostCents :: int
  sq_createdAt :: string
  sq_expiresAt :: string
  sq_nonce :: string
  sq_signerKeyVersion :: string
  sq_signature :: string

definition party_fields :: "party \<Rightarrow> (string \<times> json) list" where
  "party_fields p =
     [(''workspaceId'', JStr (pt_workspaceId p)), (''endpointId'', JStr (pt_endpointId p)),
      (''membershipId'', JStr (pt_membershipId p)), (''deviceId'', JStr (pt_deviceId p))]"

definition unsigned_question :: "session_question \<Rightarrow> json" where
  "unsigned_question q = JObj
     [(''schema'', JStr ''dharma.session-question/v1''), (''questionId'', JStr (sq_questionId q)),
      (''taskId'', JStr (sq_taskId q)), (''organizationId'', JStr (sq_organizationId q)),
      (''repositoryBindingId'', JStr (sq_repositoryBindingId q)),
      (''source'', JObj (party_fields (sq_source q))),
      (''target'', JObj (party_fields (qt_party (sq_target q))
         @ [(''bindingId'', JStr (qt_bindingId (sq_target q))),
            (''provider'', JStr (provider_name (qt_provider (sq_target q))))])),
      (''category'', JStr (sq_category q)), (''question'', JStr (sq_question q)),
      (''authority'', JObj [(''mode'', JStr ''read_only''), (''readPaths'', str_array [''.'']),
         (''network'', JStr ''deny''), (''maximumProviderCostCents'', JNum (sq_maximumProviderCostCents q))]),
      (''createdAt'', JStr (sq_createdAt q)), (''expiresAt'', JStr (sq_expiresAt q)),
      (''nonce'', JStr (sq_nonce q)), (''signerKeyVersion'', JStr (sq_signerKeyVersion q))]"

datatype question_reason =
    QuestionSchemaInvalid | ScopeMismatch | QuestionNotYetValid | QuestionExpired | BindingExpired
  | ValidityTooLong | ExpiryExceedsBinding | BudgetExceeded | SignerUntrusted
  | QuestionSignatureInvalid | Replayed

datatype question_verdict = Authorized | Refused question_reason

definition in_binding_scope :: "session_question \<Rightarrow> binding_scope \<Rightarrow> bool" where
  "in_binding_scope q b =
     (sq_organizationId q = bs_organizationId b
      \<and> sq_repositoryBindingId q = bs_repositoryBindingId b
      \<and> qt_party (sq_target q) = bs_party b
      \<and> qt_bindingId (sq_target q) = bs_bindingId b
      \<and> qt_provider (sq_target q) = bs_provider b)"

definition inspectSessionQuestionForBinding ::
  "'key host \<Rightarrow> (session_question \<Rightarrow> bool) \<Rightarrow> (string \<Rightarrow> 'key option) \<Rightarrow> session_question
     \<Rightarrow> binding_scope \<Rightarrow> jsnum \<Rightarrow> question_verdict" where
  "inspectSessionQuestionForBinding h questionOk resolvePublicKey q b now =
     (if \<not> questionOk q then Refused QuestionSchemaInvalid
      else if \<not> in_binding_scope q b then Refused ScopeMismatch
      else let createdAt = dateParse h (sq_createdAt q); expiresAt = dateParse h (sq_expiresAt q);
               bindingExpiresAt = dateParse h (bs_expiresAt b) in
      if \<not> is_finite bindingExpiresAt \<or> \<not> is_finite now \<or> num_le expiresAt createdAt
      then Refused QuestionSchemaInvalid
      else if num_lt (Some (60 * 60 * 1000)) (num_sub expiresAt createdAt) then Refused ValidityTooLong
      else if num_lt now createdAt then Refused QuestionNotYetValid
      else if num_le expiresAt now then Refused QuestionExpired
      else if num_le bindingExpiresAt now then Refused BindingExpired
      else if num_lt bindingExpiresAt expiresAt then Refused ExpiryExceedsBinding
      else if (case bs_maximumProviderCostCents b of
                 None \<Rightarrow> True | Some m \<Rightarrow> m < 0 \<or> m < sq_maximumProviderCostCents q)
      then Refused BudgetExceeded
      else case resolvePublicKey (sq_signerKeyVersion q) of
        None \<Rightarrow> Refused SignerUntrusted
      | Some key \<Rightarrow>
          if verifyCanonicalObject h (unsigned_question q) (sq_signature q) key
          then Authorized else Refused QuestionSignatureInvalid)"

text \<open>The registry of consumed question identifiers is a state of type \<open>'s\<close>.\<close>

definition verifySessionQuestionForBinding ::
  "'key host \<Rightarrow> (session_question \<Rightarrow> bool) \<Rightarrow> (string \<Rightarrow> 'key option) \<Rightarrow> ('s \<Rightarrow> string \<Rightarrow> bool \<times> 's)
     \<Rightarrow> 's \<Rightarrow> session_question \<Rightarrow> binding_scope \<Rightarrow> jsnum \<Rightarrow> question_verdict \<times> 's" where
  "verifySessionQuestionForBinding h questionOk resolvePublicKey consume s q b now =
     (case inspectSessionQuestionForBinding h questionOk resolvePublicKey q b now of
        Refused r \<Rightarrow> (Refused r, s)
      | Authorized \<Rightarrow>
          (case consume s (sq_questionId q) of
             (fresh, s') \<Rightarrow> (if fresh then Authorized else Refused Replayed, s')))"

text \<open>A sequence of presentations to one verifier.\<close>

fun present_questions ::
  "'key host \<Rightarrow> (session_question \<Rightarrow> bool) \<Rightarrow> (string \<Rightarrow> 'key option) \<Rightarrow> ('s \<Rightarrow> string \<Rightarrow> bool \<times> 's)
     \<Rightarrow> 's \<Rightarrow> (session_question \<times> binding_scope \<times> jsnum) list \<Rightarrow> question_verdict list" where
  "present_questions h ok resolve consume s [] = []"
| "present_questions h ok resolve consume s ((q, b, now) # ps) =
     (case verifySessionQuestionForBinding h ok resolve consume s q b now of
        (v, s') \<Rightarrow> v # present_questions h ok resolve consume s' ps)"

text \<open>The registry of the bound session of packages/cli/src/index.ts: a \<open>Set\<close> of identifiers.\<close>

definition consume_in_memory :: "string set \<Rightarrow> string \<Rightarrow> bool \<times> string set" where
  "consume_in_memory consumed i = (if i \<in> consumed then (False, consumed) else (True, insert i consumed))"

subsection \<open>The interface of a consume-once registry\<close>

text \<open>
  What the verifiers expect of \<open>consume\<close>: it returns true exactly for an identifier that was not
  consumed before, and afterwards exactly that identifier is consumed in addition.
\<close>

locale once_registry =
  fixes consume :: "'s \<Rightarrow> string \<Rightarrow> bool \<times> 's"
    and consumed :: "'s \<Rightarrow> string \<Rightarrow> bool"
  assumes consume_fresh: "fst (consume s i) \<longleftrightarrow> \<not> consumed s i"
    and consume_records: "consumed (snd (consume s i)) j \<longleftrightarrow> consumed s j \<or> j = i"
begin

lemma present_nth:
  "i < length ps \<Longrightarrow> present_questions h ok resolve consume s ps ! i =
     (let inspect = (\<lambda>(q, b, now). inspectSessionQuestionForBinding h ok resolve q b now);
          ident = (\<lambda>(q, b, now). sq_questionId q) in
      if inspect (ps ! i) \<noteq> Authorized then inspect (ps ! i)
      else if consumed s (ident (ps ! i))
         \<or> (\<exists>j < i. ident (ps ! j) = ident (ps ! i) \<and> inspect (ps ! j) = Authorized)
      then Refused Replayed else Authorized)"
proof (induction ps arbitrary: i s)
  case (Cons p ps)
  obtain q b now where p: "p = (q, b, now)" by (cases p) auto
  obtain fresh s' where c: "consume s (sq_questionId q) = (fresh, s')" by fastforce
  have fresh: "fresh \<longleftrightarrow> \<not> consumed s (sq_questionId q)"
    and s': "consumed s' j \<longleftrightarrow> consumed s j \<or> j = sq_questionId q" for j
    using consume_fresh [of s "sq_questionId q"] consume_records [of s "sq_questionId q"] c by simp_all
  have ex: "(\<exists>j < Suc n. P j) \<longleftrightarrow> P 0 \<or> (\<exists>j < n. P (Suc j))" for P :: "nat \<Rightarrow> bool" and n
    by (auto simp: less_Suc_eq_0_disj)
  show ?case
  proof (cases i)
    case 0
    with p c fresh show ?thesis
      by (simp add: verifySessionQuestionForBinding_def split: question_verdict.split)
  next
    case (Suc n)
    with Cons.prems have n: "n < length ps" by simp
    show ?thesis
    proof (cases "inspectSessionQuestionForBinding h ok resolve q b now")
      case Authorized
      with Suc p c n show ?thesis
        by (simp add: verifySessionQuestionForBinding_def Cons.IH Let_def case_prod_unfold s' ex
            del: All_less_Suc2) blast
    next
      case (Refused r)
      with Suc p c n show ?thesis
        by (simp add: verifySessionQuestionForBinding_def Cons.IH Let_def case_prod_unfold ex)
    qed
  qed
qed simp

end

interpretation in_memory: once_registry consume_in_memory "\<lambda>s i. i \<in> s"
  by unfold_locales (auto simp: consume_in_memory_def)

subsection \<open>Encodings are well formed and fix their fields\<close>

lemma wf_small [simp]:
  "wf_json (source_json s)" "wf_json (evidence_reference_json e)" "wf_json (skill_bundle_json b)"
  "wf_json (required_skill_json r)" "wf_json (command_ref_json c)" "wf_json (execution_json x)"
  by (simp_all add: source_json_def evidence_reference_json_def skill_bundle_json_def
      required_skill_json_def command_ref_json_def execution_json_def split: option.split)

lemma wf_maps [simp]:
  "list_all wf_json (map evidence_reference_json es)" "list_all wf_json (map required_skill_json rs)"
  "list_all wf_json (map command_ref_json cs)"
  by (simp_all add: list_all_iff)

lemma wf_authority_json [simp]: "wf_json (authority_json a)"
  by (cases "au_allowlistedDomains a") (simp_all add: authority_json_def)

lemma wf_acceptance_json [simp]: "wf_json (acceptance_json c)"
  by (cases "ac_externalEffectReceiptCommandId c") (simp_all add: acceptance_json_def)

lemma wf_budget_json [simp]: "wf_json (budget_json b)"
  by (cases "bu_maximumProviderCostCents b") (simp_all add: budget_json_def split: option.split)

lemma wf_state_envelope_json: "wf_state_envelope s \<Longrightarrow> wf_json (state_envelope_json s)"
  by (simp add: wf_state_envelope_def state_envelope_json_def)

lemma wf_action_json: "wf_action a \<Longrightarrow> wf_json (action_json a)"
  by (cases "ta_source a"; cases "ta_stateEnvelope a"; cases "ta_evidenceReferences a")
    (simp_all add: action_json_def wf_action_def wf_state_envelope_json)

lemma wf_receipt_json: "wf_json (dr_confidence r) \<Longrightarrow> wf_json (receipt_json r)"
  by (simp add: receipt_json_def)

lemma wf_unsigned_question: "wf_json (unsigned_question q)"
  by (simp add: unsigned_question_def party_fields_def)

lemma task_type_name_inj: "task_type_name s = task_type_name t \<longleftrightarrow> s = t"
  by (cases s; cases t) simp_all

text \<open>What one action text fixes: the identity of the task, its instructions and its authority.\<close>

definition same_action :: "task_action \<Rightarrow> task_action \<Rightarrow> bool" where
  "same_action a b =
     (ta_organizationId a = ta_organizationId b \<and> ta_taskId a = ta_taskId b
      \<and> ta_actionId a = ta_actionId b \<and> ta_targetEndpointId a = ta_targetEndpointId b
      \<and> ta_workspaceId a = ta_workspaceId b \<and> ta_taskType a = ta_taskType b
      \<and> ta_instructions a = ta_instructions b \<and> ta_expiresAt a = ta_expiresAt b
      \<and> au_readPaths (ta_authority a) = au_readPaths (ta_authority b)
      \<and> au_writePaths (ta_authority a) = au_writePaths (ta_authority b)
      \<and> au_network (ta_authority a) = au_network (ta_authority b)
      \<and> meaning (action_json a) = meaning (action_json b))"

lemma authority_fields:
  assumes "meaning (authority_json a) = meaning (authority_json b)"
  shows "au_readPaths a = au_readPaths b" "au_writePaths a = au_writePaths b" "au_network a = au_network b"
  using meaning_field [OF assms [unfolded authority_json_def], of "''readPaths''"]
    meaning_field [OF assms [unfolded authority_json_def], of "''writePaths''"]
    meaning_field [OF assms [unfolded authority_json_def], of "''network''"]
  by (simp_all add: meaning_str_array)

lemma meaning_action:
  assumes eq: "meaning (action_json a) = meaning (action_json b)"
  shows "same_action a b"
proof -
  note field = meaning_field [OF eq [unfolded action_json_def]]
  have "meaning (authority_json (ta_authority a)) = meaning (authority_json (ta_authority b))"
    using field [of "''authority''"] by simp
  from authority_fields [OF this] show ?thesis
    unfolding same_action_def
    using field [of "''organizationId''"] field [of "''taskId''"] field [of "''actionId''"]
      field [of "''targetEndpointId''"] field [of "''workspaceId''"] field [of "''taskType''"]
      field [of "''instructions''"] field [of "''expiresAt''"] eq
    by (simp add: task_type_name_inj)
qed

text \<open>A pair of different texts with the same digest.\<close>

definition sha256_collision :: "'key host \<Rightarrow> json \<Rightarrow> json \<Rightarrow> bool" where
  "sha256_collision h v w =
     (canonicalize (collation h) v \<noteq> canonicalize (collation h) w
      \<and> sha256Hex h (canonicalize (collation h) v) = sha256Hex h (canonicalize (collation h) w))"

lemma objectDigest_eq:
  assumes "key_order (collation h)" "wf_json v" "wf_json w" "objectDigest h v = objectDigest h w"
  shows "meaning v = meaning w \<or> sha256_collision h v w"
  using assms canonical_text_iff [OF assms(1-3)]
  by (auto simp: objectDigest_def sha256_collision_def)

lemma decision_ok_iff:
  "verifyActionDecisionReceipt h actionOk receiptOk e a resolve now = DecisionOk \<longleftrightarrow>
     (let r = de_receipt e; i = dateParse h (dr_issuedAt r); x = dateParse h (dr_expiresAt r) in
      actionOk a \<and> receiptOk r
      \<and> \<not> num_le x i \<and> \<not> num_lt (Some ACTION_DECISION_RECEIPT_MAX_LIFETIME_MS) (num_sub x i)
      \<and> \<not> num_lt (dateParse h (ta_expiresAt a)) x \<and> \<not> num_le x now
      \<and> \<not> num_lt (num_add now (Some (5 * 60000))) i
      \<and> receipt_bound e a
      \<and> dr_actionDigest r = objectDigest h (action_json a) \<and> de_actionDigest e = objectDigest h (action_json a)
      \<and> (\<exists>key. resolve (dr_keyVersion r) = Some key
            \<and> verifyCanonicalObject h (receipt_json r) (de_signature e) key))"
  unfolding verifyActionDecisionReceipt_def actionDecisionDigest_def Let_def
  by (auto split: if_splits option.splits)

subsection \<open>Properties of decision receipts\<close>

text \<open>
  C3. One decision releases one action.  If a decision envelope is accepted for an action and,
  at any other time, for another action, then both actions have the same identity, instructions,
  paths, network authority and canonical meaning; the only other possibility is an explicit
  SHA-256 collision between the two canonical texts.
\<close>

theorem one_decision_one_action:
  assumes order: "key_order (collation h)" and wf: "wf_action a" "wf_action b"
    and accepted: "verifyActionDecisionReceipt h actionOk receiptOk e a resolve now = DecisionOk"
      "verifyActionDecisionReceipt h actionOk receiptOk e b resolve later = DecisionOk"
  shows "same_action a b \<or> sha256_collision h (action_json a) (action_json b)"
proof -
  have "objectDigest h (action_json a) = objectDigest h (action_json b)"
    using accepted by (simp add: decision_ok_iff Let_def)
  with objectDigest_eq [OF order wf_action_json [OF wf(1)] wf_action_json [OF wf(2)]] meaning_action
  show ?thesis by blast
qed

text \<open>
  A decision is acceptable for at most 35 minutes.  When the issue and expiry times of a
  receipt parse, every time at which it is accepted, for whatever action, lies at most five
  minutes before its issue and strictly before its expiry, and the expiry is at most thirty
  minutes after the issue; so any two acceptances are less than 35 minutes apart.
\<close>

theorem decision_acceptance_window:
  assumes issued: "dateParse h (dr_issuedAt (de_receipt e)) = Some i"
    and expires: "dateParse h (dr_expiresAt (de_receipt e)) = Some x"
    and accepted: "verifyActionDecisionReceipt h actionOk receiptOk e a resolve (Some n) = DecisionOk"
      "verifyActionDecisionReceipt h actionOk receiptOk e b resolve (Some m) = DecisionOk"
  shows "i - 5 * 60000 \<le> n \<and> n < x \<and> x - i \<le> ACTION_DECISION_RECEIPT_MAX_LIFETIME_MS
    \<and> \<bar>n - m\<bar> < 35 * 60000"
proof -
  have "i - 300000 \<le> n" "i - 300000 \<le> m" "n < x" "m < x" "x - i \<le> 1800000"
    using assms by (simp_all add: decision_ok_iff Let_def ACTION_DECISION_RECEIPT_MAX_LIFETIME_MS_def)
  then show ?thesis by (simp add: ACTION_DECISION_RECEIPT_MAX_LIFETIME_MS_def)
qed

text \<open>
  Only parseable timestamps expire.  The verifier compares times without a finiteness test:
  a receipt whose expiry does not parse (a text the schema accepts and \<open>Date.parse\<close> turns into
  NaN), once accepted, stays accepted at every later time.
\<close>

theorem unparseable_expiry_never_expires:
  assumes "dateParse h (dr_expiresAt (de_receipt e)) = None"
    and "verifyActionDecisionReceipt h actionOk receiptOk e a resolve (Some n) = DecisionOk"
    and "n \<le> later"
  shows "verifyActionDecisionReceipt h actionOk receiptOk e a resolve (Some later) = DecisionOk"
  using assms
  by (cases "dateParse h (dr_issuedAt (de_receipt e))") (simp_all add: decision_ok_iff Let_def)

text \<open>
  Presentations of session questions.  In any sequence of presentations to the bound session
  the verdict of the \<open>i\<close>-th is that of the inspection when the inspection refuses it, and else
  it is authorised exactly when its identifier was not consumed at the start and no earlier
  presentation with the same identifier passed the inspection: a question runs at most once, and
  a presentation that is refused does not use the identifier up.
\<close>

theorem question_presentations:
  assumes "i < length ps"
  shows "present_questions h ok resolve consume_in_memory s ps ! i =
     (let inspect = (\<lambda>(q, b, now). inspectSessionQuestionForBinding h ok resolve q b now);
          ident = (\<lambda>(q, b, now). sq_questionId q) in
      if inspect (ps ! i) \<noteq> Authorized then inspect (ps ! i)
      else if ident (ps ! i) \<in> s
         \<or> (\<exists>j < i. ident (ps ! j) = ident (ps ! i) \<and> inspect (ps ! j) = Authorized)
      then Refused Replayed else Authorized)"
  using assms by (rule in_memory.present_nth)

text \<open>
  A question that runs is inside its binding.  An authorised question names the binding's
  organization, repository, party, provider and identifier, asks for no more than the binding's
  budget, and is presented after its creation, before its own expiry and before the binding's,
  all of it under a signature by the key of its version; its lifetime is at most an hour.
\<close>

theorem authorised_question_in_scope:
  assumes authorised: "fst (verifySessionQuestionForBinding h ok resolve consume s q b (Some n)) = Authorized"
    and times: "dateParse h (sq_createdAt q) = Some c" "dateParse h (sq_expiresAt q) = Some x"
  shows "in_binding_scope q b \<and> c \<le> n \<and> n < x \<and> x - c \<le> 60 * 60 * 1000
    \<and> (\<exists>y. dateParse h (bs_expiresAt b) = Some y \<and> x \<le> y)
    \<and> (\<exists>m. bs_maximumProviderCostCents b = Some m \<and> 0 \<le> m \<and> sq_maximumProviderCostCents q \<le> m)
    \<and> (\<exists>key. resolve (sq_signerKeyVersion q) = Some key
         \<and> verifyCanonicalObject h (unsigned_question q) (sq_signature q) key)"
proof -
  have "inspectSessionQuestionForBinding h ok resolve q b (Some n) = Authorized"
    using authorised
    by (cases "inspectSessionQuestionForBinding h ok resolve q b (Some n)")
      (simp_all add: verifySessionQuestionForBinding_def)
  with times show ?thesis
    unfolding inspectSessionQuestionForBinding_def
    by (auto simp: Let_def is_finite_iff split: if_splits option.splits)
qed

text \<open>
  Signing and verifying an envelope.  With a signature scheme whose verifier accepts what
  its signer produced, an envelope signed by a device is accepted exactly while it has not
  expired and was not sent more than five minutes in the future; and the signature covers every
  field: an envelope that differs in a payload value or any other field signs another text.
\<close>

theorem envelope_sign_verify:
  assumes scheme: "\<And>text. edVerify h key text (edSign text)"
    and order: "key_order (collation h)" "wf_json (JObj (en_payload e))" "wf_json (JObj (en_payload e'))"
  shows "(verifyEnvelope h (signEnvelope h edSign e) key now = EnvelopeOk \<longleftrightarrow>
       \<not> num_le (dateParse h (en_expiresAt e)) now
       \<and> \<not> num_lt (num_add now (Some (5 * 60000))) (dateParse h (en_sentAt e)))
    \<and> (envelopeSigningPayload h e = envelopeSigningPayload h e' \<longrightarrow>
         en_messageId e = en_messageId e' \<and> en_organizationId e = en_organizationId e'
         \<and> en_deviceId e = en_deviceId e' \<and> en_sessionId e = en_sessionId e'
         \<and> en_sentAt e = en_sentAt e' \<and> en_expiresAt e = en_expiresAt e'
         \<and> en_sequence e = en_sequence e' \<and> en_nonce e = en_nonce e' \<and> en_type e = en_type e'
         \<and> meaning (JObj (en_payload e)) = meaning (JObj (en_payload e')))"
proof
  have "unsigned_envelope (e\<lparr>en_signature := s\<rparr>) = unsigned_envelope e" for s
    by (simp add: unsigned_envelope_def)
  then show "verifyEnvelope h (signEnvelope h edSign e) key now = EnvelopeOk \<longleftrightarrow>
       \<not> num_le (dateParse h (en_expiresAt e)) now
       \<and> \<not> num_lt (num_add now (Some (5 * 60000))) (dateParse h (en_sentAt e))"
    using scheme by (simp add: verifyEnvelope_def signEnvelope_def envelopeSigningPayload_def Let_def)
  have wf: "wf_json (unsigned_envelope e)" "wf_json (unsigned_envelope e')"
    using order by (simp_all add: unsigned_envelope_def)
  {
    assume "envelopeSigningPayload h e = envelopeSigningPayload h e'"
    then have "meaning (unsigned_envelope e) = meaning (unsigned_envelope e')"
      using canonical_text_iff [OF order(1) wf] by (simp add: envelopeSigningPayload_def)
    note field = meaning_field [OF this [unfolded unsigned_envelope_def]]
    have "en_messageId e = en_messageId e' \<and> en_organizationId e = en_organizationId e'
         \<and> en_deviceId e = en_deviceId e' \<and> en_sessionId e = en_sessionId e'
         \<and> en_sentAt e = en_sentAt e' \<and> en_expiresAt e = en_expiresAt e'
         \<and> en_sequence e = en_sequence e' \<and> en_nonce e = en_nonce e' \<and> en_type e = en_type e'
         \<and> meaning (JObj (en_payload e)) = meaning (JObj (en_payload e'))"
      using field [of "''messageId''"] field [of "''organizationId''"] field [of "''deviceId''"]
        field [of "''sessionId''"] field [of "''sentAt''"] field [of "''expiresAt''"]
        field [of "''sequence''"] field [of "''nonce''"] field [of "''type''"] field [of "''payload''"]
      by simp
  }
  then show "envelopeSigningPayload h e = envelopeSigningPayload h e' \<longrightarrow>
         en_messageId e = en_messageId e' \<and> en_organizationId e = en_organizationId e'
         \<and> en_deviceId e = en_deviceId e' \<and> en_sessionId e = en_sessionId e'
         \<and> en_sentAt e = en_sentAt e' \<and> en_expiresAt e = en_expiresAt e'
         \<and> en_sequence e = en_sequence e' \<and> en_nonce e = en_nonce e' \<and> en_type e = en_type e'
         \<and> meaning (JObj (en_payload e)) = meaning (JObj (en_payload e'))" by blast
qed

subsection \<open>Closed instances\<close>

definition demo_action :: "(string \<times> json) list \<Rightarrow> task_action" where
  "demo_action known = \<lparr>ta_organizationId = ''o'', ta_actionId = ''a'', ta_taskId = ''t'',
     ta_targetEndpointId = ''e'', ta_workspaceId = ''w'', ta_taskType = A2aHandoff,
     ta_instructions = ''do'', ta_source = None,
     ta_stateEnvelope = Some \<lparr>se_intent = [], se_evidence_used = [], se_known_state = known,
       se_unknown_or_missing_state = [], se_allowed_next_actions = [], se_blocked_actions = [],
       se_decision_authority = [], se_tool_results = []\<rparr>,
     ta_evidenceReferences = None, ta_skillBundle = None, ta_requiredSkills = [],
     ta_authority = \<lparr>au_readPaths = [''.''], au_writePaths = [], au_commands = [], au_network = ''deny'',
       au_git = ''task_branch'', au_allowlistedDomains = None\<rparr>,
     ta_execution = \<lparr>ex_isolation = ''git_worktree'', ex_timeoutSeconds = 60, ex_leaseSeconds = 60,
       ex_maximumConcurrentAgents = 1\<rparr>,
     ta_acceptance = \<lparr>ac_commands = [], ac_requiredArtifacts = [], ac_externalEffectReceiptCommandId = None\<rparr>,
     ta_budget = \<lparr>bu_mode = ''byok_local'', bu_maximumDharmaCostCents = 0, bu_maximumProviderCostCents = None\<rparr>,
     ta_expiresAt = ''9000000''\<rparr>"

definition demo_receipt :: "string \<Rightarrow> string \<Rightarrow> decision_receipt" where
  "demo_receipt digest till = \<lparr>dr_decisionId = ''d'', dr_organizationId = ''o'', dr_actionId = ''a'',
     dr_taskId = ''t'', dr_targetEndpointId = ''e'', dr_workspaceId = ''w'', dr_evaluationContractId = ''c'',
     dr_evaluationContractVersion = 1, dr_actionDigest = digest, dr_stateEnvelopeHash = [],
     dr_evidenceReferences = [], dr_outcome = Release, dr_reasonCodes = [], dr_confidence = JNum 1,
     dr_evaluator_provider = [], dr_evaluator_model = [], dr_evaluator_configDigest = [],
     dr_nonce = ''n'', dr_issuedAt = ''1000'', dr_expiresAt = till, dr_keyVersion = ''k''\<rparr>"

definition demo_decision :: "task_action \<Rightarrow> string \<Rightarrow> decision_envelope" where
  "demo_decision a till = (let r = demo_receipt (objectDigest demo_host (action_json a)) till in
     \<lparr>de_id = ''d'', de_actionDigest = dr_actionDigest r, de_receipt = r,
       de_signature = ''k'' @ canonicalize code_unit_le (receipt_json r), de_keyVersion = ''k''\<rparr>)"

lemma demo_action_fields [simp]:
  "ta_organizationId (demo_action s) = ''o''" "ta_taskId (demo_action s) = ''t''" "ta_actionId (demo_action s) = ''a''"
  "ta_targetEndpointId (demo_action s) = ''e''" "ta_workspaceId (demo_action s) = ''w''"
  "ta_expiresAt (demo_action s) = ''9000000''"
  by (simp_all add: demo_action_def)

lemma demo_times [simp]:
  "demo_parse ''1000'' = Some 1000" "demo_parse ''600000'' = Some 600000"
  "demo_parse ''9000000'' = Some 9000000" "demo_parse ''soon'' = None"
  by (simp_all add: demo_parse_def is_digit_def decimal_value_def)

lemma demo_decision_accepted:
  assumes "objectDigest demo_host (action_json a) = objectDigest demo_host (action_json (demo_action s))"
    and "a = demo_action s'" "till = ''600000'' \<or> till = ''soon''" "1000 \<le> n" "n < 600000"
  shows "verifyActionDecisionReceipt demo_host (\<lambda>_. True) (\<lambda>_. True) (demo_decision (demo_action s) till) a Some (Some n)
     = DecisionOk"
  using assms
  by (auto simp: decision_ok_iff demo_decision_def demo_receipt_def Let_def receipt_bound_def
      verifyCanonicalObject_def ACTION_DECISION_RECEIPT_MAX_LIFETIME_MS_def)

lemma demo_state_order:
  "meaning (action_json (demo_action [(''x'', JNull), (''y'', JNum 1)]))
     = meaning (action_json (demo_action [(''y'', JNum 1), (''x'', JNull)]))"
  by (simp add: action_json_def demo_action_def state_envelope_json_def fun_upd_twist)

lemma demo_wf_action [simp]: "wf_action (demo_action s) \<longleftrightarrow> wf_json (JObj s)"
  by (simp add: wf_action_def demo_action_def wf_state_envelope_def)

theorem one_decision_one_action_witness:
  "same_action (demo_action [(''x'', JNull), (''y'', JNum 1)]) (demo_action [(''y'', JNum 1), (''x'', JNull)])"
proof -
  let ?a = "demo_action [(''x'', JNull), (''y'', JNum 1)]" and ?b = "demo_action [(''y'', JNum 1), (''x'', JNull)]"
  have wf: "wf_action ?a" "wf_action ?b" by simp_all
  have texts: "canonicalize (collation demo_host) (action_json ?a) = canonicalize (collation demo_host) (action_json ?b)"
    using canonical_text_iff [OF demo_host_key_order wf_action_json [OF wf(1)] wf_action_json [OF wf(2)]]
      demo_state_order by blast
  then have digest: "objectDigest demo_host (action_json ?b) = objectDigest demo_host (action_json ?a)"
    by (simp add: objectDigest_def)
  have "verifyActionDecisionReceipt demo_host (\<lambda>_. True) (\<lambda>_. True) (demo_decision ?a ''600000'') ?a Some (Some 1000) = DecisionOk"
    "verifyActionDecisionReceipt demo_host (\<lambda>_. True) (\<lambda>_. True) (demo_decision ?a ''600000'') ?b Some (Some 2000) = DecisionOk"
    by (rule demo_decision_accepted; simp add: digest)+
  from one_decision_one_action [OF demo_host_key_order wf this] texts show ?thesis
    by (simp add: sha256_collision_def)
qed

theorem decision_acceptance_window_witness:
  "\<bar>(2000 :: int) - 300000\<bar> < 35 * 60000"
proof -
  have "verifyActionDecisionReceipt demo_host (\<lambda>_. True) (\<lambda>_. True) (demo_decision (demo_action []) ''600000'')
      (demo_action []) Some (Some n) = DecisionOk" if "1000 \<le> n" "n < 600000" for n
    by (rule demo_decision_accepted) (simp_all add: that)
  from decision_acceptance_window [OF _ _ this this, of 1000 600000 2000 300000] show ?thesis
    by (simp add: demo_decision_def demo_receipt_def Let_def)
qed

theorem unparseable_expiry_never_expires_witness:
  "verifyActionDecisionReceipt demo_host (\<lambda>_. True) (\<lambda>_. True) (demo_decision (demo_action []) ''soon'')
     (demo_action []) Some (Some 999999999999) = DecisionOk"
proof -
  have "verifyActionDecisionReceipt demo_host (\<lambda>_. True) (\<lambda>_. True) (demo_decision (demo_action []) ''soon'')
      (demo_action []) Some (Some 2000) = DecisionOk"
    by (rule demo_decision_accepted) simp_all
  from unparseable_expiry_never_expires [OF _ this, of 999999999999] show ?thesis
    by (simp add: demo_decision_def demo_receipt_def Let_def)
qed

definition demo_binding :: binding_scope where
  "demo_binding = \<lparr>bs_organizationId = ''o'', bs_repositoryBindingId = ''r'',
     bs_party = \<lparr>pt_workspaceId = ''w'', pt_endpointId = ''e'', pt_membershipId = ''m'', pt_deviceId = ''d''\<rparr>,
     bs_bindingId = ''b'', bs_provider = Codex, bs_expiresAt = ''9000000'', bs_maximumProviderCostCents = Some 10\<rparr>"

definition demo_question :: "string \<Rightarrow> session_question" where
  "demo_question i = (let q = \<lparr>sq_questionId = i, sq_taskId = ''t'', sq_organizationId = ''o'',
     sq_repositoryBindingId = ''r'', sq_source = bs_party demo_binding,
     sq_target = \<lparr>qt_party = bs_party demo_binding, qt_bindingId = ''b'', qt_provider = Codex\<rparr>,
     sq_category = ''c'', sq_question = ''?'', sq_maximumProviderCostCents = 5, sq_createdAt = ''1000'',
     sq_expiresAt = ''600000'', sq_nonce = ''n'', sq_signerKeyVersion = ''k'', sq_signature = []\<rparr>
     in q\<lparr>sq_signature := ''k'' @ canonicalize code_unit_le (unsigned_question q)\<rparr>)"

lemma demo_question_inspect:
  "1000 \<le> n \<Longrightarrow> n < 600000 \<Longrightarrow>
     inspectSessionQuestionForBinding demo_host (\<lambda>_. True) Some (demo_question i) demo_binding (Some n) = Authorized"
  by (simp add: inspectSessionQuestionForBinding_def demo_question_def demo_binding_def in_binding_scope_def
      Let_def verifyCanonicalObject_def unsigned_question_def)

lemma demo_question_id [simp]: "sq_questionId (demo_question i) = i"
  by (simp add: demo_question_def Let_def)

theorem question_presentations_witness:
  "present_questions demo_host (\<lambda>_. True) Some consume_in_memory {}
     [(demo_question ''q'', demo_binding, Some 2000), (demo_question ''q'', demo_binding, Some 3000)] ! 1
   = Refused Replayed"
  by (subst question_presentations) (auto simp: Let_def demo_question_inspect intro!: exI [of _ 0])

theorem authorised_question_in_scope_witness:
  "in_binding_scope (demo_question ''q'') demo_binding"
proof -
  have "fst (verifySessionQuestionForBinding demo_host (\<lambda>_. True) Some consume_in_memory {} (demo_question ''q'')
      demo_binding (Some 2000)) = Authorized"
    by (simp add: verifySessionQuestionForBinding_def demo_question_inspect consume_in_memory_def)
  from authorised_question_in_scope [OF this, of 1000 600000] show ?thesis
    by (simp add: demo_question_def Let_def)
qed

definition demo_envelope :: envelope where
  "demo_envelope = \<lparr>en_messageId = ''m'', en_organizationId = ''o'', en_deviceId = ''d'', en_sessionId = ''s'',
     en_sentAt = ''1000'', en_expiresAt = ''600000'', en_sequence = 1, en_nonce = ''n'', en_type = ''t'',
     en_payload = [], en_signature = []\<rparr>"

theorem envelope_sign_verify_witness:
  "verifyEnvelope demo_host (signEnvelope demo_host (\<lambda>text. ''k'' @ text) demo_envelope) ''k'' (Some 2000) = EnvelopeOk"
  using envelope_sign_verify [of demo_host "''k''" "\<lambda>text. ''k'' @ text" demo_envelope demo_envelope "Some 2000"]
  by (simp add: demo_envelope_def code_units.key_order_axioms)
end
