(* ===== verification/Trust_Keyset.thy ===== *)
theory Trust_Keyset
  imports Host
begin

text \<open>
  The server signing keyset of packages/contracts/src/index.ts: the time check, the verification
  of an initial keyset against the pinned root, the verification of an update against the
  current keyset, and the resolver of action-decision keys.  The JSON schema validator is the
  parameter \<open>schemaOk\<close>.
\<close>

datatype key_status = ActiveKey | OverlapKey

record signing_key =
  k_keyVersion :: string
  k_publicKeyEd25519 :: string
  k_status :: key_status
  k_notBefore :: string
  k_notAfter :: string

record keyset =
  ks_organizationId :: string
  ks_generation :: int
  ks_keys :: "signing_key list"
  ks_signedByKeyVersion :: string
  ks_issuedAt :: string
  ks_expiresAt :: string
  ks_signature :: string

datatype keyset_time_error =
    InvalidLifetime | NotYetValid | Expired | DuplicateKeyVersion | InvalidKeyLifetime | NoActiveKey

datatype keyset_reason =
    SchemaInvalid | OrganizationMismatch | GenerationNotAdvanced
  | TimeFailure keyset_time_error | CurrentTimeFailure keyset_time_error
  | UntrustedInitialSigner | UntrustedUpdateSigner | RotationOverlapMissing | BadSignature

text \<open>The verifiers return a verdict; \<open>KeyImportThrows\<close> is the exception of an uncaught
  \<open>createPublicKey\<close>.\<close>

datatype keyset_verdict = KeysetOk | KeysetRejected keyset_reason | KeyImportThrows

definition SERVER_SIGNING_KEYSET_MAX_LIFETIME_MS :: int where
  "SERVER_SIGNING_KEYSET_MAX_LIFETIME_MS = 30 * 24 * 60 * 60000"

definition SERVER_SIGNING_KEY_OVERLAP_MS :: int where
  "SERVER_SIGNING_KEY_OVERLAP_MS = 10 * 60000"

definition key_json :: "signing_key \<Rightarrow> json" where
  "key_json k = JObj
     [(''keyVersion'', JStr (k_keyVersion k)),
      (''publicKeyEd25519'', JStr (k_publicKeyEd25519 k)),
      (''status'', JStr (case k_status k of ActiveKey \<Rightarrow> ''active'' | OverlapKey \<Rightarrow> ''overlap'')),
      (''notBefore'', JStr (k_notBefore k)),
      (''notAfter'', JStr (k_notAfter k))]"

definition unsignedServerSigningKeyset :: "keyset \<Rightarrow> json" where
  "unsignedServerSigningKeyset ks = JObj
     [(''schema'', JStr ''dharma.server-signing-keyset/v1''),
      (''organizationId'', JStr (ks_organizationId ks)),
      (''generation'', JNum (ks_generation ks)),
      (''keys'', JArr (map key_json (ks_keys ks))),
      (''signedByKeyVersion'', JStr (ks_signedByKeyVersion ks)),
      (''issuedAt'', JStr (ks_issuedAt ks)),
      (''expiresAt'', JStr (ks_expiresAt ks))]"

definition key_in_window :: "'key host \<Rightarrow> jsnum \<Rightarrow> signing_key \<Rightarrow> bool" where
  "key_in_window h now k =
     (num_le (dateParse h (k_notBefore k)) now \<and> num_lt now (dateParse h (k_notAfter k)))"

text \<open>The loop over the keys: the set of versions seen so far is the accumulator.\<close>

fun keyset_keys_failure ::
  "'key host \<Rightarrow> string list \<Rightarrow> signing_key list \<Rightarrow> keyset_time_error option" where
  "keyset_keys_failure h versions [] = None"
| "keyset_keys_failure h versions (k # ks) =
     (if k_keyVersion k \<in> set versions then Some DuplicateKeyVersion
      else let notBefore = dateParse h (k_notBefore k); notAfter = dateParse h (k_notAfter k)
       in if \<not> is_finite notBefore \<or> \<not> is_finite notAfter \<or> num_le notAfter notBefore
          then Some InvalidKeyLifetime
          else keyset_keys_failure h (k_keyVersion k # versions) ks)"

definition keysetTimeFailure :: "'key host \<Rightarrow> keyset \<Rightarrow> jsnum \<Rightarrow> keyset_time_error option" where
  "keysetTimeFailure h ks now =
     (let issuedAt = dateParse h (ks_issuedAt ks); expiresAt = dateParse h (ks_expiresAt ks) in
      if \<not> is_finite issuedAt \<or> \<not> is_finite expiresAt \<or> num_le expiresAt issuedAt
         \<or> num_lt (Some SERVER_SIGNING_KEYSET_MAX_LIFETIME_MS) (num_sub expiresAt issuedAt)
      then Some InvalidLifetime
      else if num_lt (num_add now (Some (5 * 60000))) issuedAt then Some NotYetValid
      else if num_le expiresAt now then Some Expired
      else case keyset_keys_failure h [] (ks_keys ks) of
        Some e \<Rightarrow> Some e
      | None \<Rightarrow>
          if \<not> (\<exists>k \<in> set (ks_keys ks). k_status k = ActiveKey \<and> key_in_window h now k)
          then Some NoActiveKey else None)"

definition verifyInitialServerSigningKeyset ::
  "'key host \<Rightarrow> (keyset \<Rightarrow> bool) \<Rightarrow> keyset \<Rightarrow> 'key \<Rightarrow> string \<Rightarrow> jsnum \<Rightarrow> keyset_verdict" where
  "verifyInitialServerSigningKeyset h schemaOk ks pinnedRoot organizationId now =
     (if \<not> schemaOk ks then KeysetRejected SchemaInvalid
      else if ks_organizationId ks \<noteq> organizationId then KeysetRejected OrganizationMismatch
      else case keysetTimeFailure h ks now of
        Some e \<Rightarrow> KeysetRejected (TimeFailure e)
      | None \<Rightarrow>
        (case List.find (\<lambda>k. k_keyVersion k = ks_signedByKeyVersion ks) (ks_keys ks) of
           None \<Rightarrow> KeysetRejected UntrustedInitialSigner
         | Some signer \<Rightarrow>
             if k_publicKeyEd25519 signer \<noteq> exportX h pinnedRoot
             then KeysetRejected UntrustedInitialSigner
             else if verifyCanonicalObject h (unsignedServerSigningKeyset ks) (ks_signature ks) pinnedRoot
             then KeysetOk
             else KeysetRejected BadSignature))"

definition retained_by :: "'key host \<Rightarrow> jsnum \<Rightarrow> signing_key \<Rightarrow> signing_key \<Rightarrow> bool" where
  "retained_by h now signer k =
     (k_keyVersion k = k_keyVersion signer
      \<and> k_publicKeyEd25519 k = k_publicKeyEd25519 signer
      \<and> k_notBefore k = k_notBefore signer
      \<and> num_le (dateParse h (k_notAfter k)) (dateParse h (k_notAfter signer))
      \<and> num_le (num_add now (Some SERVER_SIGNING_KEY_OVERLAP_MS)) (dateParse h (k_notAfter k)))"

definition verifyServerSigningKeysetUpdate ::
  "'key host \<Rightarrow> (keyset \<Rightarrow> bool) \<Rightarrow> keyset \<Rightarrow> keyset \<Rightarrow> jsnum \<Rightarrow> keyset_verdict" where
  "verifyServerSigningKeysetUpdate h schemaOk current candidate now =
     (if \<not> schemaOk current \<or> \<not> schemaOk candidate then KeysetRejected SchemaInvalid
      else if ks_organizationId candidate \<noteq> ks_organizationId current then KeysetRejected OrganizationMismatch
      else if ks_generation candidate \<le> ks_generation current then KeysetRejected GenerationNotAdvanced
      else case keysetTimeFailure h current now of
        Some e \<Rightarrow> KeysetRejected (CurrentTimeFailure e)
      | None \<Rightarrow>
      (case keysetTimeFailure h candidate now of
        Some e \<Rightarrow> KeysetRejected (TimeFailure e)
      | None \<Rightarrow>
      (case List.find (\<lambda>k. k_keyVersion k = ks_signedByKeyVersion candidate \<and> key_in_window h now k)
          (ks_keys current) of
        None \<Rightarrow> KeysetRejected UntrustedUpdateSigner
      | Some signer \<Rightarrow>
      (case List.find (retained_by h now signer) (ks_keys candidate) of
        None \<Rightarrow> KeysetRejected RotationOverlapMissing
      | Some _ \<Rightarrow>
      (case importKey h (k_publicKeyEd25519 signer) of
        None \<Rightarrow> KeyImportThrows
      | Some publicKey \<Rightarrow>
          if verifyCanonicalObject h (unsignedServerSigningKeyset candidate) (ks_signature candidate) publicKey
          then KeysetOk else KeysetRejected BadSignature)))))"

definition createActionDecisionPublicKeyResolver ::
  "'key host \<Rightarrow> (keyset \<Rightarrow> bool) \<Rightarrow> keyset \<Rightarrow> jsnum \<Rightarrow> string \<Rightarrow> 'key option" where
  "createActionDecisionPublicKeyResolver h schemaOk ks now keyVersion =
     (if \<not> schemaOk ks \<or> keysetTimeFailure h ks now \<noteq> None then None
      else case js_map_of (map (\<lambda>k. (k_keyVersion k, k_publicKeyEd25519 k))
                 (filter (key_in_window h now) (ks_keys ks))) keyVersion of
        None \<Rightarrow> None
      | Some x \<Rightarrow> if x = [] then None else importKey h x)"

subsection \<open>Facts about the time check\<close>

lemma keyset_keys_failure_None:
  "keyset_keys_failure h vs ks = None \<Longrightarrow>
     distinct (map k_keyVersion ks) \<and> set vs \<inter> k_keyVersion ` set ks = {}"
  by (induction h vs ks rule: keyset_keys_failure.induct) (auto simp: Let_def split: if_splits)

lemma keysetTimeFailure_None:
  assumes "keysetTimeFailure h ks (Some now) = None"
  shows "distinct (map k_keyVersion (ks_keys ks))"
    and "\<exists>e. dateParse h (ks_expiresAt ks) = Some e \<and> now < e"
    and "\<exists>k \<in> set (ks_keys ks). k_status k = ActiveKey \<and> key_in_window h (Some now) k"
proof -
  have "keyset_keys_failure h [] (ks_keys ks) = None"
    using assms by (auto simp: keysetTimeFailure_def Let_def split: if_splits option.splits)
  then show "distinct (map k_keyVersion (ks_keys ks))" by (blast dest: keyset_keys_failure_None)
  show "\<exists>e. dateParse h (ks_expiresAt ks) = Some e \<and> now < e"
    using assms
    by (auto simp: keysetTimeFailure_def Let_def is_finite_iff split: if_splits option.splits)
  show "\<exists>k \<in> set (ks_keys ks). k_status k = ActiveKey \<and> key_in_window h (Some now) k"
    using assms by (auto simp: keysetTimeFailure_def Let_def split: if_splits option.splits)
qed

subsection \<open>Facts about updates\<close>

lemma update_ok_iff:
  "verifyServerSigningKeysetUpdate h ok cur cand now = KeysetOk \<longleftrightarrow>
     ok cur \<and> ok cand \<and> ks_organizationId cand = ks_organizationId cur
     \<and> ks_generation cur < ks_generation cand
     \<and> keysetTimeFailure h cur now = None \<and> keysetTimeFailure h cand now = None
     \<and> (\<exists>signer kept key.
          List.find (\<lambda>k. k_keyVersion k = ks_signedByKeyVersion cand \<and> key_in_window h now k) (ks_keys cur)
            = Some signer
          \<and> List.find (retained_by h now signer) (ks_keys cand) = Some kept
          \<and> importKey h (k_publicKeyEd25519 signer) = Some key
          \<and> verifyCanonicalObject h (unsignedServerSigningKeyset cand) (ks_signature cand) key)"
  unfolding verifyServerSigningKeysetUpdate_def
  by (auto split: if_splits option.splits)

lemma initial_ok_iff:
  "verifyInitialServerSigningKeyset h ok ks root org now = KeysetOk \<longleftrightarrow>
     ok ks \<and> ks_organizationId ks = org \<and> keysetTimeFailure h ks now = None
     \<and> (\<exists>signer. List.find (\<lambda>k. k_keyVersion k = ks_signedByKeyVersion ks) (ks_keys ks) = Some signer
          \<and> k_publicKeyEd25519 signer = exportX h root)
     \<and> verifyCanonicalObject h (unsignedServerSigningKeyset ks) (ks_signature ks) root"
  unfolding verifyInitialServerSigningKeyset_def
  by (auto split: if_splits option.splits)

text \<open>One accepted update, at some time.\<close>

definition accepts_update :: "'key host \<Rightarrow> (keyset \<Rightarrow> bool) \<Rightarrow> keyset \<Rightarrow> keyset \<Rightarrow> bool" where
  "accepts_update h ok cur cand = (\<exists>now. verifyServerSigningKeysetUpdate h ok cur cand now = KeysetOk)"

lemma accepts_update_advances:
  "accepts_update h ok cur cand \<Longrightarrow>
     ks_generation cur < ks_generation cand \<and> ks_organizationId cand = ks_organizationId cur"
  by (auto simp: accepts_update_def update_ok_iff)

lemma update_chain_advances:
  "(accepts_update h ok)\<^sup>+\<^sup>+ a b \<Longrightarrow>
     ks_generation a < ks_generation b \<and> ks_organizationId b = ks_organizationId a"
  by (induction rule: tranclp_induct) (auto dest: accepts_update_advances)

text \<open>The keysets a device can come to trust from its pinned root key.\<close>

inductive trusted_keyset ::
  "'key host \<Rightarrow> (keyset \<Rightarrow> bool) \<Rightarrow> 'key \<Rightarrow> string \<Rightarrow> keyset \<Rightarrow> bool"
  for h ok root org where
  pinned: "verifyInitialServerSigningKeyset h ok ks root org now = KeysetOk \<Longrightarrow>
     trusted_keyset h ok root org ks"
| rotated: "trusted_keyset h ok root org cur \<Longrightarrow>
     verifyServerSigningKeysetUpdate h ok cur cand now = KeysetOk \<Longrightarrow>
     trusted_keyset h ok root org cand"

text \<open>The keys a trusted keyset can be signed with: the pinned root, or a key that an earlier
  trusted keyset of a lower generation lists under the signing version.\<close>

definition authorised_signer ::
  "'key host \<Rightarrow> (keyset \<Rightarrow> bool) \<Rightarrow> 'key \<Rightarrow> string \<Rightarrow> keyset \<Rightarrow> 'key \<Rightarrow> bool" where
  "authorised_signer h ok root org ks key =
     (key = root \<or>
      (\<exists>prev k. trusted_keyset h ok root org prev \<and> ks_generation prev < ks_generation ks
         \<and> k \<in> set (ks_keys prev) \<and> k_keyVersion k = ks_signedByKeyVersion ks
         \<and> importKey h (k_publicKeyEd25519 k) = Some key))"

text \<open>
  C2. Chain of trust and no rollback.  Every keyset a device comes to trust belongs to the
  organization it was pinned for and carries a signature, over its canonical unsigned text, by
  the pinned root or by a key listed in an earlier trusted keyset of a lower generation; and a
  keyset reached through accepted updates is never accepted as the predecessor's successor
  again: no sequence of updates leads back to an earlier keyset.
\<close>

theorem trusted_keyset_chain:
  assumes "trusted_keyset h ok root org ks"
  shows "ks_organizationId ks = org
    \<and> (\<exists>key. authorised_signer h ok root org ks key
         \<and> verifyCanonicalObject h (unsignedServerSigningKeyset ks) (ks_signature ks) key)
    \<and> (\<forall>later. (accepts_update h ok)\<^sup>+\<^sup>+ ks later \<longrightarrow>
         trusted_keyset h ok root org later \<and> ks_generation ks < ks_generation later
         \<and> \<not> (accepts_update h ok)\<^sup>*\<^sup>* later ks)"
proof (intro conjI allI impI)
  have "ks_organizationId ks = org \<and> (\<exists>key. authorised_signer h ok root org ks key
      \<and> verifyCanonicalObject h (unsignedServerSigningKeyset ks) (ks_signature ks) key)"
    using assms
  proof (induction rule: trusted_keyset.induct)
    case (pinned ks now)
    then show ?case by (auto simp: initial_ok_iff authorised_signer_def)
  next
    case (rotated cur cand now)
    then obtain signer key where found: "List.find (\<lambda>k. k_keyVersion k = ks_signedByKeyVersion cand
          \<and> key_in_window h now k) (ks_keys cur) = Some signer"
      and key: "importKey h (k_publicKeyEd25519 signer) = Some key"
      and sig: "verifyCanonicalObject h (unsignedServerSigningKeyset cand) (ks_signature cand) key"
      and gen: "ks_generation cur < ks_generation cand"
      and org': "ks_organizationId cand = ks_organizationId cur"
      by (auto simp: update_ok_iff)
    have "authorised_signer h ok root org cand key"
      unfolding authorised_signer_def using rotated.hyps(1) gen key find_SomeD [OF found] by blast
    with sig org' rotated.IH show ?case by auto
  qed
  then show "ks_organizationId ks = org"
    and "\<exists>key. authorised_signer h ok root org ks key
      \<and> verifyCanonicalObject h (unsignedServerSigningKeyset ks) (ks_signature ks) key" by auto
  fix later assume chain: "(accepts_update h ok)\<^sup>+\<^sup>+ ks later"
  then show "trusted_keyset h ok root org later"
    using assms by (induction rule: tranclp_induct) (auto simp: accepts_update_def intro: trusted_keyset.rotated)
  show gen: "ks_generation ks < ks_generation later"
    using update_chain_advances [OF chain] by simp
  show "\<not> (accepts_update h ok)\<^sup>*\<^sup>* later ks"
  proof
    assume "(accepts_update h ok)\<^sup>*\<^sup>* later ks"
    with gen update_chain_advances [of h ok later ks] show False by (auto dest: rtranclpD)
  qed
qed

lemma resolver_key:
  assumes ok: "ok ks" and time: "keysetTimeFailure h ks (Some t) = None"
    and k: "k \<in> set (ks_keys ks)" "key_in_window h (Some t) k" "k_publicKeyEd25519 k \<noteq> []"
  shows "createActionDecisionPublicKeyResolver h ok ks (Some t) (k_keyVersion k) = importKey h (k_publicKeyEd25519 k)"
proof -
  let ?kvs = "map (\<lambda>k. (k_keyVersion k, k_publicKeyEd25519 k)) (filter (key_in_window h (Some t)) (ks_keys ks))"
  have keys: "map fst ?kvs = map k_keyVersion (filter (key_in_window h (Some t)) (ks_keys ks))" by simp
  have "distinct (map fst ?kvs)"
    unfolding keys using keysetTimeFailure_None(1) [OF time] by (rule distinct_map_filter)
  moreover have "(k_keyVersion k, k_publicKeyEd25519 k) \<in> set ?kvs" using k by auto
  ultimately have "js_map_of ?kvs (k_keyVersion k) = Some (k_publicKeyEd25519 k)"
    by (rule js_map_of_distinct)
  with ok time k(3) show ?thesis by (simp add: createActionDecisionPublicKeyResolver_def)
qed

text \<open>
  A rotation never strands receipts in flight.  After an accepted update the key that signed
  it stays resolvable, to the same public key, for the whole overlap of ten minutes: at every
  time of the overlap at which the new keyset is itself in force, its resolver maps the old key
  version to the old key.
\<close>

theorem rotation_overlap:
  assumes accepted: "verifyServerSigningKeysetUpdate h ok cur cand (Some now) = KeysetOk"
    and time: "now \<le> t" "t < now + SERVER_SIGNING_KEY_OVERLAP_MS"
    and in_force: "keysetTimeFailure h cand (Some t) = None"
  shows "\<exists>signer \<in> set (ks_keys cur). k_keyVersion signer = ks_signedByKeyVersion cand
    \<and> (k_publicKeyEd25519 signer \<noteq> [] \<longrightarrow>
        createActionDecisionPublicKeyResolver h ok cand (Some t) (k_keyVersion signer)
          = importKey h (k_publicKeyEd25519 signer))"
proof -
  from accepted obtain signer kept where
    found: "List.find (\<lambda>k. k_keyVersion k = ks_signedByKeyVersion cand \<and> key_in_window h (Some now) k)
        (ks_keys cur) = Some signer"
    and kept: "List.find (retained_by h (Some now) signer) (ks_keys cand) = Some kept" and ok: "ok cand"
    by (auto simp: update_ok_iff)
  have signer: "signer \<in> set (ks_keys cur)" "k_keyVersion signer = ks_signedByKeyVersion cand"
    "key_in_window h (Some now) signer" using find_SomeD [OF found] by auto
  have k: "kept \<in> set (ks_keys cand)" "retained_by h (Some now) signer kept"
    using find_SomeD [OF kept] by auto
  have "key_in_window h (Some t) kept"
    using k(2) signer(3) time
    by (cases "dateParse h (k_notAfter kept)"; cases "dateParse h (k_notBefore signer)")
      (auto simp: retained_by_def key_in_window_def)
  then show ?thesis
    using signer k resolver_key [of ok cand h t kept, OF ok in_force k(1)]
    by (intro bexI [of _ signer]) (auto simp: retained_by_def)
qed

text \<open>A rotation on the small host: generation 1 with key \<open>a\<close>, then generation 2, signed by \<open>a\<close>,
  with key \<open>a\<close> in overlap and key \<open>b\<close> active.\<close>

definition demo_key :: "string \<Rightarrow> key_status \<Rightarrow> string \<Rightarrow> signing_key" where
  "demo_key v st till = \<lparr>k_keyVersion = v, k_publicKeyEd25519 = v, k_status = st,
     k_notBefore = ''0'', k_notAfter = till\<rparr>"

definition sign_keyset :: "string \<Rightarrow> keyset \<Rightarrow> keyset" where
  "sign_keyset key ks =
     ks\<lparr>ks_signature := key @ canonicalize code_unit_le (unsignedServerSigningKeyset ks)\<rparr>"

definition demo_keyset1 :: keyset where
  "demo_keyset1 = sign_keyset ''a'' \<lparr>ks_organizationId = ''o'', ks_generation = 1,
     ks_keys = [demo_key ''a'' ActiveKey ''9000000''], ks_signedByKeyVersion = ''a'',
     ks_issuedAt = ''0'', ks_expiresAt = ''9000000'', ks_signature = []\<rparr>"

definition demo_keyset2 :: keyset where
  "demo_keyset2 = sign_keyset ''a'' \<lparr>ks_organizationId = ''o'', ks_generation = 2,
     ks_keys = [demo_key ''a'' OverlapKey ''8000000'', demo_key ''b'' ActiveKey ''9000000''],
     ks_signedByKeyVersion = ''a'', ks_issuedAt = ''1000'', ks_expiresAt = ''9000000'', ks_signature = []\<rparr>"

lemma unsigned_sign [simp]: "unsignedServerSigningKeyset (sign_keyset key ks) = unsignedServerSigningKeyset ks"
  by (simp add: sign_keyset_def unsignedServerSigningKeyset_def)

lemma sign_keyset_fields [simp]:
  "ks_organizationId (sign_keyset key ks) = ks_organizationId ks" "ks_generation (sign_keyset key ks) = ks_generation ks"
  "ks_keys (sign_keyset key ks) = ks_keys ks" "ks_issuedAt (sign_keyset key ks) = ks_issuedAt ks"
  "ks_signedByKeyVersion (sign_keyset key ks) = ks_signedByKeyVersion ks"
  "ks_expiresAt (sign_keyset key ks) = ks_expiresAt ks"
  by (simp_all add: sign_keyset_def)

lemma sign_keyset_verifies [simp]:
  "verifyCanonicalObject demo_host (unsignedServerSigningKeyset ks) (ks_signature (sign_keyset key ks)) key"
  by (simp add: verifyCanonicalObject_def sign_keyset_def)

lemma demo_parse_numerals [simp]:
  "demo_parse ''0'' = Some 0" "demo_parse ''1000'' = Some 1000"
  "demo_parse ''8000000'' = Some 8000000" "demo_parse ''9000000'' = Some 9000000"
  by (simp_all add: demo_parse_def is_digit_def decimal_value_def)

lemmas demo_keyset_defs = demo_keyset1_def demo_keyset2_def demo_key_def keysetTimeFailure_def Let_def
  key_in_window_def SERVER_SIGNING_KEYSET_MAX_LIFETIME_MS_def SERVER_SIGNING_KEY_OVERLAP_MS_def retained_by_def

lemma demo_initial_ok:
  "verifyInitialServerSigningKeyset demo_host (\<lambda>_. True) demo_keyset1 ''a'' ''o'' (Some 1000) = KeysetOk"
  by (simp add: initial_ok_iff demo_keyset_defs)

lemma demo_update_ok:
  "verifyServerSigningKeysetUpdate demo_host (\<lambda>_. True) demo_keyset1 demo_keyset2 (Some 1000) = KeysetOk"
  by (simp add: update_ok_iff demo_keyset_defs)

theorem trusted_keyset_chain_witness:
  "ks_organizationId demo_keyset2 = ''o'' \<and> trusted_keyset demo_host (\<lambda>_. True) ''a'' ''o'' demo_keyset2
    \<and> \<not> (accepts_update demo_host (\<lambda>_. True))\<^sup>*\<^sup>* demo_keyset2 demo_keyset1"
proof -
  have t1: "trusted_keyset demo_host (\<lambda>_. True) ''a'' ''o'' demo_keyset1"
    by (rule trusted_keyset.pinned [OF demo_initial_ok])
  have t2: "trusted_keyset demo_host (\<lambda>_. True) ''a'' ''o'' demo_keyset2"
    by (rule trusted_keyset.rotated [OF t1 demo_update_ok])
  have "accepts_update demo_host (\<lambda>_. True) demo_keyset1 demo_keyset2"
    unfolding accepts_update_def using demo_update_ok by blast
  then have "(accepts_update demo_host (\<lambda>_. True))\<^sup>+\<^sup>+ demo_keyset1 demo_keyset2" by (rule tranclp.r_into_trancl)
  with trusted_keyset_chain [OF t1] trusted_keyset_chain [OF t2] t2 show ?thesis by blast
qed

theorem rotation_overlap_witness:
  "createActionDecisionPublicKeyResolver demo_host (\<lambda>_. True) demo_keyset2 (Some 500000) ''a'' = Some ''a''"
proof -
  have "keysetTimeFailure demo_host demo_keyset2 (Some 500000) = None"
    by (simp add: demo_keyset_defs)
  from rotation_overlap [OF demo_update_ok _ _ this] show ?thesis
    by (auto simp: demo_keyset_defs)
qed

end
