(* ===== verification/Paths.thy ===== *)
theory Paths
  imports Fabric_Prelude "HOL-Library.Sublist"
begin

text \<open>
  The POSIX side of \<open>node:path\<close> (\<open>resolve\<close>, \<open>relative\<close>, \<open>isAbsolute\<close>) and the containment
  check \<open>assertPathWithinWorkspace\<close> of packages/policy/src/index.ts.  A path is a string; its
  segments are the parts between slashes.  The working directory is a parameter.  The main fact
  is that the textual test on the relative route is containment of the normalised segments.
\<close>

definition isAbsolute :: "string \<Rightarrow> bool" where
  "isAbsolute p = starts_with p ''/''"

text \<open>Empty and single-dot segments vanish, a double dot removes the last segment kept; the
  accumulator is the reversed result.\<close>

fun normalize_segments :: "string list \<Rightarrow> string list \<Rightarrow> string list" where
  "normalize_segments acc [] = rev acc"
| "normalize_segments acc (s # ss) =
     (if s = [] \<or> s = ''.'' then normalize_segments acc ss
      else if s = ''..'' then normalize_segments (tl acc) ss
      else normalize_segments (s # acc) ss)"

definition path_segments :: "string \<Rightarrow> string list" where
  "path_segments p = normalize_segments [] (split_on (CHR ''/'') p)"

definition path_of :: "string list \<Rightarrow> string" where
  "path_of ss = CHR ''/'' # join_with ''/'' ss"

definition resolve :: "string \<Rightarrow> string \<Rightarrow> string" where
  "resolve base p = path_of (path_segments (if isAbsolute p then p else base @ ''/'' @ p))"

fun strip_common :: "string list \<Rightarrow> string list \<Rightarrow> string list \<times> string list" where
  "strip_common (x # xs) (y # ys) = (if x = y then strip_common xs ys else (x # xs, y # ys))"
| "strip_common xs ys = (xs, ys)"

definition relative_route :: "string \<Rightarrow> string \<Rightarrow> string" where
  "relative_route a b =
     (case strip_common (path_segments a) (path_segments b) of
        (up, down) \<Rightarrow> join_with ''/'' (replicate (length up) ''..'' @ down))"

definition assertPathWithinWorkspace :: "string \<Rightarrow> string \<Rightarrow> string \<Rightarrow> (unit, string) result" where
  "assertPathWithinWorkspace cwd workspace candidate =
     (let root = resolve cwd workspace;
          absolute = resolve root candidate;
          route = relative_route root absolute
      in if route = ''..'' \<or> starts_with route ''../'' \<or> isAbsolute route then Inl () else Inr absolute)"

subsection \<open>Normalised segments\<close>

definition plain_segment :: "string \<Rightarrow> bool" where
  "plain_segment s = (s \<noteq> [] \<and> s \<noteq> ''.'' \<and> s \<noteq> ''..'' \<and> CHR ''/'' \<notin> set s)"

lemma normalize_plain:
  "list_all plain_segment acc \<Longrightarrow> \<forall>s \<in> set ss. CHR ''/'' \<notin> set s \<Longrightarrow>
     list_all plain_segment (normalize_segments acc ss)"
proof (induction acc ss rule: normalize_segments.induct)
  case (2 acc s ss)
  then show ?case by (cases acc) (simp_all add: plain_segment_def)
qed (simp add: list_all_iff)

lemma path_segments_plain: "list_all plain_segment (path_segments p)"
  unfolding path_segments_def by (rule normalize_plain) (simp_all add: split_on_parts)

lemma normalize_id: "list_all plain_segment ss \<Longrightarrow> normalize_segments acc ss = rev acc @ ss"
  by (induction ss arbitrary: acc) (auto simp: plain_segment_def)

lemma normalize_append:
  "normalize_segments acc (xs @ ys) = normalize_segments (rev (normalize_segments acc xs)) ys"
  by (induction acc xs rule: normalize_segments.induct) simp_all

lemma path_segments_path_of [simp]:
  "list_all plain_segment ss \<Longrightarrow> path_segments (path_of ss) = ss"
proof (cases "ss = []")
  case True
  then show ?thesis by (simp add: path_segments_def path_of_def)
next
  case False
  assume plain: "list_all plain_segment ss"
  then have "\<forall>s \<in> set ss. CHR ''/'' \<notin> set s" by (auto simp: list_all_iff plain_segment_def)
  with False have "split_on (CHR ''/'') (path_of ss) = [] # ss"
    by (simp add: path_of_def split_join)
  with plain show ?thesis by (simp add: path_segments_def normalize_id)
qed

lemma path_segments_resolve:
  "path_segments (resolve base p) = path_segments (if isAbsolute p then p else base @ ''/'' @ p)"
  by (simp add: resolve_def path_segments_plain)

lemma split_on_glue: "split_on c (p @ c # q) = split_on c p @ split_on c q"
  by (induction p) (auto split: list.splits)

lemma path_segments_join:
  "path_segments (base @ ''/'' @ p) = normalize_segments (rev (path_segments base)) (split_on (CHR ''/'') p)"
  by (simp add: path_segments_def split_on_glue normalize_append)

subsection \<open>Routes\<close>

lemma strip_common_split:
  "strip_common a b = (up, down) \<Longrightarrow> \<exists>c. a = c @ up \<and> b = c @ down \<and> (up = [] \<or> down = [] \<or> hd up \<noteq> hd down)"
proof (induction a b arbitrary: up down rule: strip_common.induct)
  case (1 x xs y ys)
  show ?case
  proof (cases "x = y")
    case True
    with 1 obtain c where "xs = c @ up" "ys = c @ down" "up = [] \<or> down = [] \<or> hd up \<noteq> hd down" by auto
    with True show ?thesis by (intro exI [of _ "x # c"]) simp
  qed (use 1 in auto)
qed auto

lemma strip_common_prefix: "fst (strip_common a b) = [] \<longleftrightarrow> prefix a b"
  by (induction a b rule: strip_common.induct) auto

lemma join_head:
  "join_with ''/'' (s # ss) = s \<or> (\<exists>t. join_with ''/'' (s # ss) = s @ CHR ''/'' # t)"
  by (cases ss) auto

text \<open>A route of plain segments neither is nor starts with a step upwards, and is not absolute.\<close>

lemma plain_route:
  assumes "list_all plain_segment ss"
  shows "join_with ''/'' ss \<noteq> ''..'' \<and> \<not> starts_with (join_with ''/'' ss) ''../'' \<and> \<not> isAbsolute (join_with ''/'' ss)"
proof (cases ss)
  case Nil
  then show ?thesis by (simp add: starts_with_def isAbsolute_def)
next
  case (Cons s rest)
  with assms have s: "s \<noteq> []" "s \<noteq> ''..''" "CHR ''/'' \<notin> set s" by (simp_all add: plain_segment_def)
  consider (single) "join_with ''/'' ss = s" | (more) t where "join_with ''/'' ss = s @ CHR ''/'' # t"
    using join_head [of s rest] Cons by auto
  then show ?thesis
  proof cases
    case single
    with s show ?thesis by (auto simp: starts_with_iff isAbsolute_def)
  next
    case more
    from s obtain c s' where sc: "s = c # s'" "c \<noteq> CHR ''/''" by (cases s) auto
    have "s = ''..''" if "s @ CHR ''/'' # t = ''../'' @ u" for u
    proof -
      from that s have "takeWhile (\<lambda>c. c \<noteq> CHR ''/'') (s @ CHR ''/'' # t) = ''..''" by simp
      moreover have "takeWhile (\<lambda>c. c \<noteq> CHR ''/'') (s @ CHR ''/'' # t) = s"
        using s(3) by (simp add: takeWhile_append2 takeWhile_tail)
          (metis (mono_tags, lifting) append.right_neutral takeWhile.simps(2) takeWhile_append2)
      ultimately show ?thesis by simp
    qed
    moreover have "s @ CHR ''/'' # t \<noteq> ''..''"
    proof
      assume "s @ CHR ''/'' # t = ''..''"
      then have "CHR ''/'' \<in> set ''..''" by (metis in_set_conv_decomp)
      then show False by simp
    qed
    ultimately show ?thesis using more s sc by (auto simp: starts_with_iff isAbsolute_def)
  qed
qed

lemma upward_route:
  "join_with ''/'' (''..'' # ss) = ''..'' \<or> starts_with (join_with ''/'' (''..'' # ss)) ''../''"
  by (cases ss) (auto simp: starts_with_iff)

lemma route_escapes_iff:
  "relative_route a b = ''..'' \<or> starts_with (relative_route a b) ''../'' \<or> isAbsolute (relative_route a b)
     \<longleftrightarrow> \<not> prefix (path_segments a) (path_segments b)"
proof -
  obtain up down where strip: "strip_common (path_segments a) (path_segments b) = (up, down)" by fastforce
  from strip_common_split [OF strip] obtain c where b: "path_segments b = c @ down" by auto
  have down: "list_all plain_segment down" using path_segments_plain [of b] b by simp
  have pre: "prefix (path_segments a) (path_segments b) \<longleftrightarrow> up = []"
    using strip_common_prefix [of "path_segments a" "path_segments b"] strip by simp
  show ?thesis
  proof (cases up)
    case Nil
    with strip plain_route [OF down] pre show ?thesis by (simp add: relative_route_def)
  next
    case (Cons u us)
    with strip upward_route [of "replicate (length us) ''..'' @ down"] pre show ?thesis
      by (auto simp: relative_route_def)
  qed
qed

lemma within_iff:
  "assertPathWithinWorkspace cwd w c = Inr p \<longleftrightarrow>
     p = resolve (resolve cwd w) c \<and> prefix (path_segments (resolve cwd w)) (path_segments p)"
  using route_escapes_iff [of "resolve cwd w" "resolve (resolve cwd w) c"]
  by (auto simp: assertPathWithinWorkspace_def Let_def)

text \<open>
  The textual containment check is segment containment.  Whatever the workspace, the
  candidate and the working directory, \<open>assertPathWithinWorkspace\<close> returns the resolved candidate
  when the segments of the resolved workspace are a prefix of its segments, and throws otherwise;
  a returned path has no empty, \<open>.\<close> or \<open>..\<close> segment, so a candidate cannot climb out by \<open>..\<close>
  steps, by an absolute path, or by a sibling directory whose name extends the workspace's.
\<close>

theorem assertPathWithinWorkspace_contains:
  "assertPathWithinWorkspace cwd workspace candidate =
     (let root = resolve cwd workspace; absolute = resolve root candidate in
      if prefix (path_segments root) (path_segments absolute) then Inr absolute else Inl ())
   \<and> list_all plain_segment (path_segments (resolve (resolve cwd workspace) candidate))"
  using route_escapes_iff [of "resolve cwd workspace" "resolve (resolve cwd workspace) candidate"]
  by (auto simp: assertPathWithinWorkspace_def Let_def path_segments_plain)

end
