(* ===== verification/Receipts.thy ===== *)
theory Receipts
  imports Decisions Paths
begin

text \<open>
  Task receipts of packages/task-runner/src/index.ts: command results, external-effect receipts,
  their validation, the blanking of outputs before durable storage, the receipt store and the
  parser of a verifier's output.  An external-effect receipt is the parsed JSON object itself,
  because its validation reads untyped fields through \<open>String\<close>.  \<open>JSON.parse\<close> is the parameter
  \<open>parseJson\<close> (\<open>None\<close> is its exception); \<open>ackOk\<close> is the acknowledgement schema.  A provider's
  qualification receipt, an opaque attachment, is left out of a command result.
\<close>

datatype task_status = Completed | Failed | Cancelled

fun status_name :: "task_status \<Rightarrow> string" where
  "status_name Completed = ''completed''"
| "status_name Failed = ''failed''"
| "status_name Cancelled = ''cancelled''"

datatype failure_category = Quota | Authentication | ModelUnavailable | Transport | Timeout | UnknownFailure

record command_result =
  cr_commandId :: string
  cr_exitCode :: "int option"
  cr_signal :: "string option"
  cr_timedOut :: bool
  cr_stdoutSha256 :: string
  cr_stderrSha256 :: string
  cr_stdout :: string
  cr_stderr :: string
  cr_failureCategory :: "failure_category option"

type_synonym effect_receipt = "(string \<times> json) list"

record task_receipt =
  rc_taskId :: string
  rc_status :: task_status
  rc_worktree :: string
  rc_branch :: string
  rc_commandResults :: "command_result list"
  rc_actionAcknowledgement :: "acknowledgement option"
  rc_externalEffectReceipt :: "effect_receipt option"
  rc_startedAt :: string
  rc_completedAt :: string

subsection \<open>Values of JavaScript in validation\<close>

text \<open>\<open>String(v || '')\<close>.\<close>

fun js_string :: "json \<Rightarrow> string" where
  "js_string JNull = ''null''"
| "js_string (JBool b) = (if b then ''true'' else ''false'')"
| "js_string (JNum i) = int_string i"
| "js_string (JStr s) = s"
| "js_string (JArr xs) = join_with '','' (map (\<lambda>x. if x = JNull then [] else js_string x) xs)"
| "js_string (JObj kvs) = ''[object Object]''"

definition string_or_empty :: "json option \<Rightarrow> string" where
  "string_or_empty v = (case v of
     None \<Rightarrow> []
   | Some x \<Rightarrow> if x \<in> {JNull, JBool False, JNum 0} then [] else js_string x)"

definition is_lower_hex :: "char \<Rightarrow> bool" where
  "is_lower_hex c = (is_digit c \<or> 97 \<le> (of_char c :: nat) \<and> (of_char c :: nat) \<le> 102)"

definition is_digest :: "string \<Rightarrow> bool" where
  "is_digest s = (starts_with s ''sha256:'' \<and> length s = 71 \<and> list_all is_lower_hex (drop 7 s))"

definition is_uuid_text :: "string \<Rightarrow> bool" where
  "is_uuid_text s = (length s = 36
     \<and> list_all (\<lambda>c. is_lower_hex c \<or> 65 \<le> (of_char c :: nat) \<and> (of_char c :: nat) \<le> 70 \<or> c = CHR ''-'') s)"

definition text_between :: "nat \<Rightarrow> nat \<Rightarrow> json option \<Rightarrow> bool" where
  "text_between lo hi v = (case v of Some (JStr s) \<Rightarrow> lo \<le> length s \<and> length s \<le> hi | _ \<Rightarrow> False)"

definition valid_effect_receipt :: "'key host \<Rightarrow> effect_receipt \<Rightarrow> bool" where
  "valid_effect_receipt h r =
     (map_of r ''schema'' = Some (JStr ''dharma.external-effect-receipt/v1'')
      \<and> is_digest (string_or_empty (map_of r ''actionDigest''))
      \<and> text_between 1 500 (map_of r ''externalIdempotencyKey'')
      \<and> map_of r ''status'' = Some (JStr ''committed'')
      \<and> text_between 1 500 (map_of r ''providerReference'')
      \<and> is_digest (string_or_empty (map_of r ''proofDigest''))
      \<and> is_finite (dateParse h (string_or_empty (map_of r ''observedAt''))))"

definition task_branch :: "string \<Rightarrow> string" where
  "task_branch taskId = ''dharma/task/'' @ taskId"

definition valid_command_result :: "command_result \<Rightarrow> bool" where
  "valid_command_result c =
     (1 \<le> length (cr_commandId c) \<and> length (cr_commandId c) \<le> 200
      \<and> is_digest (cr_stdoutSha256 c) \<and> is_digest (cr_stderrSha256 c))"

text \<open>\<open>expected\<close> is the optional expected task identifier.\<close>

definition assertValidTaskReceipt ::
  "'key host \<Rightarrow> (acknowledgement \<Rightarrow> bool) \<Rightarrow> task_receipt \<Rightarrow> string option \<Rightarrow> bool" where
  "assertValidTaskReceipt h ackOk r expected =
     (is_uuid_text (rc_taskId r)
      \<and> (expected \<notin> {None, Some []} \<longrightarrow> expected = Some (rc_taskId r))
      \<and> isAbsolute (rc_worktree r)
      \<and> rc_branch r = task_branch (rc_taskId r)
      \<and> length (rc_commandResults r) \<le> 100
      \<and> is_finite (dateParse h (rc_startedAt r)) \<and> is_finite (dateParse h (rc_completedAt r))
      \<and> \<not> num_lt (dateParse h (rc_completedAt r)) (dateParse h (rc_startedAt r))
      \<and> list_all valid_command_result (rc_commandResults r)
      \<and> (case rc_actionAcknowledgement r of None \<Rightarrow> True
         | Some a \<Rightarrow> ackOk a \<and> ak_taskId a = rc_taskId r)
      \<and> (case rc_externalEffectReceipt r of None \<Rightarrow> True | Some e \<Rightarrow> valid_effect_receipt h e))"

definition blank_output :: "command_result \<Rightarrow> command_result" where
  "blank_output c = c\<lparr>cr_stdout := [], cr_stderr := []\<rparr>"

definition receiptForDurableStorage :: "task_receipt \<Rightarrow> task_receipt" where
  "receiptForDurableStorage r = r\<lparr>rc_commandResults := map blank_output (rc_commandResults r)\<rparr>"

subsection \<open>The receipt store\<close>

text \<open>A file of the store holds a parsed receipt or text that does not parse.\<close>

datatype 'a stored = Garbled | Stored 'a

datatype store_error = ReceiptInvalid | ReceiptGarbled

type_synonym receipt_dir = "string \<rightharpoonup> task_receipt stored"

definition receipt_get ::
  "'key host \<Rightarrow> (acknowledgement \<Rightarrow> bool) \<Rightarrow> receipt_dir \<Rightarrow> string \<Rightarrow> (store_error, task_receipt option) result" where
  "receipt_get h ackOk d taskId =
     (case d taskId of
        None \<Rightarrow> Inr None
      | Some Garbled \<Rightarrow> Inl ReceiptGarbled
      | Some (Stored r) \<Rightarrow>
          if assertValidTaskReceipt h ackOk r (Some taskId) then Inr (Some r) else Inl ReceiptInvalid)"

definition receipt_put ::
  "'key host \<Rightarrow> (acknowledgement \<Rightarrow> bool) \<Rightarrow> receipt_dir \<Rightarrow> task_receipt \<Rightarrow> (store_error, receipt_dir) result" where
  "receipt_put h ackOk d r =
     (if assertValidTaskReceipt h ackOk r (Some (rc_taskId r))
      then Inr (d(rc_taskId r \<mapsto> Stored (receiptForDurableStorage r))) else Inl ReceiptInvalid)"

subsection \<open>The output of an external-effect verifier\<close>

definition is_space :: "char \<Rightarrow> bool" where
  "is_space c = ((of_char c :: nat) \<in> {9, 10, 11, 12, 13, 32, 160})"

definition js_trim :: "string \<Rightarrow> string" where
  "js_trim s = rev (dropWhile is_space (rev (dropWhile is_space s)))"

definition output_lines :: "string \<Rightarrow> string list" where
  "output_lines out = filter (\<lambda>l. l \<noteq> []) (map js_trim (split_on (CHR 0x0A) out))"

definition effect_candidate :: "(string \<Rightarrow> json option) \<Rightarrow> string \<Rightarrow> effect_receipt option" where
  "effect_candidate parseJson line =
     (case parseJson line of
        Some (JObj r) \<Rightarrow>
          if map_of r ''schema'' = Some (JStr ''dharma.external-effect-receipt/v1'') then Some r else None
      | _ \<Rightarrow> None)"

fun first_some :: "('a \<Rightarrow> 'b option) \<Rightarrow> 'a list \<Rightarrow> 'b option" where
  "first_some f [] = None"
| "first_some f (x # xs) = (case f x of None \<Rightarrow> first_some f xs | Some y \<Rightarrow> Some y)"

datatype effect_error = EffectNotEmitted | EffectInvalid | EffectMismatch

definition parseExternalEffectReceipt ::
  "'key host \<Rightarrow> (string \<Rightarrow> json option) \<Rightarrow> string \<Rightarrow> string \<Rightarrow> string \<Rightarrow> (effect_error, effect_receipt) result" where
  "parseExternalEffectReceipt h parseJson out actionDigest idempotencyKey =
     (case first_some (effect_candidate parseJson) (rev (output_lines out)) of
        None \<Rightarrow> Inl EffectNotEmitted
      | Some r \<Rightarrow>
          if \<not> valid_effect_receipt h r then Inl EffectInvalid
          else if map_of r ''actionDigest'' \<noteq> Some (JStr actionDigest)
             \<or> map_of r ''externalIdempotencyKey'' \<noteq> Some (JStr idempotencyKey)
          then Inl EffectMismatch
          else Inr r)"

subsection \<open>Results as JSON\<close>

definition opt_json :: "('a \<Rightarrow> json) \<Rightarrow> 'a option \<Rightarrow> json" where
  "opt_json f v = (case v of None \<Rightarrow> JNull | Some x \<Rightarrow> f x)"

definition result_digest_fields :: "command_result \<Rightarrow> (string \<times> json) list" where
  "result_digest_fields c =
     [(''commandId'', JStr (cr_commandId c)), (''exitCode'', opt_json JNum (cr_exitCode c)),
      (''signal'', opt_json JStr (cr_signal c)), (''timedOut'', JBool (cr_timedOut c)),
      (''stdoutSha256'', JStr (cr_stdoutSha256 c)), (''stderrSha256'', JStr (cr_stderrSha256 c))]"

definition outcome_json :: "task_status \<Rightarrow> command_result list \<Rightarrow> json" where
  "outcome_json st cs = JObj [(''status'', JStr (status_name st)),
     (''commandResults'', JArr (map (JObj \<circ> result_digest_fields) cs))]"

text \<open>The command result of the runner itself.\<close>

definition runner_result :: "'key host \<Rightarrow> string \<Rightarrow> string \<Rightarrow> command_result" where
  "runner_result h digested message = \<lparr>cr_commandId = ''runner'', cr_exitCode = None, cr_signal = None,
     cr_timedOut = False, cr_stdoutSha256 = ''sha256:'' @ replicate 64 (CHR ''0''),
     cr_stderrSha256 = sha256 h digested, cr_stdout = [], cr_stderr = message, cr_failureCategory = None\<rparr>"

subsection \<open>Facts\<close>

lemma blank_output_valid [simp]: "valid_command_result (blank_output c) = valid_command_result c"
  by (simp add: valid_command_result_def blank_output_def)

lemma blank_idem [simp]: "blank_output (blank_output c) = blank_output c"
  by (simp add: blank_output_def)

lemma durable_fields [simp]:
  "rc_taskId (receiptForDurableStorage r) = rc_taskId r" "rc_status (receiptForDurableStorage r) = rc_status r"
  "rc_worktree (receiptForDurableStorage r) = rc_worktree r" "rc_branch (receiptForDurableStorage r) = rc_branch r"
  "rc_actionAcknowledgement (receiptForDurableStorage r) = rc_actionAcknowledgement r"
  "rc_externalEffectReceipt (receiptForDurableStorage r) = rc_externalEffectReceipt r"
  "rc_startedAt (receiptForDurableStorage r) = rc_startedAt r"
  "rc_completedAt (receiptForDurableStorage r) = rc_completedAt r"
  "rc_commandResults (receiptForDurableStorage r) = map blank_output (rc_commandResults r)"
  by (simp_all add: receiptForDurableStorage_def)

lemma durable_idem [simp]: "receiptForDurableStorage (receiptForDurableStorage r) = receiptForDurableStorage r"
  by (simp add: receiptForDurableStorage_def comp_def)

lemma durable_valid [simp]:
  "assertValidTaskReceipt h ackOk (receiptForDurableStorage r) e = assertValidTaskReceipt h ackOk r e"
  unfolding assertValidTaskReceipt_def durable_fields by (simp add: list_all_iff)

lemma receipt_put_ok_iff:
  "receipt_put h ackOk d r = Inr d' \<longleftrightarrow>
     assertValidTaskReceipt h ackOk r (Some (rc_taskId r)) \<and> d' = d(rc_taskId r \<mapsto> Stored (receiptForDurableStorage r))"
  by (auto simp: receipt_put_def)

lemma receipt_get_put_same:
  "receipt_put h ackOk d r = Inr d' \<Longrightarrow> receipt_get h ackOk d' (rc_taskId r) = Inr (Some (receiptForDurableStorage r))"
  by (auto simp: receipt_put_ok_iff receipt_get_def)

lemma receipt_get_put_other:
  "receipt_put h ackOk d r = Inr d' \<Longrightarrow> t \<noteq> rc_taskId r \<Longrightarrow> receipt_get h ackOk d' t = receipt_get h ackOk d t"
  by (auto simp: receipt_put_ok_iff receipt_get_def)

lemma receipt_get_SomeD:
  "receipt_get h ackOk d t = Inr (Some r) \<Longrightarrow> t \<noteq> [] \<Longrightarrow> rc_taskId r = t \<and> assertValidTaskReceipt h ackOk r (Some t)"
  by (auto simp: receipt_get_def assertValidTaskReceipt_def split: option.splits stored.splits if_splits)

text \<open>
  What the receipt store keeps.  A receipt that was put is read back under its task, with
  the outputs of its commands erased and everything else unchanged, every other task reads as
  before, and putting what was read changes nothing: raw output never reaches the store.
\<close>

theorem receipt_store_roundtrip:
  assumes "receipt_put h ackOk d r = Inr d'"
  shows "receipt_get h ackOk d' (rc_taskId r) = Inr (Some (receiptForDurableStorage r))
    \<and> (\<forall>c \<in> set (rc_commandResults (receiptForDurableStorage r)). cr_stdout c = [] \<and> cr_stderr c = [])
    \<and> rc_status (receiptForDurableStorage r) = rc_status r
    \<and> (\<forall>t. t \<noteq> rc_taskId r \<longrightarrow> receipt_get h ackOk d' t = receipt_get h ackOk d t)
    \<and> receipt_put h ackOk d' (receiptForDurableStorage r) = Inr d'"
  using assms receipt_get_put_same [OF assms] receipt_get_put_other [OF assms]
  by (auto simp: receipt_put_ok_iff blank_output_def fun_eq_iff)

lemma first_some_SomeD: "first_some f xs = Some y \<Longrightarrow> \<exists>x \<in> set xs. f x = Some y"
  by (induction xs) (auto split: option.splits)

lemma first_some_skip: "\<forall>x \<in> set xs. f x = None \<Longrightarrow> first_some f (xs @ ys) = first_some f ys"
  by (induction xs) auto

text \<open>
  The last receipt a verifier prints decides, and only for the released action.  If a
  verifier's lines end with a receipt line followed by lines that carry no receipt, then parsing
  succeeds exactly when that receipt is valid and names the expected action digest and the
  expected idempotency key; in particular a receipt for another action, or one hidden behind a
  later foreign receipt, never proves an effect.
\<close>

theorem effect_receipt_last_decides:
  assumes line: "effect_candidate parseJson line = Some r"
    and noise: "\<forall>l \<in> set after. effect_candidate parseJson l = None"
    and out: "output_lines out = before @ line # after"
  shows "parseExternalEffectReceipt h parseJson out digest key = Inr r' \<longleftrightarrow>
      r' = r \<and> valid_effect_receipt h r \<and> map_of r ''actionDigest'' = Some (JStr digest)
      \<and> map_of r ''externalIdempotencyKey'' = Some (JStr key)"
proof -
  have "first_some (effect_candidate parseJson) (rev after @ line # rev before) = Some r"
    using noise line by (subst first_some_skip) auto
  with out show ?thesis by (auto simp: parseExternalEffectReceipt_def)
qed

definition demo_digest :: string where
  "demo_digest = ''sha256:'' @ replicate 64 (CHR ''a'')"

text \<open>An effect receipt whose proof digest is an array, which \<open>String\<close> turns into its element.\<close>

definition demo_effect :: "json \<Rightarrow> effect_receipt" where
  "demo_effect proof_digest = [(''schema'', JStr ''dharma.external-effect-receipt/v1''),
     (''actionDigest'', JStr demo_digest), (''externalIdempotencyKey'', JStr ''k''), (''status'', JStr ''committed''),
     (''providerReference'', JStr ''p''), (''proofDigest'', proof_digest), (''observedAt'', JStr ''1000'')]"

lemma demo_effect_valid:
  "valid_effect_receipt demo_host (demo_effect (JStr demo_digest))"
  "valid_effect_receipt demo_host (demo_effect (JArr [JStr demo_digest]))"
  by (simp_all add: valid_effect_receipt_def demo_effect_def string_or_empty_def text_between_def demo_digest_def
      is_digest_def starts_with_def is_lower_hex_def list_all_iff demo_parse_def is_digit_def decimal_value_def)

definition demo_parse_json :: "json \<Rightarrow> string \<Rightarrow> json option" where
  "demo_parse_json v line = (if line = ''{}'' then Some v else None)"

theorem effect_receipt_last_decides_witness:
  "parseExternalEffectReceipt demo_host (demo_parse_json (JObj (demo_effect (JStr demo_digest))))
     ''ok{}'' demo_digest ''k'' = Inl EffectNotEmitted
   \<and> parseExternalEffectReceipt demo_host (demo_parse_json (JObj (demo_effect (JStr demo_digest))))
     (''note'' @ CHR 0x0A # ''{}'' @ CHR 0x0A # ''done'') demo_digest ''k'' = Inr (demo_effect (JStr demo_digest))"
proof
  have lines: "output_lines (''note'' @ CHR 0x0A # ''{}'' @ CHR 0x0A # ''done'') = [''note''] @ ''{}'' # [''done'']"
    by code_simp
  have "effect_candidate (demo_parse_json (JObj (demo_effect (JStr demo_digest)))) ''{}'' = Some (demo_effect (JStr demo_digest))"
    by (simp add: effect_candidate_def demo_parse_json_def demo_effect_def)
  from effect_receipt_last_decides [OF this _ lines, of demo_host demo_digest "''k''" "demo_effect (JStr demo_digest)"]
  show "parseExternalEffectReceipt demo_host (demo_parse_json (JObj (demo_effect (JStr demo_digest))))
     (''note'' @ CHR 0x0A # ''{}'' @ CHR 0x0A # ''done'') demo_digest ''k'' = Inr (demo_effect (JStr demo_digest))"
    using demo_effect_valid(1) by (simp add: effect_candidate_def demo_parse_json_def demo_effect_def)
  have "output_lines ''ok{}'' = [''ok{}'']" by code_simp
  then show "parseExternalEffectReceipt demo_host (demo_parse_json (JObj (demo_effect (JStr demo_digest))))
     ''ok{}'' demo_digest ''k'' = Inl EffectNotEmitted"
    by (simp add: parseExternalEffectReceipt_def effect_candidate_def demo_parse_json_def)
qed

definition demo_task_receipt :: task_receipt where
  "demo_task_receipt = \<lparr>rc_taskId = replicate 36 (CHR ''0''), rc_status = Completed, rc_worktree = ''/w'',
     rc_branch = task_branch (replicate 36 (CHR ''0'')),
     rc_commandResults = [(runner_result demo_host [] ''log'')\<lparr>cr_stdoutSha256 := demo_digest, cr_stderrSha256 := demo_digest\<rparr>],
     rc_actionAcknowledgement = None, rc_externalEffectReceipt = None, rc_startedAt = ''1000'', rc_completedAt = ''1000''\<rparr>"

lemma demo_task_receipt_valid:
  "assertValidTaskReceipt demo_host (\<lambda>_. True) demo_task_receipt (Some (rc_taskId demo_task_receipt))"
  by (simp add: assertValidTaskReceipt_def demo_task_receipt_def is_uuid_text_def isAbsolute_def starts_with_def
      valid_command_result_def runner_result_def is_digest_def demo_digest_def list_all_iff is_lower_hex_def is_digit_def
      demo_parse_def decimal_value_def)

theorem receipt_store_roundtrip_witness:
  "receipt_get demo_host (\<lambda>_. True) [rc_taskId demo_task_receipt \<mapsto> Stored (receiptForDurableStorage demo_task_receipt)]
     (rc_taskId demo_task_receipt) = Inr (Some (receiptForDurableStorage demo_task_receipt))"
proof -
  have "receipt_put demo_host (\<lambda>_. True) Map.empty demo_task_receipt
      = Inr [rc_taskId demo_task_receipt \<mapsto> Stored (receiptForDurableStorage demo_task_receipt)]"
    using demo_task_receipt_valid by (simp add: receipt_put_ok_iff)
  from receipt_store_roundtrip [OF this] show ?thesis by blast
qed
end
