(* ===== verification/Journal.thy ===== *)
theory Journal
  imports Receipts
begin

text \<open>
  The action execution journal and the replay guard of packages/task-runner/src/index.ts
  (\<open>FileActionExecutionJournal\<close>, \<open>FileActionDecisionReplayGuard\<close>), one operation after the other;
  how operations of several receivers interleave is the subject of the theory Receivers.  A
  directory is a map from identifiers to files; a file holds a parsed record or text that does
  not parse.  Every operation returns its result with the directory it leaves, also when it
  throws.  The clock of an operation is its argument \<open>now\<close>, in milliseconds.
\<close>

datatype journal_state =
    Prepared | ReplayAuthorizationStarted | ReplayAuthorized | Executing | EffectObserved | ReceiptRecorded

record journal_record =
  jr_taskId :: string
  jr_decisionId :: string
  jr_endpointId :: string
  jr_actionDigest :: string
  jr_externalIdempotencyKey :: string
  jr_worktree :: string
  jr_branch :: string
  jr_state :: journal_state
  jr_preparedAt :: string
  jr_updatedAt :: string
  jr_providerResultDigest :: "string option"
  jr_receipt :: "task_receipt option"

record execution_claim =
  cl_taskId :: string
  cl_decisionId :: string
  cl_actionDigest :: string
  cl_ownerId :: string
  cl_pid :: int
  cl_claimedAt :: string
  cl_expiresAt :: string

record journal_dir =
  jd_records :: "string \<rightharpoonup> journal_record stored"
  jd_claims :: "string \<rightharpoonup> execution_claim stored"

text \<open>An instance of the journal: its owner and its process.\<close>

record journal_owner =
  ow_ownerId :: string
  ow_pid :: int

datatype journal_error =
    JournalGarbled | JournalRecordInvalid | JournalReceiptMissing | JournalReceiptInvalid
  | JournalReceiptConflict | JournalConflict | TransitionInvalid | NotAuthorizedForClaim
  | ClaimGarbled | ClaimInvalid | ClaimExists

definition valid_record :: "'key host \<Rightarrow> string \<Rightarrow> journal_record \<Rightarrow> bool" where
  "valid_record h taskId r =
     (jr_taskId r = taskId \<and> is_uuid_text (jr_taskId r)
      \<and> is_uuid_text (jr_decisionId r) \<and> is_uuid_text (jr_endpointId r)
      \<and> is_digest (jr_actionDigest r) \<and> jr_externalIdempotencyKey r \<noteq> []
      \<and> isAbsolute (jr_worktree r) \<and> jr_branch r = task_branch (jr_taskId r)
      \<and> is_finite (dateParse h (jr_preparedAt r)) \<and> is_finite (dateParse h (jr_updatedAt r))
      \<and> (case jr_providerResultDigest r of None \<Rightarrow> True | Some d \<Rightarrow> is_digest d))"

definition journal_get ::
  "'key host \<Rightarrow> (acknowledgement \<Rightarrow> bool) \<Rightarrow> journal_dir \<Rightarrow> string
     \<Rightarrow> (journal_error, journal_record option) result" where
  "journal_get h ackOk d taskId =
     (case jd_records d taskId of
        None \<Rightarrow> Inr None
      | Some Garbled \<Rightarrow> Inl JournalGarbled
      | Some (Stored r) \<Rightarrow>
          if \<not> valid_record h taskId r then Inl JournalRecordInvalid
          else if jr_state r = ReceiptRecorded \<and> jr_receipt r = None then Inl JournalReceiptMissing
          else case jr_receipt r of
            None \<Rightarrow> Inr (Some r)
          | Some receipt \<Rightarrow>
              if \<not> assertValidTaskReceipt h ackOk receipt (Some taskId) then Inl JournalReceiptInvalid
              else (case rc_actionAcknowledgement receipt of
                  None \<Rightarrow> Inr (Some r)
                | Some a \<Rightarrow>
                    if ak_endpointId a \<noteq> jr_endpointId r \<or> ak_actionDigest a \<noteq> jr_actionDigest r
                    then Inl JournalReceiptConflict else Inr (Some r)))"

definition journal_getClaim ::
  "'key host \<Rightarrow> journal_dir \<Rightarrow> string \<Rightarrow> (journal_error, execution_claim option) result" where
  "journal_getClaim h d taskId =
     (case jd_claims d taskId of
        None \<Rightarrow> Inr None
      | Some Garbled \<Rightarrow> Inl ClaimGarbled
      | Some (Stored c) \<Rightarrow>
          if cl_taskId c = taskId \<and> is_uuid_text (cl_taskId c) \<and> is_uuid_text (cl_decisionId c)
             \<and> is_digest (cl_actionDigest c) \<and> 0 < cl_pid c
             \<and> is_finite (dateParse h (cl_claimedAt c)) \<and> is_finite (dateParse h (cl_expiresAt c))
             \<and> \<not> num_le (dateParse h (cl_expiresAt c)) (dateParse h (cl_claimedAt c))
          then Inr (Some c) else Inl ClaimInvalid)"

record prepare_input =
  pi_taskId :: string
  pi_decisionId :: string
  pi_endpointId :: string
  pi_actionDigest :: string
  pi_externalIdempotencyKey :: string
  pi_worktree :: string
  pi_branch :: string

definition matches_input :: "journal_record \<Rightarrow> prepare_input \<Rightarrow> bool" where
  "matches_input r i =
     (jr_decisionId r = pi_decisionId i \<and> jr_endpointId r = pi_endpointId i
      \<and> jr_actionDigest r = pi_actionDigest i \<and> jr_externalIdempotencyKey r = pi_externalIdempotencyKey i
      \<and> jr_worktree r = pi_worktree i \<and> jr_branch r = pi_branch i)"

text \<open>The exclusive create fails when the file exists; the existing record must then match.\<close>

definition journal_prepare ::
  "'key host \<Rightarrow> (acknowledgement \<Rightarrow> bool) \<Rightarrow> int \<Rightarrow> prepare_input \<Rightarrow> journal_dir
     \<Rightarrow> (journal_error, journal_record \<times> bool) result \<times> journal_dir" where
  "journal_prepare h ackOk now i d =
     (if jd_records d (pi_taskId i) = None then
        let r = \<lparr>jr_taskId = pi_taskId i, jr_decisionId = pi_decisionId i, jr_endpointId = pi_endpointId i,
           jr_actionDigest = pi_actionDigest i, jr_externalIdempotencyKey = pi_externalIdempotencyKey i,
           jr_worktree = pi_worktree i, jr_branch = pi_branch i, jr_state = Prepared,
           jr_preparedAt = isoString h now, jr_updatedAt = isoString h now,
           jr_providerResultDigest = None, jr_receipt = None\<rparr>
        in (Inr (r, True), d\<lparr>jd_records := (jd_records d)(pi_taskId i \<mapsto> Stored r)\<rparr>)
      else case journal_get h ackOk d (pi_taskId i) of
        Inl e \<Rightarrow> (Inl e, d)
      | Inr None \<Rightarrow> (Inl JournalConflict, d)
      | Inr (Some existing) \<Rightarrow>
          if matches_input existing i then (Inr (existing, False), d) else (Inl JournalConflict, d))"

definition journal_transition ::
  "'key host \<Rightarrow> (acknowledgement \<Rightarrow> bool) \<Rightarrow> int \<Rightarrow> string \<Rightarrow> journal_state list \<Rightarrow> journal_state
     \<Rightarrow> (journal_record \<Rightarrow> journal_record) \<Rightarrow> journal_dir
     \<Rightarrow> (journal_error, journal_record) result \<times> journal_dir" where
  "journal_transition h ackOk now taskId allowed st patch d =
     (case journal_get h ackOk d taskId of
        Inl e \<Rightarrow> (Inl e, d)
      | Inr None \<Rightarrow> (Inl TransitionInvalid, d)
      | Inr (Some current) \<Rightarrow>
          if jr_state current \<notin> set allowed then (Inl TransitionInvalid, d)
          else let nxt = (patch current)\<lparr>jr_state := st, jr_updatedAt := isoString h now\<rparr>
            in (Inr nxt, d\<lparr>jd_records := (jd_records d)(taskId \<mapsto> Stored nxt)\<rparr>))"

definition bounded_age :: "int \<Rightarrow> int" where
  "bounded_age maximumAgeMs = min (max maximumAgeMs 1) (24 * 60 * 60000)"

text \<open>The claim file is created exclusively before the transition, and stays when that fails.\<close>

definition journal_claim ::
  "'key host \<Rightarrow> (acknowledgement \<Rightarrow> bool) \<Rightarrow> journal_owner \<Rightarrow> int \<Rightarrow> journal_record \<Rightarrow> int \<Rightarrow> journal_dir
     \<Rightarrow> (journal_error, execution_claim) result \<times> journal_dir" where
  "journal_claim h ackOk owner now r maximumAgeMs d =
     (if jr_state r \<noteq> ReplayAuthorized then (Inl NotAuthorizedForClaim, d)
      else if jd_claims d (jr_taskId r) \<noteq> None then (Inl ClaimExists, d)
      else let c = \<lparr>cl_taskId = jr_taskId r, cl_decisionId = jr_decisionId r,
             cl_actionDigest = jr_actionDigest r, cl_ownerId = ow_ownerId owner, cl_pid = ow_pid owner,
             cl_claimedAt = isoString h now, cl_expiresAt = isoString h (now + bounded_age maximumAgeMs)\<rparr>;
           d1 = d\<lparr>jd_claims := (jd_claims d)(jr_taskId r \<mapsto> Stored c)\<rparr>
        in case journal_transition h ackOk now (jr_taskId r) [ReplayAuthorized] Executing (\<lambda>x. x) d1 of
             (Inl e, d2) \<Rightarrow> (Inl e, d2)
           | (Inr _, d2) \<Rightarrow> (Inr c, d2))"

text \<open>\<open>signalable pid\<close> is whether signal 0 reaches the process or is refused for permission.\<close>

definition isClaimOwnerAlive ::
  "'key host \<Rightarrow> journal_owner \<Rightarrow> (int \<Rightarrow> bool) \<Rightarrow> int \<Rightarrow> execution_claim \<Rightarrow> bool" where
  "isClaimOwnerAlive h owner signalable now c =
     (if num_le (dateParse h (cl_expiresAt c)) (Some now) then False
      else if cl_ownerId c = ow_ownerId owner \<and> cl_pid c = ow_pid owner then True
      else signalable (cl_pid c))"

definition recordEffectObserved ::
  "'key host \<Rightarrow> (acknowledgement \<Rightarrow> bool) \<Rightarrow> int \<Rightarrow> string \<Rightarrow> string \<Rightarrow> journal_dir
     \<Rightarrow> (journal_error, journal_record) result \<times> journal_dir" where
  "recordEffectObserved h ackOk now taskId providerResultText d =
     journal_transition h ackOk now taskId [Executing] EffectObserved
       (\<lambda>r. r\<lparr>jr_providerResultDigest := Some (sha256 h providerResultText)\<rparr>) d"

definition recordReceipt ::
  "'key host \<Rightarrow> (acknowledgement \<Rightarrow> bool) \<Rightarrow> int \<Rightarrow> task_receipt \<Rightarrow> journal_dir
     \<Rightarrow> (journal_error, unit) result \<times> journal_dir" where
  "recordReceipt h ackOk now receipt d =
     (if \<not> assertValidTaskReceipt h ackOk receipt (Some (rc_taskId receipt)) then (Inl JournalReceiptInvalid, d)
      else case journal_transition h ackOk now (rc_taskId receipt)
             [Prepared, ReplayAuthorizationStarted, ReplayAuthorized, Executing, EffectObserved] ReceiptRecorded
             (\<lambda>r. r\<lparr>jr_receipt := Some (receiptForDurableStorage receipt)\<rparr>) d of
        (Inl e, d1) \<Rightarrow> (Inl e, d1)
      | (Inr _, d1) \<Rightarrow> (Inr (), d1\<lparr>jd_claims := (jd_claims d1)(rc_taskId receipt := None)\<rparr>))"

subsection \<open>The replay guard\<close>

text \<open>A consumed decision is a file that names the action digest.\<close>

definition replay_consume :: "(string \<rightharpoonup> string) \<Rightarrow> string \<Rightarrow> string \<Rightarrow> bool \<times> (string \<rightharpoonup> string)" where
  "replay_consume d decisionId actionDigest =
     (case d decisionId of None \<Rightarrow> (True, d(decisionId \<mapsto> actionDigest)) | Some _ \<Rightarrow> (False, d))"

interpretation replay_guard: once_registry "\<lambda>d i. replay_consume d i digest" "\<lambda>d i. i \<in> dom d" for digest
  by unfold_locales (auto simp: replay_consume_def split: option.splits)

text \<open>The interrupted receipt of a recovered task.\<close>

definition full_result_fields :: "command_result \<Rightarrow> (string \<times> json) list" where
  "full_result_fields c = result_digest_fields c
     @ [(''stdout'', JStr (cr_stdout c)), (''stderr'', JStr (cr_stderr c))]"

definition interruptedActionReceipt ::
  "'key host \<Rightarrow> (acknowledgement \<Rightarrow> bool) \<Rightarrow> journal_record \<Rightarrow> int \<Rightarrow> (ack_error, task_receipt) result" where
  "interruptedActionReceipt h ackOk r now =
     (let results = [runner_result h ''External effect outcome is unknown after receiver restart.''
            ''External effect outcome is unknown after receiver restart; execution was not repeated.''];
          res = JObj [(''status'', JStr ''failed''), (''recovery'', JStr ''abandoned_execution_claim''),
            (''commandResults'', JArr (map (JObj \<circ> full_result_fields) results))]
      in case buildActionDecisionAcknowledgement h ackOk (jr_taskId r) (jr_endpointId r) (jr_actionDigest r)
             UnknownDisposition (jr_externalIdempotencyKey r) res (Some now) of
           Inl e \<Rightarrow> Inl e
         | Inr a \<Rightarrow> Inr \<lparr>rc_taskId = jr_taskId r, rc_status = Failed, rc_worktree = jr_worktree r,
             rc_branch = jr_branch r, rc_commandResults = results, rc_actionAcknowledgement = Some a,
             rc_externalEffectReceipt = None, rc_startedAt = jr_preparedAt r, rc_completedAt = isoString h now\<rparr>)"

subsection \<open>The operations as a store that advances\<close>

text \<open>The transitions the runner makes.\<close>

datatype journal_op =
    Prepare int prepare_input
  | BeginReplay int string
  | AuthorizeReplay int string
  | AuthorizeDirect int string
  | ClaimExecution int journal_owner journal_record int
  | ObserveEffect int string string
  | RecordReceipt int task_receipt

fun journal_step :: "'key host \<Rightarrow> (acknowledgement \<Rightarrow> bool) \<Rightarrow> journal_op \<Rightarrow> journal_dir \<Rightarrow> journal_dir" where
  "journal_step h ok (Prepare now i) d = snd (journal_prepare h ok now i d)"
| "journal_step h ok (BeginReplay now t) d =
     snd (journal_transition h ok now t [Prepared] ReplayAuthorizationStarted (\<lambda>r. r) d)"
| "journal_step h ok (AuthorizeReplay now t) d =
     snd (journal_transition h ok now t [ReplayAuthorizationStarted] ReplayAuthorized (\<lambda>r. r) d)"
| "journal_step h ok (AuthorizeDirect now t) d =
     snd (journal_transition h ok now t [Prepared] ReplayAuthorized (\<lambda>r. r) d)"
| "journal_step h ok (ClaimExecution now owner r age) d = snd (journal_claim h ok owner now r age d)"
| "journal_step h ok (ObserveEffect now t result_text) d = snd (recordEffectObserved h ok now t result_text d)"
| "journal_step h ok (RecordReceipt now receipt) d = snd (recordReceipt h ok now receipt d)"

definition state_rank :: "journal_state \<Rightarrow> nat" where
  "state_rank s = (case s of Prepared \<Rightarrow> 0 | ReplayAuthorizationStarted \<Rightarrow> 1 | ReplayAuthorized \<Rightarrow> 2
     | Executing \<Rightarrow> 3 | EffectObserved \<Rightarrow> 4 | ReceiptRecorded \<Rightarrow> 5)"

definition same_identity :: "journal_record \<Rightarrow> journal_record \<Rightarrow> bool" where
  "same_identity r s =
     (jr_taskId r = jr_taskId s \<and> jr_decisionId r = jr_decisionId s \<and> jr_endpointId r = jr_endpointId s
      \<and> jr_actionDigest r = jr_actionDigest s \<and> jr_externalIdempotencyKey r = jr_externalIdempotencyKey s
      \<and> jr_worktree r = jr_worktree s \<and> jr_branch r = jr_branch s \<and> jr_preparedAt r = jr_preparedAt s)"

text \<open>An entry stays equal or advances strictly; nothing is above a recorded receipt.\<close>

definition journal_above :: "journal_record stored \<Rightarrow> journal_record stored \<Rightarrow> bool" where
  "journal_above u v = (u = v \<or>
     (case (u, v) of (Stored r, Stored s) \<Rightarrow> same_identity r s \<and> state_rank (jr_state r) < state_rank (jr_state s)
      | _ \<Rightarrow> False))"

lemma journal_get_SomeD:
  "journal_get h ok d t = Inr (Some r) \<Longrightarrow> jd_records d t = Some (Stored r) \<and> valid_record h t r"
  by (auto simp: journal_get_def split: option.splits stored.splits if_splits)

lemma journal_transition_cases:
  obtains (stays) "snd (journal_transition h ok now t allowed st patch d) = d"
      "\<exists>e. fst (journal_transition h ok now t allowed st patch d) = Inl e"
  | (moves) r where "journal_get h ok d t = Inr (Some r)" "jr_state r \<in> set allowed"
      "journal_transition h ok now t allowed st patch d =
         (Inr ((patch r)\<lparr>jr_state := st, jr_updatedAt := isoString h now\<rparr>),
          d\<lparr>jd_records := (jd_records d)(t \<mapsto> Stored ((patch r)\<lparr>jr_state := st, jr_updatedAt := isoString h now\<rparr>))\<rparr>)"
proof (cases "\<exists>r. journal_get h ok d t = Inr (Some r) \<and> jr_state r \<in> set allowed")
  case True
  then obtain r where "journal_get h ok d t = Inr (Some r)" "jr_state r \<in> set allowed" by blast
  with moves show ?thesis by (simp add: journal_transition_def Let_def)
next
  case False
  then have "snd (journal_transition h ok now t allowed st patch d) = d
      \<and> (\<exists>e. fst (journal_transition h ok now t allowed st patch d) = Inl e)"
    by (auto simp: journal_transition_def split: sum.splits option.splits)
  with stays show ?thesis by blast
qed

lemma journal_above_refl: "journal_above v v"
  by (simp add: journal_above_def)

lemma journal_above_trans: "journal_above u v \<Longrightarrow> journal_above v w \<Longrightarrow> journal_above u w"
  unfolding journal_above_def by (cases u; cases v; cases w) (auto simp: same_identity_def)

text \<open>A transition with a patch that keeps the identity, from lower states to a higher one.\<close>

lemma transition_advances:
  assumes v: "jd_records d k = Some v"
    and up: "\<forall>s \<in> set allowed. state_rank s < state_rank st" and patch: "\<And>r. same_identity r (patch r)"
  shows "\<exists>w. jd_records (snd (journal_transition h ok now t allowed st patch d)) k = Some w \<and> journal_above v w"
proof (cases rule: journal_transition_cases [of h ok now t allowed st patch d])
  case stays
  with v show ?thesis by (simp add: journal_above_refl)
next
  case (moves r)
  let ?s = "(patch r)\<lparr>jr_state := st, jr_updatedAt := isoString h now\<rparr>"
  show ?thesis
  proof (cases "k = t")
    case True
    with v journal_get_SomeD [OF moves(1)] have "v = Stored r" by simp
    moreover have "journal_above (Stored r) (Stored ?s)"
      using moves(2) up patch [of r] by (simp add: journal_above_def same_identity_def)
    ultimately show ?thesis using moves(3) True by simp
  next
    case False
    with v moves(3) show ?thesis by (simp add: journal_above_refl)
  qed
qed

lemma same_identity_patches [simp]:
  "same_identity r r" "same_identity r (r\<lparr>jr_providerResultDigest := x\<rparr>)" "same_identity r (r\<lparr>jr_receipt := y\<rparr>)"
  by (simp_all add: same_identity_def)

lemma journal_step_advances:
  assumes v: "jd_records d k = Some v"
  shows "\<exists>w. jd_records (journal_step h ok op d) k = Some w \<and> journal_above v w"
proof (cases op)
  case (Prepare now i)
  then show ?thesis
    using v by (auto simp: journal_prepare_def journal_above_refl Let_def split: sum.splits option.splits)
next
  case (ClaimExecution now owner r age)
  let ?c = "\<lambda>d. d\<lparr>jd_claims := (jd_claims d)(jr_taskId r \<mapsto> Stored \<lparr>cl_taskId = jr_taskId r,
     cl_decisionId = jr_decisionId r, cl_actionDigest = jr_actionDigest r, cl_ownerId = ow_ownerId owner,
     cl_pid = ow_pid owner, cl_claimedAt = isoString h now, cl_expiresAt = isoString h (now + bounded_age age)\<rparr>)\<rparr>"
  have "\<exists>w. jd_records (snd (journal_transition h ok now (jr_taskId r) [ReplayAuthorized] Executing (\<lambda>x. x) (?c d))) k
      = Some w \<and> journal_above v w"
    by (rule transition_advances) (simp_all add: v state_rank_def)
  with ClaimExecution v show ?thesis
    by (auto simp: journal_claim_def Let_def journal_above_refl split: prod.splits sum.splits)
next
  case (RecordReceipt now receipt)
  have "\<exists>w. jd_records (snd (journal_transition h ok now (rc_taskId receipt)
      [Prepared, ReplayAuthorizationStarted, ReplayAuthorized, Executing, EffectObserved] ReceiptRecorded
      (\<lambda>r. r\<lparr>jr_receipt := Some (receiptForDurableStorage receipt)\<rparr>) d)) k = Some w \<and> journal_above v w"
    by (rule transition_advances) (auto simp: v state_rank_def)
  with RecordReceipt v show ?thesis
    by (auto simp: recordReceipt_def journal_above_refl split: prod.splits sum.splits)
qed (auto simp: recordEffectObserved_def state_rank_def intro!: transition_advances v)

interpretation journal_store: advancing_store "\<lambda>d k. jd_records d k" "journal_step h ok" journal_above for h ok
  by unfold_locales (fact journal_above_refl, erule (1) journal_above_trans, erule journal_step_advances)

text \<open>
  C7. The journal never goes back.  Over any sequence of journal operations, whatever their
  results, the record of a task keeps its identity and only advances through its states; a
  recorded receipt is final: no operation changes or removes the record that holds it.
\<close>

theorem journal_never_goes_back:
  assumes "jd_records d t = Some (Stored r)"
  shows "\<exists>s. jd_records (fold (journal_step h ok) ops d) t = Some (Stored s) \<and> same_identity r s
    \<and> (s = r \<or> state_rank (jr_state r) < state_rank (jr_state s))
    \<and> (jr_state r = ReceiptRecorded \<longrightarrow> s = r)"
proof -
  obtain w where "jd_records (fold (journal_step h ok) ops d) t = Some w" "journal_above (Stored r) w"
    using journal_store.run_advances [OF assms] by blast
  moreover have "\<not> state_rank ReceiptRecorded < state_rank s" for s by (cases s) (simp_all add: state_rank_def)
  ultimately show ?thesis
    by (cases w) (auto simp: journal_above_def)
qed

text \<open>
  An unreadable record blocks its task for good.  \<open>prepare\<close> creates the record in place and
  writes it afterwards, so a crash in between leaves a file that does not parse; after any
  sequence of operations the file is still there, and every attempt to read, to prepare again or
  to record a receipt for the task fails.
\<close>

theorem unreadable_record_blocks:
  assumes "jd_records d t = Some Garbled"
  shows "let d' = fold (journal_step h ok) ops d in
      jd_records d' t = Some Garbled \<and> journal_get h ok d' t = Inl JournalGarbled
      \<and> (\<forall>now i. pi_taskId i = t \<longrightarrow> fst (journal_prepare h ok now i d') = Inl JournalGarbled)
      \<and> (\<forall>now r. rc_taskId r = t \<longrightarrow> (\<exists>e. fst (recordReceipt h ok now r d') = Inl e))"
proof -
  obtain w where w: "jd_records (fold (journal_step h ok) ops d) t = Some w" "journal_above Garbled w"
    using journal_store.run_advances [OF assms] by blast
  then have "jd_records (fold (journal_step h ok) ops d) t = Some Garbled"
    by (cases w) (simp_all add: journal_above_def)
  then show ?thesis
    by (auto simp: Let_def journal_get_def journal_prepare_def recordReceipt_def journal_transition_def)
qed

definition demo_uuid :: string where
  "demo_uuid = replicate 36 (CHR ''0'')"

definition demo_input :: prepare_input where
  "demo_input = \<lparr>pi_taskId = demo_uuid, pi_decisionId = demo_uuid, pi_endpointId = demo_uuid,
     pi_actionDigest = demo_digest, pi_externalIdempotencyKey = demo_uuid, pi_worktree = ''/w'',
     pi_branch = task_branch demo_uuid\<rparr>"

definition demo_dir :: journal_dir where
  "demo_dir = snd (journal_prepare demo_host (\<lambda>_. True) 1000 demo_input \<lparr>jd_records = Map.empty, jd_claims = Map.empty\<rparr>)"

theorem journal_never_goes_back_witness:
  "\<exists>r s. jd_records demo_dir demo_uuid = Some (Stored r)
     \<and> jd_records (fold (journal_step demo_host (\<lambda>_. True)) [AuthorizeDirect 1000 demo_uuid] demo_dir) demo_uuid = Some (Stored s)
     \<and> same_identity r s"
proof -
  obtain r where r: "jd_records demo_dir demo_uuid = Some (Stored r)"
    by (simp add: demo_dir_def journal_prepare_def demo_input_def Let_def)
  from journal_never_goes_back [OF r] r show ?thesis by blast
qed

theorem unreadable_record_blocks_witness:
  "journal_get demo_host (\<lambda>_. True) (fold (journal_step demo_host (\<lambda>_. True)) [AuthorizeDirect 1000 ''t'']
     \<lparr>jd_records = [''t'' \<mapsto> Garbled], jd_claims = Map.empty\<rparr>) ''t'' = Inl JournalGarbled"
  using unreadable_record_blocks [of "\<lparr>jd_records = [''t'' \<mapsto> Garbled], jd_claims = Map.empty\<rparr>" "''t''"
      demo_host "\<lambda>_. True" "[AuthorizeDirect 1000 ''t'']"]
  unfolding Let_def by simp
end
