(* ===== verification/Org_Policy.thy ===== *)
theory Org_Policy
  imports Host Paths
begin

text \<open>
  The organization policy of packages/policy/src/index.ts: its static checks, the verification of
  its server authorization, and the registered commands.  A policy is a mutable object and the
  verified policies are a \<open>WeakMap\<close> keyed by object identity, so the state is a heap of policies
  with a map from addresses to verifications.  The YAML parser and the file read of
  \<open>loadOrganizationPolicy\<close> are left out; the policy it checks is an argument.
\<close>

record command_policy =
  cp_argv :: "string list"
  cp_timeoutSeconds :: int
  cp_workingDirectory :: "string option"

datatype disclosure_mode = MetadataOnly | LocalAnalysis | CustomerAuthorizedContent

record automatic_disclosure =
  ad_mode :: disclosure_mode
  ad_consentReceiptId :: "string option"
  ad_allowedContentClasses :: "string list option"

record evidence_policy =
  ev_defaultMode :: string
  ev_automaticDisclosure :: "automatic_disclosure option"
  ev_registeredWorkspaceOnly :: bool
  ev_excludePaths :: "string list"
  ev_maximumCapsuleBytes :: int
  ev_maximumDailyUploadBytes :: int
  ev_maximumExpansionBytes :: int
  ev_pseudonymizeIdentity :: "bool option"

record task_policy =
  tp_defaultNetwork :: string
  tp_defaultGit :: string
  tp_allowedCommands :: "string \<rightharpoonup> command_policy"
  tp_writePaths :: "string list"
  tp_requireLocalConfirmationFor :: "string list"

datatype risk = R0 | R1 | R2 | R3 | R4

record signed_evidence =
  sg_automaticDisclosure :: automatic_disclosure
  sg_maximumCapsuleBytes :: int
  sg_maximumDailyUploadBytes :: int
  sg_maximumExpansionBytes :: int
  sg_excludePaths :: "string list"
  sg_pseudonymizeIdentity :: bool

record server_authorization =
  sa_schema :: string
  sa_organizationId :: string
  sa_workspaceId :: string
  sa_revision :: string
  sa_evidence :: signed_evidence
  sa_issuedAt :: string
  sa_expiresAt :: string
  sa_signature :: string
  sa_keyVersion :: string

record org_policy =
  op_schema :: string
  op_organizationId :: string
  op_revision :: string
  op_evidence :: evidence_policy
  op_tasks :: task_policy
  op_automaticInstall :: bool
  op_automaticPromotionMaxRisk :: risk
  op_canaryPercent :: int
  op_retention :: "(string \<times> json) list"
  op_budgets :: "(string \<times> json) list"
  op_serverAuthorization :: "server_authorization option"

definition MAXIMUM_TRAJECTORY_CAPSULE_BYTES :: int where
  "MAXIMUM_TRAJECTORY_CAPSULE_BYTES = 1048576"

subsection \<open>Encoding of the compared parts\<close>

fun mode_name :: "disclosure_mode \<Rightarrow> string" where
  "mode_name MetadataOnly = ''metadata_only''"
| "mode_name LocalAnalysis = ''local_analysis''"
| "mode_name CustomerAuthorizedContent = ''customer_authorized_content''"

definition disclosure_json :: "automatic_disclosure \<Rightarrow> json" where
  "disclosure_json d = JObj
     ([(''mode'', JStr (mode_name (ad_mode d)))]
      @ opt_field ''consentReceiptId'' (map_option JStr (ad_consentReceiptId d))
      @ opt_field ''allowedContentClasses'' (map_option str_array (ad_allowedContentClasses d)))"

definition evidence_json :: "evidence_policy \<Rightarrow> json" where
  "evidence_json e = JObj
     ([(''defaultMode'', JStr (ev_defaultMode e)),
       (''registeredWorkspaceOnly'', JBool (ev_registeredWorkspaceOnly e)),
       (''excludePaths'', str_array (ev_excludePaths e)),
       (''maximumCapsuleBytes'', JNum (ev_maximumCapsuleBytes e)),
       (''maximumDailyUploadBytes'', JNum (ev_maximumDailyUploadBytes e)),
       (''maximumExpansionBytes'', JNum (ev_maximumExpansionBytes e))]
      @ opt_field ''automaticDisclosure'' (map_option disclosure_json (ev_automaticDisclosure e))
      @ opt_field ''pseudonymizeIdentity'' (map_option JBool (ev_pseudonymizeIdentity e)))"

definition signed_evidence_json :: "signed_evidence \<Rightarrow> json" where
  "signed_evidence_json e = JObj
     [(''automaticDisclosure'', disclosure_json (sg_automaticDisclosure e)),
      (''maximumCapsuleBytes'', JNum (sg_maximumCapsuleBytes e)),
      (''maximumDailyUploadBytes'', JNum (sg_maximumDailyUploadBytes e)),
      (''maximumExpansionBytes'', JNum (sg_maximumExpansionBytes e)),
      (''excludePaths'', str_array (sg_excludePaths e)),
      (''pseudonymizeIdentity'', JBool (sg_pseudonymizeIdentity e))]"

text \<open>\<open>authorization\<close> without its signature, then with it.\<close>

definition unsigned_authorization_fields :: "server_authorization \<Rightarrow> (string \<times> json) list" where
  "unsigned_authorization_fields a =
     [(''schema'', JStr (sa_schema a)), (''organizationId'', JStr (sa_organizationId a)),
      (''workspaceId'', JStr (sa_workspaceId a)),
      (''policy'', JObj [(''revision'', JStr (sa_revision a)), (''evidence'', signed_evidence_json (sa_evidence a))]),
      (''issuedAt'', JStr (sa_issuedAt a)), (''expiresAt'', JStr (sa_expiresAt a)),
      (''keyVersion'', JStr (sa_keyVersion a))]"

definition authorization_json :: "server_authorization \<Rightarrow> json" where
  "authorization_json a = JObj (unsigned_authorization_fields a @ [(''signature'', JStr (sa_signature a))])"

definition content_json :: "org_policy \<Rightarrow> json" where
  "content_json p = JObj
     ([(''revision'', JStr (op_revision p)), (''evidence'', evidence_json (op_evidence p))]
      @ opt_field ''serverAuthorization'' (map_option authorization_json (op_serverAuthorization p)))"

definition contentAuthorizationFingerprint :: "'key host \<Rightarrow> org_policy \<Rightarrow> string" where
  "contentAuthorizationFingerprint h p = canonicalize (collation h) (content_json p)"

subsection \<open>State and operations\<close>

text \<open>An address is the identity of a policy object.\<close>

record policy_state =
  ps_heap :: "nat \<rightharpoonup> org_policy"
  ps_verified :: "nat \<rightharpoonup> jsnum \<times> string"

datatype policy_error =
    AuthorizationRequired | AuthorizationInvalidOrExpired | AuthorizationKeyInvalid
  | AuthorizationSignatureInvalid | EvidenceMismatch
  | UnsupportedSchema | IdentityRequired | RegisteredWorkspaceOnly | CapsuleBytesOutOfRange
  | DisclosureRequiresV2 | ContentRequiresV2 | ContentRequiresConsent | ContentRequiresClass
  | ContentRequiresAuthorization | ContentNotVerified | GrantWithoutContentMode | PromotionRisk
  | NoSuchPolicy | CommandNotRegistered | CommandArgumentInvalid

text \<open>The comparisons of the signed evidence with the local one.\<close>

definition evidence_matches :: "'key host \<Rightarrow> server_authorization \<Rightarrow> org_policy \<Rightarrow> bool" where
  "evidence_matches h a p = (let s = sa_evidence a; e = op_evidence p; c = canonicalize (collation h) in
     sa_revision a = op_revision p
     \<and> Some (c (disclosure_json (sg_automaticDisclosure s)))
         = map_option (c \<circ> disclosure_json) (ev_automaticDisclosure e)
     \<and> sg_maximumCapsuleBytes s = ev_maximumCapsuleBytes e
     \<and> sg_maximumDailyUploadBytes s = ev_maximumDailyUploadBytes e
     \<and> sg_maximumExpansionBytes s = ev_maximumExpansionBytes e
     \<and> c (str_array (sg_excludePaths s)) = c (str_array (ev_excludePaths e))
     \<and> sg_pseudonymizeIdentity s
     \<and> ev_pseudonymizeIdentity e = Some True)"

definition verifyServerAuthorizedPolicy ::
  "'key host \<Rightarrow> policy_state \<Rightarrow> nat \<Rightarrow> string \<Rightarrow> string \<Rightarrow> string \<Rightarrow> jsnum
     \<Rightarrow> (policy_error, policy_state) result" where
  "verifyServerAuthorizedPolicy h s r publicKeyEd25519 organizationId workspaceId now =
     (case ps_heap s r of None \<Rightarrow> Inl NoSuchPolicy | Some p \<Rightarrow>
     (case op_serverAuthorization p of None \<Rightarrow> Inl AuthorizationRequired | Some a \<Rightarrow>
      let issuedAt = dateParse h (sa_issuedAt a); expiresAt = dateParse h (sa_expiresAt a) in
      if sa_organizationId a \<noteq> organizationId \<or> sa_workspaceId a \<noteq> workspaceId
         \<or> \<not> is_finite issuedAt \<or> num_lt (num_add now (Some (5 * 60000))) issuedAt
         \<or> \<not> is_finite expiresAt \<or> num_le expiresAt now
      then Inl AuthorizationInvalidOrExpired
      else case importKey h publicKeyEd25519 of None \<Rightarrow> Inl AuthorizationKeyInvalid | Some publicKey \<Rightarrow>
      if \<not> edVerify h publicKey (canonicalize (collation h) (JObj (unsigned_authorization_fields a))) (sa_signature a)
      then Inl AuthorizationSignatureInvalid
      else if \<not> evidence_matches h a p then Inl EvidenceMismatch
      else Inr (s\<lparr>ps_verified := (ps_verified s)(r \<mapsto> (expiresAt, contentAuthorizationFingerprint h p))\<rparr>)))"

text \<open>\<open>trim\<close> leaves nothing exactly when every character is white space.\<close>

definition blank :: "string \<Rightarrow> bool" where
  "blank s = list_all (\<lambda>c. (of_char c :: nat) \<in> {9, 10, 11, 12, 13, 32, 160}) s"

definition content_grant_error ::
  "'key host \<Rightarrow> policy_state \<Rightarrow> nat \<Rightarrow> bool \<Rightarrow> jsnum \<Rightarrow> org_policy \<Rightarrow> automatic_disclosure \<Rightarrow> policy_error option" where
  "content_grant_error h s r allowUnverifiedAuthorization now p d =
     (if op_schema p \<noteq> ''dharma.organization-policy/v2'' then Some ContentRequiresV2
      else if (case ad_consentReceiptId d of None \<Rightarrow> True | Some c \<Rightarrow> blank c) then Some ContentRequiresConsent
      else if (case ad_allowedContentClasses d of None \<Rightarrow> True | Some cs \<Rightarrow> ''native_provider_payload'' \<notin> set cs)
      then Some ContentRequiresClass
      else if map_option sa_schema (op_serverAuthorization p) \<noteq> Some ''dharma.workspace-policy-authorization/v1''
      then Some ContentRequiresAuthorization
      else if \<not> allowUnverifiedAuthorization
         \<and> (case ps_verified s r of None \<Rightarrow> True
            | Some (expiresAt, fingerprint) \<Rightarrow>
                num_le expiresAt now \<or> fingerprint \<noteq> contentAuthorizationFingerprint h p)
      then Some ContentNotVerified
      else None)"

definition assertPolicy ::
  "'key host \<Rightarrow> policy_state \<Rightarrow> nat \<Rightarrow> bool \<Rightarrow> jsnum \<Rightarrow> (policy_error, unit) result" where
  "assertPolicy h s r allowUnverifiedAuthorization now =
     (case ps_heap s r of None \<Rightarrow> Inl NoSuchPolicy | Some p \<Rightarrow>
      let e = op_evidence p; disclosure = ev_automaticDisclosure e in
      if op_schema p \<noteq> ''dharma.organization-policy/v1'' \<and> op_schema p \<noteq> ''dharma.organization-policy/v2''
      then Inl UnsupportedSchema
      else if op_organizationId p = [] \<or> op_revision p = [] then Inl IdentityRequired
      else if \<not> ev_registeredWorkspaceOnly e then Inl RegisteredWorkspaceOnly
      else if ev_maximumCapsuleBytes e < 1 \<or> MAXIMUM_TRAJECTORY_CAPSULE_BYTES < ev_maximumCapsuleBytes e
      then Inl CapsuleBytesOutOfRange
      else if op_schema p = ''dharma.organization-policy/v1'' \<and> disclosure \<noteq> None then Inl DisclosureRequiresV2
      else case (case disclosure of None \<Rightarrow> None
          | Some d \<Rightarrow>
              if ad_mode d = CustomerAuthorizedContent
              then content_grant_error h s r allowUnverifiedAuthorization now p d
              else if ad_consentReceiptId d \<notin> {None, Some []} \<or> ad_allowedContentClasses d \<notin> {None, Some []}
              then Some GrantWithoutContentMode else None) of
        Some err \<Rightarrow> Inl err
      | None \<Rightarrow>
          if op_automaticPromotionMaxRisk p \<in> {R3, R4} then Inl PromotionRisk else Inr ())"

definition resolveRegisteredCommand :: "org_policy \<Rightarrow> string \<Rightarrow> (policy_error, command_policy) result" where
  "resolveRegisteredCommand p commandId =
     (case tp_allowedCommands (op_tasks p) commandId of
        None \<Rightarrow> Inl CommandNotRegistered
      | Some c \<Rightarrow>
          if cp_argv c = [] then Inl CommandNotRegistered
          else if list_ex (\<lambda>part. CHR 0x00 \<in> set part \<or> CHR 0x0A \<in> set part \<or> CHR 0x0D \<in> set part) (cp_argv c)
          then Inl CommandArgumentInvalid
          else Inr c)"

subsection \<open>What the verified map stands for\<close>

lemma wf_disclosure [simp]: "wf_json (disclosure_json d)"
  by (cases "ad_consentReceiptId d"; cases "ad_allowedContentClasses d") (simp_all add: disclosure_json_def)

lemma wf_evidence [simp]: "wf_json (evidence_json e)"
  by (cases "ev_automaticDisclosure e"; cases "ev_pseudonymizeIdentity e") (simp_all add: evidence_json_def)

lemma wf_authorization [simp]:
  "wf_json (authorization_json a)" "wf_json (JObj (unsigned_authorization_fields a))"
  by (simp_all add: authorization_json_def unsigned_authorization_fields_def signed_evidence_json_def)

lemma wf_content [simp]: "wf_json (content_json p)"
  by (cases "op_serverAuthorization p") (simp_all add: content_json_def)

text \<open>The signature is the only field that the signed text leaves out.\<close>

lemma meaning_unsigned_authorization:
  assumes eq: "meaning (authorization_json a) = meaning (authorization_json b)"
  shows "meaning (JObj (unsigned_authorization_fields a)) = meaning (JObj (unsigned_authorization_fields b))"
    and "sa_signature a = sa_signature b" and "sa_expiresAt a = sa_expiresAt b"
    and "sa_organizationId a = sa_organizationId b" and "sa_workspaceId a = sa_workspaceId b"
proof -
  note field = meaning_field [OF eq [unfolded authorization_json_def]]
  have "map_option meaning (map_of (unsigned_authorization_fields a) k)
      = map_option meaning (map_of (unsigned_authorization_fields b) k)" for k
  proof (cases "k = ''signature''")
    case True
    then show ?thesis by (simp add: unsigned_authorization_fields_def)
  next
    case False
    then have "map_of (unsigned_authorization_fields c @ [(''signature'', v)]) k = map_of (unsigned_authorization_fields c) k" for c v
      by (simp add: map_of_append map_add_def split: option.split)
    with field [of k] show ?thesis by simp
  qed
  then show "meaning (JObj (unsigned_authorization_fields a)) = meaning (JObj (unsigned_authorization_fields b))"
    unfolding meaning_obj_iff by blast
  show "sa_signature a = sa_signature b" "sa_expiresAt a = sa_expiresAt b"
    "sa_organizationId a = sa_organizationId b" "sa_workspaceId a = sa_workspaceId b"
    using field [of "''signature''"] field [of "''expiresAt''"] field [of "''organizationId''"]
      field [of "''workspaceId''"] by (simp_all add: unsigned_authorization_fields_def)
qed

lemma signed_evidence_fields:
  assumes eq: "meaning (authorization_json a) = meaning (authorization_json b)"
  shows "meaning (disclosure_json (sg_automaticDisclosure (sa_evidence a)))
      = meaning (disclosure_json (sg_automaticDisclosure (sa_evidence b)))"
    and "sg_maximumCapsuleBytes (sa_evidence a) = sg_maximumCapsuleBytes (sa_evidence b)"
    and "sg_maximumDailyUploadBytes (sa_evidence a) = sg_maximumDailyUploadBytes (sa_evidence b)"
proof -
  have "meaning (JObj [(''revision'', JStr (sa_revision a)), (''evidence'', signed_evidence_json (sa_evidence a))])
      = meaning (JObj [(''revision'', JStr (sa_revision b)), (''evidence'', signed_evidence_json (sa_evidence b))])"
    using meaning_field [OF eq [unfolded authorization_json_def], of "''policy''"]
    by (simp add: unsigned_authorization_fields_def)
  from meaning_field [OF this, of "''evidence''"]
  have ev: "meaning (signed_evidence_json (sa_evidence a)) = meaning (signed_evidence_json (sa_evidence b))" by simp
  note field = meaning_field [OF ev [unfolded signed_evidence_json_def]]
  show "meaning (disclosure_json (sg_automaticDisclosure (sa_evidence a)))
      = meaning (disclosure_json (sg_automaticDisclosure (sa_evidence b)))"
    using field [of "''automaticDisclosure''"] by simp
  show "sg_maximumCapsuleBytes (sa_evidence a) = sg_maximumCapsuleBytes (sa_evidence b)"
    "sg_maximumDailyUploadBytes (sa_evidence a) = sg_maximumDailyUploadBytes (sa_evidence b)"
    using field [of "''maximumCapsuleBytes''"] field [of "''maximumDailyUploadBytes''"] by simp_all
qed

text \<open>An authorization signed by the workspace key for the workspace, and what it fixes of the
  evidence policy.\<close>

definition genuine_authorization ::
  "'key host \<Rightarrow> string \<Rightarrow> string \<Rightarrow> string \<Rightarrow> server_authorization \<Rightarrow> bool" where
  "genuine_authorization h x org ws a =
     (sa_organizationId a = org \<and> sa_workspaceId a = ws
      \<and> (\<exists>key. importKey h x = Some key
          \<and> edVerify h key (canonicalize (collation h) (JObj (unsigned_authorization_fields a))) (sa_signature a)))"

lemma verify_ok_iff:
  "verifyServerAuthorizedPolicy h s r x org ws now = Inr s' \<longleftrightarrow>
     (\<exists>p a. ps_heap s r = Some p \<and> op_serverAuthorization p = Some a
        \<and> genuine_authorization h x org ws a \<and> evidence_matches h a p
        \<and> is_finite (dateParse h (sa_issuedAt a)) \<and> is_finite (dateParse h (sa_expiresAt a))
        \<and> \<not> num_lt (num_add now (Some (5 * 60000))) (dateParse h (sa_issuedAt a))
        \<and> \<not> num_le (dateParse h (sa_expiresAt a)) now
        \<and> s' = s\<lparr>ps_verified := (ps_verified s)
             (r \<mapsto> (dateParse h (sa_expiresAt a), contentAuthorizationFingerprint h p))\<rparr>)"
  unfolding verifyServerAuthorizedPolicy_def genuine_authorization_def
  by (auto simp: Let_def split: option.splits if_splits)

text \<open>The states of a process that verifies with one workspace key and may change its policy
  objects in any way between calls.\<close>

inductive policy_reachable ::
  "'key host \<Rightarrow> string \<Rightarrow> string \<Rightarrow> string \<Rightarrow> policy_state \<Rightarrow> bool"
  for h x org ws where
  start: "policy_reachable h x org ws \<lparr>ps_heap = heap, ps_verified = Map.empty\<rparr>"
| verified: "policy_reachable h x org ws s \<Longrightarrow>
     verifyServerAuthorizedPolicy h s r x org ws now = Inr s' \<Longrightarrow> policy_reachable h x org ws s'"
| mutated: "policy_reachable h x org ws s \<Longrightarrow> policy_reachable h x org ws (s\<lparr>ps_heap := heap\<rparr>)"

definition verified_inv :: "'key host \<Rightarrow> string \<Rightarrow> string \<Rightarrow> string \<Rightarrow> policy_state \<Rightarrow> bool" where
  "verified_inv h x org ws s =
     (\<forall>r y f. ps_verified s r = Some (y, f) \<longrightarrow>
        (\<exists>p a. op_serverAuthorization p = Some a \<and> genuine_authorization h x org ws a
           \<and> evidence_matches h a p \<and> y = dateParse h (sa_expiresAt a) \<and> is_finite y
           \<and> f = contentAuthorizationFingerprint h p))"

lemma reachable_verified_inv: "policy_reachable h x org ws s \<Longrightarrow> verified_inv h x org ws s"
proof (induction rule: policy_reachable.induct)
  case (verified s r now s')
  then obtain p a where p: "op_serverAuthorization p = Some a" "genuine_authorization h x org ws a"
      "evidence_matches h a p" "is_finite (dateParse h (sa_expiresAt a))"
    and s': "ps_verified s' = (ps_verified s)(r \<mapsto> (dateParse h (sa_expiresAt a), contentAuthorizationFingerprint h p))"
    by (auto simp: verify_ok_iff)
  show ?case
    unfolding verified_inv_def
  proof (intro allI impI)
    fix r' y f
    assume "ps_verified s' r' = Some (y, f)"
    with p s' verified.IH show "\<exists>p a. op_serverAuthorization p = Some a \<and> genuine_authorization h x org ws a
        \<and> evidence_matches h a p \<and> y = dateParse h (sa_expiresAt a) \<and> is_finite y
        \<and> f = contentAuthorizationFingerprint h p"
      unfolding verified_inv_def by (cases "r' = r") auto
  qed
qed (simp_all add: verified_inv_def)

lemma strict_content_verified:
  assumes "assertPolicy h s r False now = Inr ()" "ps_heap s r = Some p"
    and "ev_automaticDisclosure (op_evidence p) = Some d" "ad_mode d = CustomerAuthorizedContent"
  shows "\<exists>y. ps_verified s r = Some (y, contentAuthorizationFingerprint h p) \<and> \<not> num_le y now"
  using assms
  by (auto simp: assertPolicy_def Let_def content_grant_error_def split: if_splits option.splits)

text \<open>The content part of two policies with one fingerprint.\<close>

lemma fingerprint_eq:
  assumes order: "key_order (collation h)"
    and eq: "contentAuthorizationFingerprint h p = contentAuthorizationFingerprint h q"
    and q: "op_serverAuthorization q = Some b"
  shows "\<exists>a. op_serverAuthorization p = Some a \<and> meaning (authorization_json a) = meaning (authorization_json b)"
    and "op_revision p = op_revision q"
    and "meaning (evidence_json (op_evidence p)) = meaning (evidence_json (op_evidence q))"
proof -
  have "meaning (content_json p) = meaning (content_json q)"
    using canonical_text_iff [OF order wf_content wf_content] eq
    by (simp add: contentAuthorizationFingerprint_def)
  note field = meaning_field [OF this [unfolded content_json_def]]
  show "\<exists>a. op_serverAuthorization p = Some a \<and> meaning (authorization_json a) = meaning (authorization_json b)"
    using field [of "''serverAuthorization''"] q by (cases "op_serverAuthorization p") simp_all
  show "op_revision p = op_revision q" "meaning (evidence_json (op_evidence p)) = meaning (evidence_json (op_evidence q))"
    using field [of "''revision''"] field [of "''evidence''"] by simp_all
qed

lemma genuine_transfer:
  assumes order: "key_order (collation h)"
    and eq: "meaning (authorization_json a) = meaning (authorization_json b)"
    and b: "genuine_authorization h x org ws b"
  shows "genuine_authorization h x org ws a"
  using b meaning_unsigned_authorization [OF eq] canonical_text_iff [OF order wf_authorization(2) wf_authorization(2), of a b]
  by (auto simp: genuine_authorization_def)

lemma evidence_fields:
  assumes "meaning (evidence_json e) = meaning (evidence_json e')"
  shows "map_option (meaning \<circ> disclosure_json) (ev_automaticDisclosure e)
      = map_option (meaning \<circ> disclosure_json) (ev_automaticDisclosure e')"
    and "ev_maximumCapsuleBytes e = ev_maximumCapsuleBytes e'"
    and "ev_maximumDailyUploadBytes e = ev_maximumDailyUploadBytes e'"
    and "ev_excludePaths e = ev_excludePaths e'"
    and "ev_pseudonymizeIdentity e = ev_pseudonymizeIdentity e'"
proof -
  note field = meaning_field [OF assms [unfolded evidence_json_def]]
  show "map_option (meaning \<circ> disclosure_json) (ev_automaticDisclosure e)
      = map_option (meaning \<circ> disclosure_json) (ev_automaticDisclosure e')"
    using field [of "''automaticDisclosure''"]
    by (cases "ev_automaticDisclosure e"; cases "ev_automaticDisclosure e'";
        cases "ev_pseudonymizeIdentity e"; cases "ev_pseudonymizeIdentity e'") simp_all
  show "ev_maximumCapsuleBytes e = ev_maximumCapsuleBytes e'"
    "ev_maximumDailyUploadBytes e = ev_maximumDailyUploadBytes e'"
    using field [of "''maximumCapsuleBytes''"] field [of "''maximumDailyUploadBytes''"] by simp_all
  show "ev_excludePaths e = ev_excludePaths e'"
    using field [of "''excludePaths''"] by (simp add: meaning_str_array)
  show "ev_pseudonymizeIdentity e = ev_pseudonymizeIdentity e'"
    using field [of "''pseudonymizeIdentity''"]
    by (cases "ev_automaticDisclosure e"; cases "ev_automaticDisclosure e'";
        cases "ev_pseudonymizeIdentity e"; cases "ev_pseudonymizeIdentity e'") simp_all
qed

subsection \<open>Properties\<close>

text \<open>
  C4. Content leaves the device only under a live server authorization.  In every reachable
  state of a process that verifies with the workspace's key, if the strict check accepts a policy
  object whose disclosure mode is customer-authorized content, then the object carries now, and
  not only when it was verified, an authorization signed by that key for that organization and
  workspace, unexpired, whose signed disclosure and byte limits are those of the local evidence
  policy.  Changing the object after its verification does not keep the check green.
\<close>

theorem content_needs_server_authorization:
  assumes order: "key_order (collation h)"
    and reach: "policy_reachable h x org ws s"
    and strict: "assertPolicy h s r False (Some now) = Inr ()" and p: "ps_heap s r = Some p"
    and mode: "ev_automaticDisclosure (op_evidence p) = Some d" "ad_mode d = CustomerAuthorizedContent"
  shows "\<exists>a e. op_serverAuthorization p = Some a \<and> genuine_authorization h x org ws a
    \<and> dateParse h (sa_expiresAt a) = Some e \<and> now < e
    \<and> ev_pseudonymizeIdentity (op_evidence p) = Some True
    \<and> meaning (disclosure_json (sg_automaticDisclosure (sa_evidence a))) = meaning (disclosure_json d)
    \<and> sg_maximumCapsuleBytes (sa_evidence a) = ev_maximumCapsuleBytes (op_evidence p)
    \<and> sg_maximumDailyUploadBytes (sa_evidence a) = ev_maximumDailyUploadBytes (op_evidence p)"
proof -
  obtain y where y: "ps_verified s r = Some (y, contentAuthorizationFingerprint h p)" "\<not> num_le y (Some now)"
    using strict_content_verified [OF strict p mode] by blast
  then obtain q b where q: "op_serverAuthorization q = Some b" "genuine_authorization h x org ws b"
      "evidence_matches h b q" "y = dateParse h (sa_expiresAt b)" "is_finite y"
    and fp: "contentAuthorizationFingerprint h p = contentAuthorizationFingerprint h q"
    using reachable_verified_inv [OF reach] unfolding verified_inv_def by blast
  obtain a where a: "op_serverAuthorization p = Some a" "meaning (authorization_json a) = meaning (authorization_json b)"
    using fingerprint_eq(1) [OF order fp q(1)] by blast
  note ev = evidence_fields [OF fingerprint_eq(3) [OF order fp q(1)]]
  note sg = signed_evidence_fields [OF a(2)]
  from q(3) have "Some (canonicalize (collation h) (disclosure_json (sg_automaticDisclosure (sa_evidence b))))
      = map_option (canonicalize (collation h) \<circ> disclosure_json) (ev_automaticDisclosure (op_evidence q))"
    by (simp add: evidence_matches_def Let_def)
  then obtain d' where d': "ev_automaticDisclosure (op_evidence q) = Some d'"
      "canonicalize (collation h) (disclosure_json (sg_automaticDisclosure (sa_evidence b)))
        = canonicalize (collation h) (disclosure_json d')"
    by (cases "ev_automaticDisclosure (op_evidence q)") simp_all
  have "meaning (disclosure_json d) = meaning (disclosure_json d')"
    using ev(1) mode(1) d'(1) by simp
  then have disc: "meaning (disclosure_json (sg_automaticDisclosure (sa_evidence a))) = meaning (disclosure_json d)"
    using sg(1) d'(2) canonical_text_iff [OF order wf_disclosure wf_disclosure, of "sg_automaticDisclosure (sa_evidence b)" d']
    by simp
  have expiry: "\<exists>e. dateParse h (sa_expiresAt a) = Some e \<and> now < e"
    using meaning_unsigned_authorization(3) [OF a(2)] q(4,5) y(2) by (auto simp: is_finite_iff)
  have genuine: "genuine_authorization h x org ws a" by (rule genuine_transfer [OF order a(2) q(2)])
  have "ev_pseudonymizeIdentity (op_evidence p) = Some True"
    "sg_maximumCapsuleBytes (sa_evidence a) = ev_maximumCapsuleBytes (op_evidence p)"
    "sg_maximumDailyUploadBytes (sa_evidence a) = ev_maximumDailyUploadBytes (op_evidence p)"
    using q(3) ev sg by (simp_all add: evidence_matches_def Let_def)
  with expiry genuine a(1) disc show ?thesis by blast
qed

text \<open>
  A command that runs was registered, and its argument vector is not empty and carries no
  NUL, line feed or carriage return, so that a vector has one meaning for the operating system
  and for a log line; resolution fails for every other identifier and never changes the entry.
\<close>

theorem resolved_command_registered:
  "resolveRegisteredCommand p i = Inr c \<longleftrightarrow>
     tp_allowedCommands (op_tasks p) i = Some c \<and> cp_argv c \<noteq> []
     \<and> {CHR 0x00, CHR 0x0A, CHR 0x0D} \<inter> \<Union> (set ` set (cp_argv c)) = {}"
  by (auto simp: resolveRegisteredCommand_def list_ex_iff split: option.splits)

definition demo_disclosure :: automatic_disclosure where
  "demo_disclosure = \<lparr>ad_mode = CustomerAuthorizedContent, ad_consentReceiptId = Some ''c'',
     ad_allowedContentClasses = Some [''native_provider_payload'']\<rparr>"

definition demo_authorization :: server_authorization where
  "demo_authorization = (let a = \<lparr>sa_schema = ''dharma.workspace-policy-authorization/v1'', sa_organizationId = ''o'',
     sa_workspaceId = ''w'', sa_revision = ''1'',
     sa_evidence = \<lparr>sg_automaticDisclosure = demo_disclosure, sg_maximumCapsuleBytes = 100,
        sg_maximumDailyUploadBytes = 100, sg_maximumExpansionBytes = 100, sg_excludePaths = [],
        sg_pseudonymizeIdentity = True\<rparr>,
     sa_issuedAt = ''1000'', sa_expiresAt = ''9000'', sa_signature = [], sa_keyVersion = ''k''\<rparr>
     in a\<lparr>sa_signature := ''k'' @ canonicalize code_unit_le (JObj (unsigned_authorization_fields a))\<rparr>)"

definition demo_policy :: org_policy where
  "demo_policy = \<lparr>op_schema = ''dharma.organization-policy/v2'', op_organizationId = ''o'', op_revision = ''1'',
     op_evidence = \<lparr>ev_defaultMode = ''deep'', ev_automaticDisclosure = Some demo_disclosure,
        ev_registeredWorkspaceOnly = True, ev_excludePaths = [], ev_maximumCapsuleBytes = 100,
        ev_maximumDailyUploadBytes = 100, ev_maximumExpansionBytes = 100, ev_pseudonymizeIdentity = Some True\<rparr>,
     op_tasks = \<lparr>tp_defaultNetwork = ''deny'', tp_defaultGit = ''task_branch'', tp_allowedCommands = Map.empty,
        tp_writePaths = [], tp_requireLocalConfirmationFor = []\<rparr>,
     op_automaticInstall = False, op_automaticPromotionMaxRisk = R1, op_canaryPercent = 0,
     op_retention = [], op_budgets = [], op_serverAuthorization = Some demo_authorization\<rparr>"

lemma demo_policy_times [simp]: "demo_parse ''1000'' = Some 1000" "demo_parse ''9000'' = Some 9000"
  by (simp_all add: demo_parse_def is_digit_def decimal_value_def)

definition demo_policy_state :: policy_state where
  "demo_policy_state = \<lparr>ps_heap = [0 \<mapsto> demo_policy],
     ps_verified = [0 \<mapsto> (Some 9000, contentAuthorizationFingerprint demo_host demo_policy)]\<rparr>"

lemma demo_policy_reachable: "policy_reachable demo_host ''k'' ''o'' ''w'' demo_policy_state"
proof (rule policy_reachable.verified [OF policy_reachable.start [of _ _ _ _ "[0 \<mapsto> demo_policy]"]])
  show "verifyServerAuthorizedPolicy demo_host \<lparr>ps_heap = [0 \<mapsto> demo_policy], ps_verified = Map.empty\<rparr> 0
      ''k'' ''o'' ''w'' (Some 1000) = Inr demo_policy_state"
    by (simp add: verify_ok_iff demo_policy_def demo_authorization_def genuine_authorization_def
        evidence_matches_def unsigned_authorization_fields_def Let_def demo_policy_state_def)
qed

theorem content_needs_server_authorization_witness:
  "\<exists>a. op_serverAuthorization demo_policy = Some a \<and> genuine_authorization demo_host ''k'' ''o'' ''w'' a"
proof -
  have "assertPolicy demo_host demo_policy_state 0 False (Some 2000) = Inr ()"
    by (simp add: assertPolicy_def demo_policy_state_def demo_policy_def demo_disclosure_def Let_def
        MAXIMUM_TRAJECTORY_CAPSULE_BYTES_def content_grant_error_def blank_def demo_authorization_def
        contentAuthorizationFingerprint_def)
  from content_needs_server_authorization [OF demo_host_key_order demo_policy_reachable this, of demo_policy demo_disclosure]
  show ?thesis by (auto simp: demo_policy_state_def demo_policy_def demo_disclosure_def)
qed
end
