(* ===== verification/Task_Scope.thy ===== *)
theory Task_Scope
  imports Decisions Org_Policy
begin

text \<open>
  Task envelopes and the scope checks of packages/task-runner/src/index.ts: policy path patterns,
  required artifacts, local policy, repository knowledge, the write scope read from git and the
  verification of the envelope.  The schema validator of the envelope is the parameter
  \<open>taskOk\<close>.  Paths are POSIX paths; the platform selects the limit of a path's length.
\<close>

record task =
  tk_taskId :: string
  tk_organizationId :: string
  tk_workspaceId :: string
  tk_taskType :: task_type
  tk_deviceId :: string
  tk_endpointId :: "string option"
  tk_provider :: provider_id
  tk_requiredCapabilities :: "string list option"
  tk_actionDecision :: "decision_envelope option"
  tk_source :: "task_source option"
  tk_skillBundle :: "skill_bundle option"
  tk_instructions :: string
  tk_requiredSkills :: "required_skill list"
  tk_stateEnvelope :: "state_envelope option"
  tk_evidenceReferences :: "evidence_reference list option"
  tk_authority :: authority
  tk_execution :: execution_limits
  tk_acceptance :: acceptance
  tk_budget :: budget
  tk_createdAt :: string
  tk_expiresAt :: string
  tk_nonce :: string
  tk_signerKeyVersion :: "string option"
  tk_signature :: "string option"

subsection \<open>Policy path patterns\<close>

definition strip_suffix :: "string \<Rightarrow> string \<Rightarrow> string" where
  "strip_suffix s e = (if ends_with s e then take (length s - length e) s else s)"

definition strip_prefix :: "string \<Rightarrow> string \<Rightarrow> string" where
  "strip_prefix s p = (if starts_with s p then drop (length p) s else s)"

definition normalizePolicyPath :: "string \<Rightarrow> string" where
  "normalizePolicyPath v =
     strip_suffix (strip_prefix (map (\<lambda>c. if c = CHR 0x5C then CHR ''/'' else c) v) ''./'') ''/''"

definition allowed_prefix :: "string \<Rightarrow> string" where
  "allowed_prefix pattern = strip_suffix (normalizePolicyPath pattern) ''/**''"

definition pathWithinPolicy :: "string \<Rightarrow> string list \<Rightarrow> bool" where
  "pathWithinPolicy candidate patterns =
     (let normalized = normalizePolicyPath candidate in
      list_ex (\<lambda>pattern. let allowed = allowed_prefix pattern in
        allowed = ''.'' \<or> normalized = allowed \<or> starts_with normalized (allowed @ ''/'')) patterns)"

subsection \<open>Required artifacts\<close>

datatype platform = Darwin | OtherPosix

definition path_limit :: "platform \<Rightarrow> nat" where
  "path_limit p = (case p of Darwin \<Rightarrow> 1023 | OtherPosix \<Rightarrow> 4095)"

text \<open>Code points of \<open>normalize('NFC').toLowerCase().toUpperCase().toLowerCase().normalize('NFC')\<close>
  of a character up to \<open>0xFF\<close>: sharp s becomes \<open>ss\<close> and the micro sign the Greek mu.\<close>

definition fold_char :: "char \<Rightarrow> nat list" where
  "fold_char c = (let n = of_char c in
     if n = 223 then [115, 115]
     else if n = 181 then [956]
     else if 65 \<le> n \<and> n \<le> 90 \<or> 192 \<le> n \<and> n \<le> 222 \<and> n \<noteq> 215 then [n + 32]
     else [n])"

definition portable_name :: "string \<Rightarrow> nat list" where
  "portable_name s = concat (map fold_char s)"

definition lower_ascii :: "char \<Rightarrow> char" where
  "lower_ascii c = (if 65 \<le> (of_char c :: nat) \<and> (of_char c :: nat) \<le> 90 then char_of (of_char c + 32 :: nat) else c)"

text \<open>The device names of the regular expression: the part up to the first dot.\<close>

definition device_names :: "string list" where
  "device_names = [''con'', ''conin$'', ''conout$'', ''prn'', ''aux'', ''nul'']
     @ concat (map (\<lambda>d. [''com'' @ [d], ''lpt'' @ [d]])
         (''123456789'' @ [CHR 0xB9, CHR 0xB2, CHR 0xB3]))"

definition reserved_part :: "string \<Rightarrow> bool" where
  "reserved_part part = (map lower_ascii (takeWhile (\<lambda>c. c \<noteq> CHR ''.'') part) \<in> set device_names)"

definition forbidden_char :: "char \<Rightarrow> bool" where
  "forbidden_char c = (c \<in> {CHR 0x5C, CHR '':'', CHR ''*'', CHR ''?'', CHR 0x22, CHR ''<'', CHR ''>'', CHR ''|''}
     \<or> (of_char c :: nat) < 32 \<or> (of_char c :: nat) = 127)"

definition bad_part :: "string \<Rightarrow> bool" where
  "bad_part part = (part = [] \<or> part = ''.'' \<or> part = ''..'' \<or> last part \<in> {CHR ''.'', CHR '' ''}
     \<or> 255 < utf8_length part \<or> reserved_part part)"

datatype artifact_error =
    ArtifactInvalid | ArtifactUnauthorized | ArtifactInterrupted | ArtifactExpired
  | ArtifactMissing | ArtifactUnreadable | ArtifactUnsafe | ArtifactUnavailable | ArtifactNotFile
  | ArtifactWriteUnauthorized

definition artifact_invalid :: "platform \<Rightarrow> string \<Rightarrow> string \<Rightarrow> bool" where
  "artifact_invalid p worktree artifact =
     (1000 < length artifact
      \<or> artifact = [] \<or> list_ex forbidden_char artifact
      \<or> path_limit p < utf8_length (if worktree = [] then artifact else resolve worktree artifact)
      \<or> list_ex bad_part (split_on (CHR ''/'') artifact))"

text \<open>\<open>portableNames\<close> is an association list, the latest entry first.\<close>

definition portable_conflict :: "(nat list \<times> string) list \<Rightarrow> string \<Rightarrow> bool" where
  "portable_conflict names artifact = (let portable = portable_name artifact in
     (case map_of names portable of None \<Rightarrow> False | Some previous \<Rightarrow> previous \<noteq> artifact)
     \<or> list_ex (\<lambda>(existing, _). prefix (existing @ [47]) portable \<or> prefix (portable @ [47]) existing) names)"

fun check_artifacts ::
  "platform \<Rightarrow> string \<Rightarrow> string list \<Rightarrow> (nat list \<times> string) list \<Rightarrow> string list
     \<Rightarrow> (artifact_error, unit) result" where
  "check_artifacts p worktree readPaths names [] = Inr ()"
| "check_artifacts p worktree readPaths names (a # as) =
     (if artifact_invalid p worktree a then Inl ArtifactInvalid
      else if portable_conflict names a then Inl ArtifactInvalid
      else if \<not> pathWithinPolicy a readPaths then Inl ArtifactUnauthorized
      else check_artifacts p worktree readPaths ((portable_name a, a) # names) as)"

text \<open>\<open>[...new Set(xs)]\<close> keeps the first occurrences.\<close>

definition unique_list :: "'a list \<Rightarrow> 'a list" where
  "unique_list xs = rev (remdups (rev xs))"

definition requiredArtifactReferences ::
  "platform \<Rightarrow> task \<Rightarrow> string \<Rightarrow> (artifact_error, string list) result" where
  "requiredArtifactReferences p t worktree =
     (let required = ac_requiredArtifacts (tk_acceptance t) in
      if 100 < length required then Inl ArtifactInvalid
      else case check_artifacts p worktree (au_readPaths (tk_authority t)) [] required of
        Inl e \<Rightarrow> Inl e
      | Inr _ \<Rightarrow> Inr (unique_list required))"

subsection \<open>Local policy and repository knowledge\<close>

text \<open>\<open>networkRank\<close> is an object literal: reading an inherited name gives a function or an object,
  whose comparison with a number is false.\<close>

definition inherited_names :: "string list" where
  "inherited_names = [''constructor'', ''toString'', ''toLocaleString'', ''valueOf'', ''hasOwnProperty'',
     ''isPrototypeOf'', ''propertyIsEnumerable'', ''__proto__'', ''__defineGetter__'', ''__defineSetter__'',
     ''__lookupGetter__'', ''__lookupSetter__'']"

definition networkRank :: "string \<Rightarrow> int option" where
  "networkRank n = map_of [(''deny'', 0), (''package_registry_only'', 1), (''allowlisted_domains'', 2),
     (''inherit_local_provider'', 3)] n"

definition network_exceeds :: "string \<Rightarrow> string \<Rightarrow> bool" where
  "network_exceeds requested limit =
     (if requested \<in> set inherited_names \<or> limit \<in> set inherited_names then False
      else case networkRank requested of
        None \<Rightarrow> True
      | Some r \<Rightarrow> r > (case networkRank limit of None \<Rightarrow> -1 | Some d \<Rightarrow> d))"

datatype task_error =
    TaskSchemaInvalid | AcceptanceCapacity | TaskSignatureRequired | TaskExpired | TaskKeyUnavailable
  | TaskSignatureInvalid | WriteAuthorityExceeded | NetworkAuthorityExceeded | KnowledgeScopeMismatch
  | KnowledgeNeedsReadOnly | KnowledgeTooLarge | WorktreeEscapes | GitFailed | GitOutputIncomplete
  | WriteOutsideAuthority

definition assertTaskWithinLocalPolicy :: "task \<Rightarrow> org_policy \<Rightarrow> (task_error, unit) result" where
  "assertTaskWithinLocalPolicy t p =
     (if list_ex (\<lambda>path. \<not> pathWithinPolicy path (tp_writePaths (op_tasks p))) (au_writePaths (tk_authority t))
      then Inl WriteAuthorityExceeded
      else if network_exceeds (au_network (tk_authority t)) (tp_defaultNetwork (op_tasks p))
      then Inl NetworkAuthorityExceeded
      else Inr ())"

record knowledge =
  kn_organizationId :: string
  kn_workspaceId :: string
  kn_provider :: provider_id
  kn_bundleId :: string
  kn_bundleHash :: string
  kn_catalogBytes :: string
  kn_manifestBytes :: string

definition TASK_KNOWLEDGE_DIRECTORY :: string where
  "TASK_KNOWLEDGE_DIRECTORY = ''.dharma-task-knowledge''"

definition assertTaskKnowledgeScope :: "task \<Rightarrow> knowledge \<Rightarrow> (task_error, unit) result" where
  "assertTaskKnowledgeScope t k =
     (if tk_organizationId t \<noteq> kn_organizationId k \<or> tk_workspaceId t \<noteq> kn_workspaceId k
         \<or> tk_provider t \<noteq> kn_provider k
         \<or> map_option sk_bundleId (tk_skillBundle t) \<noteq> Some (kn_bundleId k)
         \<or> map_option sk_bundleHash (tk_skillBundle t) \<noteq> Some (kn_bundleHash k)
      then Inl KnowledgeScopeMismatch
      else if au_writePaths (tk_authority t) \<noteq> [] \<or> au_commands (tk_authority t) \<noteq> []
         \<or> au_network (tk_authority t) \<noteq> ''deny'' \<or> ''.'' \<notin> set (au_readPaths (tk_authority t))
      then Inl KnowledgeNeedsReadOnly
      else if \<not> list_all (\<lambda>b. 0 < length b \<and> length b \<le> 262144) [kn_catalogBytes k, kn_manifestBytes k]
      then Inl KnowledgeTooLarge
      else Inr ())"

definition assertContained :: "string \<Rightarrow> string \<Rightarrow> string \<Rightarrow> (task_error, string) result" where
  "assertContained cwd root candidate =
     (let absolute = resolve cwd candidate; route = relative_route (resolve cwd root) absolute in
      if (route = [] \<or> route = ''..'' \<or> starts_with route ''../'' \<or> starts_with route [CHR ''.'', CHR ''.'', CHR 0x5C]
          \<or> isAbsolute route) \<and> route \<noteq> []
      then Inl WorktreeEscapes else Inr absolute)"

subsection \<open>Write scope\<close>

text \<open>The two git calls are parameters: their output, or \<open>None\<close> when the call failed.\<close>

definition assertTaskWriteScope ::
  "string option \<Rightarrow> string option \<Rightarrow> string list \<Rightarrow> (task_error, unit) result" where
  "assertTaskWriteScope diffOutput lsFilesOutput writePaths =
     (case diffOutput of None \<Rightarrow> Inl GitFailed | Some tracked \<Rightarrow>
     (case lsFilesOutput of None \<Rightarrow> Inl GitFailed | Some untracked \<Rightarrow>
      if tracked \<noteq> [] \<and> \<not> ends_with tracked [CHR 0x00] \<or> untracked \<noteq> [] \<and> \<not> ends_with untracked [CHR 0x00]
      then Inl GitOutputIncomplete
      else let changedPaths = filter (\<lambda>p. p \<noteq> []) (split_on (CHR 0x00) tracked @ split_on (CHR 0x00) untracked) in
        if list_ex (\<lambda>path. \<not> pathWithinPolicy path writePaths) changedPaths
        then Inl WriteOutsideAuthority else Inr ()))"

subsection \<open>Verification of the envelope\<close>

definition decision_envelope_json :: "decision_envelope \<Rightarrow> json" where
  "decision_envelope_json e = JObj
     [(''id'', JStr (de_id e)), (''actionDigest'', JStr (de_actionDigest e)),
      (''receipt'', receipt_json (de_receipt e)), (''signature'', JStr (de_signature e)),
      (''keyVersion'', JStr (de_keyVersion e))]"

definition unsigned_task :: "task \<Rightarrow> json" where
  "unsigned_task t = JObj
     ([(''schema'', JStr ''dharma.task/v1''), (''taskId'', JStr (tk_taskId t)),
       (''organizationId'', JStr (tk_organizationId t)), (''workspaceId'', JStr (tk_workspaceId t)),
       (''taskType'', JStr (task_type_name (tk_taskType t))),
       (''target'', JObj ([(''deviceId'', JStr (tk_deviceId t)), (''provider'', JStr (provider_name (tk_provider t)))]
          @ opt_field ''endpointId'' (map_option JStr (tk_endpointId t)))),
       (''skillBundle'', skill_bundle_json (tk_skillBundle t)), (''instructions'', JStr (tk_instructions t)),
       (''requiredSkills'', JArr (map required_skill_json (tk_requiredSkills t))),
       (''authority'', authority_json (tk_authority t)), (''execution'', execution_json (tk_execution t)),
       (''acceptance'', acceptance_json (tk_acceptance t)), (''budget'', budget_json (tk_budget t)),
       (''createdAt'', JStr (tk_createdAt t)), (''expiresAt'', JStr (tk_expiresAt t)), (''nonce'', JStr (tk_nonce t))]
      @ opt_field ''requiredCapabilities'' (map_option str_array (tk_requiredCapabilities t))
      @ opt_field ''actionDecision'' (map_option decision_envelope_json (tk_actionDecision t))
      @ opt_field ''source'' (map_option source_json (tk_source t))
      @ opt_field ''stateEnvelope'' (map_option state_envelope_json (tk_stateEnvelope t))
      @ opt_field ''evidenceReferences'' (map_option (JArr \<circ> map evidence_reference_json) (tk_evidenceReferences t))
      @ opt_field ''signerKeyVersion'' (map_option JStr (tk_signerKeyVersion t)))"

text \<open>The key resolver is absent (\<open>None\<close>) or a function.\<close>

definition verifyTaskEnvelope ::
  "'key host \<Rightarrow> (task \<Rightarrow> bool) \<Rightarrow> task \<Rightarrow> 'key \<Rightarrow> (string \<Rightarrow> 'key option) option \<Rightarrow> jsnum
     \<Rightarrow> (task_error, unit) result" where
  "verifyTaskEnvelope h taskOk t publicKey resolvePublicKey now =
     (if \<not> taskOk t then Inl TaskSchemaInvalid
      else if 98 < length (ac_commands (tk_acceptance t)) then Inl AcceptanceCapacity
      else if tk_signature t \<in> {None, Some []} then Inl TaskSignatureRequired
      else if num_le (dateParse h (tk_expiresAt t)) now then Inl TaskExpired
      else case (if tk_signerKeyVersion t \<in> {None, Some []} then Some publicKey
                 else Option.bind resolvePublicKey (\<lambda>f. f (the (tk_signerKeyVersion t)))) of
        None \<Rightarrow> Inl TaskKeyUnavailable
      | Some key \<Rightarrow>
          if verifyCanonicalObject h (unsigned_task t) (the (tk_signature t)) key
          then Inr () else Inl TaskSignatureInvalid)"

text \<open>The action of a task.  The exception is a missing endpoint.\<close>

definition canonicalTaskActionForTask :: "task \<Rightarrow> string \<Rightarrow> (unit, task_action) result" where
  "canonicalTaskActionForTask t actionId =
     (if tk_endpointId t \<in> {None, Some []} then Inl ()
      else Inr \<lparr>ta_organizationId = tk_organizationId t, ta_actionId = actionId, ta_taskId = tk_taskId t,
        ta_targetEndpointId = the (tk_endpointId t), ta_workspaceId = tk_workspaceId t,
        ta_taskType = tk_taskType t, ta_instructions = tk_instructions t, ta_source = tk_source t,
        ta_stateEnvelope = (if tk_source t = None then None else tk_stateEnvelope t),
        ta_evidenceReferences = (if tk_source t = None then None else tk_evidenceReferences t),
        ta_skillBundle = tk_skillBundle t, ta_requiredSkills = tk_requiredSkills t,
        ta_authority = tk_authority t, ta_execution = tk_execution t, ta_acceptance = tk_acceptance t,
        ta_budget = tk_budget t, ta_expiresAt = tk_expiresAt t\<rparr>)"

subsection \<open>Pattern matching by segments\<close>

lemma starts_with_slash_iff:
  "n = a \<or> starts_with n (a @ ''/'') \<longleftrightarrow> prefix (split_on (CHR ''/'') a) (split_on (CHR ''/'') n)"
proof
  assume "n = a \<or> starts_with n (a @ ''/'')"
  then show "prefix (split_on (CHR ''/'') a) (split_on (CHR ''/'') n)"
    by (auto simp: starts_with_iff split_on_glue)
next
  assume "prefix (split_on (CHR ''/'') a) (split_on (CHR ''/'') n)"
  then obtain zs where zs: "split_on (CHR ''/'') n = split_on (CHR ''/'') a @ zs" by (auto simp: prefix_def)
  have n: "n = join_with ''/'' (split_on (CHR ''/'') n)" by (simp add: join_split)
  show "n = a \<or> starts_with n (a @ ''/'')"
  proof (cases "zs = []")
    case True
    with n zs show ?thesis by (simp add: join_split)
  next
    case False
    then have "n = a @ ''/'' @ join_with ''/'' zs"
      using n zs join_with_append [of "split_on (CHR ''/'') a" zs "''/''"] by (simp add: join_split)
    then show ?thesis by (auto simp: starts_with_iff)
  qed
qed

lemma pathWithinPolicy_iff:
  "pathWithinPolicy c ps \<longleftrightarrow> (\<exists>p \<in> set ps. allowed_prefix p = ''.''
     \<or> prefix (split_on (CHR ''/'') (allowed_prefix p)) (split_on (CHR ''/'') (normalizePolicyPath c)))"
  by (simp add: pathWithinPolicy_def Let_def list_ex_iff starts_with_slash_iff)


subsection \<open>Required artifacts are portable, authorised and inside the worktree\<close>

lemma ok_part_plain: "\<not> bad_part s \<Longrightarrow> CHR ''/'' \<notin> set s \<Longrightarrow> plain_segment s"
  by (auto simp: bad_part_def plain_segment_def)

lemma valid_parts_plain:
  assumes "\<not> artifact_invalid p w a"
  shows "list_all plain_segment (split_on (CHR ''/'') a)" "\<not> isAbsolute a"
proof -
  have ok: "\<forall>s \<in> set (split_on (CHR ''/'') a). \<not> bad_part s"
    using assms by (auto simp: artifact_invalid_def list_ex_iff)
  with split_on_parts [of "CHR ''/''" a] show "list_all plain_segment (split_on (CHR ''/'') a)"
    by (auto simp: list_all_iff intro: ok_part_plain)
  show "\<not> isAbsolute a"
  proof
    assume "isAbsolute a"
    then obtain t where "a = CHR ''/'' # t" by (auto simp: isAbsolute_def starts_with_iff)
    with ok show False by (simp add: bad_part_def)
  qed
qed

lemma resolve_plain:
  assumes "list_all plain_segment (split_on (CHR ''/'') a)" "\<not> isAbsolute a"
  shows "path_segments (resolve w a) = path_segments w @ split_on (CHR ''/'') a"
  using assms by (simp add: path_segments_resolve path_segments_join normalize_id del: append.simps)

text \<open>Names recorded so far, and how two accepted artifacts relate.\<close>

definition unrelated :: "string \<Rightarrow> string \<Rightarrow> bool" where
  "unrelated a b = (a = b \<or> portable_name a \<noteq> portable_name b
     \<and> \<not> prefix (portable_name a @ [47]) (portable_name b) \<and> \<not> prefix (portable_name b @ [47]) (portable_name a))"

definition names_inv :: "(nat list \<times> string) list \<Rightarrow> bool" where
  "names_inv names = (\<forall>(k, a) \<in> set names. k = portable_name a \<and> map_of names k = Some a)"

lemma names_invD:
  assumes inv: "names_inv names" and b: "(k, a) \<in> set names"
  shows "k = portable_name a \<and> map_of names k = Some a"
  using bspec [OF inv [unfolded names_inv_def] b, unfolded prod.case] .

lemma unrelated_sym: "unrelated a b \<Longrightarrow> unrelated b a"
  by (auto simp: unrelated_def)

lemma no_conflict_parts:
  assumes "\<not> portable_conflict names a"
  shows "\<not> (case map_of names (portable_name a) of None \<Rightarrow> False | Some previous \<Rightarrow> previous \<noteq> a)"
    and "\<forall>e \<in> set names. \<not> (prefix (fst e @ [47]) (portable_name a) \<or> prefix (portable_name a @ [47]) (fst e))"
  using assms unfolding portable_conflict_def Let_def list_ex_iff case_prod_unfold by blast+

lemma no_conflict_unrelated:
  assumes inv: "names_inv names" and ok: "\<not> portable_conflict names a" and b: "(k, b) \<in> set names"
  shows "unrelated a b"
proof -
  note kb = conjunct1 [OF names_invD [OF inv b]] and m = conjunct2 [OF names_invD [OF inv b]]
  have nested: "\<not> (prefix (k @ [47]) (portable_name a) \<or> prefix (portable_name a @ [47]) k)"
    using bspec [OF no_conflict_parts(2) [OF ok] b] unfolding fst_conv .
  have same: "a = b" if eq: "portable_name a = portable_name b"
  proof -
    have "map_of names (portable_name a) = Some b" unfolding eq by (rule m [unfolded kb])
    with no_conflict_parts(1) [OF ok] show ?thesis by (simp only: option.case) blast
  qed
  show ?thesis unfolding unrelated_def using nested [unfolded kb] same by blast
qed

lemma names_inv_add:
  assumes inv: "names_inv names" and ok: "\<not> portable_conflict names a"
  shows "names_inv ((portable_name a, a) # names)"
proof -
  have new: "b = a" if "(portable_name a, b) \<in> set names" for b
    using no_conflict_unrelated [OF inv ok that] names_invD [OF inv that] unfolding unrelated_def by blast
  show ?thesis
    unfolding names_inv_def
  proof (rule ballI, clarify)
    fix k b assume kb: "(k, b) \<in> set ((portable_name a, a) # names)"
    show "k = portable_name b \<and> map_of ((portable_name a, a) # names) k = Some b"
    proof (cases "k = portable_name a")
      case True
      with kb new have "b = a" by auto
      with True show ?thesis by simp
    next
      case False
      with kb have "(k, b) \<in> set names" by auto
      from names_invD [OF inv this] have "k = portable_name b" "map_of names k = Some b" by blast+
      with False show ?thesis by (simp only: map_of.simps fst_conv snd_conv fun_upd_other simp_thms)
    qed
  qed
qed

lemma check_artifacts_ok:
  "check_artifacts p w rp names as = Inr () \<Longrightarrow> names_inv names \<Longrightarrow>
     (\<forall>a \<in> set as. \<not> artifact_invalid p w a \<and> pathWithinPolicy a rp)
     \<and> (\<forall>a \<in> set as. \<forall>b \<in> set as \<union> snd ` set names. unrelated a b)"
proof (induction as arbitrary: names)
  case (Cons a as)
  then have ok: "\<not> artifact_invalid p w a" "\<not> portable_conflict names a" "pathWithinPolicy a rp"
    and rest: "check_artifacts p w rp ((portable_name a, a) # names) as = Inr ()"
    by (auto split: if_splits)
  note IH = Cons.IH [OF rest names_inv_add [OF Cons.prems(2) ok(2)]]
  have "unrelated a b" if "(k, b) \<in> set names" for k b
    using no_conflict_unrelated [OF Cons.prems(2) ok(2) that] .
  moreover have "unrelated a a" by (simp add: unrelated_def)
  ultimately show ?case using IH ok by (auto intro: unrelated_sym)
qed simp

lemma unique_list_set: "set (unique_list xs) = set xs" "distinct (unique_list xs)"
  by (simp_all add: unique_list_def)

text \<open>
  Accepted artifact names cannot lie about where they are.  When the artifact check accepts
  a task, its result lists exactly the required artifacts, each once; every one is readable under
  the task's authority and resolves to the worktree's segments followed by its own; and two
  different artifacts differ after case folding and none lies below another, so that they are
  different files on a case-insensitive file system too.
\<close>

theorem required_artifacts_sound:
  assumes "requiredArtifactReferences p t w = Inr as"
  shows "set as = set (ac_requiredArtifacts (tk_acceptance t)) \<and> distinct as
    \<and> (\<forall>a \<in> set as. pathWithinPolicy a (au_readPaths (tk_authority t))
         \<and> path_segments (resolve w a) = path_segments w @ split_on (CHR ''/'') a)
    \<and> (\<forall>a \<in> set as. \<forall>b \<in> set as. a \<noteq> b \<longrightarrow> portable_name a \<noteq> portable_name b
         \<and> \<not> prefix (portable_name a @ [47]) (portable_name b))"
proof -
  let ?r = "ac_requiredArtifacts (tk_acceptance t)" and ?rp = "au_readPaths (tk_authority t)"
  have checked: "check_artifacts p w ?rp [] ?r = Inr ()" and as: "as = unique_list ?r"
    using assms by (auto simp: requiredArtifactReferences_def Let_def split: if_splits sum.splits)
  note ok = check_artifacts_ok [OF checked]
  have sets: "set as = set ?r" "distinct as" unfolding as by (rule unique_list_set)+
  have each: "pathWithinPolicy a ?rp \<and> path_segments (resolve w a) = path_segments w @ split_on (CHR ''/'') a"
    if "a \<in> set as" for a
    using ok that sets valid_parts_plain [of p w a] resolve_plain by (auto simp: names_inv_def)
  have pairs: "portable_name a \<noteq> portable_name b \<and> \<not> prefix (portable_name a @ [47]) (portable_name b)"
    if "a \<in> set as" "b \<in> set as" "a \<noteq> b" for a b
    using ok that sets by (auto simp: names_inv_def unrelated_def)
  from sets each pairs show ?thesis by blast
qed

subsection \<open>The write scope read from git\<close>

text \<open>\<open>-z\<close> ends every path with a NUL.\<close>

definition nul_terminated :: "string list \<Rightarrow> string" where
  "nul_terminated ps = concat (map (\<lambda>p. p @ [CHR 0x00]) ps)"

lemma split_nul_terminated:
  "\<forall>p \<in> set ps. CHR 0x00 \<notin> set p \<Longrightarrow> split_on (CHR 0x00) (nul_terminated ps) = ps @ [[]]"
  by (induction ps) (simp_all add: nul_terminated_def split_on_append)

lemma nul_terminated_end: "nul_terminated ps = [] \<or> ends_with (nul_terminated ps) [CHR 0x00]"
proof (cases ps rule: rev_cases)
  case (snoc qs q)
  then have "nul_terminated ps = (nul_terminated qs @ q) @ [CHR 0x00]" by (simp add: nul_terminated_def)
  then show ?thesis by (simp add: ends_with_def del: append_assoc)
qed (simp add: nul_terminated_def)

text \<open>
  C6. The write scope sees every changed path.  When git lists the tracked and the untracked
  changes, each path ended by a NUL, the check passes exactly when every listed path is within
  the signed write paths; whatever bytes but NUL a path contains, no path is hidden, split or
  merged.
\<close>

theorem write_scope_sees_all:
  assumes "\<forall>p \<in> set tracked \<union> set untracked. p \<noteq> [] \<and> CHR 0x00 \<notin> set p"
  shows "assertTaskWriteScope (Some (nul_terminated tracked)) (Some (nul_terminated untracked)) writePaths
    = (if \<forall>p \<in> set tracked \<union> set untracked. pathWithinPolicy p writePaths
       then Inr () else Inl WriteOutsideAuthority)"
proof -
  have t: "split_on (CHR 0x00) (nul_terminated tracked) = tracked @ [[]]"
    and u: "split_on (CHR 0x00) (nul_terminated untracked) = untracked @ [[]]"
    using assms by (auto intro!: split_nul_terminated)
  have "filter (\<lambda>p. p \<noteq> []) tracked = tracked" "filter (\<lambda>p. p \<noteq> []) untracked = untracked"
    using assms by (auto simp: filter_id_conv)
  with t u nul_terminated_end [of tracked] nul_terminated_end [of untracked] show ?thesis
    by (auto simp: assertTaskWriteScope_def Let_def list_ex_iff)
qed

definition demo_task :: task where
  "demo_task = \<lparr>tk_taskId = ''t'', tk_organizationId = ''o'', tk_workspaceId = ''w'', tk_taskType = ExternalRequest,
     tk_deviceId = ''d'', tk_endpointId = Some ''e'', tk_provider = Codex, tk_requiredCapabilities = None,
     tk_actionDecision = None, tk_source = None, tk_skillBundle = None, tk_instructions = ''do'',
     tk_requiredSkills = [], tk_stateEnvelope = None, tk_evidenceReferences = None,
     tk_authority = \<lparr>au_readPaths = [''out''], au_writePaths = [''out''], au_commands = [], au_network = ''deny'',
       au_git = ''task_branch'', au_allowlistedDomains = None\<rparr>,
     tk_execution = \<lparr>ex_isolation = ''git_worktree'', ex_timeoutSeconds = 60, ex_leaseSeconds = 60,
       ex_maximumConcurrentAgents = 1\<rparr>,
     tk_acceptance = \<lparr>ac_commands = [], ac_requiredArtifacts = [''out/a'', ''out/b'', ''out/a''],
       ac_externalEffectReceiptCommandId = None\<rparr>,
     tk_budget = \<lparr>bu_mode = ''byok_local'', bu_maximumDharmaCostCents = 0, bu_maximumProviderCostCents = None\<rparr>,
     tk_createdAt = ''0'', tk_expiresAt = ''9000'', tk_nonce = ''n'', tk_signerKeyVersion = None,
     tk_signature = Some ''s''\<rparr>"

lemma demo_artifacts: "requiredArtifactReferences OtherPosix demo_task ''/w'' = Inr [''out/a'', ''out/b'']"
  by code_simp

theorem required_artifacts_sound_witness:
  "path_segments (resolve ''/w'' ''out/a'') = [''w'', ''out'', ''a'']"
  using required_artifacts_sound [OF demo_artifacts] by (simp add: path_segments_def)

theorem write_scope_sees_all_witness:
  "assertTaskWriteScope (Some (nul_terminated [''src/a''])) (Some (nul_terminated [''srcs/b''])) [''src/**'']
     = Inl WriteOutsideAuthority"
proof -
  have "\<not> pathWithinPolicy ''srcs/b'' [''src/**'']" by code_simp
  then show ?thesis by (subst write_scope_sees_all) auto
qed
end
