(* ===== verification/Artifacts.thy ===== *)
theory Artifacts
  imports Task_Scope
begin

text \<open>
  The inspection of files in the worktree, from packages/task-runner/src/index.ts:
  \<open>verifyRequiredArtifacts\<close> and \<open>verifyTaskKnowledge\<close>.  Other processes change the file system
  while the checks run, so every call to it is answered by a world that is indexed by the number
  of the call: \<open>wd_lstat n path\<close> is what the \<open>n\<close>-th call sees.  A check returns its result with
  the number of calls made.
\<close>

datatype fs_error = ENOENT | EACCES | EPERM | ELOOP | OtherFsError

datatype file_kind = RegularFile | Directory | SymbolicLink | OtherKind

record file_meta =
  fm_kind :: file_kind
  fm_nlink :: nat
  fm_dev :: nat
  fm_ino :: nat
  fm_readable :: bool
  fm_size :: nat
  fm_state :: string

text \<open>\<open>fm_readable\<close> is \<open>(mode & 0o444) != 0\<close>; \<open>fm_state\<close> is \<open>artifactFileState\<close>.  An open file
  is read in chunks to its digest, and has a state before and one after.\<close>

record opened_file =
  of_meta :: file_meta
  of_chunks :: nat
  of_bytes :: string
  of_final :: string

record world =
  wd_now :: "nat \<Rightarrow> int"
  wd_aborted :: "nat \<Rightarrow> bool"
  wd_lstat :: "nat \<Rightarrow> string \<Rightarrow> (fs_error, file_meta) result"
  wd_open :: "nat \<Rightarrow> string \<Rightarrow> (fs_error, opened_file) result"
  wd_readdir :: "nat \<Rightarrow> string \<Rightarrow> (fs_error, string list) result"

fun fs_code :: "fs_error \<Rightarrow> artifact_error" where
  "fs_code ENOENT = ArtifactMissing"
| "fs_code EACCES = ArtifactUnreadable"
| "fs_code EPERM = ArtifactUnreadable"
| "fs_code ELOOP = ArtifactUnsafe"
| "fs_code OtherFsError = ArtifactUnavailable"

text \<open>\<open>assertArtifactCurrent\<close>: \<open>None\<close> when the task may go on.\<close>

definition artifact_current :: "('a) world_scheme \<Rightarrow> int \<Rightarrow> nat \<Rightarrow> artifact_error option" where
  "artifact_current w taskExpiresAt n =
     (if wd_aborted w n then Some ArtifactInterrupted
      else if taskExpiresAt - wd_now w n \<le> 0 then Some ArtifactExpired else None)"

text \<open>The check before every chunk and before the empty read that ends the loop.\<close>

fun read_chunks :: "('a) world_scheme \<Rightarrow> int \<Rightarrow> nat \<Rightarrow> nat \<Rightarrow> artifact_error option \<times> nat" where
  "read_chunks w e 0 n = (artifact_current w e n, Suc n)"
| "read_chunks w e (Suc c) n =
     (case artifact_current w e n of Some err \<Rightarrow> (Some err, Suc n) | None \<Rightarrow> read_chunks w e c (Suc n))"

text \<open>\<open>integrity\<close>: the paths to fingerprint and the expected fingerprints, when there are any.\<close>

record integrity =
  ig_paths :: "string list"
  ig_expected :: "(string \<rightharpoonup> string) option"

definition fingerprint_of :: "'key host \<Rightarrow> opened_file \<Rightarrow> string" where
  "fingerprint_of h f = of_final f @ '':'' @ sha256Hex h (of_bytes f)"

definition check_opened ::
  "'key host \<Rightarrow> ('a) world_scheme \<Rightarrow> int \<Rightarrow> integrity option \<Rightarrow> string \<Rightarrow> file_meta \<Rightarrow> opened_file \<Rightarrow> nat
     \<Rightarrow> (artifact_error, string option) result \<times> nat" where
  "check_opened h w e ig artifact m f n =
     (let o1 = of_meta f in
      if fm_kind o1 \<noteq> RegularFile \<or> fm_nlink o1 \<noteq> 1 \<or> fm_dev o1 \<noteq> fm_dev m \<or> fm_ino o1 \<noteq> fm_ino m
      then (Inl ArtifactUnsafe, n)
      else case ig of None \<Rightarrow> (Inr None, n) | Some i \<Rightarrow>
        if artifact \<notin> set (ig_paths i) then (Inr None, n)
        else case read_chunks w e (of_chunks f) n of
          (Some err, n') \<Rightarrow> (Inl err, n')
        | (None, n') \<Rightarrow>
            if of_final f \<noteq> fm_state o1 then (Inl ArtifactWriteUnauthorized, n')
            else case ig_expected i of
              None \<Rightarrow> (Inr (Some (fingerprint_of h f)), n')
            | Some expected \<Rightarrow>
                if expected artifact \<noteq> Some (fingerprint_of h f) then (Inl ArtifactWriteUnauthorized, n')
                else (Inr (Some (fingerprint_of h f)), n'))"

text \<open>The walk along the parts of one artifact, from the directory \<open>current\<close>.\<close>

fun verify_parts ::
  "'key host \<Rightarrow> ('a) world_scheme \<Rightarrow> int \<Rightarrow> string \<Rightarrow> integrity option \<Rightarrow> string \<Rightarrow> string \<Rightarrow> string list \<Rightarrow> nat
     \<Rightarrow> (artifact_error, string option) result \<times> nat" where
  "verify_parts h w e worktree ig artifact current [] n = (Inr None, n)"
| "verify_parts h w e worktree ig artifact current (part # parts) n =
     (case assertPathWithinWorkspace [] worktree (resolve current part) of
        Inl _ \<Rightarrow> (Inl ArtifactUnavailable, n)
      | Inr path \<Rightarrow>
      (case wd_lstat w n path of
        Inl err \<Rightarrow> (Inl (fs_code err), Suc n)
      | Inr m \<Rightarrow>
          if fm_kind m = SymbolicLink then (Inl ArtifactUnsafe, Suc n)
          else if parts \<noteq> [] then
            (if fm_kind m \<noteq> Directory then (Inl ArtifactNotFile, Suc n)
             else verify_parts h w e worktree ig artifact path parts (Suc n))
          else if fm_kind m \<noteq> RegularFile then (Inl ArtifactNotFile, Suc n)
          else if fm_nlink m \<noteq> 1 then (Inl ArtifactUnsafe, Suc n)
          else if \<not> fm_readable m then (Inl ArtifactUnreadable, Suc n)
          else (case wd_open w (Suc n) path of
              Inl err \<Rightarrow> (Inl (fs_code err), Suc (Suc n))
            | Inr f \<Rightarrow> check_opened h w e ig artifact m f (Suc (Suc n)))))"

fun verify_each ::
  "'key host \<Rightarrow> ('a) world_scheme \<Rightarrow> int \<Rightarrow> string \<Rightarrow> integrity option \<Rightarrow> string list \<Rightarrow> nat \<Rightarrow> (string \<rightharpoonup> string)
     \<Rightarrow> (artifact_error, string \<rightharpoonup> string) result \<times> nat" where
  "verify_each h w e worktree ig [] n prints = (Inr prints, n)"
| "verify_each h w e worktree ig (a # as) n prints =
     (case artifact_current w e n of
        Some err \<Rightarrow> (Inl err, Suc n)
      | None \<Rightarrow>
      (case verify_parts h w e worktree ig a worktree (split_on (CHR ''/'') a) (Suc n) of
        (Inl err, n1) \<Rightarrow> (Inl err, n1)
      | (Inr print, n1) \<Rightarrow>
      (case artifact_current w e n1 of
        Some err \<Rightarrow> (Inl err, Suc n1)
      | None \<Rightarrow> verify_each h w e worktree ig as (Suc n1)
          (case print of None \<Rightarrow> prints | Some p \<Rightarrow> prints(a \<mapsto> p)))))"

definition verifyRequiredArtifacts ::
  "'key host \<Rightarrow> ('a) world_scheme \<Rightarrow> int \<Rightarrow> string \<Rightarrow> string list \<Rightarrow> integrity option \<Rightarrow> nat
     \<Rightarrow> (artifact_error, string \<rightharpoonup> string) result \<times> nat" where
  "verifyRequiredArtifacts h w e worktree artifacts ig n =
     (case artifact_current w e n of
        Some err \<Rightarrow> (Inl err, Suc n)
      | None \<Rightarrow> verify_each h w e worktree ig artifacts (Suc n) Map.empty)"

subsection \<open>Repository knowledge in the worktree\<close>

fun verify_knowledge_files ::
  "('a) world_scheme \<Rightarrow> string \<Rightarrow> (string \<times> string) list \<Rightarrow> nat \<Rightarrow> bool \<times> nat" where
  "verify_knowledge_files w directory [] n = (True, n)"
| "verify_knowledge_files w directory ((name, expected) # rest) n =
     (case wd_lstat w n (resolve directory name) of
        Inl _ \<Rightarrow> (False, Suc n)
      | Inr m \<Rightarrow>
          if fm_kind m \<noteq> RegularFile \<or> fm_nlink m \<noteq> 1 \<or> fm_size m \<noteq> length expected then (False, Suc n)
          else (case wd_open w (Suc n) (resolve directory name) of
              Inl _ \<Rightarrow> (False, Suc (Suc n))
            | Inr f \<Rightarrow>
                if fm_kind (of_meta f) \<noteq> RegularFile \<or> fm_ino (of_meta f) \<noteq> fm_ino m
                   \<or> fm_dev (of_meta f) \<noteq> fm_dev m \<or> of_bytes f \<noteq> expected
                then (False, Suc (Suc n))
                else verify_knowledge_files w directory rest (Suc (Suc n))))"

definition verifyTaskKnowledge :: "('a) world_scheme \<Rightarrow> string \<Rightarrow> knowledge \<Rightarrow> nat \<Rightarrow> bool \<times> nat" where
  "verifyTaskKnowledge w directory k n =
     (case wd_readdir w n directory of
        Inl _ \<Rightarrow> (False, Suc n)
      | Inr names \<Rightarrow>
          if sort_by code_unit_le names \<noteq> [''CATALOG.json'', ''MANIFEST.json''] then (False, Suc n)
          else verify_knowledge_files w directory
            [(''CATALOG.json'', kn_catalogBytes k), (''MANIFEST.json'', kn_manifestBytes k)] (Suc n))"

subsection \<open>What a successful check has seen\<close>

text \<open>Some call saw a directory at the path; some call saw a regular, readable file with one
  name there, and a later one opened the same file.\<close>

definition seen_directory :: "('a) world_scheme \<Rightarrow> string \<Rightarrow> bool" where
  "seen_directory w path = (\<exists>n m. wd_lstat w n path = Inr m \<and> fm_kind m = Directory)"

definition seen_file :: "('a) world_scheme \<Rightarrow> string \<Rightarrow> opened_file \<Rightarrow> bool" where
  "seen_file w path f =
     (\<exists>n m. wd_lstat w n path = Inr m \<and> fm_kind m = RegularFile \<and> fm_nlink m = 1 \<and> fm_readable m
        \<and> wd_open w (Suc n) path = Inr f \<and> fm_kind (of_meta f) = RegularFile \<and> fm_nlink (of_meta f) = 1
        \<and> fm_dev (of_meta f) = fm_dev m \<and> fm_ino (of_meta f) = fm_ino m)"

text \<open>The paths of the parts of an artifact below a directory.\<close>

fun part_paths :: "string \<Rightarrow> string list \<Rightarrow> string list" where
  "part_paths current [] = []"
| "part_paths current (p # ps) = resolve current p # part_paths (resolve current p) ps"

lemma check_opened_ok:
  assumes "check_opened h w e ig a m f n = (Inr print, n')"
  shows "fm_kind (of_meta f) = RegularFile" "fm_nlink (of_meta f) = 1"
    "fm_dev (of_meta f) = fm_dev m" "fm_ino (of_meta f) = fm_ino m"
    and "\<And>i expected. ig = Some i \<Longrightarrow> a \<in> set (ig_paths i) \<Longrightarrow> ig_expected i = Some expected \<Longrightarrow>
       expected a = Some (fingerprint_of h f)"
    and "\<And>i. ig = Some i \<Longrightarrow> a \<in> set (ig_paths i) \<Longrightarrow> print = Some (fingerprint_of h f)"
  using assms by (auto simp: check_opened_def Let_def split: if_splits option.splits prod.splits)

lemma resolve_resolved: "isAbsolute (resolve x p) \<and> resolve y (resolve x p) = resolve x p"
proof -
  have abs: "isAbsolute (path_of ss)" for ss by (simp add: isAbsolute_def path_of_def starts_with_def)
  then have "resolve y (path_of ss) = path_of ss" if "list_all plain_segment ss" for ss
    using that by (simp add: resolve_def)
  with abs show ?thesis by (simp add: resolve_def path_segments_plain)
qed

lemma verify_parts_ok:
  "verify_parts h w e worktree ig a current ps n = (Inr print, n') \<Longrightarrow> ps \<noteq> [] \<Longrightarrow>
     \<exists>f. seen_file w (last (part_paths current ps)) f
       \<and> (\<forall>d \<in> set (butlast (part_paths current ps)). seen_directory w d)
       \<and> (\<forall>i expected. ig = Some i \<and> a \<in> set (ig_paths i) \<and> ig_expected i = Some expected \<longrightarrow>
            expected a = Some (fingerprint_of h f))
       \<and> (\<forall>i. ig = Some i \<and> a \<in> set (ig_paths i) \<longrightarrow> print = Some (fingerprint_of h f))"
proof (induction ps arbitrary: current n)
  case (Cons p ps)
  obtain path where path: "assertPathWithinWorkspace [] worktree (resolve current p) = Inr path"
    using Cons.prems by (auto split: sum.splits)
  then have "path = resolve current p"
    using resolve_resolved by (simp add: within_iff)
  note path = path [unfolded this]
  obtain m where m: "wd_lstat w n (resolve current p) = Inr m"
    using Cons.prems path by (auto split: sum.splits)
  show ?case
  proof (cases "ps = []")
    case True
    with Cons.prems path m obtain f where f: "wd_open w (Suc n) (resolve current p) = Inr f"
        "check_opened h w e ig a m f (Suc (Suc n)) = (Inr print, n')"
      and mk: "fm_kind m = RegularFile" "fm_nlink m = 1" "fm_readable m"
      by (auto split: if_splits sum.splits)
    have "seen_file w (resolve current p) f"
      unfolding seen_file_def using m f(1) mk check_opened_ok(1-4) [OF f(2)] by blast
    with True check_opened_ok(5,6) [OF f(2)] show ?thesis by auto
  next
    case False
    with Cons.prems(1) path m have dir: "fm_kind m = Directory"
      and rest: "verify_parts h w e worktree ig a (resolve current p) ps (Suc n) = (Inr print, n')"
      by (auto split: if_splits)
    have "seen_directory w (resolve current p)" using m dir by (auto simp: seen_directory_def)
    with Cons.IH [OF rest False] False show ?thesis by (cases ps) auto
  qed
qed simp

definition artifact_seen ::
  "'key host \<Rightarrow> ('a) world_scheme \<Rightarrow> string \<Rightarrow> integrity option \<Rightarrow> string \<Rightarrow> bool" where
  "artifact_seen h w worktree ig a =
     (\<exists>f. seen_file w (last (part_paths worktree (split_on (CHR ''/'') a))) f
       \<and> (\<forall>d \<in> set (butlast (part_paths worktree (split_on (CHR ''/'') a))). seen_directory w d)
       \<and> (\<forall>i expected. ig = Some i \<and> a \<in> set (ig_paths i) \<and> ig_expected i = Some expected \<longrightarrow>
            expected a = Some (fingerprint_of h f)))"

lemma verify_each_ok:
  "verify_each h w e worktree ig as n prints = (Inr prints', n') \<Longrightarrow> a \<in> set as \<Longrightarrow> artifact_seen h w worktree ig a"
proof (induction as arbitrary: n prints)
  case (Cons b as)
  obtain print n1 where parts: "verify_parts h w e worktree ig b worktree (split_on (CHR ''/'') b) (Suc n) = (Inr print, n1)"
    and rest: "verify_each h w e worktree ig as (Suc n1) (case print of None \<Rightarrow> prints | Some p \<Rightarrow> prints(b \<mapsto> p)) = (Inr prints', n')"
    using Cons.prems(1) by (auto split: option.splits sum.splits prod.splits)
  show ?case
  proof (cases "a = b")
    case True
    with verify_parts_ok [OF parts split_on_ne] show ?thesis unfolding artifact_seen_def by blast
  next
    case False
    with Cons.IH [OF rest] Cons.prems(2) show ?thesis by simp
  qed
qed simp

lemma verifyRequiredArtifacts_ok:
  "verifyRequiredArtifacts h w e worktree as ig n = (Inr prints, n') \<Longrightarrow>
     artifact_current w e n = None \<and> (\<forall>a \<in> set as. artifact_seen h w worktree ig a)"
  by (auto simp: verifyRequiredArtifacts_def split: option.splits dest: verify_each_ok)

text \<open>
  C8. An accepted artifact is a real file of the worktree.  When the check of required artifacts
  succeeds, the task was neither aborted nor expired when it began, and for every artifact the
  check saw a directory, not a link, at each of its ancestors and at its own path a regular,
  readable file with a single name, and it opened that same file; a read-only artifact has
  exactly the fingerprint it had before the provider ran.
\<close>

theorem artifacts_real_files:
  assumes "verifyRequiredArtifacts h w e worktree artifacts ig n = (Inr prints, n')"
    and "a \<in> set artifacts"
  shows "artifact_current w e n = None
    \<and> (\<exists>f. seen_file w (last (part_paths worktree (split_on (CHR ''/'') a))) f
         \<and> (\<forall>d \<in> set (butlast (part_paths worktree (split_on (CHR ''/'') a))). seen_directory w d)
         \<and> (\<forall>i expected. ig = Some i \<and> a \<in> set (ig_paths i) \<and> ig_expected i = Some expected \<longrightarrow>
              expected a = Some (fingerprint_of h f)))"
  using verifyRequiredArtifacts_ok [OF assms(1)] assms(2) unfolding artifact_seen_def by blast

definition demo_meta :: "file_kind \<Rightarrow> file_meta" where
  "demo_meta k = \<lparr>fm_kind = k, fm_nlink = 1, fm_dev = 0, fm_ino = 0, fm_readable = True, fm_size = 0, fm_state = []\<rparr>"

definition demo_world :: world where
  "demo_world = \<lparr>wd_now = (\<lambda>_. 0), wd_aborted = (\<lambda>_. False),
     wd_lstat = (\<lambda>_ p. Inr (demo_meta (if p = ''/w/out'' then Directory else RegularFile))),
     wd_open = (\<lambda>_ _. Inr \<lparr>of_meta = demo_meta RegularFile, of_chunks = 0, of_bytes = [], of_final = []\<rparr>),
     wd_readdir = (\<lambda>_ _. Inr [])\<rparr>"

theorem artifacts_real_files_witness: "seen_directory demo_world ''/w/out''"
proof -
  have segs: "resolve ''/w'' ''out'' = ''/w/out''" "resolve ''/w/out'' ''a'' = ''/w/out/a''"
    "split_on (CHR ''/'') ''out/a'' = [''out'', ''a'']" by code_simp+
  have "assertPathWithinWorkspace [] ''/w'' ''/w/out'' = Inr ''/w/out''"
    "assertPathWithinWorkspace [] ''/w'' ''/w/out/a'' = Inr ''/w/out/a''" by code_simp+
  then have "verifyRequiredArtifacts demo_host demo_world 10 ''/w'' [''out/a''] None 0 = (Inr Map.empty, 6)"
    by (simp add: verifyRequiredArtifacts_def artifact_current_def demo_world_def demo_meta_def check_opened_def segs)
  from artifacts_real_files [OF this, of "''out/a''"] show ?thesis
    by (simp add: segs)
qed

end
