(* ===== verification/Runs.thy ===== *)
theory Runs
  imports Fabric_Prelude
begin

text \<open>
  Operations over an explicit state that either return a value or throw, with the state they
  leave in both cases.  \<open>and_then\<close> sequences two of them; \<open>frame f m\<close> says that \<open>m\<close> never changes
  the part \<open>f\<close> of the state; \<open>post m s Q\<close> that \<open>Q\<close> holds of its value and state when it succeeds;
  \<open>keeps I m\<close> that the invariant \<open>I\<close> survives it, successful or not.
\<close>

subsection \<open>Running with a state and errors\<close>

definition and_then ::
  "('s \<Rightarrow> ('e, 'a) result \<times> 's) \<Rightarrow> ('a \<Rightarrow> 's \<Rightarrow> ('e, 'b) result \<times> 's) \<Rightarrow> 's \<Rightarrow> ('e, 'b) result \<times> 's" where
  "and_then m f s = (case m s of (Inl e, s1) \<Rightarrow> (Inl e, s1) | (Inr x, s1) \<Rightarrow> f x s1)"

definition lift_result :: "('e, 'a) result \<Rightarrow> 's \<Rightarrow> ('e, 'a) result \<times> 's" where
  "lift_result r s = (r, s)"

definition guard_that :: "bool \<Rightarrow> 'e \<Rightarrow> 's \<Rightarrow> ('e, unit) result \<times> 's" where
  "guard_that b e s = (if b then Inr () else Inl e, s)"

lemma and_then_ok:
  "and_then m f s = (Inr y, s') \<longleftrightarrow> (\<exists>x s1. m s = (Inr x, s1) \<and> f x s1 = (Inr y, s'))"
  by (auto simp: and_then_def split: prod.splits sum.splits)

lemma lift_result_ok [simp]: "lift_result r s = (Inr y, s') \<longleftrightarrow> r = Inr y \<and> s' = s"
  by (auto simp: lift_result_def)

lemma guard_that_ok [simp]: "guard_that b e s = (Inr u, s') \<longleftrightarrow> b \<and> s' = s"
  by (auto simp: guard_that_def)

text \<open>A run that leaves a part of the state as it was, whether it succeeds or throws.\<close>

definition frame :: "('s \<Rightarrow> 'v) \<Rightarrow> ('s \<Rightarrow> 'r \<times> 's) \<Rightarrow> bool" where
  "frame f m = (\<forall>s. f (snd (m s)) = f s)"

lemma frameD: "frame f m \<Longrightarrow> m s = (r, s') \<Longrightarrow> f s' = f s"
  unfolding frame_def by (metis snd_conv)

lemma frame_apply: "frame f m \<Longrightarrow> f (snd (m s)) = f s"
  by (simp add: frame_def)

lemma frame_and_then [inv_intros]: "frame f m \<Longrightarrow> (\<And>x. frame f (g x)) \<Longrightarrow> frame f (and_then m g)"
  by (auto simp: frame_def and_then_def split: prod.splits sum.splits) (metis snd_conv)+

lemma frame_lift [inv_intros]: "frame f (lift_result r)"
  by (simp add: frame_def lift_result_def)

lemma frame_guard [inv_intros]: "frame f (guard_that b e)"
  by (simp add: frame_def guard_that_def)

lemma frame_if [inv_intros]: "frame f m \<Longrightarrow> frame f m' \<Longrightarrow> frame f (if b then m else m')"
  by simp

text \<open>Postconditions of the successful outcome, step by step.\<close>

definition post :: "('s \<Rightarrow> ('e, 'a) result \<times> 's) \<Rightarrow> 's \<Rightarrow> ('a \<Rightarrow> 's \<Rightarrow> bool) \<Rightarrow> bool" where
  "post m s Q = (\<forall>x s'. m s = (Inr x, s') \<longrightarrow> Q x s')"

lemma postD: "post m s Q \<Longrightarrow> m s = (Inr x, s') \<Longrightarrow> Q x s'"
  by (simp add: post_def)

lemma post_and_then: "post m s (\<lambda>x s1. post (g x) s1 Q) \<Longrightarrow> post (and_then m g) s Q"
  by (auto simp: post_def and_then_ok)

lemma post_lift: "(\<And>x. r = Inr x \<Longrightarrow> Q x s) \<Longrightarrow> post (lift_result r) s Q"
  by (simp add: post_def)

lemma post_guard: "(b \<Longrightarrow> Q () s) \<Longrightarrow> post (guard_that b e) s Q"
  by (simp add: post_def)

lemma post_frame: "frame f m \<Longrightarrow> (\<And>x s1. f s1 = f s \<Longrightarrow> Q x s1) \<Longrightarrow> post m s Q"
  unfolding post_def using frameD by metis

lemma post_if: "(b \<Longrightarrow> post m s Q) \<Longrightarrow> (\<not> b \<Longrightarrow> post m' s Q) \<Longrightarrow> post (if b then m else m') s Q"
  by simp

subsection \<open>Invariants of operations\<close>

definition keeps :: "('s \<Rightarrow> bool) \<Rightarrow> ('s \<Rightarrow> 'r \<times> 's) \<Rightarrow> bool" where
  "keeps I m = (\<forall>s. I s \<longrightarrow> I (snd (m s)))"

lemma keepsD: "keeps I m \<Longrightarrow> I s \<Longrightarrow> I (snd (m s))"
  by (simp add: keeps_def)

lemma keeps_run: "keeps I m \<Longrightarrow> I s \<Longrightarrow> m s = (r, s') \<Longrightarrow> I s'"
  unfolding keeps_def by (metis snd_conv)

lemma keeps_and_then [inv_intros]: "keeps I m \<Longrightarrow> (\<And>x. keeps I (g x)) \<Longrightarrow> keeps I (and_then m g)"
  unfolding keeps_def and_then_def by (fastforce split: prod.splits sum.splits)

lemma keeps_lift [inv_intros]: "keeps I (lift_result r)"
  by (simp add: keeps_def lift_result_def)

lemma keeps_guard [inv_intros]: "keeps I (guard_that b e)"
  by (simp add: keeps_def guard_that_def)

lemma keeps_if [inv_intros]: "(b \<Longrightarrow> keeps I m) \<Longrightarrow> (\<not> b \<Longrightarrow> keeps I m') \<Longrightarrow> keeps I (if b then m else m')"
  by simp

end
