(* ===== verification/Executor.thy ===== *)
theory Executor
  imports Journal Instructions Artifacts Runs
begin

text \<open>
  \<open>executeTask\<close> of packages/task-runner/src/index.ts, from the verification of the envelope to the
  stored receipt.  The state of a run holds the directories (journal, consumed decisions,
  receipts) and the local variables of the function; \<open>rs_providerCalls\<close> and \<open>rs_commandRuns\<close>
  record what was started.  Everything outside the program (clock, abort signal, git, the file
  system, the provider, the acceptance commands) answers through a world indexed by the number of
  the call, \<open>rs_tick\<close>.  The schema validators, \<open>JSON.parse\<close>, the working directory and the fixed
  paragraph about repository knowledge are fields of the input.  A provider qualification is left
  out.
\<close>

record task_knowledge =
  kt_directory :: string
  kt_manifestSha256 :: string
  kt_catalogSha256 :: string

record provider_input =
  pv_provider :: provider_id
  pv_workspace :: string
  pv_instructions :: string
  pv_timeoutSeconds :: int
  pv_allowedCommandArgv :: "string list list"
  pv_allowWrites :: bool
  pv_taskKnowledge :: "task_knowledge option"
  pv_requiredSkillPaths :: "string list option"
  pv_externalIdempotencyKey :: "string option"
  pv_actionDigest :: "string option"

text \<open>\<open>po_text\<close> is \<open>JSON.stringify\<close> of the provider's result.\<close>

record provider_output =
  po_result :: command_result
  po_text :: string

record exec_world = world +
  wd_setup :: "nat \<Rightarrow> (string, string) result"
  wd_prepareKnowledge :: "nat \<Rightarrow> (string, unit) result"
  wd_provider :: "nat \<Rightarrow> provider_input \<Rightarrow> (string, provider_output) result"
  wd_run :: "nat \<Rightarrow> string list \<Rightarrow> string \<Rightarrow> int \<Rightarrow> (string \<times> string) list \<Rightarrow> (string, command_result) result"
  wd_tracked :: "nat \<Rightarrow> string option"
  wd_untracked :: "nat \<Rightarrow> string option"
  wd_signalable :: "nat \<Rightarrow> int \<Rightarrow> bool"
  wd_skillFile :: "nat \<Rightarrow> string \<Rightarrow> bool"

text \<open>The receiver of action decisions; \<open>ar_guarded\<close> is whether it has a replay guard.\<close>

record 'key decision_receiver =
  ar_resolve :: "string \<Rightarrow> 'key option"
  ar_guarded :: bool

record 'key exec_input =
  xi_host :: "'key host"
  xi_taskOk :: "task \<Rightarrow> bool"
  xi_actionOk :: "task_action \<Rightarrow> bool"
  xi_receiptOk :: "decision_receipt \<Rightarrow> bool"
  xi_ackOk :: "acknowledgement \<Rightarrow> bool"
  xi_parseJson :: "string \<Rightarrow> json option"
  xi_platform :: platform
  xi_cwd :: string
  xi_knowledgeNote :: "knowledge \<Rightarrow> string"
  xi_task :: task
  xi_policy :: org_policy
  xi_workspace :: string
  xi_relayStateDirectory :: string
  xi_serverPublicKey :: 'key
  xi_serverKeyResolver :: "(string \<Rightarrow> 'key option) option"
  xi_knowledge :: "knowledge option"
  xi_skillFiles :: "(string \<times> string) list"
  xi_decisions :: "'key decision_receiver option"
  xi_owner :: journal_owner

record run_state =
  rs_tick :: nat
  rs_journal :: journal_dir
  rs_consumed :: "string \<rightharpoonup> string"
  rs_receipts :: receipt_dir
  rs_status :: task_status
  rs_results :: "command_result list"
  rs_effect :: "effect_receipt option"
  rs_providerCalls :: "provider_input list"
  rs_commandRuns :: "string list list"

datatype exec_error =
    ETask task_error | EExpired | EOrganization | EStore store_error | EIsolation | EGitAuthority
  | EPathOutside | EArtifact artifact_error | ECommandOutside string | EEffectCommand | EEffectVerifierRequired
  | EResolverUnavailable | EEndpointUnavailable | EDecisionMissing | EDecisionInvalid decision_verdict
  | EJournal journal_error | EReceiptMissing | EClaimConflict | EInProgress | EReplayRejected | ENotReady
  | EAlreadyClaimed | EAck ack_error

subsection \<open>The clock of a run\<close>

definition next_tick :: "run_state \<Rightarrow> ('e, nat) result \<times> run_state" where
  "next_tick s = (Inr (rs_tick s), s\<lparr>rs_tick := Suc (rs_tick s)\<rparr>)"

subsection \<open>Admission\<close>

definition requiresActionDecisionReceipt :: "task \<Rightarrow> bool" where
  "requiresActionDecisionReceipt t =
     (case tk_requiredCapabilities t of None \<Rightarrow> False | Some cs \<Rightarrow> ''action_decision_receipts_v1'' \<in> set cs)"

definition worktree_root :: "'key exec_input \<Rightarrow> string" where
  "worktree_root xi = resolve (resolve (xi_cwd xi) (xi_relayStateDirectory xi)) ''worktrees''"

definition task_worktree :: "'key exec_input \<Rightarrow> string" where
  "task_worktree xi = resolve (worktree_root xi) (tk_taskId (xi_task xi))"

text \<open>\<open>Some\<close> for a set, non-empty effect command.\<close>

definition effect_command :: "task \<Rightarrow> string option" where
  "effect_command t = (case ac_externalEffectReceiptCommandId (tk_acceptance t) of
     None \<Rightarrow> None | Some c \<Rightarrow> if c = [] then None else Some c)"

text \<open>The checks after the look-up of a previous receipt; the value is the required artifacts.\<close>

definition admit_scope :: "'key exec_input \<Rightarrow> (exec_error, string list) result" where
  "admit_scope xi =
     (let t = xi_task xi; au = tk_authority t; ac = tk_acceptance t in
      if ex_isolation (tk_execution t) \<noteq> ''git_worktree'' then Inl EIsolation
      else if au_git au \<noteq> ''task_branch'' then Inl EGitAuthority
      else case assertTaskWithinLocalPolicy t (xi_policy xi) of Inl e \<Rightarrow> Inl (ETask e) | Inr _ \<Rightarrow>
      (case (case xi_knowledge xi of None \<Rightarrow> Inr () | Some k \<Rightarrow> assertTaskKnowledgeScope t k) of
        Inl e \<Rightarrow> Inl (ETask e) | Inr _ \<Rightarrow>
      if list_ex (\<lambda>p. \<not> is_ok (assertPathWithinWorkspace (xi_cwd xi) (xi_workspace xi) p)) (au_readPaths au @ au_writePaths au)
      then Inl EPathOutside
      else case requiredArtifactReferences (xi_platform xi) t (task_worktree xi) of Inl e \<Rightarrow> Inl (EArtifact e) | Inr artifacts \<Rightarrow>
      (case List.find (\<lambda>c. c \<notin> set (au_commands au)) (ac_commands ac) of
        Some c \<Rightarrow> Inl (ECommandOutside c)
      | None \<Rightarrow>
          if effect_command t \<noteq> None \<and> the (effect_command t) \<notin> set (ac_commands ac) then Inl EEffectCommand
          else if requiresActionDecisionReceipt t \<and> au_network au \<noteq> ''deny'' \<and> effect_command t = None
          then Inl EEffectVerifierRequired
          else case assertContained (xi_cwd xi) (worktree_root xi) (task_worktree xi) of
            Inl e \<Rightarrow> Inl (ETask e) | Inr _ \<Rightarrow> Inr artifacts)))"

subsection \<open>Decision and journal\<close>

definition verifyEmbeddedActionDecision ::
  "'key exec_input \<Rightarrow> 'key decision_receiver \<Rightarrow> int \<Rightarrow> (exec_error, decision_receipt) result" where
  "verifyEmbeddedActionDecision xi receiver now =
     (case tk_actionDecision (xi_task xi) of None \<Rightarrow> Inl EDecisionMissing | Some envelope \<Rightarrow>
     (case canonicalTaskActionForTask (xi_task xi) (dr_actionId (de_receipt envelope)) of
        Inl _ \<Rightarrow> Inl EEndpointUnavailable
      | Inr action \<Rightarrow>
          let v = verifyActionDecisionReceipt (xi_host xi) (xi_actionOk xi) (xi_receiptOk xi) envelope action
                (ar_resolve receiver) (Some now)
          in if v = DecisionOk then Inr (de_receipt envelope) else Inl (EDecisionInvalid v)))"

text \<open>What the journal phase decides: return a receipt at once, or go on with the decision,
  contained or claimed.\<close>

datatype phase = ReturnReceipt task_receipt | Proceed decision_receipt bool

definition on_journal ::
  "(journal_dir \<Rightarrow> (journal_error, 'a) result \<times> journal_dir) \<Rightarrow> run_state \<Rightarrow> (exec_error, 'a) result \<times> run_state" where
  "on_journal f s = (case f (rs_journal s) of (r, d) \<Rightarrow> (map_sum EJournal id r, s\<lparr>rs_journal := d\<rparr>))"

definition store_receipt :: "'key exec_input \<Rightarrow> task_receipt \<Rightarrow> run_state \<Rightarrow> (exec_error, unit) result \<times> run_state" where
  "store_receipt xi r s = (case receipt_put (xi_host xi) (xi_ackOk xi) (rs_receipts s) r of
     Inl e \<Rightarrow> (Inl (EStore e), s) | Inr d \<Rightarrow> (Inr (), s\<lparr>rs_receipts := d\<rparr>))"

definition recover_interrupted ::
  "'key exec_input \<Rightarrow> 'w exec_world_scheme \<Rightarrow> journal_record \<Rightarrow> run_state \<Rightarrow> (exec_error, phase) result \<times> run_state" where
  "recover_interrupted xi w r =
     and_then next_tick (\<lambda>n.
     and_then (lift_result (map_sum EAck id (interruptedActionReceipt (xi_host xi) (xi_ackOk xi) r (wd_now w n)))) (\<lambda>recovered.
     and_then next_tick (\<lambda>m.
     and_then (on_journal (recordReceipt (xi_host xi) (xi_ackOk xi) (wd_now w m) recovered)) (\<lambda>_.
     and_then (store_receipt xi recovered) (\<lambda>_.
     lift_result (Inr (ReturnReceipt recovered)))))))"

definition move :: "'key exec_input \<Rightarrow> 'w exec_world_scheme \<Rightarrow> journal_state list \<Rightarrow> journal_state
     \<Rightarrow> run_state \<Rightarrow> (exec_error, journal_record) result \<times> run_state" where
  "move xi w allowed st =
     and_then next_tick (\<lambda>n. on_journal
       (journal_transition (xi_host xi) (xi_ackOk xi) (wd_now w n) (tk_taskId (xi_task xi)) allowed st (\<lambda>r. r)))"

definition consume_decision :: "decision_receipt \<Rightarrow> run_state \<Rightarrow> (exec_error, bool) result \<times> run_state" where
  "consume_decision dr s = (case replay_consume (rs_consumed s) (dr_decisionId dr) (dr_actionDigest dr) of
     (fresh, d) \<Rightarrow> (Inr fresh, s\<lparr>rs_consumed := d\<rparr>))"

definition authorize_replay ::
  "'key exec_input \<Rightarrow> 'w exec_world_scheme \<Rightarrow> 'key decision_receiver \<Rightarrow> decision_receipt
     \<Rightarrow> run_state \<Rightarrow> (exec_error, journal_record) result \<times> run_state" where
  "authorize_replay xi w receiver dr =
     (if ar_guarded receiver then
        and_then (move xi w [Prepared] ReplayAuthorizationStarted) (\<lambda>_.
        and_then (consume_decision dr) (\<lambda>fresh.
        and_then (guard_that fresh EReplayRejected) (\<lambda>_.
        move xi w [ReplayAuthorizationStarted] ReplayAuthorized)))
      else move xi w [Prepared] ReplayAuthorized)"

definition claim_execution ::
  "'key exec_input \<Rightarrow> 'w exec_world_scheme \<Rightarrow> int \<Rightarrow> journal_record \<Rightarrow> run_state \<Rightarrow> (exec_error, unit) result \<times> run_state" where
  "claim_execution xi w taskExpiresAt r =
     and_then next_tick (\<lambda>n.
     and_then next_tick (\<lambda>m s.
       let ex = tk_execution (xi_task xi);
           age = min ((ex_timeoutSeconds ex + ex_leaseSeconds ex + 300) * 1000) (taskExpiresAt - wd_now w n)
       in case journal_claim (xi_host xi) (xi_ackOk xi) (xi_owner xi) (wd_now w m) r age (rs_journal s) of
            (Inr _, d) \<Rightarrow> (Inr (), s\<lparr>rs_journal := d\<rparr>)
          | (Inl e, d) \<Rightarrow> (Inl (if e = ClaimExists then EAlreadyClaimed else EJournal e), s\<lparr>rs_journal := d\<rparr>)))"

text \<open>The phase after the record was prepared and is not yet recorded.\<close>

definition decide_execution ::
  "'key exec_input \<Rightarrow> 'w exec_world_scheme \<Rightarrow> int \<Rightarrow> 'key decision_receiver \<Rightarrow> decision_receipt \<Rightarrow> journal_record
     \<Rightarrow> run_state \<Rightarrow> (exec_error, phase) result \<times> run_state" where
  "decide_execution xi w taskExpiresAt receiver dr r =
     (if dr_outcome dr \<noteq> Release then lift_result (Inr (Proceed dr True))
      else and_then (if jr_state r = Prepared then authorize_replay xi w receiver dr else lift_result (Inr r)) (\<lambda>r1.
        and_then (guard_that (jr_state r1 = ReplayAuthorized) ENotReady) (\<lambda>_.
        and_then (claim_execution xi w taskExpiresAt r1) (\<lambda>_.
        lift_result (Inr (Proceed dr False))))))"

definition journal_phase ::
  "'key exec_input \<Rightarrow> 'w exec_world_scheme \<Rightarrow> int \<Rightarrow> run_state \<Rightarrow> (exec_error, phase) result \<times> run_state" where
  "journal_phase xi w taskExpiresAt =
     (case xi_decisions xi of None \<Rightarrow> lift_result (Inl EResolverUnavailable) | Some receiver \<Rightarrow>
      let t = xi_task xi; h = xi_host xi; ok = xi_ackOk xi in
      if tk_endpointId t \<in> {None, Some []} then lift_result (Inl EEndpointUnavailable)
      else
        and_then next_tick (\<lambda>n.
        and_then (lift_result (verifyEmbeddedActionDecision xi receiver (wd_now w n))) (\<lambda>dr.
        and_then next_tick (\<lambda>m.
        and_then (on_journal (journal_prepare h ok (wd_now w m)
            \<lparr>pi_taskId = tk_taskId t, pi_decisionId = dr_decisionId dr, pi_endpointId = the (tk_endpointId t),
             pi_actionDigest = dr_actionDigest dr, pi_externalIdempotencyKey = dr_decisionId dr,
             pi_worktree = task_worktree xi, pi_branch = task_branch (tk_taskId t)\<rparr>)) (\<lambda>prepared.
        let r = fst prepared in
        if jr_state r = ReceiptRecorded then
          (case jr_receipt r of
             None \<Rightarrow> lift_result (Inl EReceiptMissing)
           | Some receipt \<Rightarrow> and_then (store_receipt xi receipt) (\<lambda>_. lift_result (Inr (ReturnReceipt receipt))))
        else
          and_then (on_journal (\<lambda>d. (journal_getClaim h d (tk_taskId t), d))) (\<lambda>prior.
          case prior of
            Some c \<Rightarrow>
              if cl_decisionId c \<noteq> jr_decisionId r \<or> cl_actionDigest c \<noteq> jr_actionDigest r
              then lift_result (Inl EClaimConflict)
              else and_then next_tick (\<lambda>k.
                if isClaimOwnerAlive h (xi_owner xi) (wd_signalable w k) (wd_now w k) c
                then lift_result (Inl EInProgress) else recover_interrupted xi w r)
          | None \<Rightarrow>
              if jr_state r \<in> {ReplayAuthorizationStarted, Executing, EffectObserved}
              then recover_interrupted xi w r
              else decide_execution xi w taskExpiresAt receiver dr r))))))"

subsection \<open>The run in the worktree\<close>

text \<open>Errors inside the run are messages; the runner turns them into a failed result.\<close>

fun artifact_error_text :: "artifact_error \<Rightarrow> string" where
  "artifact_error_text ArtifactInvalid = ''required_artifact_invalid''"
| "artifact_error_text ArtifactUnauthorized = ''required_artifact_unauthorized''"
| "artifact_error_text ArtifactInterrupted = ''required_artifact_interrupted''"
| "artifact_error_text ArtifactExpired = ''required_artifact_expired''"
| "artifact_error_text ArtifactMissing = ''required_artifact_missing''"
| "artifact_error_text ArtifactUnreadable = ''required_artifact_unreadable''"
| "artifact_error_text ArtifactUnsafe = ''required_artifact_unsafe''"
| "artifact_error_text ArtifactUnavailable = ''required_artifact_unavailable''"
| "artifact_error_text ArtifactNotFile = ''required_artifact_not_file''"
| "artifact_error_text ArtifactWriteUnauthorized = ''required_artifact_write_unauthorized''"

type_synonym 'a body = "run_state \<Rightarrow> (string, 'a) result \<times> run_state"

definition check_files ::
  "'key exec_input \<Rightarrow> 'w exec_world_scheme \<Rightarrow> int \<Rightarrow> string list \<Rightarrow> integrity option \<Rightarrow> (string \<rightharpoonup> string) body" where
  "check_files xi w e artifacts ig s =
     (case verifyRequiredArtifacts (xi_host xi) w e (task_worktree xi) artifacts ig (rs_tick s) of
        (r, n) \<Rightarrow> (map_sum artifact_error_text id r, s\<lparr>rs_tick := n\<rparr>))"

definition check_writes :: "'key exec_input \<Rightarrow> 'w exec_world_scheme \<Rightarrow> string \<Rightarrow> unit body" where
  "check_writes xi w actor =
     and_then next_tick (\<lambda>n. and_then next_tick (\<lambda>m.
       lift_result (case assertTaskWriteScope (wd_tracked w n) (wd_untracked w m) (au_writePaths (tk_authority (xi_task xi))) of
         Inr _ \<Rightarrow> Inr ()
       | Inl GitOutputIncomplete \<Rightarrow> Inl ''Git path output was incomplete.''
       | Inl WriteOutsideAuthority \<Rightarrow> Inl (actor @ '' changed a path outside the signed task authority.'')
       | Inl _ \<Rightarrow> Inl ''Git operation failed: '')))"

definition not_expired :: "'w exec_world_scheme \<Rightarrow> int \<Rightarrow> string \<Rightarrow> unit body" where
  "not_expired w e message = and_then next_tick (\<lambda>n. guard_that (0 < e - wd_now w n) message)"

text \<open>The status of a result that failed: cancelled when the run was aborted.\<close>

definition failed_status :: "'w exec_world_scheme \<Rightarrow> nat \<Rightarrow> task_status" where
  "failed_status w n = (if wd_aborted w n then Cancelled else Failed)"

definition result_failed :: "command_result \<Rightarrow> bool" where
  "result_failed c = (cr_exitCode c \<noteq> Some 0 \<or> cr_timedOut c)"

definition push_result :: "command_result \<Rightarrow> unit body" where
  "push_result c s = (Inr (), s\<lparr>rs_results := rs_results s @ [c]\<rparr>)"

definition note_failure :: "'w exec_world_scheme \<Rightarrow> command_result \<Rightarrow> unit body" where
  "note_failure w c =
     (if result_failed c then and_then next_tick (\<lambda>n s. (Inr (), s\<lparr>rs_status := failed_status w n\<rparr>))
      else lift_result (Inr ()))"

text \<open>\<open>providerInput\<close> and the call.  The call is recorded before its answer is seen.\<close>

definition call_provider :: "'w exec_world_scheme \<Rightarrow> provider_input \<Rightarrow> provider_output body" where
  "call_provider w pv = and_then next_tick (\<lambda>n s.
     (wd_provider w n pv, s\<lparr>rs_providerCalls := rs_providerCalls s @ [pv]\<rparr>))"

text \<open>The \<open>finally\<close> block: the knowledge check overrides the outcome of the call.\<close>

definition provider_with_knowledge ::
  "'key exec_input \<Rightarrow> 'w exec_world_scheme \<Rightarrow> string option \<Rightarrow> provider_input \<Rightarrow> provider_output body" where
  "provider_with_knowledge xi w knowledgeDirectory pv s =
     (case call_provider w pv s of (r, s1) \<Rightarrow>
       (case (xi_knowledge xi, knowledgeDirectory) of
          (Some k, Some directory) \<Rightarrow>
            (case verifyTaskKnowledge w directory k (rs_tick s1) of
               (okay, n) \<Rightarrow> (if okay then r else Inl ''Verified repository knowledge was changed during task execution.'',
                  s1\<lparr>rs_tick := n\<rparr>))
        | _ \<Rightarrow> (r, s1)))"

definition observe_effect :: "'key exec_input \<Rightarrow> 'w exec_world_scheme \<Rightarrow> bool \<Rightarrow> string \<Rightarrow> unit body" where
  "observe_effect xi w claimed result_text =
     (if \<not> claimed then lift_result (Inr ())
      else and_then next_tick (\<lambda>n s.
        case recordEffectObserved (xi_host xi) (xi_ackOk xi) (wd_now w n) (tk_taskId (xi_task xi)) result_text (rs_journal s) of
          (Inl _, d) \<Rightarrow> (Inl ''Action execution journal transition to effect_observed is invalid.'', s\<lparr>rs_journal := d\<rparr>)
        | (Inr _, d) \<Rightarrow> (Inr (), s\<lparr>rs_journal := d\<rparr>)))"

fun command_error_text :: "string \<Rightarrow> policy_error \<Rightarrow> string" where
  "command_error_text c CommandArgumentInvalid = ''Registered command contains an invalid argument: '' @ c"
| "command_error_text c _ = ''Command is not registered: '' @ c"

fun effect_error_text :: "effect_error \<Rightarrow> string" where
  "effect_error_text EffectNotEmitted = ''External-effect verifier did not emit a Dharma effect receipt.''"
| "effect_error_text EffectInvalid = ''External-effect receipt is invalid.''"
| "effect_error_text EffectMismatch = ''External-effect receipt does not match the signed action and idempotency key.''"

fun instruction_error_text :: "instruction_error \<Rightarrow> string" where
  "instruction_error_text HandoffContextMissing = ''A2A task is missing its structured handoff context.''"
| "instruction_error_text SkillIdentifierUnsafe = ''Required skill identifier cannot be activated safely.''"
| "instruction_error_text InstructionsTooLong = ''Provider instructions exceed the execution limit.''"
| "instruction_error_text ArtifactMetadataTooLong = ''Required artifact metadata exceeds the execution limit.''"
| "instruction_error_text (InstructionArtifact e) = artifact_error_text e"
| "instruction_error_text SkillFileUnavailable = ''Required skill file is unavailable.''"

definition registered :: "'key exec_input \<Rightarrow> string \<Rightarrow> (string, command_policy) result" where
  "registered xi c = map_sum (command_error_text c) id (resolveRegisteredCommand (xi_policy xi) c)"

fun registered_argvs :: "'key exec_input \<Rightarrow> string list \<Rightarrow> (string, string list list) result" where
  "registered_argvs xi [] = Inr []"
| "registered_argvs xi (c # cs) = (case registered xi c of Inl e \<Rightarrow> Inl e
     | Inr p \<Rightarrow> map_sum id (\<lambda>as. cp_argv p # as) (registered_argvs xi cs))"

definition command_cwd :: "'key exec_input \<Rightarrow> command_policy \<Rightarrow> (string, string) result" where
  "command_cwd xi c =
     (case cp_workingDirectory c of
        Some d \<Rightarrow> if d = [] then Inr (task_worktree xi)
          else map_sum (\<lambda>_. ''Path escapes the registered workspace.'') id
                 (assertPathWithinWorkspace (xi_cwd xi) (task_worktree xi) d)
      | None \<Rightarrow> Inr (task_worktree xi))"

definition run_command ::
  "'w exec_world_scheme \<Rightarrow> string list \<Rightarrow> string \<Rightarrow> int \<Rightarrow> (string \<times> string) list \<Rightarrow> command_result body" where
  "run_command w argv cwd timeoutMs environment = and_then next_tick (\<lambda>n s.
     (wd_run w n argv cwd timeoutMs environment, s\<lparr>rs_commandRuns := rs_commandRuns s @ [argv]\<rparr>))"

definition decision_environment :: "decision_receipt option \<Rightarrow> (string \<times> string) list" where
  "decision_environment dr = (case dr of None \<Rightarrow> []
     | Some r \<Rightarrow> [(''DHARMA_EXTERNAL_IDEMPOTENCY_KEY'', dr_decisionId r), (''DHARMA_ACTION_DIGEST'', dr_actionDigest r)])"

definition note_effect ::
  "'key exec_input \<Rightarrow> decision_receipt option \<Rightarrow> string \<Rightarrow> string \<Rightarrow> unit body" where
  "note_effect xi dr commandId out s =
     (case dr of
        None \<Rightarrow> (Inr (), s)
      | Some r \<Rightarrow>
          if requiresActionDecisionReceipt (xi_task xi)
             \<and> ac_externalEffectReceiptCommandId (tk_acceptance (xi_task xi)) = Some commandId
          then (case parseExternalEffectReceipt (xi_host xi) (xi_parseJson xi) out (dr_actionDigest r) (dr_decisionId r) of
              Inl err \<Rightarrow> (Inl (effect_error_text err), s)
            | Inr e \<Rightarrow> (Inr (), s\<lparr>rs_effect := Some e\<rparr>))
          else (Inr (), s))"

definition artifacts_still_current :: "'w exec_world_scheme \<Rightarrow> int \<Rightarrow> unit body" where
  "artifacts_still_current w e = and_then next_tick (\<lambda>n.
     lift_result (case artifact_current w e n of None \<Rightarrow> Inr () | Some err \<Rightarrow> Inl (artifact_error_text err)))"

text \<open>One acceptance command; the value tells whether the loop goes on.\<close>

definition accept_command ::
  "'key exec_input \<Rightarrow> 'w exec_world_scheme \<Rightarrow> int \<Rightarrow> decision_receipt option \<Rightarrow> string list \<Rightarrow> integrity
     \<Rightarrow> string \<Rightarrow> bool body" where
  "accept_command xi w e dr readOnly ig commandId =
     and_then (lift_result (registered xi commandId)) (\<lambda>c.
     and_then (lift_result (command_cwd xi c)) (\<lambda>cwd.
     and_then next_tick (\<lambda>n.
     let budget = e - wd_now w n in
     and_then (guard_that (0 < budget) ''Task expired before acceptance verification.'') (\<lambda>_.
     and_then (run_command w (cp_argv c) cwd
         (min (min (cp_timeoutSeconds c * 1000) (ex_timeoutSeconds (tk_execution (xi_task xi)) * 1000)) budget)
         (decision_environment dr)) (\<lambda>r0.
     let r = r0\<lparr>cr_commandId := commandId\<rparr> in
     and_then (not_expired w e ''Task expired during acceptance verification.'') (\<lambda>_.
     and_then (push_result r) (\<lambda>_.
     and_then (check_files xi w e readOnly (Some ig)) (\<lambda>_.
     and_then (check_writes xi w ''Acceptance command'') (\<lambda>_.
     and_then (artifacts_still_current w e) (\<lambda>_.
     and_then (note_effect xi dr commandId (cr_stdout r)) (\<lambda>_.
     and_then (note_failure w r) (\<lambda>_.
     lift_result (Inr (\<not> result_failed r))))))))))))))"

fun accept_commands ::
  "'key exec_input \<Rightarrow> 'w exec_world_scheme \<Rightarrow> int \<Rightarrow> decision_receipt option \<Rightarrow> string list \<Rightarrow> integrity
     \<Rightarrow> string list \<Rightarrow> unit body" where
  "accept_commands xi w e dr readOnly ig [] s = (Inr (), s)"
| "accept_commands xi w e dr readOnly ig (c # cs) s =
     (if rs_status s \<noteq> Completed then (Inr (), s)
      else if wd_aborted w (rs_tick s) then (Inr (), s\<lparr>rs_tick := Suc (rs_tick s), rs_status := Cancelled\<rparr>)
      else and_then (accept_command xi w e dr readOnly ig c)
             (\<lambda>go_on. if go_on then accept_commands xi w e dr readOnly ig cs else lift_result (Inr ()))
             (s\<lparr>rs_tick := Suc (rs_tick s)\<rparr>))"

definition build_provider_input ::
  "'key exec_input \<Rightarrow> string list list \<Rightarrow> decision_receipt option \<Rightarrow> string \<Rightarrow> string \<Rightarrow> int \<Rightarrow> string option \<Rightarrow> provider_input" where
  "build_provider_input xi argvs dr skillText instructions timeoutSeconds knowledgeDirectory =
     \<lparr>pv_provider = tk_provider (xi_task xi), pv_workspace = task_worktree xi, pv_instructions = instructions,
      pv_timeoutSeconds = timeoutSeconds, pv_allowedCommandArgv = argvs,
      pv_allowWrites = (au_writePaths (tk_authority (xi_task xi)) \<noteq> []),
      pv_taskKnowledge = (case (xi_knowledge xi, knowledgeDirectory) of
          (Some k, Some directory) \<Rightarrow>
            if tk_provider (xi_task xi) = Codex
            then Some \<lparr>kt_directory = directory, kt_manifestSha256 = sha256 (xi_host xi) (kn_manifestBytes k),
              kt_catalogSha256 = sha256 (xi_host xi) (kn_catalogBytes k)\<rparr> else None
        | _ \<Rightarrow> None),
      pv_requiredSkillPaths = (if skillText = [] then None else Some (map snd (xi_skillFiles xi))),
      pv_externalIdempotencyKey = map_option dr_decisionId dr, pv_actionDigest = map_option dr_actionDigest dr\<rparr>"

text \<open>The text handed to the provider: base and artifact context.\<close>

definition provider_text ::
  "'key exec_input \<Rightarrow> 'w exec_world_scheme \<Rightarrow> nat \<Rightarrow> (string, string \<times> string) result" where
  "provider_text xi w n =
     (case formatProviderInstructionsForTask (xi_platform xi) (xi_task xi) of
        Inl err \<Rightarrow> Inl (instruction_error_text err)
      | Inr (instructions, m) \<Rightarrow>
          let context = drop (length instructions - m) instructions;
              base = take (length instructions - m) instructions
          in case claudeRequiredSkillFileInstructions (wd_skillFile w n) (xi_task xi) (xi_skillFiles xi) of
               Inl err \<Rightarrow> Inl (instruction_error_text err)
             | Inr skillText \<Rightarrow>
                 let full = base @ skillText @ (case xi_knowledge xi of None \<Rightarrow> [] | Some k \<Rightarrow> xi_knowledgeNote xi k) in
                 if 20000 < length full then Inl ''Provider instructions exceed the execution limit.''
                 else Inr (full @ context, skillText))"

definition prepare_knowledge ::
  "'key exec_input \<Rightarrow> 'w exec_world_scheme \<Rightarrow> string option body" where
  "prepare_knowledge xi w =
     (case xi_knowledge xi of
        None \<Rightarrow> lift_result (Inr None)
      | Some k \<Rightarrow> and_then next_tick (\<lambda>n.
          lift_result (map_sum id (\<lambda>_. Some (resolve (task_worktree xi) TASK_KNOWLEDGE_DIRECTORY)) (wd_prepareKnowledge w n))))"

text \<open>The part of the run up to the provider's answer.\<close>

definition run_provider ::
  "'key exec_input \<Rightarrow> 'w exec_world_scheme \<Rightarrow> int \<Rightarrow> decision_receipt option \<Rightarrow> string list
     \<Rightarrow> (provider_output \<times> integrity) body" where
  "run_provider xi w e dr readOnly =
     and_then next_tick (\<lambda>n0.
     and_then (lift_result (wd_setup w n0)) (\<lambda>startingCommit.
     and_then (check_files xi w e readOnly (Some \<lparr>ig_paths = readOnly, ig_expected = None\<rparr>)) (\<lambda>prints.
     and_then (lift_result (registered_argvs xi (au_commands (tk_authority (xi_task xi))))) (\<lambda>argvs.
     and_then next_tick (\<lambda>n1.
     and_then (lift_result (provider_text xi w n1)) (\<lambda>(instructions, skillText).
     and_then next_tick (\<lambda>n2.
     let seconds = min (ex_timeoutSeconds (tk_execution (xi_task xi))) ((e - wd_now w n2) div 1000) in
     and_then (guard_that (1 \<le> seconds) ''Task expires before provider execution can start.'') (\<lambda>_.
     and_then (prepare_knowledge xi w) (\<lambda>directory.
     and_then (provider_with_knowledge xi w directory (build_provider_input xi argvs dr skillText instructions seconds directory)) (\<lambda>out.
     and_then (not_expired w e ''Task expired during provider execution.'') (\<lambda>_.
     lift_result (Inr (out, \<lparr>ig_paths = readOnly, ig_expected = Some prints\<rparr>)))))))))))))"

text \<open>The part of the run after the provider's answer.\<close>

definition final_artifacts ::
  "'key exec_input \<Rightarrow> 'w exec_world_scheme \<Rightarrow> int \<Rightarrow> string list \<Rightarrow> integrity \<Rightarrow> unit body" where
  "final_artifacts xi w e required ig s =
     (if rs_status s = Completed
      then and_then (check_files xi w e required (Some ig)) (\<lambda>_. lift_result (Inr ())) s
      else (Inr (), s))"

definition after_provider ::
  "'key exec_input \<Rightarrow> 'w exec_world_scheme \<Rightarrow> int \<Rightarrow> decision_receipt option \<Rightarrow> bool \<Rightarrow> string list \<Rightarrow> string list
     \<Rightarrow> provider_output \<Rightarrow> integrity \<Rightarrow> unit body" where
  "after_provider xi w e dr claimed readOnly required out ig =
     (let r = (po_result out)\<lparr>cr_commandId := ''provider.'' @ provider_name (tk_provider (xi_task xi))\<rparr> in
      and_then (observe_effect xi w claimed (po_text out)) (\<lambda>_.
      and_then (push_result r) (\<lambda>_.
      and_then (note_failure w r) (\<lambda>_.
      and_then (check_files xi w e readOnly (Some ig)) (\<lambda>_.
      and_then (check_writes xi w ''Provider'') (\<lambda>_.
      and_then (accept_commands xi w e dr readOnly ig (ac_commands (tk_acceptance (xi_task xi)))) (\<lambda>_.
      final_artifacts xi w e required ig)))))))"

definition run_body ::
  "'key exec_input \<Rightarrow> 'w exec_world_scheme \<Rightarrow> int \<Rightarrow> decision_receipt option \<Rightarrow> bool \<Rightarrow> string list \<Rightarrow> unit body" where
  "run_body xi w e dr claimed required =
     (let readOnly = filter (\<lambda>a. \<not> pathWithinPolicy a (au_writePaths (tk_authority (xi_task xi)))) required in
      and_then (run_provider xi w e dr readOnly)
        (\<lambda>answer. after_provider xi w e dr claimed readOnly required (fst answer) (snd answer)))"

text \<open>The \<open>catch\<close> clause.\<close>

definition run_in_worktree ::
  "'key exec_input \<Rightarrow> 'w exec_world_scheme \<Rightarrow> int \<Rightarrow> decision_receipt option \<Rightarrow> bool \<Rightarrow> string list \<Rightarrow> run_state \<Rightarrow> run_state" where
  "run_in_worktree xi w e dr claimed required s =
     (case run_body xi w e dr claimed required s of
        (Inr _, s1) \<Rightarrow> s1
      | (Inl message, s1) \<Rightarrow> s1\<lparr>rs_tick := Suc (rs_tick s1), rs_status := failed_status w (rs_tick s1),
          rs_results := rs_results s1 @ [runner_result (xi_host xi) (''Error: '' @ message) message]\<rparr>)"

subsection \<open>The whole task\<close>

definition with_results :: "task_status \<Rightarrow> command_result list \<Rightarrow> run_state \<Rightarrow> run_state" where
  "with_results st cs s = s\<lparr>rs_status := st, rs_results := cs, rs_effect := None\<rparr>"

definition denied_message :: "decision_receipt \<Rightarrow> string" where
  "denied_message dr = ''Action-decision outcome '' @ outcome_name (dr_outcome dr) @ '' denied execution.''"

definition unproven_message :: string where
  "unproven_message = ''Provider completion cannot prove an external network effect without a provider-specific effect receipt.''"

text \<open>The network rule after the run.\<close>

definition require_effect_proof :: "'key exec_input \<Rightarrow> bool \<Rightarrow> run_state \<Rightarrow> run_state" where
  "require_effect_proof xi isContained s =
     (if requiresActionDecisionReceipt (xi_task xi) \<and> \<not> isContained \<and> rs_status s = Completed
         \<and> au_network (tk_authority (xi_task xi)) \<noteq> ''deny'' \<and> rs_effect s = None
      then s\<lparr>rs_status := Failed, rs_results := rs_results s @ [runner_result (xi_host xi) unproven_message unproven_message]\<rparr>
      else s)"

definition acknowledge ::
  "'key exec_input \<Rightarrow> 'w exec_world_scheme \<Rightarrow> decision_receipt option \<Rightarrow> bool \<Rightarrow> run_state
     \<Rightarrow> (exec_error, acknowledgement option) result \<times> run_state" where
  "acknowledge xi w dr isContained s =
     (case (dr, tk_endpointId (xi_task xi)) of
        (Some r, Some endpointId) \<Rightarrow>
          if endpointId = [] then (Inr None, s)
          else and_then next_tick (\<lambda>n. lift_result (map_sum EAck Some
            (buildActionDecisionAcknowledgement (xi_host xi) (xi_ackOk xi) (tk_taskId (xi_task xi)) endpointId
               (dr_actionDigest r)
               (if isContained then Contained else if rs_status s = Completed then Executed else UnknownDisposition)
               (dr_decisionId r) (outcome_json (rs_status s) (rs_results s)) (Some (wd_now w n))))) s
      | _ \<Rightarrow> (Inr None, s))"

definition finish_task ::
  "'key exec_input \<Rightarrow> 'w exec_world_scheme \<Rightarrow> string \<Rightarrow> decision_receipt option \<Rightarrow> bool \<Rightarrow> run_state
     \<Rightarrow> (exec_error, task_receipt) result \<times> run_state" where
  "finish_task xi w startedAt dr isContained s0 =
     (let s = require_effect_proof xi isContained s0 in
      and_then (acknowledge xi w dr isContained) (\<lambda>ack.
      and_then next_tick (\<lambda>n.
      let r = \<lparr>rc_taskId = tk_taskId (xi_task xi), rc_status = rs_status s, rc_worktree = task_worktree xi,
          rc_branch = task_branch (tk_taskId (xi_task xi)), rc_commandResults = rs_results s,
          rc_actionAcknowledgement = ack, rc_externalEffectReceipt = rs_effect s,
          rc_startedAt = startedAt, rc_completedAt = isoString (xi_host xi) (wd_now w n)\<rparr> in
      and_then (if requiresActionDecisionReceipt (xi_task xi)
          then and_then next_tick (\<lambda>m. on_journal (recordReceipt (xi_host xi) (xi_ackOk xi) (wd_now w m) r))
          else lift_result (Inr ())) (\<lambda>_.
      and_then (store_receipt xi r) (\<lambda>_. lift_result (Inr r))))) s)"

definition perform_task ::
  "'key exec_input \<Rightarrow> 'w exec_world_scheme \<Rightarrow> int \<Rightarrow> string list \<Rightarrow> string \<Rightarrow> phase option \<Rightarrow> run_state
     \<Rightarrow> (exec_error, task_receipt) result \<times> run_state" where
  "perform_task xi w e required startedAt ph s =
     (case ph of
        Some (ReturnReceipt r) \<Rightarrow> (Inr r, s)
      | Some (Proceed dr True) \<Rightarrow>
          finish_task xi w startedAt (Some dr) True
            (with_results Failed [runner_result (xi_host xi) (denied_message dr) (denied_message dr)] s)
      | Some (Proceed dr False) \<Rightarrow>
          finish_task xi w startedAt (Some dr) False
            (run_in_worktree xi w e (Some dr) True required (with_results Completed [] s))
      | None \<Rightarrow>
          finish_task xi w startedAt None False
            (run_in_worktree xi w e None False required (with_results Completed [] s)))"

text \<open>The part after no previous receipt was found.\<close>

definition fresh_task ::
  "'key exec_input \<Rightarrow> 'w exec_world_scheme \<Rightarrow> int \<Rightarrow> run_state \<Rightarrow> (exec_error, task_receipt) result \<times> run_state" where
  "fresh_task xi w e =
     and_then (lift_result (admit_scope xi)) (\<lambda>required.
     and_then next_tick (\<lambda>k.
     and_then (if requiresActionDecisionReceipt (xi_task xi)
         then (\<lambda>s. map_prod (map_sum id Some) id (journal_phase xi w e s))
         else lift_result (Inr None)) (\<lambda>ph.
     perform_task xi w e required (isoString (xi_host xi) (wd_now w k)) ph)))"

definition executeTask ::
  "'key exec_input \<Rightarrow> 'w exec_world_scheme \<Rightarrow> run_state \<Rightarrow> (exec_error, task_receipt) result \<times> run_state" where
  "executeTask xi w =
     and_then next_tick (\<lambda>n.
     and_then (lift_result (map_sum ETask id
       (verifyTaskEnvelope (xi_host xi) (xi_taskOk xi) (xi_task xi) (xi_serverPublicKey xi)
          (xi_serverKeyResolver xi) (Some (wd_now w n))))) (\<lambda>_.
     and_then next_tick (\<lambda>m.
     case dateParse (xi_host xi) (tk_expiresAt (xi_task xi)) of
       None \<Rightarrow> lift_result (Inl EExpired)
     | Some e \<Rightarrow>
         and_then (guard_that (0 < e - wd_now w m) EExpired) (\<lambda>_.
         and_then (guard_that (tk_organizationId (xi_task xi) = op_organizationId (xi_policy xi)) EOrganization) (\<lambda>_ s.
         case receipt_get (xi_host xi) (xi_ackOk xi) (rs_receipts s) (tk_taskId (xi_task xi)) of
           Inl err \<Rightarrow> (Inl (EStore err), s)
         | Inr (Some previous) \<Rightarrow> (Inr previous, s)
         | Inr None \<Rightarrow> fresh_task xi w e s)))))"

subsection \<open>Rules for runs\<close>

lemma next_tick_ok [simp]: "next_tick s = (Inr n, s') \<longleftrightarrow> n = rs_tick s \<and> s' = s\<lparr>rs_tick := Suc (rs_tick s)\<rparr>"
  by (auto simp: next_tick_def)

definition calls_of :: "run_state \<Rightarrow> provider_input list \<times> string list list" where
  "calls_of s = (rs_providerCalls s, rs_commandRuns s)"

lemma frame_calls [inv_intros]:
  "frame calls_of next_tick" "frame calls_of (on_journal f)" "frame calls_of (store_receipt xi r)"
  "frame calls_of (consume_decision dr)" "frame calls_of (check_files xi w e a i)" "frame calls_of (push_result c)"
  "frame calls_of (note_effect xi d cid out)"
  by (auto simp: frame_def calls_of_def next_tick_def on_journal_def store_receipt_def consume_decision_def
      check_files_def push_result_def note_effect_def split: prod.splits sum.splits option.splits)

lemma frame_calls_small [inv_intros]:
  "frame calls_of (check_writes xi w actor)" "frame calls_of (not_expired w e message)" "frame calls_of (move xi w al st)"
  "frame calls_of (artifacts_still_current w e)" "frame calls_of (prepare_knowledge xi w)"
  unfolding check_writes_def not_expired_def move_def artifacts_still_current_def prepare_knowledge_def
  by (auto intro!: inv_intros split: option.split)

lemma frame_calls_note_failure [inv_intros]: "frame calls_of (note_failure w c)"
proof -
  have "frame calls_of (\<lambda>s. (Inr (), s\<lparr>rs_status := st\<rparr>))" for st by (simp add: frame_def calls_of_def)
  then show ?thesis unfolding note_failure_def by (intro inv_intros)
qed

lemma frame_calls_observe [inv_intros]: "frame calls_of (observe_effect xi w claimed txt)"
proof -
  have "frame calls_of (\<lambda>s. case recordEffectObserved h ok now t txt (rs_journal s) of
      (Inl _, d) \<Rightarrow> (Inl m, s\<lparr>rs_journal := d\<rparr>) | (Inr _, d) \<Rightarrow> (Inr (), s\<lparr>rs_journal := d\<rparr>))" for h ok now t m
    by (auto simp: frame_def calls_of_def split: prod.splits sum.splits)
  then show ?thesis unfolding observe_effect_def by (intro inv_intros)
qed

lemma frame_calls_claim [inv_intros]: "frame calls_of (claim_execution xi w e r)"
proof -
  have "frame calls_of (\<lambda>s. case journal_claim h ok ow now r age (rs_journal s) of
      (Inr _, d) \<Rightarrow> (Inr (), s\<lparr>rs_journal := d\<rparr>)
    | (Inl err, d) \<Rightarrow> (Inl (f err), s\<lparr>rs_journal := d\<rparr>))" for h ok ow now age f
    by (auto simp: frame_def calls_of_def split: prod.splits sum.splits)
  then show ?thesis unfolding claim_execution_def Let_def by (intro inv_intros)
qed

lemma frame_calls_journal_phase [inv_intros]: "frame calls_of (journal_phase xi w e)"
  unfolding journal_phase_def recover_interrupted_def decide_execution_def authorize_replay_def Let_def
  by (auto intro!: inv_intros split: option.split)

lemma frame_calls_finish [inv_intros]: "frame calls_of (finish_task xi w at dr c)"
proof -
  have "frame calls_of (acknowledge xi w dr c)"
    unfolding frame_def acknowledge_def and_then_def next_tick_def lift_result_def
    by (auto simp: calls_of_def split: option.split sum.split)
  then have fin: "frame calls_of (and_then (acknowledge xi w dr c) (\<lambda>ack. and_then next_tick (\<lambda>n.
      and_then (f ack n) (\<lambda>_. and_then (store_receipt xi (r ack n)) (\<lambda>_. lift_result (Inr (r ack n)))))))"
    if "\<And>ack n. frame calls_of (f ack n)" for f r
    using that by (intro inv_intros)
  have "calls_of (require_effect_proof xi c s) = calls_of s" for s
    by (simp add: require_effect_proof_def calls_of_def)
  then show ?thesis
    unfolding frame_def [of _ "finish_task xi w at dr c"] finish_task_def Let_def
    by (subst fin [THEN frame_apply]) (auto intro!: inv_intros)
qed

subsection \<open>What starts a provider\<close>

text \<open>The decision that a task carries, verified at some call of the clock.\<close>

definition released ::
  "'key exec_input \<Rightarrow> 'w exec_world_scheme \<Rightarrow> decision_receipt \<Rightarrow> bool" where
  "released xi w dr = (dr_outcome dr = Release \<and>
     (\<exists>receiver n. xi_decisions xi = Some receiver \<and> verifyEmbeddedActionDecision xi receiver (wd_now w n) = Inr dr))"

definition admitted :: "'key exec_input \<Rightarrow> 'w exec_world_scheme \<Rightarrow> bool" where
  "admitted xi w = (\<exists>n artifacts.
     verifyTaskEnvelope (xi_host xi) (xi_taskOk xi) (xi_task xi) (xi_serverPublicKey xi) (xi_serverKeyResolver xi) (Some (wd_now w n)) = Inr ()
     \<and> tk_organizationId (xi_task xi) = op_organizationId (xi_policy xi)
     \<and> admit_scope xi = Inr artifacts)"

lemma decide_proceed:
  "decide_execution xi w e receiver dr r s = (Inr (Proceed dr' held), s') \<Longrightarrow>
     dr' = dr \<and> (held \<longleftrightarrow> dr_outcome dr \<noteq> Release)"
  by (auto simp: decide_execution_def and_then_ok split: if_splits)

lemma recover_returns: "recover_interrupted xi w r s = (Inr ph, s') \<Longrightarrow> \<exists>receipt. ph = ReturnReceipt receipt"
  by (auto simp: recover_interrupted_def and_then_ok)

lemma journal_phase_proceed:
  assumes "journal_phase xi w e s = (Inr (Proceed dr held), s')"
  shows "\<exists>receiver n. xi_decisions xi = Some receiver \<and> verifyEmbeddedActionDecision xi receiver (wd_now w n) = Inr dr"
    and "held \<longleftrightarrow> dr_outcome dr \<noteq> Release"
  using assms unfolding journal_phase_def
  by (auto simp: and_then_ok Let_def dest!: decide_proceed recover_returns split: option.splits if_splits)

lemma frame_and_then_val:
  assumes "frame f m" "\<And>x s s'. m s = (Inr x, s') \<Longrightarrow> f (snd (g x s')) = f s'"
  shows "frame f (and_then m g)"
  unfolding frame_def
proof
  fix s
  obtain r s1 where m: "m s = (r, s1)" by fastforce
  with frame_apply [OF assms(1), of s] have "f s1 = f s" by simp
  with m assms(2) [of s _ s1] show "f (snd (and_then m g s)) = f s"
    by (cases r) (auto simp: and_then_def)
qed

lemma with_results_calls [simp]: "calls_of (with_results st cs s) = calls_of s"
  by (simp add: with_results_def calls_of_def)

lemma perform_quiet:
  assumes "\<And>dr. ph = Some (Proceed dr False) \<Longrightarrow> False" "ph \<noteq> None"
  shows "calls_of (snd (perform_task xi w e req at ph s)) = calls_of s"
proof -
  obtain p where ph: "ph = Some p" using assms(2) by auto
  show ?thesis
  proof (cases p)
    case (ReturnReceipt r)
    with ph show ?thesis by (simp add: perform_task_def)
  next
    case (Proceed dr held)
    with assms(1) ph have "held" by auto
    with ph Proceed show ?thesis
      by (simp add: perform_task_def frame_apply [OF frame_calls_finish])
  qed
qed

lemma fresh_task_quiet:
  assumes "requiresActionDecisionReceipt (xi_task xi)" "\<And>dr. \<not> released xi w dr"
  shows "frame calls_of (fresh_task xi w e)"
proof -
  let ?jp = "\<lambda>s. map_prod (map_sum id Some) id (journal_phase xi w e s)"
  have jp: "frame calls_of ?jp"
    using frame_calls_journal_phase [of xi w e] by (simp add: frame_def)
  have no_run: "ph \<noteq> Some (Proceed dr False)" "ph \<noteq> None" if "?jp s = (Inr ph, s')" for ph dr s s'
  proof -
    from that obtain p where p: "journal_phase xi w e s = (Inr p, s')" "ph = Some p"
      by (cases "journal_phase xi w e s"; cases "fst (journal_phase xi w e s)") auto
    then show "ph \<noteq> None" by simp
    show "ph \<noteq> Some (Proceed dr False)"
    proof
      assume "ph = Some (Proceed dr False)"
      with p have "journal_phase xi w e s = (Inr (Proceed dr False), s')" by simp
      from journal_phase_proceed [OF this] have "released xi w dr" by (auto simp: released_def)
      with assms(2) show False by blast
    qed
  qed
  show ?thesis
    unfolding fresh_task_def using assms(1)
    by (auto intro!: inv_intros frame_and_then_val [OF jp] perform_quiet dest: no_run)
qed

lemma execute_quiet:
  assumes "\<And>e. frame calls_of (fresh_task xi w e)"
  shows "frame calls_of (executeTask xi w)"
proof -
  have prev: "frame calls_of (\<lambda>s. case receipt_get h ok (rs_receipts s) t of
      Inl err \<Rightarrow> (Inl (EStore err), s) | Inr (Some previous) \<Rightarrow> (Inr previous, s)
    | Inr None \<Rightarrow> fresh_task xi w e s)" for h ok t e
    using assms by (auto simp: frame_def split: sum.split option.split)
  show ?thesis
    unfolding executeTask_def
    by (auto intro!: inv_intros prev split: option.split)
qed

lemma fresh_task_unadmitted:
  "(\<And>artifacts. admit_scope xi \<noteq> Inr artifacts) \<Longrightarrow> frame calls_of (fresh_task xi w e)"
  unfolding fresh_task_def
  by (rule frame_and_then_val [OF frame_lift]) simp

lemma execute_unverified:
  assumes "\<And>n. verifyTaskEnvelope (xi_host xi) (xi_taskOk xi) (xi_task xi) (xi_serverPublicKey xi)
      (xi_serverKeyResolver xi) (Some (wd_now w n)) \<noteq> Inr ()"
  shows "frame calls_of (executeTask xi w)"
proof -
  have "map_sum ETask id (verifyTaskEnvelope (xi_host xi) (xi_taskOk xi) (xi_task xi) (xi_serverPublicKey xi)
      (xi_serverKeyResolver xi) (Some (wd_now w n))) \<noteq> Inr ()" for n
    using assms [of n]
    by (cases "verifyTaskEnvelope (xi_host xi) (xi_taskOk xi) (xi_task xi) (xi_serverPublicKey xi)
      (xi_serverKeyResolver xi) (Some (wd_now w n))") auto
  then show ?thesis
    unfolding executeTask_def
    by (intro frame_and_then [OF frame_calls(1)] frame_and_then_val [OF frame_lift]) simp
qed

text \<open>
  C9. Nothing runs without an admitted task and a released decision.  If a call of
  \<open>executeTask\<close> started the provider or an acceptance command, then the envelope's signature was
  verified at a time before its expiry, the task passed every scope check, and, for a task that
  requires a decision receipt, the embedded receipt was verified against this very task and its
  outcome is to release: a decision to block, escalate or withhold starts nothing.
\<close>

theorem execution_needs_release:
  assumes run: "executeTask xi w s = (r, s')"
    and started: "rs_providerCalls s' \<noteq> rs_providerCalls s \<or> rs_commandRuns s' \<noteq> rs_commandRuns s"
  shows "(\<exists>n. verifyTaskEnvelope (xi_host xi) (xi_taskOk xi) (xi_task xi) (xi_serverPublicKey xi)
        (xi_serverKeyResolver xi) (Some (wd_now w n)) = Inr ())
    \<and> (\<exists>artifacts. admit_scope xi = Inr artifacts)
    \<and> (requiresActionDecisionReceipt (xi_task xi) \<longrightarrow>
        (\<exists>receiver n dr. xi_decisions xi = Some receiver \<and> dr_outcome dr = Release
           \<and> verifyEmbeddedActionDecision xi receiver (wd_now w n) = Inr dr))"
proof -
  have moved: "\<not> frame calls_of (executeTask xi w)"
    using started run frame_apply [of calls_of "executeTask xi w" s] by (auto simp: calls_of_def)
  have "\<exists>n. verifyTaskEnvelope (xi_host xi) (xi_taskOk xi) (xi_task xi) (xi_serverPublicKey xi)
        (xi_serverKeyResolver xi) (Some (wd_now w n)) = Inr ()"
    using execute_unverified moved by blast
  moreover have "\<exists>artifacts. admit_scope xi = Inr artifacts"
    using execute_quiet [OF fresh_task_unadmitted] moved by blast
  moreover have "\<exists>dr. released xi w dr" if "requiresActionDecisionReceipt (xi_task xi)"
    using execute_quiet [OF fresh_task_quiet [OF that]] moved by blast
  ultimately show ?thesis unfolding released_def by blast
qed

subsection \<open>What a completed task has done\<close>

definition out_of :: "run_state \<Rightarrow> task_status \<times> command_result list \<times> effect_receipt option" where
  "out_of s = (rs_status s, rs_results s, rs_effect s)"

lemma frame_out [inv_intros]:
  "frame out_of next_tick" "frame out_of (check_files xi w e a i)" "frame out_of (run_command w argv cwd ms en)"
  "frame out_of (call_provider w pv)"
  by (auto simp: frame_def out_of_def next_tick_def check_files_def run_command_def call_provider_def and_then_def
      split: prod.splits)

lemma frame_out_small [inv_intros]:
  "frame out_of (check_writes xi w actor)" "frame out_of (not_expired w e message)"
  "frame out_of (artifacts_still_current w e)" "frame out_of (prepare_knowledge xi w)"
  unfolding check_writes_def not_expired_def artifacts_still_current_def prepare_knowledge_def
  by (auto intro!: inv_intros split: option.split)

lemma frame_out_knowledge [inv_intros]: "frame out_of (provider_with_knowledge xi w kd pv)"
  unfolding frame_def
proof
  fix s
  obtain r s1 where call: "call_provider w pv s = (r, s1)" by fastforce
  with frameD [OF frame_out(4) call] show "out_of (snd (provider_with_knowledge xi w kd pv s)) = out_of s"
    by (auto simp: provider_with_knowledge_def out_of_def split: option.split prod.split)
qed

lemma frame_out_observe [inv_intros]: "frame out_of (observe_effect xi w claimed txt)"
proof -
  have "frame out_of (\<lambda>s. case recordEffectObserved h ok now t txt (rs_journal s) of
      (Inl _, d) \<Rightarrow> (Inl m, s\<lparr>rs_journal := d\<rparr>) | (Inr _, d) \<Rightarrow> (Inr (), s\<lparr>rs_journal := d\<rparr>))" for h ok now t m
    by (auto simp: frame_def out_of_def split: prod.splits sum.splits)
  then show ?thesis unfolding observe_effect_def by (intro inv_intros)
qed

lemma frame_out_provider [inv_intros]: "frame out_of (run_provider xi w e dr readOnly)"
  unfolding run_provider_def Let_def
  by (intro inv_intros) (auto intro!: inv_intros split: prod.split)

lemma note_failure_out:
  "note_failure w c s = (Inr u, s') \<Longrightarrow> rs_results s' = rs_results s \<and> rs_effect s' = rs_effect s
     \<and> (if result_failed c then rs_status s' \<noteq> Completed else rs_status s' = rs_status s)"
  by (auto simp: note_failure_def and_then_ok failed_status_def split: if_splits)

text \<open>The effect receipt that a command leaves when it is the registered verifier.\<close>

definition effect_noted ::
  "'key exec_input \<Rightarrow> decision_receipt option \<Rightarrow> string \<Rightarrow> effect_receipt option \<Rightarrow> effect_receipt option \<Rightarrow> bool" where
  "effect_noted xi dr c before after =
     (after = before \<or> (\<exists>d out e. dr = Some d \<and> after = Some e
        \<and> ac_externalEffectReceiptCommandId (tk_acceptance (xi_task xi)) = Some c
        \<and> parseExternalEffectReceipt (xi_host xi) (xi_parseJson xi) out (dr_actionDigest d) (dr_decisionId d) = Inr e))"

lemma note_effect_out:
  "note_effect xi dr c out s = (Inr u, s') \<Longrightarrow> rs_results s' = rs_results s \<and> rs_status s' = rs_status s
     \<and> effect_noted xi dr c (rs_effect s) (rs_effect s')"
  by (auto simp: note_effect_def effect_noted_def split: option.splits if_splits sum.splits)

lemma post_push: "Q () (s\<lparr>rs_results := rs_results s @ [c]\<rparr>) \<Longrightarrow> post (push_result c) s Q"
  by (simp add: post_def push_result_def)

lemma post_note_effect:
  "(\<And>s1. rs_results s1 = rs_results s \<Longrightarrow> rs_status s1 = rs_status s \<Longrightarrow>
      effect_noted xi dr c (rs_effect s) (rs_effect s1) \<Longrightarrow> Q () s1) \<Longrightarrow> post (note_effect xi dr c out) s Q"
  unfolding post_def using note_effect_out by fastforce

lemma post_note_failure:
  "(\<And>s1. rs_results s1 = rs_results s \<Longrightarrow> rs_effect s1 = rs_effect s \<Longrightarrow>
      (if result_failed c then rs_status s1 \<noteq> Completed else rs_status s1 = rs_status s) \<Longrightarrow> Q () s1)
     \<Longrightarrow> post (note_failure w c) s Q"
  unfolding post_def using note_failure_out by fastforce

text \<open>What one acceptance command does to the outcome of the run.\<close>

definition accepted_one ::
  "'key exec_input \<Rightarrow> decision_receipt option \<Rightarrow> string \<Rightarrow> run_state \<Rightarrow> bool \<Rightarrow> run_state \<Rightarrow> bool" where
  "accepted_one xi dr c s go_on s' =
     (\<exists>r. rs_results s' = rs_results s @ [r] \<and> cr_commandId r = c \<and> go_on = (\<not> result_failed r)
       \<and> (if go_on then rs_status s' = rs_status s else rs_status s' \<noteq> Completed)
       \<and> effect_noted xi dr c (rs_effect s) (rs_effect s'))"

lemma accept_command_out: "post (accept_command xi w e dr readOnly ig c) s (accepted_one xi dr c s)"
  unfolding accept_command_def Let_def
  apply (rule post_and_then post_lift)+
  apply (rule post_and_then post_frame [OF frame_out(1)])+
  apply (rule post_guard)
  apply (rule post_and_then post_frame [OF frame_out(3)])+
  apply (rule post_frame [OF frame_out_small(2)])
  apply (rule post_and_then post_push)+
  apply (rule post_frame [OF frame_out(2)])
  apply (rule post_and_then post_frame [OF frame_out_small(1)])+
  apply (rule post_frame [OF frame_out_small(3)])
  apply (rule post_and_then post_note_effect)+
  apply (rule post_note_failure)
  apply (rule post_lift)
  apply (auto simp: accepted_one_def out_of_def split: if_splits)
  done

definition effect_proved :: "'key exec_input \<Rightarrow> decision_receipt option \<Rightarrow> effect_receipt \<Rightarrow> bool" where
  "effect_proved xi dr e = (\<exists>d out. dr = Some d \<and>
     parseExternalEffectReceipt (xi_host xi) (xi_parseJson xi) out (dr_actionDigest d) (dr_decisionId d) = Inr e)"

definition effect_step :: "'key exec_input \<Rightarrow> decision_receipt option \<Rightarrow> run_state \<Rightarrow> run_state \<Rightarrow> bool" where
  "effect_step xi dr s s' = (rs_effect s' = rs_effect s \<or> (\<exists>e. rs_effect s' = Some e \<and> effect_proved xi dr e))"

lemma effect_step_trans: "effect_step xi dr s s1 \<Longrightarrow> effect_step xi dr s1 s2 \<Longrightarrow> effect_step xi dr s s2"
  by (auto simp: effect_step_def)

lemma accepted_one_effect: "accepted_one xi dr c s go_on s' \<Longrightarrow> effect_step xi dr s s'"
  by (auto simp: accepted_one_def effect_noted_def effect_step_def effect_proved_def)

text \<open>The outcome of a sequence of commands.\<close>

definition accepted_all ::
  "'key exec_input \<Rightarrow> decision_receipt option \<Rightarrow> string list \<Rightarrow> run_state \<Rightarrow> run_state \<Rightarrow> bool" where
  "accepted_all xi dr cs s s' =
     ((rs_status s' = Completed \<longrightarrow> rs_status s = Completed \<and>
        (\<exists>rs. rs_results s' = rs_results s @ rs \<and> map cr_commandId rs = cs \<and> list_all (\<lambda>r. \<not> result_failed r) rs))
      \<and> effect_step xi dr s s')"

lemma accept_commands_out:
  "accept_commands xi w e dr readOnly ig cs s = (Inr u, s') \<Longrightarrow> accepted_all xi dr cs s s'"
proof (induction cs arbitrary: s)
  case Nil
  then show ?case by (simp add: accepted_all_def effect_step_def)
next
  case (Cons c cs)
  let ?s = "s\<lparr>rs_tick := Suc (rs_tick s)\<rparr>"
  consider (stop) "s' = s" "rs_status s \<noteq> Completed"
    | (abort) "s' = s\<lparr>rs_tick := Suc (rs_tick s), rs_status := Cancelled\<rparr>"
    | (run) go_on s1 where "rs_status s = Completed" "accept_command xi w e dr readOnly ig c ?s = (Inr go_on, s1)"
        "(if go_on then accept_commands xi w e dr readOnly ig cs else lift_result (Inr ())) s1 = (Inr u, s')"
    using Cons.prems by (auto simp: and_then_ok split: if_splits)
  then show ?case
  proof cases
    case stop
    then show ?thesis by (simp add: accepted_all_def effect_step_def)
  next
    case abort
    then show ?thesis by (simp add: accepted_all_def effect_step_def)
  next
    case run
    have one: "accepted_one xi dr c ?s go_on s1" by (rule postD [OF accept_command_out run(2)])
    note eff = accepted_one_effect [OF one]
    show ?thesis
    proof (cases go_on)
      case True
      with Cons.IH run(3) have rest: "accepted_all xi dr cs s1 s'" by simp
      with one True eff show ?thesis
        unfolding accepted_all_def accepted_one_def
        by (auto simp: effect_step_def)
    next
      case False
      with run(3) one eff show ?thesis
        by (auto simp: accepted_all_def accepted_one_def effect_step_def)
    qed
  qed
qed

text \<open>A whole run that leaves the status completed.\<close>

definition done_all :: "'key exec_input \<Rightarrow> command_result list \<Rightarrow> bool" where
  "done_all xi results = (\<exists>p rs. results = p # rs
     \<and> cr_commandId p = ''provider.'' @ provider_name (tk_provider (xi_task xi)) \<and> \<not> result_failed p
     \<and> map cr_commandId rs = ac_commands (tk_acceptance (xi_task xi)) \<and> list_all (\<lambda>r. \<not> result_failed r) rs)"

lemma post_commands:
  "(\<And>s1. accepted_all xi dr cs s s1 \<Longrightarrow> Q () s1) \<Longrightarrow> post (accept_commands xi w e dr readOnly ig cs) s Q"
  unfolding post_def using accept_commands_out by (metis (full_types) old.unit.exhaust)

definition body_done :: "'key exec_input \<Rightarrow> decision_receipt option \<Rightarrow> run_state \<Rightarrow> bool" where
  "body_done xi dr s' = (rs_status s' = Completed \<longrightarrow> done_all xi (rs_results s')
     \<and> (rs_effect s' = None \<or> (\<exists>e. rs_effect s' = Some e \<and> effect_proved xi dr e)))"

lemma body_done_final:
  assumes all: "accepted_all xi dr (ac_commands (tk_acceptance (xi_task xi))) s2 s3"
    and r: "rs_results s2 = [r]" "cr_commandId r = ''provider.'' @ provider_name (tk_provider (xi_task xi))"
      "result_failed r \<Longrightarrow> rs_status s2 \<noteq> Completed"
    and eff: "rs_effect s2 = None"
  shows "body_done xi dr s3"
proof -
  have "done_all xi (rs_results s3)" if "rs_status s3 = Completed"
  proof -
    from all that obtain rs where "rs_status s2 = Completed" "rs_results s3 = r # rs"
        "map cr_commandId rs = ac_commands (tk_acceptance (xi_task xi))" "list_all (\<lambda>r. \<not> result_failed r) rs"
      using r(1) unfolding accepted_all_def by auto
    with r(2,3) show ?thesis unfolding done_all_def by blast
  qed
  with all eff show ?thesis by (simp add: body_done_def accepted_all_def effect_step_def)
qed

lemma frame_final [inv_intros]: "frame out_of (final_artifacts xi w e required ig)"
proof -
  have "frame out_of (and_then (check_files xi w e required (Some ig)) (\<lambda>_. lift_result (Inr ())))"
    by (intro inv_intros)
  then show ?thesis by (simp add: frame_def final_artifacts_def)
qed

lemma body_done_frame: "out_of s' = out_of s \<Longrightarrow> body_done xi dr s \<Longrightarrow> body_done xi dr s'"
  by (simp add: out_of_def body_done_def)

lemma after_provider_out:
  assumes "out_of s = (Completed, [], None)"
  shows "post (after_provider xi w e dr claimed readOnly required out ig) s (\<lambda>_. body_done xi dr)"
  unfolding after_provider_def Let_def
  apply (rule post_and_then post_frame [OF frame_out_observe] post_push)+
  apply (rule post_and_then post_note_failure)+
  apply (rule post_frame [OF frame_out(2)])
  apply (rule post_and_then post_frame [OF frame_out_small(1)])+
  apply (rule post_commands)
  apply (rule post_frame [OF frame_final])
  apply (erule body_done_frame)
  apply (erule body_done_final)
  using assms by (auto simp: out_of_def split: if_splits)

lemma run_body_out:
  assumes "out_of s = (Completed, [], None)"
  shows "post (run_body xi w e dr claimed required) s (\<lambda>_. body_done xi dr)"
  unfolding run_body_def Let_def
  apply (rule post_and_then)
  apply (rule post_frame [OF frame_out_provider])
  apply (rule after_provider_out)
  using assms by simp

lemma run_in_worktree_done:
  assumes "out_of s = (Completed, [], None)"
  shows "body_done xi dr (run_in_worktree xi w e dr claimed required s)"
proof -
  obtain r s1 where body: "run_body xi w e dr claimed required s = (r, s1)" by fastforce
  show ?thesis
  proof (cases r)
    case (Inl m)
    with body show ?thesis by (auto simp: run_in_worktree_def body_done_def failed_status_def)
  next
    case (Inr u)
    with body postD [OF run_body_out [OF assms]] show ?thesis by (simp add: run_in_worktree_def)
  qed
qed

lemma finish_receipt:
  assumes "finish_task xi w at dr held s = (Inr r, s')"
  shows "rc_status r = rs_status (require_effect_proof xi held s)"
    "rc_commandResults r = rs_results (require_effect_proof xi held s)"
    "rc_externalEffectReceipt r = rs_effect (require_effect_proof xi held s)" "rc_taskId r = tk_taskId (xi_task xi)"
  using assms unfolding finish_task_def
  by (auto simp: and_then_ok Let_def)

lemma recover_failed: "recover_interrupted xi w r s = (Inr (ReturnReceipt x), s') \<Longrightarrow> rc_status x = Failed"
proof -
  assume "recover_interrupted xi w r s = (Inr (ReturnReceipt x), s')"
  then obtain n where n: "map_sum EAck id (interruptedActionReceipt (xi_host xi) (xi_ackOk xi) r n) = Inr x"
    by (auto simp: recover_interrupted_def and_then_ok)
  then show ?thesis
    by (cases "interruptedActionReceipt (xi_host xi) (xi_ackOk xi) r n")
      (auto simp: interruptedActionReceipt_def Let_def split: sum.splits)
qed

lemma prepare_new:
  assumes "journal_prepare h ok now i d = (Inr p, d')" "jd_records d (pi_taskId i) = None"
  shows "jr_state (fst p) = Prepared"
  using assms by (auto simp: journal_prepare_def Let_def)

lemma decide_no_return: "decide_execution xi w e receiver dr r s \<noteq> (Inr (ReturnReceipt x), s')"
  by (auto simp: decide_execution_def and_then_ok split: if_splits)

lemma on_journal_ok:
  "on_journal f s = (Inr x, s') \<longleftrightarrow> (\<exists>d. f (rs_journal s) = (Inr x, d) \<and> s' = s\<lparr>rs_journal := d\<rparr>)"
  by (auto simp: on_journal_def split: prod.splits) (metis map_sum.simps sum.exhaust sum.inject(2) id_apply sum.distinct(1))+

lemma post_on_journal:
  "(\<And>x d. f (rs_journal s) = (Inr x, d) \<Longrightarrow> Q x (s\<lparr>rs_journal := d\<rparr>)) \<Longrightarrow> post (on_journal f) s Q"
  by (auto simp: post_def on_journal_ok)

lemma post_tick: "Q (rs_tick s) (s\<lparr>rs_tick := Suc (rs_tick s)\<rparr>) \<Longrightarrow> post next_tick s Q"
  by (simp add: post_def)

lemma post_recover: "post (recover_interrupted xi w r) s (\<lambda>ph _. \<exists>x. ph = ReturnReceipt x \<and> rc_status x = Failed)"
  unfolding post_def using recover_failed recover_returns by blast

lemma post_decide: "post (decide_execution xi w e receiver dr r) s (\<lambda>ph _. \<nexists>x. ph = ReturnReceipt x)"
  unfolding post_def using decide_no_return by blast

lemma post_throw: "post (lift_result (Inl e)) s Q"
  by (simp add: post_def)

lemma post_weaken: "post m s Q \<Longrightarrow> (\<And>x s'. Q x s' \<Longrightarrow> Q' x s') \<Longrightarrow> post m s Q'"
  by (simp add: post_def)

lemma journal_phase_return:
  assumes none: "jd_records (rs_journal s) (tk_taskId (xi_task xi)) = None"
  shows "post (journal_phase xi w e) s (\<lambda>ph _. \<forall>x. ph = ReturnReceipt x \<longrightarrow> rc_status x = Failed)"
proof (cases "xi_decisions xi")
  case None
  then show ?thesis by (simp add: journal_phase_def post_throw)
next
  case (Some receiver)
  have recover: "post (recover_interrupted xi w r) s1 (\<lambda>ph _. \<forall>x. ph = ReturnReceipt x \<longrightarrow> rc_status x = Failed)" for r s1
    by (rule post_weaken [OF post_recover]) auto
  have decide: "post (decide_execution xi w e receiver dr r) s1 (\<lambda>ph _. \<forall>x. ph = ReturnReceipt x \<longrightarrow> rc_status x = Failed)" for dr r s1
    by (rule post_weaken [OF post_decide]) auto
  have claim: "post (and_then (on_journal (\<lambda>d. (journal_getClaim h d t, d))) (\<lambda>prior. case prior of
            Some c \<Rightarrow>
              if conflict c then lift_result (Inl EClaimConflict)
              else and_then next_tick (\<lambda>k. if alive k c then lift_result (Inl EInProgress) else recover_interrupted xi w r)
          | None \<Rightarrow> if open_state then recover_interrupted xi w r else decide_execution xi w e receiver dr r)) s1
        (\<lambda>ph _. \<forall>x. ph = ReturnReceipt x \<longrightarrow> rc_status x = Failed)" for h t conflict alive r open_state dr s1
    by (auto intro!: post_and_then post_on_journal post_if post_throw post_tick recover decide split: option.split)
  show ?thesis
    unfolding journal_phase_def Some Let_def option.case
    apply (rule post_if [OF post_throw])
    apply (rule post_and_then post_tick post_lift)+
    apply (rule post_on_journal)
    apply (rule post_if)
     apply (drule prepare_new)
      apply (simp add: none)
     apply simp
    apply (rule claim)
    done
qed

lemma post_receipts: "frame (\<lambda>s. rs_receipts s) m \<Longrightarrow> (\<And>x s1. rs_receipts s1 = rs_receipts s \<Longrightarrow> Q x s1) \<Longrightarrow> post m s Q"
  by (rule post_frame)

lemma perform_completed:
  assumes "perform_task xi w e required at ph s = (Inr r, s')" "rc_status r = Completed"
    and "\<And>x. ph = Some (ReturnReceipt x) \<Longrightarrow> rc_status x = Failed"
    and "ph = None \<longleftrightarrow> \<not> requiresActionDecisionReceipt (xi_task xi)"
  shows "done_all xi (rc_commandResults r)
    \<and> (requiresActionDecisionReceipt (xi_task xi) \<and> au_network (tk_authority (xi_task xi)) \<noteq> ''deny'' \<longrightarrow>
        (\<exists>dr ef. ph = Some (Proceed dr False) \<and> rc_externalEffectReceipt r = Some ef \<and> effect_proved xi (Some dr) ef))"
proof -
  have start: "out_of (with_results Completed [] s) = (Completed, [], None)"
    by (simp add: out_of_def with_results_def)
  consider (plain) "ph = None" | (held) dr where "ph = Some (Proceed dr True)"
    | (run) dr where "ph = Some (Proceed dr False)" | (ret) x where "ph = Some (ReturnReceipt x)"
    by (metis (full_types) option.exhaust phase.exhaust)
  then show ?thesis
  proof cases
    case plain
    let ?s = "run_in_worktree xi w e None False required (with_results Completed [] s)"
    from plain assms(1) have fin: "finish_task xi w at None False ?s = (Inr r, s')" by (simp add: perform_task_def)
    have "rs_status (require_effect_proof xi False ?s) = Completed"
      using finish_receipt(1) [OF fin] assms(2) by simp
    then have same: "require_effect_proof xi False ?s = ?s" "rs_status ?s = Completed"
      by (auto simp: require_effect_proof_def split: if_splits)
    with run_in_worktree_done [OF start, of xi None w e False required] finish_receipt(2) [OF fin] assms(4) plain
    show ?thesis by (simp add: body_done_def)
  next
    case held
    then have "rc_status r \<noteq> Completed"
      using assms(1) by (auto simp: perform_task_def require_effect_proof_def with_results_def dest!: finish_receipt(1))
    with assms(2) show ?thesis by simp
  next
    case run
    let ?s = "run_in_worktree xi w e (Some dr) True required (with_results Completed [] s)"
    from run assms(1) have fin: "finish_task xi w at (Some dr) False ?s = (Inr r, s')" by (simp add: perform_task_def)
    have "rs_status (require_effect_proof xi False ?s) = Completed"
      using finish_receipt(1) [OF fin] assms(2) by simp
    then have same: "require_effect_proof xi False ?s = ?s" "rs_status ?s = Completed"
      and eff: "requiresActionDecisionReceipt (xi_task xi) \<and> au_network (tk_authority (xi_task xi)) \<noteq> ''deny''
         \<Longrightarrow> rs_effect ?s \<noteq> None"
      by (auto simp: require_effect_proof_def split: if_splits)
    with run_in_worktree_done [OF start, of xi "Some dr" w e True required] finish_receipt(2,3) [OF fin] run
    show ?thesis by (auto simp: body_done_def)
  next
    case ret
    with assms show ?thesis by (auto simp: perform_task_def)
  qed
qed

lemma fresh_completed:
  assumes run: "fresh_task xi w e s = (Inr r, s')" and st: "rc_status r = Completed"
    and none: "jd_records (rs_journal s) (tk_taskId (xi_task xi)) = None"
  shows "done_all xi (rc_commandResults r)
    \<and> (requiresActionDecisionReceipt (xi_task xi) \<and> au_network (tk_authority (xi_task xi)) \<noteq> ''deny'' \<longrightarrow>
        (\<exists>dr ef. released xi w dr \<and> rc_externalEffectReceipt r = Some ef \<and> effect_proved xi (Some dr) ef))"
proof -
  let ?need = "requiresActionDecisionReceipt (xi_task xi)"
  obtain required k ph s1 s2 where s1: "s1 = s\<lparr>rs_tick := Suc (rs_tick s)\<rparr>"
    and ph: "(if ?need then (\<lambda>s. map_prod (map_sum id Some) id (journal_phase xi w e s)) else lift_result (Inr None)) s1 = (Inr ph, s2)"
    and perform: "perform_task xi w e required (isoString (xi_host xi) (wd_now w k)) ph s2 = (Inr r, s')"
    using run unfolding fresh_task_def by (auto simp: and_then_ok)
  have phase: "\<exists>p. ph = Some p \<and> journal_phase xi w e s1 = (Inr p, s2)" if ?need
    using ph that by (cases "journal_phase xi w e s1"; cases "fst (journal_phase xi w e s1)") auto
  have ret: "rc_status x = Failed" if "ph = Some (ReturnReceipt x)" for x
  proof -
    from that ph have ?need by (auto split: if_splits)
    from phase [OF this] that have "journal_phase xi w e s1 = (Inr (ReturnReceipt x), s2)" by auto
    moreover have "jd_records (rs_journal s1) (tk_taskId (xi_task xi)) = None" using none s1 by simp
    ultimately show ?thesis using postD [OF journal_phase_return] by blast
  qed
  have "ph = None \<longleftrightarrow> \<not> ?need"
    using phase ph by (auto split: if_splits)
  note finished = perform_completed [OF perform st ret this]
  have "released xi w dr" if "ph = Some (Proceed dr False)" ?need for dr
    using phase [OF that(2)] that(1) journal_phase_proceed [of xi w e s1 dr False s2] by (auto simp: released_def)
  with finished show ?thesis by blast
qed

lemma execute_ok:
  assumes "executeTask xi w s = (Inr r, s')"
  obtains (stored) "receipt_get (xi_host xi) (xi_ackOk xi) (rs_receipts s) (tk_taskId (xi_task xi)) = Inr (Some r)"
      "s' = s\<lparr>rs_tick := Suc (Suc (rs_tick s))\<rparr>"
  | (fresh) e where "receipt_get (xi_host xi) (xi_ackOk xi) (rs_receipts s) (tk_taskId (xi_task xi)) = Inr None"
      "fresh_task xi w e (s\<lparr>rs_tick := Suc (Suc (rs_tick s))\<rparr>) = (Inr r, s')"
  using assms that unfolding executeTask_def
  by (auto simp: and_then_ok split: option.splits sum.splits)

text \<open>
  C10. A completed task did everything it was signed for.  If a task without earlier receipt or
  journal record ends as completed, then its results are the provider's, which exited with 0 in
  time, followed by one result for each acceptance command, in the signed order, each of which
  exited with 0 in time; and a task that needs a decision receipt and has network authority
  carries an effect receipt that its verifier printed for the released decision.
\<close>

theorem completed_means_done:
  assumes run: "executeTask xi w s = (Inr r, s')" and st: "rc_status r = Completed"
    and none: "rs_receipts s (tk_taskId (xi_task xi)) = None" "jd_records (rs_journal s) (tk_taskId (xi_task xi)) = None"
  shows "(\<exists>p rs. rc_commandResults r = p # rs
        \<and> cr_commandId p = ''provider.'' @ provider_name (tk_provider (xi_task xi)) \<and> cr_exitCode p = Some 0 \<and> \<not> cr_timedOut p
        \<and> map cr_commandId rs = ac_commands (tk_acceptance (xi_task xi))
        \<and> (\<forall>c \<in> set rs. cr_exitCode c = Some 0 \<and> \<not> cr_timedOut c))
    \<and> (requiresActionDecisionReceipt (xi_task xi) \<and> au_network (tk_authority (xi_task xi)) \<noteq> ''deny'' \<longrightarrow>
        (\<exists>dr ef out. released xi w dr \<and> rc_externalEffectReceipt r = Some ef
          \<and> parseExternalEffectReceipt (xi_host xi) (xi_parseJson xi) out (dr_actionDigest dr) (dr_decisionId dr) = Inr ef))"
  using run
proof (cases rule: execute_ok)
  case stored
  with none show ?thesis by (simp add: receipt_get_def)
next
  case (fresh e)
  have "jd_records (rs_journal (s\<lparr>rs_tick := Suc (Suc (rs_tick s))\<rparr>)) (tk_taskId (xi_task xi)) = None" using none by simp
  from fresh_completed [OF fresh(2) st this] show ?thesis
    unfolding done_all_def effect_proved_def result_failed_def list_all_iff by blast
qed

subsection \<open>Repeating a task\<close>

text \<open>The receipt is stored under the task, in its durable form.\<close>

definition kept :: "'key exec_input \<Rightarrow> task_receipt \<Rightarrow> run_state \<Rightarrow> bool" where
  "kept xi r s = (rs_receipts s (tk_taskId (xi_task xi)) = Some (Stored (receiptForDurableStorage r))
     \<and> assertValidTaskReceipt (xi_host xi) (xi_ackOk xi) r (Some (tk_taskId (xi_task xi))))"

lemma post_store:
  "rc_taskId r = tk_taskId (xi_task xi) \<Longrightarrow> (\<And>s1. kept xi r s1 \<Longrightarrow> Q () s1) \<Longrightarrow> post (store_receipt xi r) s Q"
  by (auto simp: post_def store_receipt_def kept_def receipt_put_ok_iff split: sum.splits)

lemma post_any: "(\<And>x s1. Q x s1) \<Longrightarrow> post m s Q"
  by (simp add: post_def)

lemma finish_kept: "post (finish_task xi w at dr held) s (\<lambda>r s'. kept xi r s')"
proof -
  have steps: "post (and_then m (\<lambda>ack. and_then next_tick (\<lambda>n. and_then (f ack n) (\<lambda>_. and_then (store_receipt xi (r ack n))
      (\<lambda>_. lift_result (Inr (r ack n))))))) s1 (\<lambda>r s'. kept xi r s')"
    if "\<And>ack n. rc_taskId (r ack n) = tk_taskId (xi_task xi)" for m f r s1
  proof -
    have last_steps: "post (and_then (store_receipt xi (r ack n)) (\<lambda>_. lift_result (Inr (r ack n)))) s2 (\<lambda>r s'. kept xi r s')" for ack n s2
      by (intro post_and_then post_store post_lift) (use that in auto)
    show ?thesis
      by (rule post_and_then, rule post_any, rule post_and_then, rule post_any, rule post_and_then, rule post_any,
          rule last_steps)
  qed
  show ?thesis unfolding finish_task_def Let_def post_def by (rule steps [unfolded post_def]) simp
qed

lemma recover_kept:
  assumes "jr_taskId r = tk_taskId (xi_task xi)"
  shows "post (recover_interrupted xi w r) s (\<lambda>ph s'. \<forall>x. ph = ReturnReceipt x \<longrightarrow> kept xi x s')"
proof -
  have "rc_taskId x = tk_taskId (xi_task xi)" if "map_sum EAck id (interruptedActionReceipt h ok r n) = Inr x" for h ok n x
    using that assms by (cases "interruptedActionReceipt h ok r n") (auto simp: interruptedActionReceipt_def Let_def split: sum.splits)
  then have last_steps: "map_sum EAck id (interruptedActionReceipt h ok r n) = Inr x \<Longrightarrow>
      post (and_then (store_receipt xi x) (\<lambda>_. lift_result (Inr (ReturnReceipt x)))) s2
        (\<lambda>ph s'. \<forall>x. ph = ReturnReceipt x \<longrightarrow> kept xi x s')" for h ok n x s2
    by (intro post_and_then post_store post_lift) auto
  show ?thesis
    unfolding recover_interrupted_def
    by (rule post_and_then, rule post_any, rule post_and_then, rule post_lift, rule post_and_then, rule post_any,
        rule post_and_then, rule post_any, erule last_steps)
qed

lemma prepare_record:
  assumes "journal_prepare h ok now i d = (Inr p, d')"
  shows "jr_taskId (fst p) = pi_taskId i"
    and "jr_receipt (fst p) = Some x \<Longrightarrow> rc_taskId x = pi_taskId i"
proof -
  consider (new) "jr_taskId (fst p) = pi_taskId i" "jr_receipt (fst p) = None"
    | (old) "journal_get h ok d (pi_taskId i) = Inr (Some (fst p))"
    using assms by (auto simp: journal_prepare_def Let_def split: if_splits sum.splits option.splits)
  note cases = this
  show "jr_taskId (fst p) = pi_taskId i"
    using cases by cases (auto dest: journal_get_SomeD simp: valid_record_def)
  show "rc_taskId x = pi_taskId i" if "jr_receipt (fst p) = Some x"
    using cases
  proof cases
    case old
    then have "is_uuid_text (pi_taskId i)" using journal_get_SomeD unfolding valid_record_def by metis
    then have "pi_taskId i \<noteq> []" by (auto simp: is_uuid_text_def)
    moreover have "assertValidTaskReceipt h ok x (Some (pi_taskId i))"
      using old that by (auto simp: journal_get_def split: option.splits stored.splits if_splits)
    ultimately show ?thesis by (simp add: assertValidTaskReceipt_def)
  qed (use that in simp)
qed

lemma journal_phase_kept:
  "post (journal_phase xi w e) s (\<lambda>ph s'. \<forall>x. ph = ReturnReceipt x \<longrightarrow> kept xi x s')"
proof (cases "xi_decisions xi")
  case None
  then show ?thesis by (simp add: journal_phase_def post_throw)
next
  case (Some receiver)
  have decide: "post (decide_execution xi w e receiver dr r) s1 (\<lambda>ph s'. \<forall>x. ph = ReturnReceipt x \<longrightarrow> kept xi x s')" for dr r s1
    by (rule post_weaken [OF post_decide]) auto
  have claim: "post (and_then (on_journal (\<lambda>d. (journal_getClaim h d t, d))) (\<lambda>prior. case prior of
            Some c \<Rightarrow>
              if conflict c then lift_result (Inl EClaimConflict)
              else and_then next_tick (\<lambda>k. if alive k c then lift_result (Inl EInProgress) else recover_interrupted xi w r)
          | None \<Rightarrow> if open_state then recover_interrupted xi w r else decide_execution xi w e receiver dr r)) s1
        (\<lambda>ph s'. \<forall>x. ph = ReturnReceipt x \<longrightarrow> kept xi x s')"
    if "jr_taskId r = tk_taskId (xi_task xi)" for h t conflict alive r open_state dr s1
    using that by (auto intro!: post_and_then post_on_journal post_if post_throw post_tick recover_kept decide split: option.split)
  have recorded: "post (case jr_receipt r of
             None \<Rightarrow> lift_result (Inl EReceiptMissing)
           | Some receipt \<Rightarrow> and_then (store_receipt xi receipt) (\<lambda>_. lift_result (Inr (ReturnReceipt receipt)))) s1
        (\<lambda>ph s'. \<forall>x. ph = ReturnReceipt x \<longrightarrow> kept xi x s')"
    if "\<And>x. jr_receipt r = Some x \<Longrightarrow> rc_taskId x = tk_taskId (xi_task xi)" for r s1
    using that by (auto intro!: post_throw post_and_then post_store post_lift split: option.split)
  show ?thesis
    unfolding journal_phase_def Some Let_def option.case
    apply (rule post_if [OF post_throw])
    apply (rule post_and_then post_tick post_lift)+
    apply (rule post_on_journal)
    apply (frule prepare_record(1))
    apply (rule post_if)
     apply (rule recorded)
     apply (drule prepare_record(2), assumption)
     apply simp
    apply (rule claim)
    apply simp
    done
qed

lemma fresh_kept: "post (fresh_task xi w e) s (\<lambda>r s'. kept xi r s')"
proof -
  have perform: "post (perform_task xi w e required at ph) s1 (\<lambda>r s'. kept xi r s')"
    if "\<And>x. ph = Some (ReturnReceipt x) \<Longrightarrow> kept xi x s1" for required at ph s1
    unfolding perform_task_def
    using that
    by (auto simp: post_def split: option.splits phase.splits if_splits bool.splits dest: postD [OF finish_kept])
  have phase: "post (\<lambda>s. map_prod (map_sum id Some) id (journal_phase xi w e s)) s1
      (\<lambda>ph s'. \<forall>x. ph = Some (ReturnReceipt x) \<longrightarrow> kept xi x s')" for s1
    unfolding post_def
  proof (intro allI impI)
    fix ph s' x assume "map_prod (map_sum id Some) id (journal_phase xi w e s1) = (Inr ph, s')" "ph = Some (ReturnReceipt x)"
    then have "journal_phase xi w e s1 = (Inr (ReturnReceipt x), s')"
      by (cases "journal_phase xi w e s1"; cases "fst (journal_phase xi w e s1)") auto
    from postD [OF journal_phase_kept this] show "kept xi x s'" by simp
  qed
  have either: "post (if b then (\<lambda>s. map_prod (map_sum id Some) id (journal_phase xi w e s)) else lift_result (Inr None)) s1
      (\<lambda>ph s'. \<forall>x. ph = Some (ReturnReceipt x) \<longrightarrow> kept xi x s')" for b s1
    using phase by (simp add: post_def)
  show ?thesis
    unfolding fresh_task_def
    by (rule post_and_then, rule post_lift, rule post_and_then, rule post_tick, rule post_and_then,
        rule post_weaken [OF either], rule perform, blast)
qed

lemma kept_get: "kept xi r s \<Longrightarrow> receipt_get (xi_host xi) (xi_ackOk xi) (rs_receipts s) (tk_taskId (xi_task xi))
    = Inr (Some (receiptForDurableStorage r))"
  by (simp add: kept_def receipt_get_def)

lemma execute_stored:
  assumes "receipt_get (xi_host xi) (xi_ackOk xi) (rs_receipts s) (tk_taskId (xi_task xi)) = Inr (Some r)"
  shows "calls_of (snd (executeTask xi w s)) = calls_of s"
    and "executeTask xi w s = (Inr r', s') \<Longrightarrow> r' = r"
proof -
  show "r' = r" if "executeTask xi w s = (Inr r', s')"
    using that assms by (cases rule: execute_ok) auto
  show "calls_of (snd (executeTask xi w s)) = calls_of s"
    using assms unfolding executeTask_def and_then_def next_tick_def lift_result_def guard_that_def
    by (auto simp: calls_of_def split: sum.split option.split)
qed


subsection \<open>A task that completes\<close>

definition demo_exec_task :: task where
  "demo_exec_task = (let t = demo_task\<lparr>tk_taskId := demo_uuid,
     tk_authority := \<lparr>au_readPaths = [''.''], au_writePaths = [], au_commands = [], au_network = ''deny'',
       au_git = ''task_branch'', au_allowlistedDomains = None\<rparr>,
     tk_acceptance := \<lparr>ac_commands = [], ac_requiredArtifacts = [], ac_externalEffectReceiptCommandId = None\<rparr>\<rparr>
     in t\<lparr>tk_signature := Some (''k'' @ canonicalize code_unit_le (unsigned_task t))\<rparr>)"

text \<open>The small host with a digest of the right form.\<close>

definition demo_exec_host :: "string host" where
  "demo_exec_host = demo_host\<lparr>sha256Hex := \<lambda>_. replicate 64 (CHR ''a'')\<rparr>"

definition demo_xi :: "string exec_input" where
  "demo_xi = \<lparr>xi_host = demo_exec_host, xi_taskOk = \<lambda>_. True, xi_actionOk = \<lambda>_. True, xi_receiptOk = \<lambda>_. True,
     xi_ackOk = \<lambda>_. True, xi_parseJson = \<lambda>_. None, xi_platform = OtherPosix, xi_cwd = ''/'', xi_knowledgeNote = \<lambda>_. [],
     xi_task = demo_exec_task, xi_policy = demo_policy, xi_workspace = ''/ws'', xi_relayStateDirectory = ''/relay'',
     xi_serverPublicKey = ''k'', xi_serverKeyResolver = None, xi_knowledge = None, xi_skillFiles = [],
     xi_decisions = None, xi_owner = \<lparr>ow_ownerId = ''o'', ow_pid = 1\<rparr>\<rparr>"

definition demo_result :: command_result where
  "demo_result = \<lparr>cr_commandId = [], cr_exitCode = Some 0, cr_signal = None, cr_timedOut = False,
     cr_stdoutSha256 = demo_digest, cr_stderrSha256 = demo_digest, cr_stdout = [], cr_stderr = [], cr_failureCategory = None\<rparr>"

definition demo_exec_world :: exec_world where
  "demo_exec_world = \<lparr>wd_now = \<lambda>_. 1000, wd_aborted = \<lambda>_. False, wd_lstat = \<lambda>_ _. Inl ENOENT, wd_open = \<lambda>_ _. Inl ENOENT,
     wd_readdir = \<lambda>_ _. Inl ENOENT, wd_setup = \<lambda>_. Inr ''c'', wd_prepareKnowledge = \<lambda>_. Inr (),
     wd_provider = \<lambda>_ _. Inr \<lparr>po_result = demo_result, po_text = []\<rparr>, wd_run = \<lambda>_ _ _ _ _. Inl [],
     wd_tracked = \<lambda>_. Some [], wd_untracked = \<lambda>_. Some [], wd_signalable = \<lambda>_ _. False, wd_skillFile = \<lambda>_ _. False\<rparr>"

definition demo_state :: run_state where
  "demo_state = \<lparr>rs_tick = 0, rs_journal = \<lparr>jd_records = Map.empty, jd_claims = Map.empty\<rparr>, rs_consumed = Map.empty,
     rs_receipts = Map.empty, rs_status = Completed, rs_results = [], rs_effect = None, rs_providerCalls = [],
     rs_commandRuns = []\<rparr>"

lemma demo_xi_fields [simp]:
  "xi_host demo_xi = demo_exec_host" "xi_task demo_xi = demo_exec_task" "xi_policy demo_xi = demo_policy"
  "xi_ackOk demo_xi = (\<lambda>_. True)" "xi_taskOk demo_xi = (\<lambda>_. True)" "xi_knowledge demo_xi = None"
  "xi_serverPublicKey demo_xi = ''k''" "xi_serverKeyResolver demo_xi = None" "xi_decisions demo_xi = None"
  "xi_platform demo_xi = OtherPosix" "xi_skillFiles demo_xi = []"
  by (simp_all add: demo_xi_def)

lemma demo_exec_task_fields [simp]:
  "tk_taskId demo_exec_task = demo_uuid" "tk_organizationId demo_exec_task = ''o''"
  "tk_expiresAt demo_exec_task = ''9000''" "tk_requiredCapabilities demo_exec_task = None"
  "tk_acceptance demo_exec_task = \<lparr>ac_commands = [], ac_requiredArtifacts = [], ac_externalEffectReceiptCommandId = None\<rparr>"
  "tk_authority demo_exec_task = \<lparr>au_readPaths = [''.''], au_writePaths = [], au_commands = [], au_network = ''deny'',
       au_git = ''task_branch'', au_allowlistedDomains = None\<rparr>"
  "tk_execution demo_exec_task = tk_execution demo_task" "tk_provider demo_exec_task = Codex"
  "tk_instructions demo_exec_task = ''do''" "tk_requiredSkills demo_exec_task = []" "tk_taskType demo_exec_task = ExternalRequest"
  "tk_endpointId demo_exec_task = Some ''e''" "ex_timeoutSeconds (tk_execution demo_task) = 60"
  "ex_isolation (tk_execution demo_task) = ''git_worktree''" "tk_signerKeyVersion demo_exec_task = None"
  by (simp_all add: demo_exec_task_def demo_task_def Let_def)

lemma demo_exec_host_fields [simp]:
  "dateParse demo_exec_host = demo_parse" "isoString demo_exec_host = int_string"
  "sha256Hex demo_exec_host x = replicate 64 (CHR ''a'')"
  by (simp_all add: demo_exec_host_def)

lemma demo_envelope_ok:
  "verifyTaskEnvelope demo_exec_host (\<lambda>_. True) demo_exec_task ''k'' None (Some 1000) = Inr ()"
  by (simp add: verifyTaskEnvelope_def verifyCanonicalObject_def demo_exec_task_def demo_task_def demo_exec_host_def
      unsigned_task_def Let_def demo_parse_def is_digit_def decimal_value_def)

lemma demo_relay: "worktree_root demo_xi = ''/relay/worktrees''"
  unfolding worktree_root_def demo_xi_def by code_simp

lemma demo_worktree: "task_worktree demo_xi = ''/relay/worktrees/'' @ demo_uuid"
  unfolding task_worktree_def demo_relay by (simp add: demo_uuid_def) code_simp

lemma demo_contained: "assertContained ''/'' ''/relay/worktrees'' (''/relay/worktrees/'' @ demo_uuid)
    = Inr (''/relay/worktrees/'' @ demo_uuid)"
  by code_simp

lemma demo_admit: "admit_scope demo_xi = Inr []"
proof -
  have "assertPathWithinWorkspace ''/'' ''/ws'' ''.'' = Inr ''/ws''" by code_simp
  moreover have "assertTaskWithinLocalPolicy demo_exec_task demo_policy = Inr ()"
    by (simp add: assertTaskWithinLocalPolicy_def demo_policy_def network_exceeds_def inherited_names_def networkRank_def)
  ultimately show ?thesis
    by (simp add: admit_scope_def Let_def demo_relay demo_worktree demo_contained requiredArtifactReferences_def
        unique_list_def effect_command_def requiresActionDecisionReceipt_def) (simp add: demo_xi_def demo_contained [simplified])
qed

lemma demo_provider_text: "provider_text demo_xi demo_exec_world n = Inr (''do'', [])"
  by (simp add: provider_text_def formatProviderInstructionsForTask_def Let_def claudeRequiredSkillFileInstructions_def
      newline_def)

lemma demo_world_fields [simp]:
  "wd_now demo_exec_world n = 1000" "wd_aborted demo_exec_world n = False" "wd_setup demo_exec_world n = Inr ''c''"
  "wd_provider demo_exec_world n pv = Inr \<lparr>po_result = demo_result, po_text = []\<rparr>"
  "wd_tracked demo_exec_world n = Some []" "wd_untracked demo_exec_world n = Some []"
  by (simp_all add: demo_exec_world_def)

definition demo_provider_input :: provider_input where
  "demo_provider_input = build_provider_input demo_xi [] None [] ''do'' 8 None"

lemma demo_no_files: "check_files demo_xi demo_exec_world 9000 [] ig s = (Inr Map.empty, s\<lparr>rs_tick := Suc (rs_tick s)\<rparr>)"
  by (simp add: check_files_def verifyRequiredArtifacts_def artifact_current_def)

lemma demo_run_provider:
  "run_provider demo_xi demo_exec_world 9000 None [] s =
     (Inr (\<lparr>po_result = demo_result, po_text = []\<rparr>, \<lparr>ig_paths = [], ig_expected = Some Map.empty\<rparr>),
      s\<lparr>rs_tick := rs_tick s + 6, rs_providerCalls := rs_providerCalls s @ [demo_provider_input]\<rparr>)"
  by (simp add: run_provider_def and_then_def next_tick_def lift_result_def demo_no_files demo_provider_text
      guard_that_def Let_def prepare_knowledge_def provider_with_knowledge_def call_provider_def not_expired_def
      demo_provider_input_def build_provider_input_def)

definition demo_provider_result :: command_result where
  "demo_provider_result = demo_result\<lparr>cr_commandId := ''provider.codex''\<rparr>"

lemma demo_run_in_worktree:
  "run_in_worktree demo_xi demo_exec_world 9000 None False [] (with_results Completed [] s)
     = s\<lparr>rs_tick := rs_tick s + 10, rs_status := Completed, rs_results := [demo_provider_result], rs_effect := None,
         rs_providerCalls := rs_providerCalls s @ [demo_provider_input]\<rparr>"
  by (simp add: run_in_worktree_def run_body_def demo_run_provider after_provider_def and_then_def lift_result_def
      observe_effect_def push_result_def note_failure_def result_failed_def demo_no_files check_writes_def next_tick_def
      assertTaskWriteScope_def final_artifacts_def with_results_def Let_def demo_provider_result_def demo_result_def)

definition demo_exec_receipt :: task_receipt where
  "demo_exec_receipt = \<lparr>rc_taskId = demo_uuid, rc_status = Completed, rc_worktree = ''/relay/worktrees/'' @ demo_uuid,
     rc_branch = task_branch demo_uuid, rc_commandResults = [demo_provider_result], rc_actionAcknowledgement = None,
     rc_externalEffectReceipt = None, rc_startedAt = ''1000'', rc_completedAt = ''1000''\<rparr>"

lemma int_string_1000: "int_string 1000 = ''1000''"
  by code_simp

lemma demo_exec_receipt_valid:
  "assertValidTaskReceipt demo_exec_host (\<lambda>_. True) demo_exec_receipt (Some demo_uuid)"
  by (simp add: assertValidTaskReceipt_def demo_exec_receipt_def is_uuid_text_def isAbsolute_def starts_with_def
      valid_command_result_def demo_provider_result_def demo_result_def is_digest_def demo_digest_def list_all_iff
      is_lower_hex_def is_digit_def demo_parse_def decimal_value_def demo_uuid_def)

lemma demo_executes:
  "\<exists>s'. executeTask demo_xi demo_exec_world demo_state = (Inr demo_exec_receipt, s')
     \<and> rs_providerCalls s' = [demo_provider_input]"
proof -
  have need: "\<not> requiresActionDecisionReceipt demo_exec_task" by (simp add: requiresActionDecisionReceipt_def)
  have parse: "demo_parse ''9000'' = Some 9000" by simp
  have valid: "assertValidTaskReceipt demo_exec_host (\<lambda>_. True) demo_exec_receipt (Some (rc_taskId demo_exec_receipt))"
    using demo_exec_receipt_valid by (simp add: demo_exec_receipt_def)
  have fresh: "\<exists>s'. fresh_task demo_xi demo_exec_world 9000 s = (Inr demo_exec_receipt, s')
      \<and> rs_providerCalls s' = rs_providerCalls s @ [demo_provider_input]" for s
    using valid
    by (simp add: fresh_task_def and_then_def lift_result_def demo_admit next_tick_def need perform_task_def
        demo_run_in_worktree finish_task_def require_effect_proof_def acknowledge_def store_receipt_def
        receipt_put_def demo_exec_receipt_def demo_worktree int_string_1000 Let_def)
  show ?thesis
    using fresh [of "demo_state\<lparr>rs_tick := 2\<rparr>"]
    by (auto simp: executeTask_def and_then_def next_tick_def lift_result_def guard_that_def demo_envelope_ok parse
        receipt_get_def demo_state_def demo_policy_def numeral_2_eq_2)
qed

theorem execution_needs_release_witness:
  "\<exists>artifacts. admit_scope demo_xi = Inr artifacts"
proof -
  obtain s' where "executeTask demo_xi demo_exec_world demo_state = (Inr demo_exec_receipt, s')"
      "rs_providerCalls s' = [demo_provider_input]"
    using demo_executes by blast
  with execution_needs_release [OF this(1)] show ?thesis by (simp add: demo_state_def)
qed

theorem completed_means_done_witness:
  "\<exists>s' p. executeTask demo_xi demo_exec_world demo_state = (Inr demo_exec_receipt, s')
     \<and> rc_commandResults demo_exec_receipt = [p] \<and> cr_exitCode p = Some 0"
proof -
  obtain s' where run: "executeTask demo_xi demo_exec_world demo_state = (Inr demo_exec_receipt, s')"
    using demo_executes by blast
  from completed_means_done [OF run] run show ?thesis
    by (auto simp: demo_exec_receipt_def demo_state_def)
qed

end
