(* ===== verification/Parsed_Json.thy ===== *)
theory Parsed_Json
  imports Receipts Task_Scope
begin

text \<open>
  Reading untyped objects: validators of the vault take an \<open>unknown\<close> value that \<open>JSON.parse\<close>
  returned and look at its properties.  The properties of a value are those of its meaning, so
  that the order in which an object was printed plays no role.  The theory also has the character
  classes of the validators' regular expressions.
\<close>

subsection \<open>Properties of a parsed value\<close>

definition property :: "json \<Rightarrow> string \<Rightarrow> jval option" where
  "property v k = (case meaning v of VObj m \<Rightarrow> m k | _ \<Rightarrow> None)"

definition is_object :: "json \<Rightarrow> bool" where
  "is_object v = (case v of JObj _ \<Rightarrow> True | _ \<Rightarrow> False)"

text \<open>\<open>Object.keys\<close>, as far as the validators use it: which names and how many.\<close>

definition has_exactly :: "json \<Rightarrow> string list \<Rightarrow> bool" where
  "has_exactly v names = (is_object v \<and> (case v of JObj kvs \<Rightarrow> set (map fst kvs) = set names | _ \<Rightarrow> False))"

definition has_only :: "json \<Rightarrow> string list \<Rightarrow> bool" where
  "has_only v names = (is_object v \<and> (case v of JObj kvs \<Rightarrow> set (map fst kvs) \<subseteq> set names | _ \<Rightarrow> False))"

definition text_property :: "json \<Rightarrow> string \<Rightarrow> string option" where
  "text_property v k = (case property v k of Some (VStr s) \<Rightarrow> Some s | _ \<Rightarrow> None)"

definition int_property :: "json \<Rightarrow> string \<Rightarrow> int option" where
  "int_property v k = (case property v k of Some (VNum i) \<Rightarrow> Some i | _ \<Rightarrow> None)"

definition null_property :: "json \<Rightarrow> string \<Rightarrow> bool" where
  "null_property v k = (property v k = Some VNull)"

lemma property_obj: "property (JObj kvs) k = map_option meaning (map_of kvs k)"
  by (simp add: property_def map_of_meaning)

lemma text_property_obj: "text_property (JObj kvs) k = (case map_of kvs k of Some (JStr s) \<Rightarrow> Some s | _ \<Rightarrow> None)"
  by (auto simp: text_property_def property_obj split: option.splits json.splits)

lemma int_property_obj: "int_property (JObj kvs) k = (case map_of kvs k of Some (JNum i) \<Rightarrow> Some i | _ \<Rightarrow> None)"
  by (auto simp: int_property_def property_obj split: option.splits json.splits)

lemma object_keys: "set (map fst kvs) = {k. property (JObj kvs) k \<noteq> None}"
  using dom_map_of_conv_image_fst [of kvs] by (auto simp: property_obj dom_def)

lemma object_of_meaning: "is_object v \<longleftrightarrow> (\<exists>m. meaning v = VObj m)"
  by (cases v) (simp_all add: is_object_def)

lemma has_exactly_iff: "has_exactly v names \<longleftrightarrow> is_object v \<and> {k. property v k \<noteq> None} = set names"
  by (cases v) (simp_all add: has_exactly_def is_object_def object_keys [simplified])

lemma has_only_iff: "has_only v names \<longleftrightarrow> is_object v \<and> {k. property v k \<noteq> None} \<subseteq> set names"
  by (cases v) (simp_all add: has_only_def is_object_def object_keys [simplified])

lemma same_meaning_properties:
  assumes "meaning v = meaning w"
  shows "property v = property w" "text_property v = text_property w" "int_property v = int_property w"
    "null_property v = null_property w" "is_object v = is_object w"
    "has_exactly v names = has_exactly w names" "has_only v names = has_only w names"
proof -
  show p: "property v = property w" using assms by (simp add: property_def fun_eq_iff)
  then show "text_property v = text_property w" "int_property v = int_property w" "null_property v = null_property w"
    by (simp_all add: text_property_def int_property_def null_property_def fun_eq_iff)
  show "is_object v = is_object w" using assms by (simp add: object_of_meaning)
  with p show "has_exactly v names = has_exactly w names" "has_only v names = has_only w names"
    by (simp_all add: has_exactly_iff has_only_iff)
qed

subsection \<open>Character classes\<close>

definition is_letter :: "char \<Rightarrow> bool" where
  "is_letter c = (let n = of_char c :: nat in 65 \<le> n \<and> n \<le> 90 \<or> 97 \<le> n \<and> n \<le> 122)"

definition is_lower :: "char \<Rightarrow> bool" where
  "is_lower c = (let n = of_char c :: nat in 97 \<le> n \<and> n \<le> 122)"

definition is_word_char :: "char \<Rightarrow> bool" where
  "is_word_char c = (is_letter c \<or> is_digit c)"

text \<open>A first character of one class, then characters of another, at most \<open>n\<close> in all.\<close>

definition token :: "(char \<Rightarrow> bool) \<Rightarrow> (char \<Rightarrow> bool) \<Rightarrow> nat \<Rightarrow> string \<Rightarrow> bool" where
  "token first rest n s = (s \<noteq> [] \<and> length s \<le> n \<and> first (hd s) \<and> list_all rest (tl s))"

definition session_token :: "string \<Rightarrow> bool" where
  "session_token s = (let ok = (\<lambda>c. is_word_char c \<or> c \<in> set ''_-'') in token ok ok 128 s)"

definition organization_token :: "string \<Rightarrow> bool" where
  "organization_token s = token is_word_char (\<lambda>c. is_word_char c \<or> c \<in> set ''_-'') 200 s"

text \<open>The regular expressions \<open>setupId\<close> and, ignoring case, \<open>providerOfferId\<close>.\<close>

definition setup_id :: "string \<Rightarrow> bool" where
  "setup_id s = (case split_on (CHR ''-'') s of
     [a, b, c, d, e] \<Rightarrow> length a = 8 \<and> length b = 4 \<and> length c = 4 \<and> length d = 4 \<and> length e = 12
       \<and> list_all is_lower_hex (a @ b @ c @ d @ e) \<and> hd c \<in> set ''12345678'' \<and> hd d \<in> set ''89ab''
   | _ \<Rightarrow> False)"

definition provider_offer_id :: "string \<Rightarrow> bool" where
  "provider_offer_id s = setup_id (map lower_ascii s)"

definition parse_provider :: "string \<Rightarrow> provider_id option" where
  "parse_provider s = map_of [(''codex'', Codex), (''claude'', Claude), (''agy'', Agy), (''hermes'', Hermes)] s"

lemma parse_provider_name [simp]: "parse_provider (provider_name p) = Some p"
  by (cases p) (simp_all add: parse_provider_def)

lemma parse_provider_Some: "parse_provider s = Some p \<longleftrightarrow> s = provider_name p"
  by (cases p) (auto simp: parse_provider_def split: if_splits)

end
