(* ===== verification/Vault_Blobs.thy ===== *)
theory Vault_Blobs
  imports Parsed_Json Runs
begin

text \<open>
  The encrypted content store of packages/local-vault/src/index.ts: \<open>#putBlob\<close>, \<open>putFile\<close>,
  \<open>getBlob\<close>, \<open>#blobPath\<close>, and the recovery of unindexed and quarantined files when a vault is
  opened.  A vault is the SQLite tables with the files below \<open>blobs\<close>, which are named by their
  directory and entry.  A vault table is a map from its primary key; components that need more
  tables extend \<open>blob_tables\<close>.  AES-256-GCM under the master key is the parameter \<open>aead\<close>; bytes
  are characters.  An asynchronous function gives up control at each \<open>await\<close>: the parameter
  \<open>meanwhile n\<close> is what everything else does to the vault at the \<open>n\<close>-th of these points, and the
  record \<open>put_io\<close> holds what the file system and the random source answer.  The operations are
  those of an unscoped vault, which has no effect fence.
\<close>

subsection \<open>Text in SQLite\<close>

text \<open>\<open>a < b\<close> of SQLite on text: by bytes.\<close>

definition sql_less :: "string \<Rightarrow> string \<Rightarrow> bool" where
  "sql_less a b = (a \<noteq> b \<and> code_unit_le a b)"

subsection \<open>The vault\<close>

text \<open>\<open>seal a nonce aad plaintext\<close> is the pair of tag and ciphertext; \<open>unseal\<close> is \<open>None\<close> where
  \<open>decipher.final()\<close> throws.\<close>

record aead =
  seal :: "string \<Rightarrow> string \<Rightarrow> string \<Rightarrow> string \<times> string"
  unseal :: "string \<Rightarrow> string \<Rightarrow> string \<times> string \<Rightarrow> string option"

definition aead_law :: "aead \<Rightarrow> bool" where
  "aead_law a = (\<forall>nonce aad plaintext. length (fst (seal a nonce aad plaintext)) = 16
     \<and> unseal a nonce aad (seal a nonce aad plaintext) = Some plaintext)"

record 'key vault_context =
  vc_host :: "'key host"
  vc_aead :: aead
  vc_parseJson :: "string \<Rightarrow> json option"
  vc_hostName :: string
  vc_pid :: int

record blob_row =
  br_bytes :: nat
  br_kind :: string
  br_createdAt :: string

record blob_tables =
  bt_blobs :: "string \<rightharpoonup> blob_row"

type_synonym blob_name = "string \<times> string"

record 't vault =
  va_tables :: 't
  va_files :: "blob_name \<rightharpoonup> string"

datatype vault_error =
    InvalidContentId | StorageFailed | UniqueViolation | ForeignKeyViolation | UnsupportedBlob | DecryptFailed
  | ContentHashMismatch | BlobMissing | SourceEmpty

definition blobPath :: "string \<Rightarrow> blob_name option" where
  "blobPath contentId =
     (if is_digest contentId then Some (take 2 (drop 7 contentId), drop 7 contentId @ ''.blob'') else None)"

subsection \<open>Envelopes\<close>

definition envelope :: "aead \<Rightarrow> string \<Rightarrow> string \<Rightarrow> string" where
  "envelope a nonce plaintext =
     (case seal a nonce [] plaintext of (tag, ciphertext) \<Rightarrow> CHR 0x01 # nonce @ tag @ ciphertext)"

definition open_envelope :: "aead \<Rightarrow> string \<Rightarrow> (vault_error, string) result" where
  "open_envelope a e =
     (if e = [] \<or> hd e \<noteq> CHR 0x01 \<or> length e < 29 then Inl UnsupportedBlob
      else case unseal a (take 12 (drop 1 e)) [] (take 16 (drop 13 e), drop 29 e) of
        None \<Rightarrow> Inl DecryptFailed | Some plaintext \<Rightarrow> Inr plaintext)"

definition getBlob :: "'key vault_context \<Rightarrow> string \<Rightarrow> 't vault \<Rightarrow> (vault_error, string) result" where
  "getBlob x contentId v =
     (case blobPath contentId of None \<Rightarrow> Inl InvalidContentId | Some path \<Rightarrow>
     (case va_files v path of None \<Rightarrow> Inl BlobMissing | Some e \<Rightarrow>
     (case open_envelope (vc_aead x) e of Inl err \<Rightarrow> Inl err | Inr plaintext \<Rightarrow>
        if sha256 (vc_host x) plaintext \<noteq> contentId then Inl ContentHashMismatch else Inr plaintext)))"

subsection \<open>Writing\<close>

text \<open>\<open>io_left\<close> is what a failed write leaves behind; \<open>random_nonce\<close> always has the twelve bytes of
  \<open>randomBytes(12)\<close>.\<close>

record put_io =
  io_nonce :: string
  io_suffix :: string
  io_write :: bool
  io_left :: "string option"
  io_rename :: bool
  io_now :: int

definition random_nonce :: "put_io \<Rightarrow> string" where
  "random_nonce io = take 12 (io_nonce io @ replicate 12 (CHR 0x00))"

definition temporary_of :: "'key vault_context \<Rightarrow> put_io \<Rightarrow> blob_name \<Rightarrow> blob_name" where
  "temporary_of x io path =
     (fst path, snd path @ ''.'' @ int_string (vc_pid x) @ ''.'' @ io_suffix io @ ''.tmp'')"

definition incoming_of :: "'key vault_context \<Rightarrow> put_io \<Rightarrow> blob_name" where
  "incoming_of x io = ([], ''.incoming-'' @ int_string (vc_pid x) @ ''-'' @ io_suffix io)"

definition blob_row_of :: "'key vault_context \<Rightarrow> put_io \<Rightarrow> nat \<Rightarrow> string \<Rightarrow> blob_row" where
  "blob_row_of x io bytes kind =
     \<lparr>br_bytes = bytes, br_kind = kind, br_createdAt = isoString (vc_host x) (io_now io)\<rparr>"

definition write_file :: "blob_name \<Rightarrow> string option \<Rightarrow> 't vault \<Rightarrow> 't vault" where
  "write_file path content v = v\<lparr>va_files := (va_files v)(path := content)\<rparr>"

definition index_blob :: "string \<Rightarrow> blob_row \<Rightarrow> 'a blob_tables_scheme vault \<Rightarrow> 'a blob_tables_scheme vault" where
  "index_blob contentId row v =
     v\<lparr>va_tables := (va_tables v)\<lparr>bt_blobs := (bt_blobs (va_tables v))(contentId \<mapsto> row)\<rparr>\<rparr>"

definition move_file :: "blob_name \<Rightarrow> blob_name \<Rightarrow> 't vault \<Rightarrow> 't vault" where
  "move_file source target v = write_file source None (write_file target (va_files v source) v)"

text \<open>The savepoint: the row is inserted and the file renamed without giving up control; if the
  rename fails the row is rolled back.  The value is whether the row is new.\<close>

definition publish ::
  "'key vault_context \<Rightarrow> put_io \<Rightarrow> string \<Rightarrow> blob_name \<Rightarrow> blob_name \<Rightarrow> nat \<Rightarrow> string
     \<Rightarrow> 'a blob_tables_scheme vault \<Rightarrow> (vault_error, bool) result \<times> 'a blob_tables_scheme vault" where
  "publish x io contentId path temporary bytes kind v =
     (if bt_blobs (va_tables v) contentId \<noteq> None then (Inr False, v)
      else if \<not> io_rename io \<or> va_files v temporary = None then (Inl StorageFailed, v)
      else (Inr True, move_file temporary path (index_blob contentId (blob_row_of x io bytes kind) v)))"

definition putBlob ::
  "'key vault_context \<Rightarrow> put_io \<Rightarrow> (nat \<Rightarrow> 'a blob_tables_scheme vault \<Rightarrow> 'a blob_tables_scheme vault)
     \<Rightarrow> string \<Rightarrow> string \<Rightarrow> 'a blob_tables_scheme vault
     \<Rightarrow> (vault_error, string \<times> bool) result \<times> 'a blob_tables_scheme vault" where
  "putBlob x io meanwhile plaintext kind v =
     (let contentId = sha256 (vc_host x) plaintext in
      case blobPath contentId of None \<Rightarrow> (Inl InvalidContentId, v) | Some path \<Rightarrow>
      if bt_blobs (va_tables v) contentId \<noteq> None then (Inr (contentId, False), v)
      else let temporary = temporary_of x io path in
      if va_files v temporary \<noteq> None then (Inl StorageFailed, v)
      else if \<not> io_write io then (Inl StorageFailed, write_file temporary (io_left io) v)
      else let v1 = meanwhile 0 (write_file temporary (Some (envelope (vc_aead x) (random_nonce io) plaintext)) v);
               (r, v2) = publish x io contentId path temporary (length plaintext) kind v1
        in (map_sum id (\<lambda>created. (contentId, created)) r, meanwhile 1 (write_file temporary None v2)))"

text \<open>\<open>putFile\<close> streams a file; \<open>source_size\<close> is the size its \<open>stat\<close> reported, \<open>None\<close> when it is no
  regular file.  The file is renamed first and indexed after another \<open>await\<close>.\<close>

definition putFile ::
  "'key vault_context \<Rightarrow> put_io \<Rightarrow> (nat \<Rightarrow> 'a blob_tables_scheme vault \<Rightarrow> 'a blob_tables_scheme vault)
     \<Rightarrow> nat option \<Rightarrow> string list \<Rightarrow> string \<Rightarrow> 'a blob_tables_scheme vault
     \<Rightarrow> (vault_error, string \<times> nat) result \<times> 'a blob_tables_scheme vault" where
  "putFile x io meanwhile source_size chunks kind v =
     (case source_size of None \<Rightarrow> (Inl SourceEmpty, v) | Some bytes \<Rightarrow>
      if bytes < 1 then (Inl SourceEmpty, v)
      else let incoming = incoming_of x io in
      if va_files v incoming \<noteq> None then (Inl StorageFailed, v)
      else if \<not> io_write io then (Inl StorageFailed, v)
      else let plaintext = concat chunks; contentId = sha256 (vc_host x) plaintext;
               v1 = meanwhile 0 (write_file incoming (Some (envelope (vc_aead x) (random_nonce io) plaintext)) v) in
      case blobPath contentId of None \<Rightarrow> (Inl InvalidContentId, write_file incoming None v1) | Some path \<Rightarrow>
      if bt_blobs (va_tables v1) contentId \<noteq> None then (Inr (contentId, bytes), write_file incoming None v1)
      else if \<not> io_rename io \<or> va_files v1 incoming = None then (Inl StorageFailed, write_file incoming None v1)
      else let v2 = meanwhile 1 (move_file incoming path v1) in
      if bt_blobs (va_tables v2) contentId \<noteq> None then (Inl UniqueViolation, v2)
      else (Inr (contentId, bytes), index_blob contentId (blob_row_of x io bytes kind) v2))"

subsection \<open>Recovery when a vault is opened\<close>

definition is_blob_name :: "blob_name \<Rightarrow> bool" where
  "is_blob_name n = (length (fst n) = 2 \<and> list_all is_lower_hex (fst n))"

text \<open>The digest of an entry \<open><64 hex>.blob\<close>; \<open>None\<close> when the entry has another form.\<close>

definition final_digest :: "string \<Rightarrow> string option" where
  "final_digest entry =
     (if length entry = 69 \<and> list_all is_lower_hex (take 64 entry) \<and> drop 64 entry = ''.blob''
      then Some (take 64 entry) else None)"

text \<open>Digest and process of an entry \<open><64 hex>.blob.<pid>.<8 hex>.tmp\<close>.\<close>

definition temporary_parts :: "string \<Rightarrow> (string \<times> string) option" where
  "temporary_parts entry = (case split_on (CHR ''.'') entry of
     [d, b, p, s, t] \<Rightarrow>
       if length d = 64 \<and> list_all is_lower_hex d \<and> b = ''blob'' \<and> p \<noteq> [] \<and> list_all is_digit p \<and> hd p \<noteq> CHR ''0''
          \<and> length s = 8 \<and> list_all is_lower_hex s \<and> t = ''tmp''
       then Some (d, p) else None
   | _ \<Rightarrow> None)"

text \<open>One entry of the directory walk of \<open>#recoverUnindexedBlobs\<close>; \<open>alive\<close> is \<open>processIsAlive\<close>.\<close>

definition recover_entry ::
  "(string \<Rightarrow> bool) \<Rightarrow> blob_name \<Rightarrow> 'a blob_tables_scheme vault \<Rightarrow> 'a blob_tables_scheme vault" where
  "recover_entry alive n v =
     (if \<not> is_blob_name n then v
      else case (final_digest (snd n), temporary_parts (snd n)) of
        (Some d, _) \<Rightarrow>
          if take 2 d \<noteq> fst n \<or> bt_blobs (va_tables v) (''sha256:'' @ d) \<noteq> None then v else write_file n None v
      | (None, Some (d, p)) \<Rightarrow> if take 2 d \<noteq> fst n \<or> alive p then v else write_file n None v
      | (None, None) \<Rightarrow> v)"

definition recoverUnindexedBlobs ::
  "(string \<Rightarrow> bool) \<Rightarrow> blob_name list \<Rightarrow> 'a blob_tables_scheme vault \<Rightarrow> 'a blob_tables_scheme vault" where
  "recoverUnindexedBlobs alive entries v = fold (recover_entry alive) entries v"

text \<open>An entry \<open><64 hex>.blob.expired-...\<close> is a raw file that a retention run set aside; with
  nothing after the hyphen \<open>replace\<close> keeps the whole name.\<close>

definition quarantine_digest :: "string \<Rightarrow> string option" where
  "quarantine_digest entry =
     (if list_all is_lower_hex (take 64 entry) \<and> length (take 64 entry) = 64
         \<and> starts_with (drop 64 entry) ''.blob.expired-''
      then Some (if length entry = 78 then entry else take 64 entry) else None)"

definition original_entry :: "string \<Rightarrow> string" where
  "original_entry entry = (if length entry = 78 then entry else take 64 entry @ ''.blob'')"

definition restore_entry ::
  "blob_name \<Rightarrow> 'a blob_tables_scheme vault \<Rightarrow> 'a blob_tables_scheme vault" where
  "restore_entry n v =
     (if \<not> is_blob_name n then v
      else case quarantine_digest (snd n) of None \<Rightarrow> v | Some d \<Rightarrow>
        if bt_blobs (va_tables v) (''sha256:'' @ d) \<noteq> None
        then (if va_files v n = None \<or> original_entry (snd n) = snd n then v
              else move_file n (fst n, original_entry (snd n)) v)
        else write_file n None v)"

definition recoverRetentionQuarantine ::
  "blob_name list \<Rightarrow> 'a blob_tables_scheme vault \<Rightarrow> 'a blob_tables_scheme vault" where
  "recoverRetentionQuarantine entries v = fold restore_entry entries v"

subsection \<open>Readable blobs\<close>

text \<open>What the store needs from its host: AES-GCM opens what it sealed, and SHA-256 prints 64
  hexadecimal digits.\<close>

definition vault_laws :: "'key vault_context \<Rightarrow> bool" where
  "vault_laws x = (aead_law (vc_aead x) \<and> (\<forall>text. is_digest (sha256 (vc_host x) text)))"

definition holds_content :: "'key vault_context \<Rightarrow> string \<Rightarrow> string \<Rightarrow> bool" where
  "holds_content x c e = (\<exists>p. open_envelope (vc_aead x) e = Inr p \<and> sha256 (vc_host x) p = c)"

text \<open>Every indexed blob can be read.\<close>

definition blobs_ok :: "'key vault_context \<Rightarrow> 'a blob_tables_scheme vault \<Rightarrow> bool" where
  "blobs_ok x v = (\<forall>c. bt_blobs (va_tables v) c \<noteq> None \<longrightarrow> (\<exists>p. getBlob x c v = Inr p))"

lemma length_random_nonce [simp]: "length (random_nonce io) = 12"
  by (simp add: random_nonce_def)

lemma open_envelope_seal:
  assumes "aead_law a" "length nonce = 12"
  shows "open_envelope a (envelope a nonce p) = Inr p"
proof -
  obtain tag ct where s: "seal a nonce [] p = (tag, ct)" by fastforce
  from assms(1) have "length (fst (seal a nonce [] p)) = 16" and u: "unseal a nonce [] (seal a nonce [] p) = Some p"
    unfolding aead_law_def by blast+
  with s have "length tag = 16" by simp
  with s u assms(2) show ?thesis by (simp add: open_envelope_def envelope_def)
qed

lemma getBlob_iff: "getBlob x c v = Inr p \<longleftrightarrow>
    (\<exists>path e. blobPath c = Some path \<and> va_files v path = Some e \<and> open_envelope (vc_aead x) e = Inr p
       \<and> sha256 (vc_host x) p = c)"
  by (auto simp: getBlob_def split: option.splits sum.splits if_splits)

lemma readable_iff: "(\<exists>p. getBlob x c v = Inr p) \<longleftrightarrow>
    (\<exists>path e. blobPath c = Some path \<and> va_files v path = Some e \<and> holds_content x c e)"
  by (auto simp: getBlob_iff holds_content_def)

lemma blobPath_iff: "blobPath c = Some path \<longleftrightarrow>
    is_digest c \<and> path = (take 2 (drop 7 c), drop 7 c @ ''.blob'')"
  by (auto simp: blobPath_def)

lemma digest_parts:
  assumes "is_digest c"
  shows "c = ''sha256:'' @ drop 7 c" "length (drop 7 c) = 64" "list_all is_lower_hex (drop 7 c)"
proof -
  have "take 7 c = ''sha256:''" using assms by (simp add: is_digest_def starts_with_def eval_nat_numeral)
  then show "c = ''sha256:'' @ drop 7 c" by (metis append_take_drop_id)
qed (use assms in \<open>simp_all add: is_digest_def\<close>)

lemma is_digest_append: "length d = 64 \<Longrightarrow> list_all is_lower_hex d \<Longrightarrow> is_digest (''sha256:'' @ d)"
  by (simp add: is_digest_def starts_with_def)

lemma blobPath_inj:
  assumes "blobPath c = Some q" "blobPath c' = Some q"
  shows "c = c'"
proof -
  from assms have "is_digest c" "is_digest c'" "drop 7 c = drop 7 c'" by (auto simp: blobPath_iff)
  with digest_parts(1) show ?thesis by metis
qed

lemma blobPath_length: "blobPath c = Some q \<Longrightarrow> length (snd q) = 69"
  using digest_parts(2) by (auto simp: blobPath_iff)

lemma temporary_not_final: "blobPath c = Some q \<Longrightarrow> blobPath c' = Some p \<Longrightarrow> q \<noteq> temporary_of x io p"
  by (auto dest!: blobPath_length simp: temporary_of_def dest: arg_cong [of _ _ "length \<circ> snd"])

text \<open>Only the indexed rows and the files at their paths matter.\<close>

lemma blobs_ok_transfer:
  assumes "blobs_ok x v"
    and "\<And>c. bt_blobs (va_tables v') c \<noteq> None \<Longrightarrow> bt_blobs (va_tables v) c \<noteq> None"
    and "\<And>c q. bt_blobs (va_tables v') c \<noteq> None \<Longrightarrow> blobPath c = Some q \<Longrightarrow> va_files v' q = va_files v q"
  shows "blobs_ok x v'"
  unfolding blobs_ok_def readable_iff
proof (intro allI impI)
  fix c assume c: "bt_blobs (va_tables v') c \<noteq> None"
  from assms(1) assms(2) [OF c] obtain q e where "blobPath c = Some q" "va_files v q = Some e" "holds_content x c e"
    unfolding blobs_ok_def readable_iff by blast
  with assms(3) [OF c] show "\<exists>path e. blobPath c = Some path \<and> va_files v' path = Some e \<and> holds_content x c e" by auto
qed

lemma write_file_simps [simp]:
  "va_tables (write_file n e v) = va_tables v" "va_files (write_file n e v) = (va_files v)(n := e)"
  by (simp_all add: write_file_def)

lemma index_blob_simps [simp]:
  "bt_blobs (va_tables (index_blob c row v)) = (bt_blobs (va_tables v))(c \<mapsto> row)"
  "va_files (index_blob c row v) = va_files v"
  by (simp_all add: index_blob_def)

lemma move_file_simps [simp]:
  "va_tables (move_file n m v) = va_tables v"
  "va_files (move_file n m v) = (va_files v)(m := va_files v n, n := None)"
  by (simp_all add: move_file_def)

text \<open>A file outside the final paths does not matter.\<close>

lemma blobs_ok_write_other [intro]:
  "blobs_ok x v \<Longrightarrow> (\<And>c. blobPath c \<noteq> Some n) \<Longrightarrow> blobs_ok x (write_file n e v)"
  by (rule blobs_ok_transfer) auto

text \<open>What a put expects of the rest of the program while it waits: it keeps the store readable
  and leaves the temporary file alone.\<close>

definition calm :: "'key vault_context \<Rightarrow> blob_name \<Rightarrow> ('a blob_tables_scheme vault \<Rightarrow> 'a blob_tables_scheme vault) \<Rightarrow> bool" where
  "calm x n m = (\<forall>v. (blobs_ok x v \<longrightarrow> blobs_ok x (m v)) \<and> va_files (m v) n = va_files v n)"

lemma calm_id [simp]: "calm x n (\<lambda>v. v)"
  by (simp add: calm_def)

lemma publish_ok:
  assumes "blobs_ok x v" "blobPath c = Some path" "va_files v temporary = Some e" "holds_content x c e"
    and "\<And>c'. blobPath c' \<noteq> Some temporary" "publish x io c path temporary n kind v = (r, v')"
  shows "blobs_ok x v'" and "r = Inr b \<Longrightarrow> bt_blobs (va_tables v') c \<noteq> None"
proof -
  have other: "va_files v' q = va_files v q" if "blobPath c' = Some q" "c' \<noteq> c" for c' q
  proof -
    have "q \<noteq> path" "q \<noteq> temporary" using that blobPath_inj [OF _ assms(2)] assms(5) by blast+
    with assms(6) show ?thesis by (auto simp: publish_def split: if_splits)
  qed
  show "blobs_ok x v'" unfolding blobs_ok_def readable_iff
  proof (intro allI impI)
    fix c' assume c': "bt_blobs (va_tables v') c' \<noteq> None"
    show "\<exists>path e. blobPath c' = Some path \<and> va_files v' path = Some e \<and> holds_content x c' e"
    proof (cases "c' = c \<and> bt_blobs (va_tables v) c = None")
      case True
      with assms(2-6) c' show ?thesis by (auto simp: publish_def split: if_splits)
    next
      case False
      with c' assms(6) have "bt_blobs (va_tables v) c' \<noteq> None" by (auto simp: publish_def split: if_splits)
      with assms(1) obtain q e' where q: "blobPath c' = Some q" "va_files v q = Some e'" "holds_content x c' e'"
        unfolding blobs_ok_def readable_iff by blast
      have "va_files v' q = va_files v q"
      proof (cases "c' = c")
        case True
        with False assms(6) show ?thesis by (auto simp: publish_def split: if_splits)
      qed (use other q in blast)
      with q show ?thesis by auto
    qed
  qed
  show "r = Inr b \<Longrightarrow> bt_blobs (va_tables v') c \<noteq> None"
    using assms(6) by (auto simp: publish_def split: if_splits)
qed

lemma putBlob_cases:
  assumes "putBlob x io mw t kind v = (r, v')"
  obtains (invalid) "blobPath (sha256 (vc_host x) t) = None" "v' = v" "r = Inl InvalidContentId"
  | (present) path where "blobPath (sha256 (vc_host x) t) = Some path"
      "bt_blobs (va_tables v) (sha256 (vc_host x) t) \<noteq> None" "v' = v" "r = Inr (sha256 (vc_host x) t, False)"
  | (failed) path e where "blobPath (sha256 (vc_host x) t) = Some path" "r = Inl StorageFailed"
      "v' = v \<or> v' = write_file (temporary_of x io path) e v"
  | (written) path v1 r1 v2 where "blobPath (sha256 (vc_host x) t) = Some path"
      "v1 = mw 0 (write_file (temporary_of x io path) (Some (envelope (vc_aead x) (random_nonce io) t)) v)"
      "publish x io (sha256 (vc_host x) t) path (temporary_of x io path) (length t) kind v1 = (r1, v2)"
      "v' = mw 1 (write_file (temporary_of x io path) None v2)"
      "r = map_sum id (\<lambda>created. (sha256 (vc_host x) t, created)) r1"
  using assms unfolding putBlob_def Let_def
  by (auto split: option.splits if_splits prod.splits)

text \<open>A put keeps the store readable, whatever it returns and whatever happens meanwhile.\<close>

lemma putBlob_ok:
  assumes laws: "vault_laws x" and ok: "blobs_ok x v"
    and calm: "\<And>n path. blobPath (sha256 (vc_host x) t) = Some path \<Longrightarrow> calm x (temporary_of x io path) (mw n)"
    and run: "putBlob x io mw t kind v = (r, v')"
  shows "blobs_ok x v'"
  using run
proof (cases rule: putBlob_cases)
  case (failed path e)
  from temporary_not_final [OF _ failed(1)] have "blobPath c \<noteq> Some (temporary_of x io path)" for c by blast
  with failed(3) ok show ?thesis by auto
next
  case (written path v1 r1 v2)
  let ?c = "sha256 (vc_host x) t" and ?n = "temporary_of x io path"
  have no: "\<And>c'. blobPath c' \<noteq> Some ?n" using temporary_not_final [OF _ written(1)] by blast
  have m: "blobs_ok x (mw n v)" "va_files (mw n v) ?n = va_files v ?n" if "blobs_ok x v" for n v
    using calm [OF written(1)] that unfolding calm_def by blast+
  let ?e = "envelope (vc_aead x) (random_nonce io) t"
  have w: "blobs_ok x (write_file ?n (Some ?e) v)" using ok no by (rule blobs_ok_write_other)
  have v1: "blobs_ok x v1" "va_files v1 ?n = Some ?e"
    using m [OF w, of 0] by (simp_all add: written(2))
  have "holds_content x ?c ?e"
    using laws open_envelope_seal [of "vc_aead x" "random_nonce io" t] by (simp add: holds_content_def vault_laws_def)
  from publish_ok(1) [OF v1(1) written(1) v1(2) this no written(3)]
  have "blobs_ok x (write_file ?n None v2)" using no by (rule blobs_ok_write_other)
  from m(1) [OF this, of 1] show ?thesis by (simp add: written(4))
qed (use ok in auto)

text \<open>A put that returns has indexed its content, and the address is the digest.\<close>

lemma putBlob_indexed:
  assumes "putBlob x io (\<lambda>_ v. v) t kind v = (Inr (c, created), v')"
  shows "c = sha256 (vc_host x) t \<and> bt_blobs (va_tables v') c \<noteq> None"
  using assms by (cases rule: putBlob_cases) (auto simp: publish_def split: if_splits)

lemma putBlob_keeps_row:
  assumes "putBlob x io (\<lambda>_ v. v) t kind v = (r, v')" "bt_blobs (va_tables v) c = Some row"
  shows "bt_blobs (va_tables v') c = Some row"
  using assms by (cases rule: putBlob_cases) (auto simp: publish_def split: if_splits)

subsection \<open>The store as an interface\<close>

text \<open>
  What the tables that point into the store rely on: a good store can read every indexed
  address, a put returns an indexed address of its content, and no put takes an address away.
\<close>

locale content_store =
  fixes good :: "'s \<Rightarrow> bool"
    and indexed :: "'s \<Rightarrow> string \<Rightarrow> bool"
    and fetch :: "'s \<Rightarrow> string \<Rightarrow> string option"
    and put :: "'p \<Rightarrow> string \<Rightarrow> 's \<Rightarrow> ('e, string) result \<times> 's"
    and digest :: "string \<Rightarrow> string"
  assumes put_good: "good s \<Longrightarrow> good (snd (put p t s))"
    and put_indexed: "put p t s = (Inr c, s') \<Longrightarrow> c = digest t \<and> indexed s' c"
    and put_keeps: "indexed s c \<Longrightarrow> indexed (snd (put p t s)) c"
    and good_reads: "good s \<Longrightarrow> indexed s c \<Longrightarrow> \<exists>q. fetch s c = Some q \<and> digest q = c"
begin

lemma puts_good: "good s \<Longrightarrow> good (fold (\<lambda>(p, t) s. snd (put p t s)) puts s)"
  by (induction puts arbitrary: s) (auto simp: put_good)

lemma puts_keep: "indexed s c \<Longrightarrow> indexed (fold (\<lambda>(p, t) s. snd (put p t s)) puts s) c"
  by (induction puts arbitrary: s) (auto simp: put_keeps)

text \<open>What was put can be read after any further puts, and has the same digest.\<close>

lemma put_then_read:
  assumes "good s" "put p t s = (Inr c, s')"
  shows "\<exists>q. fetch (fold (\<lambda>(p, t) s. snd (put p t s)) puts s') c = Some q \<and> digest q = digest t"
proof -
  have "good s'" using put_good [OF assms(1), of p t] assms(2) by simp
  with put_indexed [OF assms(2)] puts_good puts_keep good_reads show ?thesis by metis
qed

end

definition put_one ::
  "'key vault_context \<Rightarrow> put_io \<times> string \<Rightarrow> string \<Rightarrow> 'a blob_tables_scheme vault
     \<Rightarrow> (vault_error, string) result \<times> 'a blob_tables_scheme vault" where
  "put_one x p t v = (case putBlob x (fst p) (\<lambda>_ v. v) t (snd p) v of (r, v') \<Rightarrow> (map_sum id fst r, v'))"

interpretation blob_store: content_store "\<lambda>v. vault_laws x \<and> blobs_ok x v"
  "\<lambda>v c. bt_blobs (va_tables v) c \<noteq> None" "\<lambda>v c. case getBlob x c v of Inl _ \<Rightarrow> None | Inr q \<Rightarrow> Some q"
  "put_one x" "sha256 (vc_host x)" for x :: "'key vault_context"
proof unfold_locales
  fix v :: "'a blob_tables_scheme vault" and p t c and v' :: "'a blob_tables_scheme vault"
  obtain r v1 where run: "putBlob x (fst p) (\<lambda>_ v. v) t (snd p) v = (r, v1)" by fastforce
  then have one: "put_one x p t v = (map_sum id fst r, v1)" by (simp add: put_one_def)
  show "vault_laws x \<and> blobs_ok x (snd (put_one x p t v))" if "vault_laws x \<and> blobs_ok x v"
    using putBlob_ok [OF _ _ _ run] that one by simp
  show "c = sha256 (vc_host x) t \<and> bt_blobs (va_tables v') c \<noteq> None" if "put_one x p t v = (Inr c, v')"
  proof -
    from that one obtain b where "r = Inr (c, b)" "v' = v1" by (cases r) auto
    with run putBlob_indexed show ?thesis by metis
  qed
  show "bt_blobs (va_tables (snd (put_one x p t v))) c \<noteq> None" if "bt_blobs (va_tables v) c \<noteq> None"
    using putBlob_keeps_row [OF run] one that by fastforce
  show "\<exists>q. (case getBlob x c v of Inl _ \<Rightarrow> None | Inr q \<Rightarrow> Some q) = Some q \<and> sha256 (vc_host x) q = c"
    if "vault_laws x \<and> blobs_ok x v" "bt_blobs (va_tables v) c \<noteq> None"
  proof -
    from that obtain q where "getBlob x c v = Inr q" unfolding blobs_ok_def by blast
    moreover from this have "sha256 (vc_host x) q = c" by (auto simp: getBlob_iff)
    ultimately show ?thesis by simp
  qed
qed

subsection \<open>Recovery\<close>

definition discarded :: "(string \<Rightarrow> bool) \<Rightarrow> 'a blob_tables_scheme \<Rightarrow> blob_name \<Rightarrow> bool" where
  "discarded alive ts n = (is_blob_name n \<and>
     (case (final_digest (snd n), temporary_parts (snd n)) of
        (Some d, _) \<Rightarrow> take 2 d = fst n \<and> bt_blobs ts (''sha256:'' @ d) = None
      | (None, Some (d, p)) \<Rightarrow> take 2 d = fst n \<and> \<not> alive p
      | (None, None) \<Rightarrow> False))"

lemma recover_entry_discards:
  "recover_entry alive n v = (if discarded alive (va_tables v) n then write_file n None v else v)"
  by (auto simp: recover_entry_def discarded_def split: option.splits prod.splits)

lemma recoverUnindexedBlobs_files:
  "va_tables (recoverUnindexedBlobs alive ns v) = va_tables v
   \<and> va_files (recoverUnindexedBlobs alive ns v) q
       = (if q \<in> set ns \<and> discarded alive (va_tables v) q then None else va_files v q)"
  unfolding recoverUnindexedBlobs_def
  by (induction ns arbitrary: v) (auto simp: recover_entry_discards)

lemma blobPath_name:
  assumes "blobPath c = Some n"
  shows "final_digest (snd n) = Some (drop 7 c)" "fst n = take 2 (drop 7 c)" "is_blob_name n" "c = ''sha256:'' @ drop 7 c"
proof -
  from assms have d: "is_digest c" and n: "n = (take 2 (drop 7 c), drop 7 c @ ''.blob'')" by (auto simp: blobPath_iff)
  note parts = digest_parts [OF d]
  from parts(3) have "list_all is_lower_hex (take 2 (drop 7 c))" by (metis append_take_drop_id list_all_append)
  with n parts show "final_digest (snd n) = Some (drop 7 c)" "fst n = take 2 (drop 7 c)" "is_blob_name n"
    by (simp_all add: final_digest_def is_blob_name_def)
  show "c = ''sha256:'' @ drop 7 c" by (fact parts(1))
qed

lemma discarded_final:
  assumes "blobPath c = Some q"
  shows "discarded alive ts q \<longleftrightarrow> bt_blobs ts c = None"
  using blobPath_name [OF assms] by (auto simp: discarded_def)

text \<open>
  C13. Opening a vault leaves exactly the indexed files.  When every indexed blob can be read and
  the walk of the blob directories sees every file, the recovery of unindexed blobs deletes the
  files of no row and keeps the file of every row: afterwards a content address has a file
  exactly when it has a row, and every indexed blob can still be read.
\<close>

theorem recovered_store_exact:
  assumes "blobs_ok x v" and "\<And>n. va_files v n \<noteq> None \<Longrightarrow> n \<in> set entries"
  shows "blobs_ok x (recoverUnindexedBlobs alive entries v)
    \<and> va_tables (recoverUnindexedBlobs alive entries v) = va_tables v
    \<and> (\<forall>c q. blobPath c = Some q \<longrightarrow>
         (va_files (recoverUnindexedBlobs alive entries v) q \<noteq> None \<longleftrightarrow> bt_blobs (va_tables v) c \<noteq> None))"
proof -
  let ?v = "recoverUnindexedBlobs alive entries v"
  note files = recoverUnindexedBlobs_files [of alive entries v]
  have same: "va_files ?v q = va_files v q" if "blobPath c = Some q" "bt_blobs (va_tables v) c \<noteq> None" for c q
    using that files [of q] discarded_final [OF that(1), of alive "va_tables v"] by auto
  have ok: "blobs_ok x ?v"
    by (rule blobs_ok_transfer [OF assms(1)]) (use files same in auto)
  have "va_files ?v q \<noteq> None \<longleftrightarrow> bt_blobs (va_tables v) c \<noteq> None" if q: "blobPath c = Some q" for c q
  proof (cases "bt_blobs (va_tables v) c = None")
    case True
    with files [of q] discarded_final [OF q, of alive "va_tables v"] assms(2) [of q] show ?thesis by (cases "va_files v q") auto
  next
    case False
    with ok files q show ?thesis by (fastforce simp: blobs_ok_def getBlob_iff)
  qed
  with ok files show ?thesis by simp
qed

text \<open>The names under which a retention run sets the file of a blob aside.\<close>

definition quarantine_of :: "string \<Rightarrow> blob_name \<Rightarrow> bool" where
  "quarantine_of c n = (is_blob_name n \<and> fst n = take 2 (drop 7 c) \<and> quarantine_digest (snd n) = Some (drop 7 c))"

definition stored_at :: "string \<Rightarrow> blob_name \<Rightarrow> bool" where
  "stored_at c n = (blobPath c = Some n \<or> quarantine_of c n)"

text \<open>After an interruption a row may have its file in quarantine only.\<close>

definition recoverable :: "'key vault_context \<Rightarrow> 'a blob_tables_scheme vault \<Rightarrow> bool" where
  "recoverable x v = (\<forall>c. bt_blobs (va_tables v) c \<noteq> None \<longrightarrow> is_digest c
     \<and> (\<forall>n e. stored_at c n \<longrightarrow> va_files v n = Some e \<longrightarrow> holds_content x c e)
     \<and> (\<exists>n. stored_at c n \<and> va_files v n \<noteq> None))"

lemma quarantine_not_final: "quarantine_digest (snd n) \<noteq> None \<Longrightarrow> blobPath c \<noteq> Some n"
proof
  assume q: "quarantine_digest (snd n) \<noteq> None" and p: "blobPath c = Some n"
  then have n: "snd n = drop 7 c @ ''.blob''" and d: "is_digest c" by (auto simp: blobPath_iff)
  from n digest_parts(2) [OF d] have "drop 64 (snd n) = ''.blob''" by (metis append_eq_conv_conj)
  with q show False by (simp add: quarantine_digest_def starts_with_def split: if_splits)
qed

lemma stored_at_final: "quarantine_digest (snd n) = None \<Longrightarrow> stored_at c n \<longleftrightarrow> blobPath c = Some n"
  by (simp add: stored_at_def quarantine_of_def)

lemma quarantine_digest_blob: "length d = 64 \<Longrightarrow> quarantine_digest (d @ ''.blob'') = None"
  by (simp add: quarantine_digest_def starts_with_def)

lemma quarantine_of_length: "quarantine_of c n \<Longrightarrow> is_digest c \<Longrightarrow> length (snd n) \<noteq> 78"
  using digest_parts(2) [of c] by (auto simp: quarantine_of_def quarantine_digest_def split: if_splits)

text \<open>Restoring one entry: what it removes, what it moves.\<close>

lemma restore_entry_cases:
  obtains (same) "restore_entry n v = v"
      "\<And>c. bt_blobs (va_tables v) c \<noteq> None \<Longrightarrow> is_digest c \<Longrightarrow> quarantine_of c n \<Longrightarrow> va_files v n = None"
  | (drop) "restore_entry n v = write_file n None v" "\<And>c. bt_blobs (va_tables v) c \<noteq> None \<Longrightarrow> is_digest c \<Longrightarrow> \<not> stored_at c n"
  | (move) d where "restore_entry n v = move_file n (fst n, d @ ''.blob'') v" "va_files v n \<noteq> None"
      "quarantine_digest (snd n) = Some d" "is_blob_name n" "length d = 64"
proof (cases "is_blob_name n \<and> quarantine_digest (snd n) \<noteq> None")
  case False
  then show ?thesis by (intro same) (auto simp: restore_entry_def quarantine_of_def)
next
  case True
  then obtain d where d: "quarantine_digest (snd n) = Some d" by blast
  show ?thesis
  proof (cases "bt_blobs (va_tables v) (''sha256:'' @ d) = None")
    case True': True
    have "\<not> stored_at c n" if c: "bt_blobs (va_tables v) c \<noteq> None" "is_digest c" for c
    proof -
      have "drop 7 c \<noteq> d" using c True' digest_parts(1) [OF c(2)] by metis
      with d show ?thesis using quarantine_not_final [of n c] by (auto simp: stored_at_def quarantine_of_def)
    qed
    with True d True' show ?thesis by (intro drop) (auto simp: restore_entry_def)
  next
    case False
    show ?thesis
    proof (cases "va_files v n = None \<or> length (snd n) = 78")
      case True': True
      with True d False quarantine_of_length show ?thesis
        by (intro same) (auto simp: restore_entry_def original_entry_def quarantine_digest_def split: if_splits)
    next
      case False': False
      with d have "d = take 64 (snd n)" "length d = 64" by (auto simp: quarantine_digest_def split: if_splits)
      moreover from this d have "take 64 (snd n) @ ''.blob'' \<noteq> snd n"
        using quarantine_digest_blob [of d] by auto
      ultimately show ?thesis using True d False False'
        by (intro move [of d]) (auto simp: restore_entry_def original_entry_def)
    qed
  qed
qed

lemma restore_entry_tables [simp]: "va_tables (restore_entry n v) = va_tables v"
  by (cases rule: restore_entry_cases [where n = n and v = v]) auto

lemma recoverableD:
  assumes "recoverable x v" "bt_blobs (va_tables v) c \<noteq> None"
  shows "is_digest c" "stored_at c n \<Longrightarrow> va_files v n = Some e \<Longrightarrow> holds_content x c e"
    "\<exists>n. stored_at c n \<and> va_files v n \<noteq> None"
  using assms unfolding recoverable_def by blast+

lemma restore_entry_recoverable:
  assumes rec: "recoverable x v"
  shows "recoverable x (restore_entry n v)"
proof (cases rule: restore_entry_cases [where n = n and v = v])
  case drop
  show ?thesis unfolding recoverable_def
  proof (intro allI impI)
    fix c assume "bt_blobs (va_tables (restore_entry n v)) c \<noteq> None"
    then have row: "bt_blobs (va_tables v) c \<noteq> None" by simp
    note c = recoverableD [OF rec row]
    have no: "\<not> stored_at c n" using drop(2) row c(1) by blast
    from c(3) obtain m where m: "stored_at c m" "va_files v m \<noteq> None" by blast
    with no drop(1) have "\<exists>m. stored_at c m \<and> va_files (restore_entry n v) m \<noteq> None" by (intro exI [of _ m]) auto
    with c(1) show "is_digest c \<and> (\<forall>m e. stored_at c m \<longrightarrow> va_files (restore_entry n v) m = Some e \<longrightarrow> holds_content x c e)
        \<and> (\<exists>m. stored_at c m \<and> va_files (restore_entry n v) m \<noteq> None)"
      using c(2) drop(1) by (auto split: if_splits)
  qed
next
  case (move d)
  let ?t = "(fst n, d @ ''.blob'')"
  have files: "va_files (restore_entry n v) = (va_files v)(?t := va_files v n, n := None)" by (simp add: move(1))
  have tq: "\<not> quarantine_of c ?t" for c using quarantine_digest_blob [OF move(5)] by (simp add: quarantine_of_def)
  show ?thesis unfolding recoverable_def
  proof (intro allI impI)
    fix c assume "bt_blobs (va_tables (restore_entry n v)) c \<noteq> None"
    then have row: "bt_blobs (va_tables v) c \<noteq> None" by simp
    note c = recoverableD [OF rec row]
    have target: "stored_at c n" if "stored_at c ?t"
    proof -
      from that tq have "blobPath c = Some ?t" by (auto simp: stored_at_def)
      then have "drop 7 c = d" "fst n = take 2 d" by (auto simp: blobPath_iff)
      with move(3,4) show ?thesis by (simp add: stored_at_def quarantine_of_def)
    qed
    have good: "holds_content x c e" if "stored_at c m" "va_files (restore_entry n v) m = Some e" for m e
    proof (cases "m = ?t")
      case True
      with that files target c(2) show ?thesis by (auto split: if_splits)
    qed (use that files c(2) in \<open>auto split: if_splits\<close>)
    from c(3) obtain m where m: "stored_at c m" "va_files v m \<noteq> None" by blast
    have "\<exists>n'. stored_at c n' \<and> va_files (restore_entry n v) n' \<noteq> None"
    proof (cases "m = n")
      case False
      with m files move(2) show ?thesis by (intro exI [of _ m]) auto
    next
      case True
      with m(1) have "quarantine_of c n" using quarantine_not_final [of n c] move(3) by (auto simp: stored_at_def)
      with move(3) c(1) have t: "blobPath c = Some ?t" by (simp add: quarantine_of_def blobPath_iff)
      with quarantine_not_final [of n c] move(3) have "?t \<noteq> n" by auto
      with t files move(2) show ?thesis by (intro exI [of _ ?t]) (auto simp: stored_at_def)
    qed
    with c(1) good show "is_digest c \<and> (\<forall>m e. stored_at c m \<longrightarrow> va_files (restore_entry n v) m = Some e \<longrightarrow> holds_content x c e)
        \<and> (\<exists>m. stored_at c m \<and> va_files (restore_entry n v) m \<noteq> None)" by blast
  qed
qed (use rec in simp)

lemma restored_gone:
  assumes "va_files (restore_entry n v) m \<noteq> None" "quarantine_of c m" "is_digest c" "bt_blobs (va_tables v) c \<noteq> None"
  shows "va_files v m \<noteq> None \<and> m \<noteq> n"
proof (cases rule: restore_entry_cases [where n = n and v = v])
  case same
  with assms show ?thesis by (metis (full_types))
next
  case drop
  with assms show ?thesis by (auto simp: stored_at_def split: if_splits)
next
  case (move d)
  have "m \<noteq> (fst n, d @ ''.blob'')" using assms(2) quarantine_digest_blob [OF move(5)] by (auto simp: quarantine_of_def)
  with assms(1) move(1) show ?thesis by (auto split: if_splits)
qed

lemma restore_all:
  assumes "recoverable x v"
    and "\<And>c n. bt_blobs (va_tables v) c \<noteq> None \<Longrightarrow> quarantine_of c n \<Longrightarrow> va_files v n \<noteq> None \<Longrightarrow> n \<in> set ns"
  shows "blobs_ok x (fold restore_entry ns v) \<and> va_tables (fold restore_entry ns v) = va_tables v"
  using assms
proof (induction ns arbitrary: v)
  case Nil
  have "\<exists>path e. blobPath c = Some path \<and> va_files v path = Some e \<and> holds_content x c e"
    if row: "bt_blobs (va_tables v) c \<noteq> None" for c
  proof -
    from recoverableD [OF Nil(1) row] obtain n e where n: "stored_at c n" "va_files v n = Some e" "holds_content x c e" by blast
    moreover from Nil(2) [OF row, of n] n(2) have "\<not> quarantine_of c n" by auto
    ultimately show ?thesis unfolding stored_at_def by blast
  qed
  then show ?case by (simp add: blobs_ok_def readable_iff)
next
  case (Cons n ns)
  have "m \<in> set ns" if "bt_blobs (va_tables v) c \<noteq> None" "quarantine_of c m" "va_files (restore_entry n v) m \<noteq> None" for c m
    using restored_gone [OF that(3,2) recoverableD(1) [OF Cons.prems(1) that(1)] that(1)] Cons.prems(2) [OF that(1,2)] by auto
  with Cons.IH [of "restore_entry n v"] restore_entry_recoverable [OF Cons.prems(1)] show ?case by simp
qed

text \<open>
  C14. Interrupted retention is repaired at the next opening.  In any state in which every
  indexed blob still has an intact file, at its address or set aside by a retention run, the
  quarantine recovery over the directory puts a readable file at the address of every row and
  changes no row.
\<close>

theorem quarantine_recovered:
  assumes "recoverable x v" and "\<And>n. va_files v n \<noteq> None \<Longrightarrow> n \<in> set entries"
  shows "blobs_ok x (recoverRetentionQuarantine entries v)
    \<and> va_tables (recoverRetentionQuarantine entries v) = va_tables v"
  using restore_all [OF assms(1)] assms(2) unfolding recoverRetentionQuarantine_def by blast

subsection \<open>Properties of the store\<close>

text \<open>
  C12. What is put can be read.  In a store in which every indexed blob can be read, the content
  of a successful put is read back at the returned address, which is the content's digest, after
  any further puts: the bytes read have that digest.  Every other address in use stays in use.
\<close>

theorem put_then_get:
  assumes "vault_laws x" and "blobs_ok x v" and "put_one x p t v = (Inr c, v')"
  shows "c = sha256 (vc_host x) t
    \<and> (\<exists>q. getBlob x c (fold (\<lambda>(p, t) v. snd (put_one x p t v)) puts v') = Inr q \<and> sha256 (vc_host x) q = sha256 (vc_host x) t)
    \<and> (\<forall>c'. bt_blobs (va_tables v) c' \<noteq> None \<longrightarrow>
        (\<exists>q. getBlob x c' (fold (\<lambda>(p, t) v. snd (put_one x p t v)) puts v') = Inr q \<and> sha256 (vc_host x) q = c'))"
proof -
  note good = conjI [OF assms(1,2)]
  let ?w = "fold (\<lambda>(p, t) v. snd (put_one x p t v)) puts v'"
  have read: "\<exists>q. getBlob x c' ?w = Inr q \<and> sha256 (vc_host x) q = c'" if "bt_blobs (va_tables v') c' \<noteq> None" for c'
  proof -
    have "vault_laws x \<and> blobs_ok x v'" using blob_store.put_good [OF good, of p t] assms(3) by simp
    then have good: "vault_laws x \<and> blobs_ok x ?w" by (rule blob_store.puts_good)
    have "bt_blobs (va_tables ?w) c' \<noteq> None" using that by (rule blob_store.puts_keep)
    from blob_store.good_reads [OF good this] show ?thesis by (auto split: sum.splits)
  qed
  have "bt_blobs (va_tables v') c' \<noteq> None" if "bt_blobs (va_tables v) c' \<noteq> None" for c'
    using blob_store.put_keeps [OF that, of x p t] assms(3) by simp
  with read have all: "\<forall>c'. bt_blobs (va_tables v) c' \<noteq> None \<longrightarrow> (\<exists>q. getBlob x c' ?w = Inr q \<and> sha256 (vc_host x) q = c')"
    by blast
  from blob_store.put_indexed [OF assms(3)] have c: "c = sha256 (vc_host x) t" and "bt_blobs (va_tables v') c \<noteq> None" by auto
  from read [OF this(2)] c all show ?thesis by metis
qed

text \<open>
  A put survives everything else.  Whatever the file system answers and whatever other
  operations do while a put waits, as long as they keep the store readable themselves and leave
  its temporary file alone, the store is readable afterwards; and stopping the put before or
  after any of its own steps leaves it readable too.
\<close>

theorem put_keeps_store_readable:
  assumes "vault_laws x" and "blobs_ok x v"
    and "\<And>n path. blobPath (sha256 (vc_host x) t) = Some path \<Longrightarrow> calm x (temporary_of x io path) (mw n)"
  shows "blobs_ok x (snd (putBlob x io mw t kind v))
    \<and> (\<forall>path e. blobPath (sha256 (vc_host x) t) = Some path \<longrightarrow> blobs_ok x (write_file (temporary_of x io path) e v))"
proof
  show "blobs_ok x (snd (putBlob x io mw t kind v))"
    by (rule putBlob_ok [OF assms]) (auto intro: prod.collapse [symmetric])
  show "\<forall>path e. blobPath (sha256 (vc_host x) t) = Some path \<longrightarrow> blobs_ok x (write_file (temporary_of x io path) e v)"
    using assms(2) temporary_not_final by (intro allI impI blobs_ok_write_other) blast+
qed

text \<open>
  A file imported while another process opens the vault is lost.  \<open>putFile\<close> renames its file
  to the final address and indexes it only after another \<open>await\<close>; if the recovery of a second
  opening deletes the unindexed file in between, \<open>putFile\<close> still reports success, with a row whose
  file is gone.  (\<open>#putBlob\<close> publishes row and file without giving up control.)
\<close>

theorem imported_file_lost:
  assumes "putFile x io mw bytes chunks kind v = (Inr (c, n), v')"
    and "mw 0 = (\<lambda>v. v)" and "\<And>v. mw 1 v = recoverUnindexedBlobs alive entries v"
    and "bt_blobs (va_tables v) c = None" and "blobPath c = Some path" and "path \<in> set entries"
  shows "bt_blobs (va_tables v') c \<noteq> None \<and> getBlob x c v' = Inl BlobMissing"
proof -
  from assms(1) have c: "c = sha256 (vc_host x) (concat chunks)"
    by (auto simp: putFile_def Let_def split: option.splits if_splits)
  let ?i = "incoming_of x io"
  define v2 where "v2 = recoverUnindexedBlobs alive entries (move_file ?i path
    (write_file ?i (Some (envelope (vc_aead x) (random_nonce io) (concat chunks))) v))"
  have v': "v' = index_blob c (blob_row_of x io n kind) v2"
    using assms(1-5) by (auto simp: putFile_def Let_def c v2_def split: option.splits if_splits)
  have "va_files v2 path = None"
    unfolding v2_def recoverUnindexedBlobs_files [THEN conjunct2] using discarded_final [OF assms(5), of alive "va_tables v"] assms(4,6) by simp
  with v' assms(5) show ?thesis by (simp add: getBlob_def)
qed

subsection \<open>A small store\<close>

definition demo_hex :: "string \<Rightarrow> string" where
  "demo_hex s = take 64 (concat (map (\<lambda>c. [hex_char (of_char c div 16), hex_char (of_char c mod 16)]) s) @ replicate 64 (CHR ''0''))"

definition demo_aead :: aead where
  "demo_aead = \<lparr>seal = \<lambda>nonce aad t. (replicate 16 (CHR ''t''), t), unseal = \<lambda>nonce aad (tag, c). Some c\<rparr>"

definition demo_vault_context :: "string vault_context" where
  "demo_vault_context = \<lparr>vc_host = demo_host\<lparr>sha256Hex := demo_hex\<rparr>, vc_aead = demo_aead, vc_parseJson = \<lambda>_. None,
     vc_hostName = ''host'', vc_pid = 7\<rparr>"

definition demo_io :: put_io where
  "demo_io = \<lparr>io_nonce = ''nonce'', io_suffix = ''0a0b0c0d'', io_write = True, io_left = None, io_rename = True, io_now = 5\<rparr>"

definition empty_blobs :: "blob_tables vault" where
  "empty_blobs = \<lparr>va_tables = \<lparr>bt_blobs = \<lambda>_. None\<rparr>, va_files = \<lambda>_. None\<rparr>"

lemma is_lower_hex_char: "n < 16 \<Longrightarrow> is_lower_hex (hex_char n)"
  by (cases "n < 10") (auto simp: is_lower_hex_def hex_char_def is_digit_digit_char [unfolded digit_char_def])

lemma demo_hex_hex: "list_all is_lower_hex (demo_hex s)"
proof -
  have "is_lower_hex c" if "c \<in> set (demo_hex s)" for c
  proof -
    from that have "c \<in> set (concat (map (\<lambda>c. [hex_char (of_char c div 16), hex_char (of_char c mod 16)]) s)) \<or> c = CHR ''0''"
      unfolding demo_hex_def by (auto dest: in_set_takeD)
    moreover have "of_char d div 16 < (16 :: nat)" for d :: char
      using nat_of_char_less_256 [of d] by linarith
    moreover have "is_lower_hex (CHR ''0'')" by (simp add: is_lower_hex_def is_digit_def)
    ultimately show ?thesis by (auto intro!: is_lower_hex_char)
  qed
  then show ?thesis by (simp add: list_all_iff)
qed

lemma length_demo_hex: "length (demo_hex s) = 64"
  by (simp add: demo_hex_def)

lemma demo_vault_laws: "vault_laws demo_vault_context"
proof -
  have "is_digest (sha256 (vc_host demo_vault_context) s)" for s
    using is_digest_append [OF length_demo_hex demo_hex_hex] by (simp add: demo_vault_context_def sha256_def)
  then show ?thesis by (simp add: vault_laws_def aead_law_def demo_vault_context_def demo_aead_def)
qed

lemma empty_blobs_ok: "blobs_ok x empty_blobs"
  by (simp add: blobs_ok_def empty_blobs_def)

lemma put_one_empty:
  assumes "vault_laws x" "io_write io" "io_rename io"
  shows "fst (put_one x (io, kind) t empty_blobs) = Inr (sha256 (vc_host x) t)"
  using assms by (simp add: put_one_def putBlob_def publish_def empty_blobs_def blobPath_def vault_laws_def Let_def)

lemma quarantine_name:
  assumes "is_digest c" "s \<noteq> []"
  shows "quarantine_of c (take 2 (drop 7 c), drop 7 c @ ''.blob.expired-'' @ s)"
proof -
  have "blobPath c = Some (take 2 (drop 7 c), drop 7 c @ ''.blob'')" using assms(1) by (simp add: blobPath_iff)
  from blobPath_name(3) [OF this] digest_parts(2,3) [OF assms(1)] assms(2) show ?thesis
    by (simp add: quarantine_of_def is_blob_name_def quarantine_digest_def starts_with_def)
qed

definition demo_address :: string where
  "demo_address = sha256 (vc_host demo_vault_context) ''hi''"

definition demo_stray :: blob_name where
  "demo_stray = (take 2 (drop 7 demo_address), drop 7 demo_address @ ''.blob'')"

lemma demo_address_digest: "is_digest demo_address"
  using demo_vault_laws by (simp add: vault_laws_def demo_address_def)

lemma demo_stray_path: "blobPath demo_address = Some demo_stray"
  by (simp add: blobPath_iff demo_address_digest demo_stray_def)

theorem put_then_get_witness:
  "\<exists>q. getBlob demo_vault_context demo_address (snd (put_one demo_vault_context (demo_io, ''raw'') ''hi'' empty_blobs)) = Inr q"
proof -
  obtain r v' where run: "put_one demo_vault_context (demo_io, ''raw'') ''hi'' empty_blobs = (r, v')" by fastforce
  with put_one_empty [OF demo_vault_laws, of demo_io "''raw''" "''hi''"] have "r = Inr demo_address"
    by (simp add: demo_io_def demo_address_def)
  with run put_then_get [OF demo_vault_laws empty_blobs_ok, of "(demo_io, ''raw'')" "''hi''" demo_address v' "[]"]
  show ?thesis by auto
qed

theorem put_keeps_store_readable_witness:
  "blobs_ok demo_vault_context (snd (putBlob demo_vault_context demo_io (\<lambda>_ v. v) ''hi'' ''raw'' empty_blobs))"
  using put_keeps_store_readable [OF demo_vault_laws empty_blobs_ok, of "''hi''" demo_io "\<lambda>_ v. v" "''raw''"] by simp

theorem imported_file_lost_witness:
  "getBlob demo_vault_context demo_address (snd (putFile demo_vault_context demo_io
     (\<lambda>n v. if n = 1 then recoverUnindexedBlobs (\<lambda>_. True) [demo_stray] v else v) (Some 2) [''h'', ''i''] ''raw'' empty_blobs))
   = Inl BlobMissing"
proof -
  let ?mw = "\<lambda>n v. if n = 1 then recoverUnindexedBlobs (\<lambda>_. True) [demo_stray] v else (v :: blob_tables vault)"
  obtain r v' where run: "putFile demo_vault_context demo_io ?mw (Some 2) [''h'', ''i''] ''raw'' empty_blobs = (r, v')"
    by fastforce
  have "r = Inr (demo_address, 2)"
    using run demo_stray_path
    by (auto simp: recoverUnindexedBlobs_files [THEN conjunct1] putFile_def Let_def demo_address_def [symmetric] empty_blobs_def demo_io_def split: if_splits)
  with run imported_file_lost [of demo_vault_context demo_io ?mw "Some 2" "[''h'', ''i'']" "''raw''" empty_blobs
      demo_address 2 v' "\<lambda>_. True" "[demo_stray]" demo_stray] demo_stray_path
  show ?thesis by (simp add: empty_blobs_def)
qed

theorem recovered_store_exact_witness:
  "va_files (recoverUnindexedBlobs (\<lambda>_. True) [demo_stray] (write_file demo_stray (Some ''x'') empty_blobs)) demo_stray = None"
proof -
  let ?v = "write_file demo_stray (Some ''x'') empty_blobs"
  have ok: "blobs_ok demo_vault_context ?v" by (simp add: blobs_ok_def empty_blobs_def)
  have names: "n \<in> set [demo_stray]" if "va_files ?v n \<noteq> None" for n
    using that by (simp add: empty_blobs_def split: if_splits)
  have "\<forall>c q. blobPath c = Some q \<longrightarrow>
      (va_files (recoverUnindexedBlobs (\<lambda>_. True) [demo_stray] ?v) q \<noteq> None \<longleftrightarrow> bt_blobs (va_tables ?v) c \<noteq> None)"
    by (rule recovered_store_exact [OF ok, THEN conjunct2, THEN conjunct2]) (rule names)
  with demo_stray_path have "va_files (recoverUnindexedBlobs (\<lambda>_. True) [demo_stray] ?v) demo_stray \<noteq> None
      \<longleftrightarrow> bt_blobs (va_tables ?v) demo_address \<noteq> None" by blast
  then show ?thesis by (simp add: empty_blobs_def)
qed

definition demo_set_aside :: "blob_tables vault" where
  "demo_set_aside = index_blob demo_address (blob_row_of demo_vault_context demo_io 2 ''raw-provider-turn'')
     (write_file (take 2 (drop 7 demo_address), drop 7 demo_address @ ''.blob.expired-'' @ ''7-0a'')
        (Some (envelope demo_aead (random_nonce demo_io) ''hi'')) empty_blobs)"

theorem quarantine_recovered_witness:
  "\<exists>q. getBlob demo_vault_context demo_address (recoverRetentionQuarantine
     [(take 2 (drop 7 demo_address), drop 7 demo_address @ ''.blob.expired-'' @ ''7-0a'')] demo_set_aside) = Inr q"
proof -
  let ?n = "(take 2 (drop 7 demo_address), drop 7 demo_address @ ''.blob.expired-'' @ ''7-0a'')"
  have files: "va_files demo_set_aside = [?n \<mapsto> envelope demo_aead (random_nonce demo_io) ''hi'']"
    and rows: "bt_blobs (va_tables demo_set_aside) c \<noteq> None \<longleftrightarrow> c = demo_address" for c
    by (simp_all add: demo_set_aside_def empty_blobs_def)
  have laws: "aead_law demo_aead" using demo_vault_laws by (simp add: vault_laws_def demo_vault_context_def)
  have "holds_content demo_vault_context demo_address (envelope demo_aead (random_nonce demo_io) ''hi'')"
    using open_envelope_seal [OF laws length_random_nonce]
    by (simp add: holds_content_def demo_address_def) (simp add: demo_vault_context_def)
  moreover have "stored_at demo_address ?n"
    using quarantine_name [OF demo_address_digest, of "''7-0a''"] by (simp add: stored_at_def)
  ultimately have "recoverable demo_vault_context demo_set_aside"
    unfolding recoverable_def using demo_address_digest files rows by (auto split: if_splits)
  then have "blobs_ok demo_vault_context (recoverRetentionQuarantine [?n] demo_set_aside)
      \<and> va_tables (recoverRetentionQuarantine [?n] demo_set_aside) = va_tables demo_set_aside"
    by (rule quarantine_recovered) (use files in \<open>simp split: if_splits\<close>)
  with rows show ?thesis unfolding blobs_ok_def by auto
qed

end
