(* ===== verification/Vault_Bindings.thy ===== *)
theory Vault_Bindings
  imports Vault_Blobs
begin

text \<open>
  Provider session bindings of packages/local-vault/src/index.ts: the validated record, its
  encrypted row, its renewal and revocation, the lease that lets one process own the session,
  and the declaration that permits recovery.  Each function is one synchronous section of the
  code, so nothing of the same process runs inside it; \<open>now\<close> is \<open>Date.now()\<close>, \<open>nonce\<close> the result of
  \<open>randomBytes(12)\<close>, \<open>holder\<close> a \<open>randomUUID()\<close> and \<open>alive\<close> whether a signal reaches a process
  of this host.
\<close>

subsection \<open>The record\<close>

datatype binding_owner = DharmaBridge | CooperativeSession

fun owner_name :: "binding_owner \<Rightarrow> string" where
  "owner_name DharmaBridge = ''dharma_bridge''"
| "owner_name CooperativeSession = ''cooperative_session''"

record session_binding =
  sb_owner :: binding_owner
  sb_scope :: binding_scope
  sb_sessionId :: string
  sb_workspaceRoot :: string
  sb_createdAt :: string

record session_identity =
  si_organizationId :: string
  si_repositoryBindingId :: string
  si_party :: party
  si_provider :: provider_id

datatype binding_error =
    SessionBindingInvalid | SessionBindingExpired | SessionBindingConflict | SessionBindingIntegrity
  | SessionBindingMismatch | SessionBindingUnavailable | SessionBindingUndecodable | RenewalInvalid | RenewalConflict
  | LeaseUnavailable | CleanupUnconfirmed | DeclarationUnavailable | DeclarationInvalid | DeclarationConflict
  | DeclarationIntegrity | RenewalRecorded

definition binding_json :: "session_binding \<Rightarrow> json" where
  "binding_json b = (let s = sb_scope b in JObj
     ([(''schema'', JStr ''dharma.local-provider-session-binding/v1''), (''owner'', JStr (owner_name (sb_owner b))),
       (''organizationId'', JStr (bs_organizationId s)), (''repositoryBindingId'', JStr (bs_repositoryBindingId s))]
      @ party_fields (bs_party s)
      @ [(''bindingId'', JStr (bs_bindingId s)), (''provider'', JStr (provider_name (bs_provider s))),
         (''sessionId'', JStr (sb_sessionId b)), (''workspaceRoot'', JStr (sb_workspaceRoot b)),
         (''createdAt'', JStr (sb_createdAt b)), (''expiresAt'', JStr (bs_expiresAt s))]
      @ opt_field ''maximumProviderCostCents'' (map_option JNum (bs_maximumProviderCostCents s))))"

definition binding_names :: "string list" where
  "binding_names = [''schema'', ''owner'', ''organizationId'', ''repositoryBindingId'', ''workspaceId'', ''endpointId'',
     ''membershipId'', ''deviceId'', ''bindingId'', ''provider'', ''sessionId'', ''workspaceRoot'', ''createdAt'', ''expiresAt'',
     ''maximumProviderCostCents'']"

definition text_or_empty :: "json \<Rightarrow> string \<Rightarrow> string" where
  "text_or_empty v k = (case text_property v k of Some s \<Rightarrow> s | None \<Rightarrow> [])"

text \<open>The record that the fields of a value spell, and the conditions on it.\<close>

definition read_binding :: "json \<Rightarrow> session_binding option" where
  "read_binding v =
     (case (text_property v ''owner'', parse_provider (text_or_empty v ''provider''), int_property v ''maximumProviderCostCents'') of
        (Some owner, Some provider, Some cents) \<Rightarrow>
          if owner \<noteq> ''dharma_bridge'' \<and> owner \<noteq> ''cooperative_session'' then None
          else Some \<lparr>sb_owner = (if owner = ''dharma_bridge'' then DharmaBridge else CooperativeSession),
            sb_scope = \<lparr>bs_organizationId = text_or_empty v ''organizationId'',
              bs_repositoryBindingId = text_or_empty v ''repositoryBindingId'',
              bs_party = \<lparr>pt_workspaceId = text_or_empty v ''workspaceId'', pt_endpointId = text_or_empty v ''endpointId'',
                 pt_membershipId = text_or_empty v ''membershipId'', pt_deviceId = text_or_empty v ''deviceId''\<rparr>,
              bs_bindingId = text_or_empty v ''bindingId'', bs_provider = provider,
              bs_expiresAt = text_or_empty v ''expiresAt'', bs_maximumProviderCostCents = Some cents\<rparr>,
            sb_sessionId = text_or_empty v ''sessionId'', sb_workspaceRoot = text_or_empty v ''workspaceRoot'',
            sb_createdAt = text_or_empty v ''createdAt''\<rparr>
      | _ \<Rightarrow> None)"

definition valid_binding :: "'key host \<Rightarrow> session_binding \<Rightarrow> bool" where
  "valid_binding h b =
     (let s = sb_scope b; p = bs_party s; created = dateParse h (sb_createdAt b); expires = dateParse h (bs_expiresAt s) in
      organization_token (bs_organizationId s)
      \<and> list_all provider_offer_id [bs_repositoryBindingId s, pt_workspaceId p, pt_endpointId p, pt_membershipId p,
           pt_deviceId p, bs_bindingId s]
      \<and> session_token (sb_sessionId b)
      \<and> isAbsolute (sb_workspaceRoot b) \<and> resolve [] (sb_workspaceRoot b) = sb_workspaceRoot b
      \<and> is_finite created \<and> is_finite expires \<and> num_lt created expires
      \<and> (case bs_maximumProviderCostCents s of None \<Rightarrow> False | Some c \<Rightarrow> 0 \<le> c \<and> c \<le> 10000))"

text \<open>\<open>None\<close> where the assertion throws.\<close>

definition assertLocalProviderSessionBinding :: "'key host \<Rightarrow> json \<Rightarrow> session_binding option" where
  "assertLocalProviderSessionBinding h v =
     (if \<not> has_only v binding_names
         \<or> text_property v ''schema'' \<noteq> Some ''dharma.local-provider-session-binding/v1''
         \<or> text_property v ''createdAt'' = None \<or> text_property v ''expiresAt'' = None
         \<or> text_property v ''workspaceRoot'' = None
      then None
      else case read_binding v of None \<Rightarrow> None | Some b \<Rightarrow> if valid_binding h b then Some b else None)"

definition sameLocalProviderSessionIdentity :: "session_binding \<Rightarrow> session_identity \<Rightarrow> bool" where
  "sameLocalProviderSessionIdentity b i =
     (bs_organizationId (sb_scope b) = si_organizationId i
      \<and> bs_repositoryBindingId (sb_scope b) = si_repositoryBindingId i
      \<and> bs_party (sb_scope b) = si_party i
      \<and> bs_provider (sb_scope b) = si_provider i)"

subsection \<open>Tables\<close>

text \<open>\<open>bt_locators\<close> is the unique index on \<open>session_locator_hash\<close>; a time of revocation is never
  empty.\<close>

record sealed_text =
  st_nonce :: string
  st_tag :: string
  st_ciphertext :: string

record binding_row = sealed_text +
  bn_locatorHash :: string
  bn_revokedAt :: "string option"

record lease_row =
  ls_holderId :: string
  ls_hostName :: string
  ls_ownerPid :: int
  ls_acquiredAt :: string

record renewal_row = sealed_text +
  rn_renewedAt :: string

record binding_tables = blob_tables +
  bt_bindings :: "string \<rightharpoonup> binding_row"
  bt_locators :: "string \<rightharpoonup> string"
  bt_leases :: "string \<rightharpoonup> lease_row"
  bt_declarations :: "string \<rightharpoonup> sealed_text"
  bt_renewals :: "string \<times> string \<rightharpoonup> renewal_row"

definition seal_text :: "'key vault_context \<Rightarrow> string \<Rightarrow> string \<Rightarrow> string \<Rightarrow> sealed_text" where
  "seal_text x nonce aad plaintext = (case seal (vc_aead x) nonce aad plaintext of (tag, ciphertext) \<Rightarrow>
     \<lparr>st_nonce = nonce, st_tag = tag, st_ciphertext = ciphertext\<rparr>)"

definition unseal_text :: "'key vault_context \<Rightarrow> string \<Rightarrow> ('z) sealed_text_scheme \<Rightarrow> string option" where
  "unseal_text x aad s = unseal (vc_aead x) (st_nonce s) aad (st_tag s, st_ciphertext s)"

definition canonical :: "'key vault_context \<Rightarrow> json \<Rightarrow> string" where
  "canonical x v = canonicalize (collation (vc_host x)) v"

definition locatorHash :: "'key vault_context \<Rightarrow> session_binding \<Rightarrow> string" where
  "locatorHash x b = sha256Hex (vc_host x) (provider_name (bs_provider (sb_scope b)) @ CHR 0x00 # sb_sessionId b)"

definition binding_revoked :: "binding_row \<Rightarrow> bool" where
  "binding_revoked row = (bn_revokedAt row \<noteq> None)"

subsection \<open>Reading and writing\<close>

definition open_binding :: "'key vault_context \<Rightarrow> string \<Rightarrow> binding_row \<Rightarrow> (binding_error, session_binding) result" where
  "open_binding x bindingId row =
     (case unseal_text x [] row of None \<Rightarrow> Inl SessionBindingUndecodable | Some plaintext \<Rightarrow>
     (case vc_parseJson x plaintext of None \<Rightarrow> Inl SessionBindingUndecodable | Some v \<Rightarrow>
     (case assertLocalProviderSessionBinding (vc_host x) v of None \<Rightarrow> Inl SessionBindingInvalid | Some b \<Rightarrow>
        if bs_bindingId (sb_scope b) \<noteq> bindingId \<or> bn_locatorHash row \<noteq> locatorHash x b
        then Inl SessionBindingIntegrity else Inr b)))"

definition readProviderSessionBinding ::
  "'key vault_context \<Rightarrow> string \<Rightarrow> 'a binding_tables_scheme \<Rightarrow> (binding_error, session_binding option) result" where
  "readProviderSessionBinding x bindingId ts =
     (case bt_bindings ts bindingId of None \<Rightarrow> Inr None | Some row \<Rightarrow>
        if binding_revoked row then Inr None else map_sum id Some (open_binding x bindingId row))"

definition getProviderSessionBinding ::
  "'key vault_context \<Rightarrow> string \<Rightarrow> session_identity \<Rightarrow> 'a binding_tables_scheme
     \<Rightarrow> (binding_error, session_binding option) result" where
  "getProviderSessionBinding x bindingId expected ts =
     (case readProviderSessionBinding x bindingId ts of Inl e \<Rightarrow> Inl e | Inr None \<Rightarrow> Inr None
      | Inr (Some b) \<Rightarrow> if sameLocalProviderSessionIdentity b expected then Inr (Some b) else Inl SessionBindingMismatch)"

definition binding_row_of :: "'key vault_context \<Rightarrow> string \<Rightarrow> session_binding \<Rightarrow> binding_row" where
  "binding_row_of x nonce b = sealed_text.extend (seal_text x nonce [] (canonical x (binding_json b)))
     \<lparr>bn_locatorHash = locatorHash x b, bn_revokedAt = None\<rparr>"

text \<open>The insert collides with a row of the same identifier, which is then revoked, or of the
  same session; the record read again under the identifier is then still absent.\<close>

definition saveProviderSessionBinding ::
  "'key vault_context \<Rightarrow> string \<Rightarrow> int \<Rightarrow> session_binding \<Rightarrow> 'a binding_tables_scheme
     \<Rightarrow> (binding_error, unit) result \<times> 'a binding_tables_scheme" where
  "saveProviderSessionBinding x nonce now b ts =
     (let bindingId = bs_bindingId (sb_scope b) in
      case assertLocalProviderSessionBinding (vc_host x) (binding_json b) of None \<Rightarrow> (Inl SessionBindingInvalid, ts)
      | Some _ \<Rightarrow>
      if num_le (dateParse (vc_host x) (bs_expiresAt (sb_scope b))) (Some now) then (Inl SessionBindingExpired, ts)
      else case readProviderSessionBinding x bindingId ts of Inl e \<Rightarrow> (Inl e, ts)
      | Inr (Some existing) \<Rightarrow>
          (if canonical x (binding_json existing) = canonical x (binding_json b) then Inr () else Inl SessionBindingConflict, ts)
      | Inr None \<Rightarrow>
          if bt_bindings ts bindingId \<noteq> None \<or> bt_locators ts (locatorHash x b) \<noteq> None
          then (Inl SessionBindingConflict, ts)
          else (Inr (), ts\<lparr>bt_bindings := (bt_bindings ts)(bindingId \<mapsto> binding_row_of x nonce b),
                 bt_locators := (bt_locators ts)(locatorHash x b \<mapsto> bindingId)\<rparr>))"

definition revokeProviderSessionBinding ::
  "'key vault_context \<Rightarrow> string \<Rightarrow> session_identity \<Rightarrow> int \<Rightarrow> 'a binding_tables_scheme
     \<Rightarrow> (binding_error, unit) result \<times> 'a binding_tables_scheme" where
  "revokeProviderSessionBinding x bindingId expected now ts =
     (case getProviderSessionBinding x bindingId expected ts of Inl e \<Rightarrow> (Inl e, ts) | Inr None \<Rightarrow> (Inr (), ts)
      | Inr (Some _) \<Rightarrow> (case bt_bindings ts bindingId of None \<Rightarrow> (Inr (), ts) | Some row \<Rightarrow>
          if binding_revoked row then (Inr (), ts)
          else (Inr (), ts\<lparr>bt_bindings := (bt_bindings ts)(bindingId \<mapsto> row\<lparr>bn_revokedAt := Some (isoString (vc_host x) now)\<rparr>)\<rparr>)))"

text \<open>A signal to a process identifier below one is not sent.\<close>

definition processIsAlive :: "(int \<Rightarrow> bool) \<Rightarrow> int \<Rightarrow> bool" where
  "processIsAlive alive pid = (pid < 1 \<or> alive pid)"

definition reseal_row :: "'key vault_context \<Rightarrow> string \<Rightarrow> session_binding \<Rightarrow> binding_row \<Rightarrow> binding_row" where
  "reseal_row x nonce b row = (let sealed = seal_text x nonce [] (canonical x (binding_json b)) in
     row\<lparr>st_nonce := st_nonce sealed, st_tag := st_tag sealed, st_ciphertext := st_ciphertext sealed\<rparr>)"

definition renewal_row_of :: "'key vault_context \<Rightarrow> int \<Rightarrow> binding_row \<Rightarrow> renewal_row" where
  "renewal_row_of x now row = sealed_text.extend (sealed_text.truncate row) \<lparr>rn_renewedAt = isoString (vc_host x) now\<rparr>"

definition extended :: "string \<Rightarrow> session_binding \<Rightarrow> session_binding" where
  "extended expiresAt b = b\<lparr>sb_scope := (sb_scope b)\<lparr>bs_expiresAt := expiresAt\<rparr>\<rparr>"

definition renewProviderSessionBinding ::
  "'key vault_context \<Rightarrow> (int \<Rightarrow> bool) \<Rightarrow> string \<Rightarrow> string \<Rightarrow> session_identity \<Rightarrow> string \<Rightarrow> string \<Rightarrow> int
     \<Rightarrow> 'a binding_tables_scheme \<Rightarrow> (binding_error, session_binding) result \<times> 'a binding_tables_scheme" where
  "renewProviderSessionBinding x alive nonce bindingId expected expectedExpiresAt expiresAt now ts =
     (let h = vc_host x; until = dateParse h expiresAt in
      if \<not> is_finite until \<or> num_le until (Some now) \<or> num_lt (Some (now + 30 * 86400000)) until
      then (Inl RenewalInvalid, ts)
      else case getProviderSessionBinding x bindingId expected ts of Inl e \<Rightarrow> (Inl e, ts)
      | Inr None \<Rightarrow> (Inl SessionBindingUnavailable, ts)
      | Inr (Some b) \<Rightarrow>
      if sb_owner b \<noteq> DharmaBridge then (Inl SessionBindingUnavailable, ts)
      else if bs_expiresAt (sb_scope b) \<noteq> expectedExpiresAt \<or> num_le until (dateParse h (bs_expiresAt (sb_scope b)))
      then (Inl RenewalConflict, ts)
      else if (case bt_leases ts bindingId of None \<Rightarrow> False | Some l \<Rightarrow>
          ls_hostName l \<noteq> vc_hostName x \<or> ls_ownerPid l \<noteq> vc_pid x \<and> processIsAlive alive (ls_ownerPid l))
      then (Inl LeaseUnavailable, ts)
      else let nxt = extended expiresAt b in
      case assertLocalProviderSessionBinding h (binding_json nxt) of None \<Rightarrow> (Inl SessionBindingInvalid, ts) | Some _ \<Rightarrow>
      (case bt_bindings ts bindingId of None \<Rightarrow> (Inl SessionBindingUnavailable, ts) | Some row \<Rightarrow>
      if bt_renewals ts (bindingId, bs_expiresAt (sb_scope b)) \<noteq> None then (Inl RenewalRecorded, ts)
      else (Inr nxt, ts\<lparr>
           bt_renewals := (bt_renewals ts)((bindingId, bs_expiresAt (sb_scope b)) \<mapsto> renewal_row_of x now row),
           bt_bindings := (bt_bindings ts)(bindingId \<mapsto> reseal_row x nonce nxt row)\<rparr>)))"

subsection \<open>Leases\<close>

record original_owner =
  oo_hostName :: string
  oo_ownerPid :: int
  oo_acquiredAt :: string

record lease_handle =
  lh_bindingId :: string
  lh_expected :: session_identity
  lh_holderId :: string
  lh_hostName :: string
  lh_ownerPid :: int

definition binding_live :: "'key vault_context \<Rightarrow> int \<Rightarrow> session_binding \<Rightarrow> bool" where
  "binding_live x now b = (\<not> num_le (dateParse (vc_host x) (bs_expiresAt (sb_scope b))) (Some now))"

text \<open>\<open>original\<close> is the owner that a recovery in the original host takes over from.\<close>

definition tryAcquireProviderSessionLease ::
  "'key vault_context \<Rightarrow> (int \<Rightarrow> bool) \<Rightarrow> original_owner option \<Rightarrow> string \<Rightarrow> session_identity \<Rightarrow> string \<Rightarrow> int
     \<Rightarrow> 'a binding_tables_scheme \<Rightarrow> (binding_error, lease_handle option) result \<times> 'a binding_tables_scheme" where
  "tryAcquireProviderSessionLease x alive original bindingId expected holder now ts =
     (case getProviderSessionBinding x bindingId expected ts of Inl e \<Rightarrow> (Inl e, ts) | Inr None \<Rightarrow> (Inr None, ts)
      | Inr (Some b) \<Rightarrow>
      if \<not> binding_live x now b then (Inr None, ts)
      else let prior = bt_leases ts bindingId in
      if (case original of None \<Rightarrow> False | Some oo \<Rightarrow>
            vc_hostName x \<noteq> oo_hostName oo
            \<or> (case prior of None \<Rightarrow> True | Some l \<Rightarrow> ls_hostName l \<noteq> oo_hostName oo
                 \<or> ls_ownerPid l \<noteq> oo_ownerPid oo \<or> ls_acquiredAt l \<noteq> oo_acquiredAt oo)
            \<or> alive (oo_ownerPid oo))
      then (Inr None, ts)
      else if (case prior of None \<Rightarrow> False | Some l \<Rightarrow>
            ls_hostName l \<noteq> vc_hostName x \<or> processIsAlive alive (ls_ownerPid l))
      then (Inr None, ts)
      else (Inr (Some \<lparr>lh_bindingId = bindingId, lh_expected = expected, lh_holderId = holder,
               lh_hostName = vc_hostName x, lh_ownerPid = vc_pid x\<rparr>),
            ts\<lparr>bt_leases := (bt_leases ts)(bindingId \<mapsto> \<lparr>ls_holderId = holder, ls_hostName = vc_hostName x,
               ls_ownerPid = vc_pid x, ls_acquiredAt = isoString (vc_host x) now\<rparr>)\<rparr>))"

definition assertHeld ::
  "'key vault_context \<Rightarrow> lease_handle \<Rightarrow> int \<Rightarrow> 'a binding_tables_scheme \<Rightarrow> (binding_error, bool) result" where
  "assertHeld x l now ts =
     (case getProviderSessionBinding x (lh_bindingId l) (lh_expected l) ts of Inl e \<Rightarrow> Inl e | Inr None \<Rightarrow> Inr False
      | Inr (Some b) \<Rightarrow>
          if \<not> binding_live x now b then Inr False
          else case bt_leases ts (lh_bindingId l) of None \<Rightarrow> Inr False | Some row \<Rightarrow>
            Inr (ls_holderId row = lh_holderId l \<and> ls_hostName row = lh_hostName l \<and> ls_ownerPid row = lh_ownerPid l))"

text \<open>Only the row of this handle is deleted, and not inside an open transaction.\<close>

definition release_lease ::
  "bool \<Rightarrow> lease_handle \<Rightarrow> 'a binding_tables_scheme \<Rightarrow> (binding_error, unit) result \<times> 'a binding_tables_scheme" where
  "release_lease inTransaction l ts =
     (if inTransaction then (Inl CleanupUnconfirmed, ts)
      else case bt_leases ts (lh_bindingId l) of None \<Rightarrow> (Inr (), ts) | Some row \<Rightarrow>
        if ls_holderId row = lh_holderId l then (Inr (), ts\<lparr>bt_leases := (bt_leases ts)(lh_bindingId l := None)\<rparr>)
        else (Inr (), ts))"

subsection \<open>Recovery declarations\<close>

definition recoveryDeclarationContext ::
  "'key vault_context \<Rightarrow> string \<Rightarrow> session_identity \<Rightarrow> int \<Rightarrow> 'a binding_tables_scheme \<Rightarrow> (binding_error, json) result" where
  "recoveryDeclarationContext x bindingId expected now ts =
     (case getProviderSessionBinding x bindingId expected ts of Inl e \<Rightarrow> Inl e | Inr None \<Rightarrow> Inl DeclarationUnavailable
      | Inr (Some b) \<Rightarrow>
          if bs_provider (sb_scope b) \<noteq> Codex \<or> sb_owner b \<noteq> DharmaBridge \<or> \<not> binding_live x now b
          then Inl DeclarationUnavailable
          else Inr (JObj ([(''schema'', JStr ''dharma.provider-session-recovery-declaration/v1''), (''bindingId'', JStr bindingId),
            (''sessionId'', JStr (sb_sessionId b)), (''organizationId'', JStr (bs_organizationId (sb_scope b))),
            (''workspaceId'', JStr (pt_workspaceId (bs_party (sb_scope b)))),
            (''repositoryBindingId'', JStr (bs_repositoryBindingId (sb_scope b))),
            (''endpointId'', JStr (pt_endpointId (bs_party (sb_scope b)))),
            (''membershipId'', JStr (pt_membershipId (bs_party (sb_scope b)))),
            (''deviceId'', JStr (pt_deviceId (bs_party (sb_scope b)))), (''provider'', JStr ''codex'')])))"

definition without :: "string list \<Rightarrow> json \<Rightarrow> json" where
  "without names v = (case v of JObj kvs \<Rightarrow> JObj (filter (\<lambda>(k, _). k \<notin> set names) kvs) | _ \<Rightarrow> v)"

text \<open>The value is the tool hash with the recorded time.\<close>

definition open_declaration :: "'key vault_context \<Rightarrow> json \<Rightarrow> sealed_text \<Rightarrow> (string \<times> string) option" where
  "open_declaration x ctx row =
     (case unseal_text x (canonical x ctx) row of None \<Rightarrow> None | Some plaintext \<Rightarrow>
     (case vc_parseJson x plaintext of None \<Rightarrow> None | Some v \<Rightarrow>
     (case (text_property v ''toolHash'', text_property v ''recordedAt'') of
        (Some toolHash, Some recordedAt) \<Rightarrow>
          if canonical x (without [''toolHash'', ''recordedAt''] v) = canonical x ctx \<and> is_digest toolHash
             \<and> (case dateParse (vc_host x) recordedAt of None \<Rightarrow> False | Some at \<Rightarrow> isoString (vc_host x) at = recordedAt)
          then Some (toolHash, recordedAt) else None
      | _ \<Rightarrow> None)))"

definition readProviderSessionRecoveryDeclaration ::
  "'key vault_context \<Rightarrow> string \<Rightarrow> session_identity \<Rightarrow> int \<Rightarrow> 'a binding_tables_scheme
     \<Rightarrow> (binding_error, (string \<times> string) option) result" where
  "readProviderSessionRecoveryDeclaration x bindingId expected now ts =
     (case recoveryDeclarationContext x bindingId expected now ts of Inl e \<Rightarrow> Inl e | Inr ctx \<Rightarrow>
     (case bt_declarations ts bindingId of None \<Rightarrow> Inr None | Some row \<Rightarrow>
     (case open_declaration x ctx row of None \<Rightarrow> Inl DeclarationIntegrity | Some d \<Rightarrow> Inr (Some d))))"

definition declaration_json :: "json \<Rightarrow> string \<Rightarrow> string \<Rightarrow> json" where
  "declaration_json ctx toolHash recordedAt = (case ctx of
     JObj kvs \<Rightarrow> JObj (kvs @ [(''toolHash'', JStr toolHash), (''recordedAt'', JStr recordedAt)]) | _ \<Rightarrow> ctx)"

definition saveProviderSessionRecoveryDeclaration ::
  "'key vault_context \<Rightarrow> string \<Rightarrow> string \<Rightarrow> session_identity \<Rightarrow> string \<Rightarrow> int \<Rightarrow> 'a binding_tables_scheme
     \<Rightarrow> (binding_error, unit) result \<times> 'a binding_tables_scheme" where
  "saveProviderSessionRecoveryDeclaration x nonce bindingId expected toolHash now ts =
     (if \<not> is_digest toolHash then (Inl DeclarationInvalid, ts)
      else case recoveryDeclarationContext x bindingId expected now ts of Inl e \<Rightarrow> (Inl e, ts) | Inr ctx \<Rightarrow>
      (case readProviderSessionRecoveryDeclaration x bindingId expected now ts of Inl e \<Rightarrow> (Inl e, ts)
       | Inr (Some d) \<Rightarrow> (if fst d \<noteq> toolHash then Inl DeclarationConflict else Inr (), ts)
       | Inr None \<Rightarrow>
          let ts1 = ts\<lparr>bt_declarations := insert_new bindingId
                (seal_text x nonce (canonical x ctx) (canonical x (declaration_json ctx toolHash (isoString (vc_host x) now))))
                (bt_declarations ts)\<rparr> in
          case readProviderSessionRecoveryDeclaration x bindingId expected now ts1 of Inl e \<Rightarrow> (Inl e, ts1)
          | Inr d \<Rightarrow> (if map_option fst d \<noteq> Some toolHash then Inl DeclarationConflict else Inr (), ts1)))"

subsection \<open>What a row holds\<close>

text \<open>What is used of the host to read a sealed value back: AES-GCM opens what it sealed, and
  \<open>JSON.parse\<close> of the value's canonical text has the same meaning.\<close>

definition reads_back :: "'key vault_context \<Rightarrow> json \<Rightarrow> bool" where
  "reads_back x v = (aead_law (vc_aead x)
     \<and> (\<exists>w. vc_parseJson x (canonical x v) = Some w \<and> meaning w = meaning v))"

lemma wf_binding_json [simp]: "wf_json (binding_json b)"
  by (simp add: binding_json_def party_fields_def Let_def opt_field_def split: option.split)

lemma owner_name_cases: "owner_name ow = ''dharma_bridge'' \<longleftrightarrow> ow = DharmaBridge"
  "owner_name ow \<noteq> ''dharma_bridge'' \<Longrightarrow> owner_name ow = ''cooperative_session''"
  by (cases ow; simp)+

lemma read_binding_json: "bs_maximumProviderCostCents (sb_scope b) \<noteq> None \<Longrightarrow> read_binding (binding_json b) = Some b"
  by (cases "sb_owner b")
    (auto simp: read_binding_def binding_json_def party_fields_def text_or_empty_def text_property_obj int_property_obj Let_def)

lemma assert_binding_json:
  "assertLocalProviderSessionBinding h (binding_json b) = (if valid_binding h b then Some b else None)"
proof (cases "bs_maximumProviderCostCents (sb_scope b)")
  case None
  then have "read_binding (binding_json b) = None"
    by (simp add: read_binding_def binding_json_def party_fields_def text_property_obj int_property_obj Let_def split: option.split)
  with None show ?thesis by (simp add: assertLocalProviderSessionBinding_def valid_binding_def Let_def)
next
  case (Some c)
  then have "has_only (binding_json b) binding_names"
    by (simp add: has_only_def is_object_def binding_json_def binding_names_def party_fields_def Let_def)
  moreover have "text_property (binding_json b) ''schema'' = Some ''dharma.local-provider-session-binding/v1''"
      "text_property (binding_json b) ''createdAt'' \<noteq> None" "text_property (binding_json b) ''expiresAt'' \<noteq> None"
      "text_property (binding_json b) ''workspaceRoot'' \<noteq> None"
    by (simp_all add: binding_json_def party_fields_def text_property_obj Let_def)
  ultimately show ?thesis using Some read_binding_json [of b]
    by (auto simp: assertLocalProviderSessionBinding_def)
qed

lemma text_or_empty_meaning: "meaning v = meaning w \<Longrightarrow> text_or_empty v = text_or_empty w"
  using same_meaning_properties(2) [of v w] by (simp add: text_or_empty_def fun_eq_iff)

lemma assert_same_meaning:
  assumes "meaning v = meaning w"
  shows "assertLocalProviderSessionBinding h v = assertLocalProviderSessionBinding h w"
proof -
  note same = same_meaning_properties [OF assms] text_or_empty_meaning [OF assms]
  show ?thesis unfolding assertLocalProviderSessionBinding_def read_binding_def same ..
qed

text \<open>The row that a record is sealed into opens to the record.\<close>

lemma unseal_seal_text [simp]:
  assumes "aead_law (vc_aead x)"
  shows "unseal_text x aad (seal_text x nonce aad plaintext) = Some plaintext"
proof (cases "seal (vc_aead x) nonce aad plaintext")
  case (Pair tag ct)
  moreover have "unseal (vc_aead x) nonce aad (seal (vc_aead x) nonce aad plaintext) = Some plaintext"
    using assms unfolding aead_law_def by blast
  ultimately show ?thesis by (simp add: unseal_text_def seal_text_def)
qed

lemma decode_binding_text:
  assumes "reads_back x (binding_json b)" "valid_binding (vc_host x) b"
  shows "\<exists>v. vc_parseJson x (canonical x (binding_json b)) = Some v \<and> assertLocalProviderSessionBinding (vc_host x) v = Some b"
  using assms assert_same_meaning unfolding reads_back_def by (metis assert_binding_json)

lemma open_sealed_binding:
  assumes "reads_back x (binding_json b)" "valid_binding (vc_host x) b"
    and "unseal_text x [] row = Some (canonical x (binding_json b))" "bn_locatorHash row = locatorHash x b"
  shows "open_binding x (bs_bindingId (sb_scope b)) row = Inr b"
  using decode_binding_text [OF assms(1,2)] assms(3,4) by (auto simp: open_binding_def)

lemma binding_row_of_simps [simp]:
  "bn_locatorHash (binding_row_of x nonce b) = locatorHash x b" "bn_revokedAt (binding_row_of x nonce b) = None"
  "unseal_text x aad (binding_row_of x nonce b) = unseal_text x aad (seal_text x nonce [] (canonical x (binding_json b)))"
  by (simp_all add: binding_row_of_def unseal_text_def sealed_text.defs)

lemma open_binding_row_of:
  "reads_back x (binding_json b) \<Longrightarrow> valid_binding (vc_host x) b \<Longrightarrow> open_binding x (bs_bindingId (sb_scope b)) (binding_row_of x nonce b) = Inr b"
  by (rule open_sealed_binding) (simp_all add: reads_back_def)

lemma read_row:
  "readProviderSessionBinding x i ts = Inr (Some b) \<Longrightarrow>
     \<exists>row. bt_bindings ts i = Some row \<and> \<not> binding_revoked row \<and> open_binding x i row = Inr b"
  by (cases "bt_bindings ts i"; cases "open_binding x i (the (bt_bindings ts i))")
    (auto simp: readProviderSessionBinding_def split: if_splits)

lemma save_cases:
  assumes "saveProviderSessionBinding x nonce now b ts = (r, ts')"
  obtains (same) "ts' = ts" "r = Inr () \<Longrightarrow> \<exists>b'. readProviderSessionBinding x (bs_bindingId (sb_scope b)) ts = Inr (Some b')
      \<and> canonical x (binding_json b') = canonical x (binding_json b)"
  | (new) "r = Inr ()" "bt_bindings ts (bs_bindingId (sb_scope b)) = None" "bt_locators ts (locatorHash x b) = None"
      "ts' = ts\<lparr>bt_bindings := (bt_bindings ts)(bs_bindingId (sb_scope b) \<mapsto> binding_row_of x nonce b),
        bt_locators := (bt_locators ts)(locatorHash x b \<mapsto> bs_bindingId (sb_scope b))\<rparr>"
proof -
  let ?i = "bs_bindingId (sb_scope b)"
  show ?thesis
  proof (cases "readProviderSessionBinding x ?i ts = Inr None \<and> bt_bindings ts ?i = None \<and> bt_locators ts (locatorHash x b) = None
      \<and> valid_binding (vc_host x) b \<and> \<not> num_le (dateParse (vc_host x) (bs_expiresAt (sb_scope b))) (Some now)")
    case True
    with assms new show ?thesis by (simp add: saveProviderSessionBinding_def Let_def assert_binding_json)
  next
    case False
    with assms same show ?thesis
      by (cases "readProviderSessionBinding x ?i ts"; cases "projr (readProviderSessionBinding x ?i ts)")
        (auto simp add: saveProviderSessionBinding_def Let_def assert_binding_json split: if_splits)
  qed
qed

lemma save_valid: "saveProviderSessionBinding x nonce now b ts = (Inr (), ts') \<Longrightarrow> valid_binding (vc_host x) b"
  by (simp add: saveProviderSessionBinding_def assert_binding_json Let_def split: if_splits)

lemma get_row:
  "getProviderSessionBinding x i e ts = Inr (Some b) \<Longrightarrow>
     \<exists>row. bt_bindings ts i = Some row \<and> \<not> binding_revoked row \<and> open_binding x i row = Inr b
       \<and> sameLocalProviderSessionIdentity b e"
  using read_row [of x i ts b]
  by (cases "readProviderSessionBinding x i ts"; cases "projr (readProviderSessionBinding x i ts)")
    (simp_all add: getProviderSessionBinding_def split: if_splits)

lemma open_binding_facts: "open_binding x i row = Inr b \<Longrightarrow> bs_bindingId (sb_scope b) = i \<and> bn_locatorHash row = locatorHash x b
    \<and> valid_binding (vc_host x) b"
  by (auto simp: open_binding_def assertLocalProviderSessionBinding_def split: option.splits if_splits)

lemma reseal_row_simps [simp]:
  "bn_locatorHash (reseal_row x nonce b row) = bn_locatorHash row" "bn_revokedAt (reseal_row x nonce b row) = bn_revokedAt row"
  "unseal_text x aad (reseal_row x nonce b row) = unseal_text x aad (seal_text x nonce [] (canonical x (binding_json b)))"
  by (simp_all add: reseal_row_def Let_def unseal_text_def)

lemma renew_ok:
  assumes "renewProviderSessionBinding x alive nonce i e old new now ts = (Inr b', ts')"
  obtains b row limit where "getProviderSessionBinding x i e ts = Inr (Some b)" "bt_bindings ts i = Some row"
    "b' = extended new b" "sb_owner b = DharmaBridge" "bs_expiresAt (sb_scope b) = old"
    "dateParse (vc_host x) new = Some limit" "now < limit" "limit \<le> now + 30 * 86400000"
    "\<not> num_le (Some limit) (dateParse (vc_host x) old)" "valid_binding (vc_host x) b'"
    "\<And>l. bt_leases ts i = Some l \<Longrightarrow> ls_hostName l = vc_hostName x
       \<and> (ls_ownerPid l = vc_pid x \<or> \<not> processIsAlive alive (ls_ownerPid l))"
    "bt_renewals ts (i, old) = None"
    "ts' = ts\<lparr>bt_renewals := (bt_renewals ts)((i, old) \<mapsto> renewal_row_of x now row),
       bt_bindings := (bt_bindings ts)(i \<mapsto> reseal_row x nonce b' row)\<rparr>"
proof -
  note run = assms [unfolded renewProviderSessionBinding_def Let_def]
  from run obtain limit where limit: "dateParse (vc_host x) new = Some limit" "now < limit" "limit \<le> now + 30 * 86400000"
    by (cases "dateParse (vc_host x) new") (simp_all add: is_finite_def split: if_splits)
  with run obtain b where get: "getProviderSessionBinding x i e ts = Inr (Some b)"
    by (cases "getProviderSessionBinding x i e ts"; cases "projr (getProviderSessionBinding x i e ts)")
      (simp_all split: if_splits)
  note run1 = run [unfolded limit get, simplified, unfolded option.case sum.case]
  from run1 have b: "sb_owner b = DharmaBridge" "bs_expiresAt (sb_scope b) = old" "\<not> num_le (Some limit) (dateParse (vc_host x) old)"
    and free: "\<not> (case bt_leases ts i of None \<Rightarrow> False | Some l \<Rightarrow>
          ls_hostName l \<noteq> vc_hostName x \<or> ls_ownerPid l \<noteq> vc_pid x \<and> processIsAlive alive (ls_ownerPid l))"
    using limit by (simp_all split: if_splits)
  from run1 limit b free have run2: "(case assertLocalProviderSessionBinding (vc_host x) (binding_json (extended new b)) of
      None \<Rightarrow> (Inl SessionBindingInvalid, ts) | Some _ \<Rightarrow>
      (case bt_bindings ts i of None \<Rightarrow> (Inl SessionBindingUnavailable, ts) | Some row \<Rightarrow>
      if bt_renewals ts (i, bs_expiresAt (sb_scope b)) \<noteq> None then (Inl RenewalRecorded, ts)
      else (Inr (extended new b), ts\<lparr>
           bt_renewals := (bt_renewals ts)((i, bs_expiresAt (sb_scope b)) \<mapsto> renewal_row_of x now row),
           bt_bindings := (bt_bindings ts)(i \<mapsto> reseal_row x nonce (extended new b) row)\<rparr>))) = (Inr b', ts')"
    by (simp split: if_splits)
  from get_row [OF get] obtain row where row: "bt_bindings ts i = Some row" by blast
  with run2 have "valid_binding (vc_host x) (extended new b)" "bt_renewals ts (i, old) = None" "b' = extended new b"
    "ts' = ts\<lparr>bt_renewals := (bt_renewals ts)((i, old) \<mapsto> renewal_row_of x now row),
       bt_bindings := (bt_bindings ts)(i \<mapsto> reseal_row x nonce b' row)\<rparr>"
    by (auto simp add: assert_binding_json b(2) split: if_splits)
  moreover have "ls_hostName l = vc_hostName x \<and> (ls_ownerPid l = vc_pid x \<or> \<not> processIsAlive alive (ls_ownerPid l))"
    if "bt_leases ts i = Some l" for l using free that by simp
  ultimately show ?thesis using that [OF get row _ b(1,2) limit b(3)] by blast
qed

lemma renew_error:
  "renewProviderSessionBinding x alive nonce i e old new now ts = (Inl err, ts') \<Longrightarrow> ts' = ts"
  by (auto simp: renewProviderSessionBinding_def Let_def split: sum.splits option.splits if_splits)

subsection \<open>Sequences of operations\<close>

datatype binding_op =
    SaveBinding string int session_binding
  | RevokeBinding string session_identity int
  | RenewBinding "int \<Rightarrow> bool" string string session_identity string string int
  | AcquireLease "int \<Rightarrow> bool" "original_owner option" string session_identity string int
  | ReleaseLease bool lease_handle
  | DeclareRecovery string string session_identity string int

fun binding_step :: "'key vault_context \<Rightarrow> binding_op \<Rightarrow> 'a binding_tables_scheme \<Rightarrow> 'a binding_tables_scheme" where
  "binding_step x (SaveBinding nonce now b) ts = snd (saveProviderSessionBinding x nonce now b ts)"
| "binding_step x (RevokeBinding i e now) ts = snd (revokeProviderSessionBinding x i e now ts)"
| "binding_step x (RenewBinding alive nonce i e old new now) ts = snd (renewProviderSessionBinding x alive nonce i e old new now ts)"
| "binding_step x (AcquireLease alive oo i e holder now) ts = snd (tryAcquireProviderSessionLease x alive oo i e holder now ts)"
| "binding_step x (ReleaseLease tr l) ts = snd (release_lease tr l ts)"
| "binding_step x (DeclareRecovery nonce i e th now) ts = snd (saveProviderSessionRecoveryDeclaration x nonce i e th now ts)"

text \<open>A row keeps its session, and once revoked it never changes.\<close>

definition binding_above :: "binding_row \<Rightarrow> binding_row \<Rightarrow> bool" where
  "binding_above row row' = (bn_locatorHash row' = bn_locatorHash row \<and> (binding_revoked row \<longrightarrow> row' = row))"

definition locators_ok :: "'a binding_tables_scheme \<Rightarrow> bool" where
  "locators_ok ts = (\<forall>i row. bt_bindings ts i = Some row \<longrightarrow> bt_locators ts (bn_locatorHash row) = Some i)"

lemma binding_step_effect:
  obtains (none) "bt_bindings (binding_step x op ts) = bt_bindings ts" "bt_locators (binding_step x op ts) = bt_locators ts"
  | (new) i row where "bt_bindings ts i = None" "bt_locators ts (bn_locatorHash row) = None"
      "bt_bindings (binding_step x op ts) = (bt_bindings ts)(i \<mapsto> row)"
      "bt_locators (binding_step x op ts) = (bt_locators ts)(bn_locatorHash row \<mapsto> i)"
  | (change) i row row' where "bt_bindings ts i = Some row" "\<not> binding_revoked row" "bn_locatorHash row' = bn_locatorHash row"
      "bt_bindings (binding_step x op ts) = (bt_bindings ts)(i \<mapsto> row')"
      "bt_locators (binding_step x op ts) = bt_locators ts"
proof (cases op)
  case (SaveBinding nonce now b)
  obtain r ts' where run: "saveProviderSessionBinding x nonce now b ts = (r, ts')" by fastforce
  then show ?thesis
  proof (cases rule: save_cases)
    case same
    with run SaveBinding show ?thesis by (intro none) simp_all
  next
    case new
    with run SaveBinding show ?thesis
      by (intro that(2) [of "bs_bindingId (sb_scope b)" "binding_row_of x nonce b"]) simp_all
  qed
next
  case (RevokeBinding i e now)
  show ?thesis
  proof (cases "\<exists>b. getProviderSessionBinding x i e ts = Inr (Some b)")
    case True
    then obtain b row where "getProviderSessionBinding x i e ts = Inr (Some b)" "bt_bindings ts i = Some row" "\<not> binding_revoked row"
      using get_row by blast
    with RevokeBinding show ?thesis
      by (intro change [of i row "row\<lparr>bn_revokedAt := Some (isoString (vc_host x) now)\<rparr>"])
        (simp_all add: revokeProviderSessionBinding_def)
  next
    case False
    with RevokeBinding show ?thesis
      by (intro none) (auto simp: revokeProviderSessionBinding_def split: sum.splits option.splits)
  qed
next
  case (RenewBinding alive nonce i e old new now)
  show ?thesis
  proof (cases "renewProviderSessionBinding x alive nonce i e old new now ts")
    case (Pair r ts')
    show ?thesis
    proof (cases r)
      case (Inl err)
      with Pair RenewBinding renew_error show ?thesis by (intro none) fastforce+
    next
      case (Inr b')
      from Pair [unfolded Inr] show ?thesis
      proof (cases rule: renew_ok)
        case (1 b row limit)
        from get_row [OF 1(1)] 1(2) have "\<not> binding_revoked row" by auto
        with 1 Pair RenewBinding show ?thesis by (intro change [of i row "reseal_row x nonce b' row"]) simp_all
      qed
    qed
  qed
next
  case (AcquireLease alive oo i e holder now)
  then show ?thesis
    by (intro none) (auto simp: tryAcquireProviderSessionLease_def Let_def split: sum.splits option.splits)
next
  case (ReleaseLease tr l)
  then show ?thesis by (intro none) (auto simp: release_lease_def split: option.splits)
next
  case (DeclareRecovery nonce i e th now)
  then show ?thesis
    by (intro none) (auto simp: saveProviderSessionRecoveryDeclaration_def Let_def split: sum.splits option.splits)
qed

interpretation binding_store: advancing_store "\<lambda>ts i. bt_bindings ts i" "binding_step x" binding_above for x
proof unfold_locales
  fix ts :: "'c binding_tables_scheme" and i row op
  assume row: "bt_bindings ts i = Some row"
  show "\<exists>row'. bt_bindings (binding_step x op ts) i = Some row' \<and> binding_above row row'"
    using row by (cases x op ts rule: binding_step_effect) (auto simp: binding_above_def)
qed (auto simp: binding_above_def)

subsection \<open>Properties of bindings\<close>

definition identity_of :: "session_binding \<Rightarrow> session_identity" where
  "identity_of b = \<lparr>si_organizationId = bs_organizationId (sb_scope b),
     si_repositoryBindingId = bs_repositoryBindingId (sb_scope b), si_party = bs_party (sb_scope b),
     si_provider = bs_provider (sb_scope b)\<rparr>"

lemma same_identity_iff: "sameLocalProviderSessionIdentity b e \<longleftrightarrow> e = identity_of b"
  by (cases e) (auto simp: sameLocalProviderSessionIdentity_def identity_of_def)

lemma locator_taken:
  assumes "bt_locators ts (locatorHash x b) \<noteq> None" and "bt_bindings ts (bs_bindingId (sb_scope b)) = None"
  shows "fst (saveProviderSessionBinding x nonce now b ts) \<noteq> Inr ()"
proof
  assume "fst (saveProviderSessionBinding x nonce now b ts) = Inr ()"
  then obtain ts' where "saveProviderSessionBinding x nonce now b ts = (Inr (), ts')" by (metis prod.collapse)
  then show False
  proof (cases rule: save_cases)
    case same
    from same(2) [OF refl] obtain b' where "readProviderSessionBinding x (bs_bindingId (sb_scope b)) ts = Inr (Some b')"
      by (rule exE) (erule conjE)
    from read_row [OF this] assms(2) show False by simp
  qed (use assms(1) in simp)
qed

lemma get_of_row:
  "bt_bindings ts i = Some row \<Longrightarrow> \<not> binding_revoked row \<Longrightarrow> open_binding x i row = Inr b \<Longrightarrow>
     getProviderSessionBinding x i e ts = (if e = identity_of b then Inr (Some b) else Inl SessionBindingMismatch)"
  by (simp add: getProviderSessionBinding_def readProviderSessionBinding_def same_identity_iff)

text \<open>
  A saved binding is read back, to its own repository only.  After a successful save of a
  fresh binding, a read under its identity returns the record as it was saved, a read under any
  other identity fails, every other binding reads as before, and the same session cannot be
  bound a second time under another identifier.
\<close>

theorem binding_saved:
  assumes "reads_back x (binding_json b)" and "bt_bindings ts (bs_bindingId (sb_scope b)) = None"
    and "saveProviderSessionBinding x nonce now b ts = (Inr (), ts')"
  shows "getProviderSessionBinding x (bs_bindingId (sb_scope b)) (identity_of b) ts' = Inr (Some b)
    \<and> (\<forall>e. e \<noteq> identity_of b \<longrightarrow> getProviderSessionBinding x (bs_bindingId (sb_scope b)) e ts' = Inl SessionBindingMismatch)
    \<and> (\<forall>i e. i \<noteq> bs_bindingId (sb_scope b) \<longrightarrow> getProviderSessionBinding x i e ts' = getProviderSessionBinding x i e ts)
    \<and> (\<forall>b2 n2 t2. locatorHash x b2 = locatorHash x b \<and> bs_bindingId (sb_scope b2) \<noteq> bs_bindingId (sb_scope b)
         \<and> bt_bindings ts (bs_bindingId (sb_scope b2)) = None
         \<longrightarrow> fst (saveProviderSessionBinding x n2 t2 b2 ts') \<noteq> Inr ())"
  using assms(3)
proof (cases rule: save_cases)
  case same
  from same(2) [OF refl] obtain b' where "readProviderSessionBinding x (bs_bindingId (sb_scope b)) ts = Inr (Some b')"
    by (rule exE) (erule conjE)
  from read_row [OF this] assms(2) show ?thesis by simp
next
  case new
  have "valid_binding (vc_host x) b"
    using assms(3) by (rule save_valid)
  note row = open_binding_row_of [OF assms(1) this, of nonce]
  let ?i = "bs_bindingId (sb_scope b)"
  have at: "bt_bindings ts' ?i = Some (binding_row_of x nonce b)" by (simp add: new)
  have get: "getProviderSessionBinding x ?i e ts' = (if e = identity_of b then Inr (Some b) else Inl SessionBindingMismatch)" for e
    by (rule get_of_row [OF at _ row]) (simp add: binding_revoked_def)
  have other: "getProviderSessionBinding x i e ts' = getProviderSessionBinding x i e ts" if "i \<noteq> ?i" for i e
    using that by (simp add: new getProviderSessionBinding_def readProviderSessionBinding_def)
  have once: "fst (saveProviderSessionBinding x n2 t2 b2 ts') \<noteq> Inr ()"
    if "locatorHash x b2 = locatorHash x b" "bs_bindingId (sb_scope b2) \<noteq> ?i" "bt_bindings ts (bs_bindingId (sb_scope b2)) = None"
    for b2 n2 t2
    using that by (intro locator_taken) (simp_all add: new(4))
  show ?thesis
  proof (intro conjI allI impI)
    show "getProviderSessionBinding x ?i (identity_of b) ts' = Inr (Some b)" by (simp only: get if_True refl)
    show "getProviderSessionBinding x ?i e ts' = Inl SessionBindingMismatch" if "e \<noteq> identity_of b" for e
      using that by (simp only: get if_False)
    show "getProviderSessionBinding x i e ts' = getProviderSessionBinding x i e ts" if "i \<noteq> ?i" for i e
      using that by (rule other)
    show "fst (saveProviderSessionBinding x n2 t2 b2 ts') \<noteq> Inr ()"
      if "locatorHash x b2 = locatorHash x b \<and> bs_bindingId (sb_scope b2) \<noteq> ?i
        \<and> bt_bindings ts (bs_bindingId (sb_scope b2)) = None" for b2 n2 t2
      using that by (elim conjE) (rule once)
  qed
qed

text \<open>
  C15. Revocation is final.  Once a binding has been revoked, no sequence of later operations
  (saving, renewing, leasing, releasing, declaring, revoking) makes it readable again: reads find
  nothing, a new save under its identifier fails, and no lease on it can be acquired.
\<close>

theorem revocation_final:
  assumes "getProviderSessionBinding x i e ts = Inr (Some b)"
    and "revokeProviderSessionBinding x i e now ts = (Inr (), ts1)"
    and "ts' = fold (binding_step x) ops ts1"
  shows "getProviderSessionBinding x i e' ts' = Inr None
    \<and> (\<forall>b2 n2 t2. bs_bindingId (sb_scope b2) = i \<longrightarrow> fst (saveProviderSessionBinding x n2 t2 b2 ts') \<noteq> Inr ())
    \<and> (\<forall>alive oo holder t2. tryAcquireProviderSessionLease x alive oo i e' holder t2 ts' = (Inr None, ts'))"
proof -
  from get_row [OF assms(1)] obtain row where row: "bt_bindings ts i = Some row" "\<not> binding_revoked row" by blast
  define row1 where "row1 = row\<lparr>bn_revokedAt := Some (isoString (vc_host x) now)\<rparr>"
  from assms(1,2) row have "bt_bindings ts1 i = Some row1"
    by (auto simp: revokeProviderSessionBinding_def row1_def)
  from binding_store.run_advances [OF this, of x ops] obtain row2
    where "bt_bindings ts' i = Some row2" "binding_above row1 row2" by (auto simp: assms(3))
  then have at: "bt_bindings ts' i = Some row2" "binding_revoked row2" by (auto simp: binding_above_def row1_def binding_revoked_def)
  then have read: "readProviderSessionBinding x i ts' = Inr None" by (simp add: readProviderSessionBinding_def)
  then have get: "getProviderSessionBinding x i e' ts' = Inr None" by (simp add: getProviderSessionBinding_def)
  have "fst (saveProviderSessionBinding x n2 t2 b2 ts') \<noteq> Inr ()" if "bs_bindingId (sb_scope b2) = i" for b2 n2 t2
  proof
    assume "fst (saveProviderSessionBinding x n2 t2 b2 ts') = Inr ()"
    then obtain ts2 where "saveProviderSessionBinding x n2 t2 b2 ts' = (Inr (), ts2)" by (metis prod.collapse)
    then show False using that at read by (cases rule: save_cases) auto
  qed
  with get show ?thesis by (simp add: tryAcquireProviderSessionLease_def)
qed

text \<open>
  A renewal only moves the deadline, forwards and at most thirty days ahead.  A successful
  renewal was asked for the deadline the binding had, replaces it by one that is later than the
  old one and than now, leaves everything else of the record as it was, and keeps the old sealed
  record under the old deadline; a renewal that fails changes nothing.
\<close>

theorem renewal_extends:
  assumes "renewProviderSessionBinding x alive nonce i e old new now ts = (r, ts')"
  shows "case r of Inl _ \<Rightarrow> ts' = ts
    | Inr b' \<Rightarrow> (\<exists>b row limit. getProviderSessionBinding x i e ts = Inr (Some b) \<and> bs_expiresAt (sb_scope b) = old
        \<and> b' = extended new b \<and> sb_owner b = DharmaBridge \<and> bt_bindings ts i = Some row
        \<and> dateParse (vc_host x) new = Some limit \<and> now < limit \<and> limit \<le> now + 30 * 86400000
        \<and> num_lt (dateParse (vc_host x) old) (Some limit)
        \<and> map_option sealed_text.truncate (bt_renewals ts' (i, old)) = Some (sealed_text.truncate row)
        \<and> (reads_back x (binding_json b') \<longrightarrow> getProviderSessionBinding x i e ts' = Inr (Some b')))"
proof (cases r)
  case (Inl err)
  with assms renew_error show ?thesis by fastforce
next
  case (Inr b')
  from assms [unfolded Inr] show ?thesis
  proof (cases rule: renew_ok)
    case (1 b row limit)
    note facts = get_row [OF 1(1)] open_binding_facts
    from facts(1) 1(2) have row: "\<not> binding_revoked row" "open_binding x i row = Inr b" "e = identity_of b"
      by (auto simp: same_identity_iff)
    from open_binding_facts [OF row(2)] have b: "bs_bindingId (sb_scope b) = i" "bn_locatorHash row = locatorHash x b"
      "valid_binding (vc_host x) b" by auto
    have id: "identity_of b' = identity_of b" "bs_bindingId (sb_scope b') = i" "locatorHash x b' = locatorHash x b"
      using b(1) by (simp_all add: 1(3) extended_def identity_of_def locatorHash_def)
    have get: "getProviderSessionBinding x i e ts' = Inr (Some b')" if reads: "reads_back x (binding_json b')"
    proof -
      let ?row = "reseal_row x nonce b' row"
      have at: "bt_bindings ts' i = Some ?row" by (simp add: 1(13))
      have "aead_law (vc_aead x)" using reads by (simp add: reads_back_def)
      then have "open_binding x (bs_bindingId (sb_scope b')) ?row = Inr b'"
        using b(2) id(3) by (intro open_sealed_binding [OF reads 1(10)]) simp_all
      with id row at show ?thesis
        by (simp add: getProviderSessionBinding_def readProviderSessionBinding_def same_identity_iff binding_revoked_def)
    qed
    have "is_finite (dateParse (vc_host x) old)" using b(3) 1(5) by (simp add: valid_binding_def Let_def)
    then have "num_lt (dateParse (vc_host x) old) (Some limit)" using 1(9)
      by (cases "dateParse (vc_host x) old") (auto simp: is_finite_def)
    moreover have "map_option sealed_text.truncate (bt_renewals ts' (i, old)) = Some (sealed_text.truncate row)"
      by (simp add: 1(13) renewal_row_of_def sealed_text.defs)
    ultimately show ?thesis using 1 get Inr by auto
  qed
qed

subsection \<open>Leases among processes\<close>

text \<open>
  Processes of several hosts share one database.  A process starts under a number that is free on
  its host, and with it end the handles it held.  A process acquires a lease with a holder
  identifier that was never drawn before; the liveness it observes is that of its own host.
\<close>

record lease_world =
  lw_tables :: binding_tables
  lw_live :: "(string \<times> int) set"
  lw_handles :: "lease_handle set"
  lw_holders :: "string set"

definition in_process :: "string \<times> int \<Rightarrow> 'key vault_context \<Rightarrow> 'key vault_context" where
  "in_process p x = x\<lparr>vc_hostName := fst p, vc_pid := snd p\<rparr>"

definition handle_process :: "lease_handle \<Rightarrow> string \<times> int" where
  "handle_process l = (lh_hostName l, lh_ownerPid l)"

inductive lease_step :: "'key vault_context \<Rightarrow> lease_world \<Rightarrow> lease_world \<Rightarrow> bool" for x where
  start: "p \<notin> lw_live w \<Longrightarrow> lease_step x w (w\<lparr>lw_live := insert p (lw_live w)\<rparr>)"
| stop: "lease_step x w (w\<lparr>lw_live := lw_live w - {p}, lw_handles := {l \<in> lw_handles w. handle_process l \<noteq> p}\<rparr>)"
| acquire: "p \<in> lw_live w \<Longrightarrow> holder \<notin> lw_holders w \<Longrightarrow>
    tryAcquireProviderSessionLease (in_process p x) (\<lambda>n. (fst p, n) \<in> lw_live w) original i e holder now (lw_tables w) = (r, ts) \<Longrightarrow>
    lease_step x w (w\<lparr>lw_tables := ts, lw_holders := insert holder (lw_holders w),
      lw_handles := (case r of Inr (Some l) \<Rightarrow> insert l (lw_handles w) | _ \<Rightarrow> lw_handles w)\<rparr>)"
| release: "l \<in> lw_handles w \<Longrightarrow> release_lease False l (lw_tables w) = (r, ts) \<Longrightarrow>
    lease_step x w (w\<lparr>lw_tables := ts, lw_handles := lw_handles w - {l}\<rparr>)"
| other: "bt_leases (binding_step (in_process p x) op (lw_tables w)) = bt_leases (lw_tables w) \<Longrightarrow>
    lease_step x w (w\<lparr>lw_tables := binding_step (in_process p x) op (lw_tables w)\<rparr>)"

inductive lease_reachable :: "'key vault_context \<Rightarrow> lease_world \<Rightarrow> bool" for x where
  initial: "bt_leases ts = (\<lambda>_. None) \<Longrightarrow>
    lease_reachable x \<lparr>lw_tables = ts, lw_live = {}, lw_handles = {}, lw_holders = {}\<rparr>"
| step: "lease_reachable x w \<Longrightarrow> lease_step x w w' \<Longrightarrow> lease_reachable x w'"

definition row_of_handle :: "lease_handle \<Rightarrow> lease_row \<Rightarrow> bool" where
  "row_of_handle l row = (ls_holderId row = lh_holderId l \<and> (ls_hostName row, ls_ownerPid row) = handle_process l)"

definition leases_ok :: "lease_world \<Rightarrow> bool" where
  "leases_ok w = ((\<forall>l \<in> lw_handles w. handle_process l \<in> lw_live w
        \<and> (\<exists>row. bt_leases (lw_tables w) (lh_bindingId l) = Some row \<and> row_of_handle l row))
     \<and> inj_on lh_holderId (lw_handles w) \<and> lh_holderId ` lw_handles w \<subseteq> lw_holders w)"

lemma acquire_cases:
  assumes "tryAcquireProviderSessionLease x alive original i e holder now ts = (r, ts')"
  obtains (no) "ts' = ts" "\<And>l. r \<noteq> Inr (Some l)"
  | (yes) "r = Inr (Some \<lparr>lh_bindingId = i, lh_expected = e, lh_holderId = holder,
               lh_hostName = vc_hostName x, lh_ownerPid = vc_pid x\<rparr>)"
      "ts' = ts\<lparr>bt_leases := (bt_leases ts)(i \<mapsto> \<lparr>ls_holderId = holder, ls_hostName = vc_hostName x,
               ls_ownerPid = vc_pid x, ls_acquiredAt = isoString (vc_host x) now\<rparr>)\<rparr>"
      "\<And>l. bt_leases ts i = Some l \<Longrightarrow> ls_hostName l = vc_hostName x \<and> \<not> processIsAlive alive (ls_ownerPid l)"
proof (cases "getProviderSessionBinding x i e ts")
  case (Inl err)
  with assms show ?thesis by (intro no) (auto simp add: tryAcquireProviderSessionLease_def)
next
  case (Inr q)
  show ?thesis
  proof (cases q)
    case None
    with Inr assms show ?thesis by (intro no) (auto simp add: tryAcquireProviderSessionLease_def)
  next
    case (Some b)
    note run = assms [unfolded tryAcquireProviderSessionLease_def Inr Some Let_def, unfolded sum.case option.case]
    show ?thesis
    proof (cases "r = Inr None")
      case True
      with run show ?thesis by (intro no) (auto split: if_splits)
    next
      case False
      with run show ?thesis by (intro yes) (auto split: if_splits option.splits)
    qed
  qed
qed

lemma one_handle:
  assumes "leases_ok w" "l1 \<in> lw_handles w" "l2 \<in> lw_handles w" "lh_bindingId l1 = lh_bindingId l2"
  shows "l1 = l2"
proof -
  from assms(1,2) obtain row1 where row1: "bt_leases (lw_tables w) (lh_bindingId l1) = Some row1" "row_of_handle l1 row1"
    unfolding leases_ok_def by blast
  from assms(1,3) obtain row2 where row2: "bt_leases (lw_tables w) (lh_bindingId l2) = Some row2" "row_of_handle l2 row2"
    unfolding leases_ok_def by blast
  from row1 row2 assms(4) have "lh_holderId l1 = lh_holderId l2" by (simp add: row_of_handle_def)
  moreover from assms(1) have "inj_on lh_holderId (lw_handles w)" by (simp add: leases_ok_def)
  ultimately show ?thesis using assms(2,3) by (auto dest: inj_onD)
qed

lemma leases_ok_step: "lease_step x w w' \<Longrightarrow> leases_ok w \<Longrightarrow> leases_ok w'"
proof (induction rule: lease_step.induct)
  case (start p w)
  then show ?case by (auto simp: leases_ok_def)
next
  case (stop w p)
  then show ?case by (auto simp: leases_ok_def inj_on_def)
next
  case (acquire p w holder original i e now r ts)
  from acquire(3) show ?case
  proof (cases rule: acquire_cases)
    case no
    then show ?thesis using acquire(4) by (auto simp: leases_ok_def split: sum.splits option.splits)
  next
    case yes
    have free: "lh_bindingId l \<noteq> i" if "l \<in> lw_handles w" for l
    proof
      assume i: "lh_bindingId l = i"
      from that acquire(4) obtain row where "handle_process l \<in> lw_live w"
        "bt_leases (lw_tables w) i = Some row" "row_of_handle l row" unfolding leases_ok_def i [symmetric] by blast
      with yes(3) [of row] show False
        by (auto simp: in_process_def processIsAlive_def row_of_handle_def)
    qed
    let ?new = "\<lparr>lh_bindingId = i, lh_expected = e, lh_holderId = holder, lh_hostName = fst p, lh_ownerPid = snd p\<rparr>"
    have "handle_process ?new = p" by (simp add: handle_process_def)
    then show ?thesis using acquire(1,2,4) free
      by (auto simp: leases_ok_def yes(1,2) in_process_def row_of_handle_def inj_on_def)
  qed
next
  case (release l w r ts)
  have "lh_bindingId l' \<noteq> lh_bindingId l" if "l' \<in> lw_handles w" "l' \<noteq> l" for l'
    using one_handle [OF release(3) that(1) release(1)] that(2) by blast
  moreover from release(1,3) obtain row where "bt_leases (lw_tables w) (lh_bindingId l) = Some row" "ls_holderId row = lh_holderId l"
    unfolding leases_ok_def row_of_handle_def by blast
  with release(2) have "bt_leases ts = (bt_leases (lw_tables w))(lh_bindingId l := None)"
    by (auto simp: release_lease_def)
  ultimately have rows: "bt_leases ts (lh_bindingId l') = bt_leases (lw_tables w) (lh_bindingId l')" if "l' \<in> lw_handles w - {l}" for l'
    using that by simp
  show ?case unfolding leases_ok_def
  proof (simp add: Ball_def, intro conjI allI impI)
    fix l' assume "l' \<in> lw_handles w \<and> l' \<noteq> l"
    then have "l' \<in> lw_handles w - {l}" by simp
    with rows [OF this] release(3) show "handle_process l' \<in> lw_live w"
      "\<exists>row. bt_leases ts (lh_bindingId l') = Some row \<and> row_of_handle l' row"
      unfolding leases_ok_def by auto
  qed (use release(3) in \<open>auto simp: leases_ok_def inj_on_def\<close>)
next
  case (other p op w)
  then show ?case by (simp add: leases_ok_def)
qed

lemma leases_ok_reachable: "lease_reachable x w \<Longrightarrow> leases_ok w"
proof (induction rule: lease_reachable.induct)
  case (step w w')
  then show ?case using leases_ok_step by blast
qed (simp add: leases_ok_def)

text \<open>
  C16. A provider session has at most one owner.  In every reachable state of the processes that
  share the database, two unreleased handles of running processes on one binding are the same
  handle, and the lease row of that binding names its holder, host and process.
\<close>

theorem lease_exclusive:
  assumes "lease_reachable x w" and "l1 \<in> lw_handles w" and "l2 \<in> lw_handles w"
    and "lh_bindingId l1 = lh_bindingId l2"
  shows "l1 = l2 \<and> (\<exists>row. bt_leases (lw_tables w) (lh_bindingId l1) = Some row \<and> row_of_handle l1 row)"
proof -
  from leases_ok_reachable [OF assms(1)] have ok: "leases_ok w" .
  from one_handle [OF this assms(2-4)] ok assms(2) show ?thesis unfolding leases_ok_def by blast
qed

subsection \<open>Closed instances\<close>

definition demo_id :: string where
  "demo_id = ''00000000-0000-4000-8000-000000000000''"

definition demo_session :: session_binding where
  "demo_session = \<lparr>sb_owner = DharmaBridge,
     sb_scope = \<lparr>bs_organizationId = ''o'', bs_repositoryBindingId = demo_id,
       bs_party = \<lparr>pt_workspaceId = demo_id, pt_endpointId = demo_id, pt_membershipId = demo_id,
          pt_deviceId = demo_id\<rparr>,
       bs_bindingId = demo_id, bs_provider = Codex, bs_expiresAt = ''90'', bs_maximumProviderCostCents = Some 5\<rparr>,
     sb_sessionId = ''s'', sb_workspaceRoot = ''/w'', sb_createdAt = ''10''\<rparr>"

text \<open>A host whose parser knows the given values by their canonical text.\<close>

definition knowing :: "json list \<Rightarrow> string vault_context" where
  "knowing vs = demo_vault_context\<lparr>vc_parseJson :=
     map_of (map (\<lambda>v. (canonicalize code_unit_le v, v)) vs)\<rparr>"

definition empty_bindings :: binding_tables where
  "empty_bindings = \<lparr>bt_blobs = \<lambda>_. None, bt_bindings = \<lambda>_. None, bt_locators = \<lambda>_. None, bt_leases = \<lambda>_. None,
     bt_declarations = \<lambda>_. None, bt_renewals = \<lambda>_. None\<rparr>"

lemma knowing_simps [simp]:
  "vc_host (knowing vs) = vc_host demo_vault_context" "vc_aead (knowing vs) = demo_aead"
  "vc_hostName (knowing vs) = ''host''" "vc_pid (knowing vs) = 7" "aead_law demo_aead"
  "canonical (knowing vs) v = canonicalize code_unit_le v"
  using demo_vault_laws by (simp_all add: knowing_def demo_vault_context_def vault_laws_def canonical_def)

lemma knowing_reads_back: "reads_back (knowing [v]) v"
  by (simp add: reads_back_def knowing_def canonical_def demo_vault_context_def demo_aead_def aead_law_def)

lemma demo_session_valid: "valid_binding (vc_host demo_vault_context) demo_session"
  by code_simp

lemma demo_dates: "dateParse (vc_host demo_vault_context) ''90'' = Some 90" "dateParse (vc_host demo_vault_context) ''95'' = Some 95"
  "bs_expiresAt (sb_scope demo_session) = ''90''" "bs_bindingId (sb_scope demo_session) = demo_id"
  "sb_owner demo_session = DharmaBridge"
  by code_simp+

lemma demo_save:
  "saveProviderSessionBinding (knowing vs) nonce 20 demo_session empty_bindings
     = (Inr (), empty_bindings\<lparr>bt_bindings := [demo_id \<mapsto> binding_row_of (knowing vs) nonce demo_session],
          bt_locators := [locatorHash (knowing vs) demo_session \<mapsto> demo_id]\<rparr>)"
  by (simp add: saveProviderSessionBinding_def assert_binding_json demo_session_valid demo_dates readProviderSessionBinding_def
      empty_bindings_def Let_def)

definition demo_tables :: "string vault_context \<Rightarrow> binding_tables" where
  "demo_tables x = empty_bindings\<lparr>bt_bindings := [demo_id \<mapsto> binding_row_of x ''n'' demo_session],
     bt_locators := [locatorHash x demo_session \<mapsto> demo_id]\<rparr>"

lemma demo_tables_simps [simp]:
  "bt_leases (demo_tables x) = (\<lambda>_. None)" "bt_renewals (demo_tables x) = (\<lambda>_. None)"
  "bt_bindings (demo_tables x) = [demo_id \<mapsto> binding_row_of x ''n'' demo_session]"
  by (simp_all add: demo_tables_def empty_bindings_def)

lemma demo_get: "getProviderSessionBinding (knowing (binding_json demo_session # vs)) demo_id (identity_of demo_session)
    (demo_tables (knowing (binding_json demo_session # vs))) = Inr (Some demo_session)"
proof -
  have "reads_back (knowing (binding_json demo_session # vs)) (binding_json demo_session)"
    by (simp add: reads_back_def) (simp add: knowing_def canonical_def demo_vault_context_def)
  from open_binding_row_of [OF this, of "''n''"] demo_session_valid show ?thesis
    by (simp add: getProviderSessionBinding_def readProviderSessionBinding_def demo_tables_def demo_dates binding_revoked_def same_identity_iff)
qed

theorem binding_saved_witness:
  "getProviderSessionBinding (knowing [binding_json demo_session]) demo_id (identity_of demo_session)
     (demo_tables (knowing [binding_json demo_session])) = Inr (Some demo_session)"
  using binding_saved [OF knowing_reads_back _ demo_save [of _ "''n''"]]
  by (simp add: demo_dates demo_tables_def) (simp add: empty_bindings_def)

theorem revocation_final_witness:
  "getProviderSessionBinding (knowing [binding_json demo_session]) demo_id (identity_of demo_session)
     (binding_step (knowing [binding_json demo_session]) (SaveBinding ''m'' 30 demo_session)
       (snd (revokeProviderSessionBinding (knowing [binding_json demo_session]) demo_id (identity_of demo_session) 25
          (demo_tables (knowing [binding_json demo_session]))))) = Inr None"
proof -
  let ?x = "knowing [binding_json demo_session]"
  have "fst (revokeProviderSessionBinding ?x demo_id (identity_of demo_session) 25 (demo_tables ?x)) = Inr ()"
    by (simp add: revokeProviderSessionBinding_def demo_get split: option.split)
  then obtain ts1 where "revokeProviderSessionBinding ?x demo_id (identity_of demo_session) 25 (demo_tables ?x) = (Inr (), ts1)"
    by (metis prod.collapse)
  from revocation_final [OF demo_get this, of _ "[SaveBinding ''m'' 30 demo_session]"] this show ?thesis by simp
qed

theorem renewal_extends_witness:
  "\<exists>r ts'. renewProviderSessionBinding (knowing [binding_json demo_session]) (\<lambda>_. False) ''m'' demo_id (identity_of demo_session)
        ''90'' ''95'' 20 (demo_tables (knowing [binding_json demo_session])) = (Inr r, ts')
     \<and> map_option sealed_text.truncate (bt_renewals ts' (demo_id, ''90''))
       = map_option sealed_text.truncate (bt_bindings (demo_tables (knowing [binding_json demo_session])) demo_id)"
proof -
  let ?x = "knowing [binding_json demo_session]"
  have "valid_binding (vc_host demo_vault_context) (extended ''95'' demo_session)" by code_simp
  then obtain b' ts' where run: "renewProviderSessionBinding ?x (\<lambda>_. False) ''m'' demo_id (identity_of demo_session)
        ''90'' ''95'' 20 (demo_tables ?x) = (Inr b', ts')"
    by (simp add: renewProviderSessionBinding_def demo_get demo_dates assert_binding_json is_finite_def Let_def)
  from renewal_extends [OF run] run show ?thesis by auto
qed

definition demo_world :: "bool \<Rightarrow> lease_world" where
  "demo_world acquired = (let x = knowing [binding_json demo_session]; ts = demo_tables x;
     p = (''host'', 7);
     (r, ts') = tryAcquireProviderSessionLease (in_process p x) (\<lambda>n. (fst p, n) \<in> {p}) None demo_id (identity_of demo_session) ''u'' 30 ts in
     if acquired then \<lparr>lw_tables = ts', lw_live = {p}, lw_handles = (case r of Inr (Some l) \<Rightarrow> {l} | _ \<Rightarrow> {}), lw_holders = {''u''}\<rparr>
     else \<lparr>lw_tables = ts, lw_live = {p}, lw_handles = {}, lw_holders = {}\<rparr>)"

lemma in_own_process: "in_process (''host'', 7) (knowing vs) = knowing vs"
  by (simp add: in_process_def knowing_def demo_vault_context_def)

lemma demo_world_reachable: "lease_reachable (knowing [binding_json demo_session]) (demo_world True)"
proof -
  let ?x = "knowing [binding_json demo_session]" and ?p = "(''host'', 7 :: int)"
  have "lease_reachable ?x \<lparr>lw_tables = demo_tables ?x, lw_live = {}, lw_handles = {}, lw_holders = {}\<rparr>"
    by (rule lease_reachable.initial) (simp add: demo_tables_def empty_bindings_def)
  from lease_reachable.step [OF this lease_step.start, of ?p]
  have "lease_reachable ?x \<lparr>lw_tables = demo_tables ?x, lw_live = {?p}, lw_handles = {}, lw_holders = {}\<rparr>" by simp
  from lease_reachable.step [OF this lease_step.acquire, of ?p "''u''" None "demo_id" "identity_of demo_session" 30]
  show ?thesis
    by (auto simp: demo_world_def Let_def split: prod.split sum.split option.split)
qed

definition demo_handle :: lease_handle where
  "demo_handle = \<lparr>lh_bindingId = demo_id, lh_expected = identity_of demo_session, lh_holderId = ''u'',
     lh_hostName = ''host'', lh_ownerPid = 7\<rparr>"

theorem lease_exclusive_witness:
  "demo_handle \<in> lw_handles (demo_world True)
   \<and> (\<exists>row. bt_leases (lw_tables (demo_world True)) demo_id = Some row \<and> row_of_handle demo_handle row)"
proof -
  have "bt_leases (demo_tables (knowing [binding_json demo_session])) demo_id = None"
    by (simp add: demo_tables_def empty_bindings_def)
  then have held: "demo_handle \<in> lw_handles (demo_world True)"
    by (simp add: demo_world_def in_own_process tryAcquireProviderSessionLease_def demo_get binding_live_def demo_dates
        demo_handle_def Let_def)
  from lease_exclusive [OF demo_world_reachable held held refl] held show ?thesis by (simp add: demo_handle_def)
qed

end
