(* ===== verification/Vault_Setup.thy ===== *)
theory Vault_Setup
  imports Vault_Bindings
begin

text \<open>
  The setup journal of packages/local-vault/src/index.ts: operations that are claimed once and
  end with one sealed result, and the readiness observation that a running operation records
  (packages/local-vault/src/setupReadiness.ts).  Several processes write the same tables; each
  SQL statement is atomic, and \<open>gap\<close> is what the statements of other processes do between two
  statements of an operation.
\<close>

subsection \<open>Results\<close>

datatype setup_result = SetupCompleted string | SetupUnconfirmed

fun setup_result_json :: "setup_result \<Rightarrow> json" where
  "setup_result_json (SetupCompleted receiptId) = JObj [(''state'', JStr ''completed''), (''readinessReceiptId'', JStr receiptId)]"
| "setup_result_json SetupUnconfirmed = JObj [(''state'', JStr ''unconfirmed''), (''code'', JStr ''setup_execution_unconfirmed'')]"

definition parseCodexSetupResult :: "json \<Rightarrow> setup_result option" where
  "parseCodexSetupResult v =
     (if has_exactly v [''state'', ''readinessReceiptId''] \<and> text_property v ''state'' = Some ''completed''
      then (case text_property v ''readinessReceiptId'' of None \<Rightarrow> None
            | Some receiptId \<Rightarrow> if setup_id receiptId then Some (SetupCompleted receiptId) else None)
      else if has_exactly v [''state'', ''code''] \<and> text_property v ''state'' = Some ''unconfirmed''
         \<and> text_property v ''code'' = Some ''setup_execution_unconfirmed''
      then Some SetupUnconfirmed else None)"

fun valid_result :: "setup_result \<Rightarrow> bool" where
  "valid_result (SetupCompleted receiptId) = setup_id receiptId"
| "valid_result SetupUnconfirmed = True"

lemma parse_setup_result_json [simp]:
  "parseCodexSetupResult (setup_result_json r) = (if valid_result r then Some r else None)"
  by (cases r) (auto simp: parseCodexSetupResult_def has_exactly_def is_object_def text_property_obj)

lemma parse_result_valid: "parseCodexSetupResult v = Some r \<Longrightarrow> valid_result r"
  unfolding parseCodexSetupResult_def
  by (cases "text_property v ''readinessReceiptId''") (auto simp del: One_nat_def split: if_split_asm)

lemma parse_result_meaning: "meaning v = meaning w \<Longrightarrow> parseCodexSetupResult v = parseCodexSetupResult w"
  unfolding parseCodexSetupResult_def by (simp only: same_meaning_properties [of v w])

subsection \<open>Tables\<close>

text \<open>A row is terminal when its sealed result is there, which is the table's check; \<open>su_leases\<close>
  is the unique index on \<open>lease_hash\<close> and \<open>su_receipts\<close> the primary key of the readiness table.\<close>

record setup_row =
  op_intent :: string
  op_leaseHash :: string
  op_terminal :: "sealed_text option"

record readiness_row = sealed_text +
  rd_receiptId :: string
  rd_intent :: string
  rd_observationHash :: string

record setup_tables = binding_tables +
  su_operations :: "string \<rightharpoonup> setup_row"
  su_leases :: "string \<rightharpoonup> string"
  su_readiness :: "string \<rightharpoonup> readiness_row"
  su_receipts :: "string \<rightharpoonup> string"

datatype setup_error =
    SetupInvalid | SetupConflict | SetupIntegrity | TransactionActive | DurabilityUnqualified | UniqueViolation
  | ReadinessInvalid | ReadinessStale | ReadinessScopeMismatch | ReadinessIntegrity | ReadinessConflict
  | HandoffInvalid | HandoffScopeUnavailable | HandoffCleanupUnconfirmed

text \<open>What SQLite answers for \<open>isTransaction\<close> and \<open>pragma synchronous\<close>.\<close>

record sql_mode =
  sm_transaction :: "bool option"
  sm_synchronous :: "int option"

definition assertSetupJournalDurability :: "sql_mode \<Rightarrow> (setup_error, unit) result" where
  "assertSetupJournalDurability m =
     (if sm_transaction m = Some True then Inl TransactionActive
      else if sm_transaction m = None then Inl DurabilityUnqualified
      else case sm_synchronous m of None \<Rightarrow> Inl DurabilityUnqualified
      | Some level \<Rightarrow> if level < 2 \<or> 3 < level then Inl DurabilityUnqualified else Inr ())"

definition setup_lease_hash :: "'key vault_context \<Rightarrow> string \<Rightarrow> string" where
  "setup_lease_hash x leaseId = sha256Hex (vc_host x) (''codex-setup-lease'' @ CHR 0x00 # leaseId)"

definition result_aad :: "'key vault_context \<Rightarrow> string \<Rightarrow> string \<Rightarrow> string" where
  "result_aad x operationId intentDigest = canonical x (JObj [(''operationId'', JStr operationId),
     (''intentDigest'', JStr intentDigest), (''state'', JStr ''terminal'')])"

definition seal_result :: "'key vault_context \<Rightarrow> string \<Rightarrow> string \<Rightarrow> string \<Rightarrow> setup_result \<Rightarrow> sealed_text" where
  "seal_result x nonce operationId intentDigest r =
     seal_text x nonce (result_aad x operationId intentDigest) (canonical x (setup_result_json r))"

definition decodeCodexSetupResult ::
  "'key vault_context \<Rightarrow> string \<Rightarrow> setup_row \<Rightarrow> (setup_error, setup_result) result" where
  "decodeCodexSetupResult x operationId row =
     (case op_terminal row of None \<Rightarrow> Inl SetupIntegrity | Some sealed \<Rightarrow>
     (case unseal_text x (result_aad x operationId (op_intent row)) sealed of None \<Rightarrow> Inl SetupIntegrity | Some plaintext \<Rightarrow>
     (case vc_parseJson x plaintext of None \<Rightarrow> Inl SetupIntegrity | Some v \<Rightarrow>
     (case parseCodexSetupResult v of None \<Rightarrow> Inl SetupIntegrity | Some r \<Rightarrow> Inr r))))"

subsection \<open>Statements\<close>

definition insert_operation :: "string \<Rightarrow> string \<Rightarrow> string \<Rightarrow> 'a setup_tables_scheme \<Rightarrow> 'a setup_tables_scheme" where
  "insert_operation operationId intentDigest leaseHash ts =
     ts\<lparr>su_operations := (su_operations ts)(operationId \<mapsto>
          \<lparr>op_intent = intentDigest, op_leaseHash = leaseHash, op_terminal = None\<rparr>),
        su_leases := (su_leases ts)(leaseHash \<mapsto> operationId)\<rparr>"

definition operation_running :: "string \<Rightarrow> string \<Rightarrow> string \<Rightarrow> 'a setup_tables_scheme \<Rightarrow> bool" where
  "operation_running operationId leaseHash intentDigest ts = (case su_operations ts operationId of None \<Rightarrow> False
     | Some row \<Rightarrow> op_leaseHash row = leaseHash \<and> op_intent row = intentDigest \<and> op_terminal row = None)"

definition terminate_operation :: "string \<Rightarrow> sealed_text \<Rightarrow> 'a setup_tables_scheme \<Rightarrow> 'a setup_tables_scheme" where
  "terminate_operation operationId sealed ts = (case su_operations ts operationId of None \<Rightarrow> ts
     | Some row \<Rightarrow> ts\<lparr>su_operations := (su_operations ts)(operationId \<mapsto> row\<lparr>op_terminal := Some sealed\<rparr>)\<rparr>)"

definition operation_of_lease :: "string \<Rightarrow> string \<Rightarrow> 'a setup_tables_scheme \<Rightarrow> (string \<times> setup_row) option" where
  "operation_of_lease leaseHash intentDigest ts =
     (case su_leases ts leaseHash of None \<Rightarrow> None | Some operationId \<Rightarrow>
     (case su_operations ts operationId of None \<Rightarrow> None | Some row \<Rightarrow>
        if op_leaseHash row = leaseHash \<and> op_intent row = intentDigest then Some (operationId, row) else None))"

subsection \<open>Operations\<close>

datatype setup_claim = ClaimAcquired string | ClaimRunning | ClaimTerminal setup_result

definition observe_operation :: "'key vault_context \<Rightarrow> string \<Rightarrow> string \<Rightarrow> setup_row \<Rightarrow> (setup_error, setup_claim) result" where
  "observe_operation x operationId intentDigest row =
     (if op_intent row \<noteq> intentDigest then Inl SetupConflict
      else if op_terminal row = None then Inr ClaimRunning
      else map_sum id ClaimTerminal (decodeCodexSetupResult x operationId row))"

definition claimCodexSetupOperation ::
  "'key vault_context \<Rightarrow> sql_mode \<Rightarrow> string \<Rightarrow> ('a setup_tables_scheme \<Rightarrow> 'a setup_tables_scheme) \<Rightarrow> string \<Rightarrow> string
     \<Rightarrow> 'a setup_tables_scheme \<Rightarrow> (setup_error, setup_claim) result \<times> 'a setup_tables_scheme" where
  "claimCodexSetupOperation x m leaseId gap operationId intentDigest ts =
     (if \<not> setup_id operationId \<or> \<not> is_digest intentDigest then (Inl SetupInvalid, ts)
      else case assertSetupJournalDurability m of Inl e \<Rightarrow> (Inl e, ts) | Inr _ \<Rightarrow>
      let leaseHash = setup_lease_hash x leaseId in
      if su_operations ts operationId = None
      then (if su_leases ts leaseHash \<noteq> None then (Inl UniqueViolation, ts)
            else (Inr (ClaimAcquired leaseId), insert_operation operationId intentDigest leaseHash ts))
      else let ts1 = gap ts in
      case su_operations ts1 operationId of None \<Rightarrow> (Inl SetupConflict, ts1)
      | Some row \<Rightarrow> (observe_operation x operationId intentDigest row, ts1))"

definition readCodexSetupOperation ::
  "'key vault_context \<Rightarrow> sql_mode \<Rightarrow> string \<Rightarrow> string \<Rightarrow> 'a setup_tables_scheme \<Rightarrow> (setup_error, setup_claim option) result" where
  "readCodexSetupOperation x m operationId intentDigest ts =
     (if \<not> setup_id operationId \<or> \<not> is_digest intentDigest then Inl SetupInvalid
      else case assertSetupJournalDurability m of Inl e \<Rightarrow> Inl e | Inr _ \<Rightarrow>
      (case su_operations ts operationId of None \<Rightarrow> Inr None
       | Some row \<Rightarrow> map_sum id Some (observe_operation x operationId intentDigest row)))"

definition same_result :: "'key vault_context \<Rightarrow> string \<Rightarrow> setup_row \<Rightarrow> setup_result \<Rightarrow> (setup_error, unit) result" where
  "same_result x operationId row accepted =
     (case decodeCodexSetupResult x operationId row of Inl e \<Rightarrow> Inl e | Inr r \<Rightarrow>
        if canonical x (setup_result_json r) \<noteq> canonical x (setup_result_json accepted) then Inl SetupConflict else Inr ())"

definition finishCodexSetupOperation ::
  "'key vault_context \<Rightarrow> sql_mode \<Rightarrow> string \<Rightarrow> ('a setup_tables_scheme \<Rightarrow> 'a setup_tables_scheme) \<Rightarrow> string \<Rightarrow> string \<Rightarrow> json
     \<Rightarrow> 'a setup_tables_scheme \<Rightarrow> (setup_error, unit) result \<times> 'a setup_tables_scheme" where
  "finishCodexSetupOperation x m nonce gap leaseId intentDigest v ts =
     (if \<not> setup_id leaseId \<or> \<not> is_digest intentDigest then (Inl SetupInvalid, ts)
      else case parseCodexSetupResult v of None \<Rightarrow> (Inl SetupInvalid, ts) | Some accepted \<Rightarrow>
      (case assertSetupJournalDurability m of Inl e \<Rightarrow> (Inl e, ts) | Inr _ \<Rightarrow>
      let leaseHash = setup_lease_hash x leaseId in
      case operation_of_lease leaseHash intentDigest ts of None \<Rightarrow> (Inl SetupConflict, ts)
      | Some (operationId, row) \<Rightarrow>
        if op_terminal row \<noteq> None then (same_result x operationId row accepted, ts)
        else let sealed = seal_result x nonce operationId intentDigest accepted; ts1 = gap ts in
        if operation_running operationId leaseHash intentDigest ts1
        then (Inr (), terminate_operation operationId sealed ts1)
        else case su_operations ts1 operationId of None \<Rightarrow> (Inl SetupConflict, ts1)
        | Some current \<Rightarrow> if op_terminal current = None then (Inl SetupConflict, ts1)
            else (same_result x operationId current accepted, ts1)))"

subsection \<open>Readiness\<close>

definition readiness_ids :: "string list" where
  "readiness_ids = [''operationId'', ''membershipId'', ''deviceId'', ''workspaceId'', ''repositoryBindingId'',
     ''repositoryAgentId'', ''endpointId'', ''sessionBindingId'', ''bundleId'']"

definition readiness_hashes :: "string list" where
  "readiness_hashes = [''repositoryFingerprint'', ''policyHash'', ''manifestHash'', ''catalogHash'', ''bundleHash'',
     ''activeReceiptHash'', ''roleProfileHash'', ''nativeSkillHash'', ''contractDigest'']"

definition readiness_fields :: "string list" where
  "readiness_fields = ''schema'' # readiness_ids @ readiness_hashes @ [''organizationId'', ''sessionId'', ''policyRevision'',
     ''roleRevision'', ''cliVersion'', ''relayPid'', ''relayPolledAt'', ''startupBackend'', ''firstLearning'',
     ''verifiedAt'', ''expiresAt'']"

definition pick :: "string list \<Rightarrow> json \<Rightarrow> json" where
  "pick names v = (case v of
     JObj kvs \<Rightarrow> JObj (concat (map (\<lambda>k. case map_of kvs k of None \<Rightarrow> [] | Some w \<Rightarrow> [(k, w)]) names)) | _ \<Rightarrow> v)"

definition texts_in :: "json \<Rightarrow> string list \<Rightarrow> (string \<Rightarrow> bool) \<Rightarrow> bool" where
  "texts_in v names ok = list_all (\<lambda>k. case text_property v k of None \<Rightarrow> False | Some s \<Rightarrow> ok s) names"

definition int_in :: "json \<Rightarrow> string \<Rightarrow> int \<Rightarrow> int \<Rightarrow> bool" where
  "int_in v k low high = (case int_property v k of None \<Rightarrow> False | Some i \<Rightarrow> low \<le> i \<and> i \<le> high)"

definition org_id :: "string \<Rightarrow> bool" where
  "org_id s = (take 4 s = ''org_'' \<and> drop 4 s \<noteq> [] \<and> list_all is_word_char (drop 4 s))"

definition policy_revision :: "string \<Rightarrow> bool" where
  "policy_revision s = token is_word_char (\<lambda>c. is_word_char c \<or> c \<in> set ''._:-'') 128 s"

definition cli_version :: "string \<Rightarrow> bool" where
  "cli_version s = (take 4 s = ''0.2.'' \<and> (let n = drop 4 s in n = ''0''
     \<or> n \<noteq> [] \<and> length n \<le> 6 \<and> list_all is_digit n \<and> hd n \<noteq> CHR ''0''))"

text \<open>A text that \<open>toISOString\<close> gives back for its own time.\<close>

definition iso_time :: "'key host \<Rightarrow> json \<Rightarrow> string \<Rightarrow> int option" where
  "iso_time h v k = (case text_property v k of None \<Rightarrow> None | Some s \<Rightarrow>
     (case dateParse h s of None \<Rightarrow> None | Some t \<Rightarrow> if isoString h t = s then Some t else None))"

definition parseLocalCodexSetupReadiness :: "'key host \<Rightarrow> json \<Rightarrow> json option" where
  "parseLocalCodexSetupReadiness h v =
     (if \<not> has_exactly v readiness_fields then None
      else if text_property v ''schema'' \<noteq> Some ''dharma.local-codex-setup-readiness/v1''
         \<or> \<not> texts_in v readiness_ids setup_id \<or> \<not> texts_in v readiness_hashes is_digest
         \<or> \<not> texts_in v [''organizationId''] org_id \<or> \<not> texts_in v [''sessionId''] session_token
         \<or> \<not> texts_in v [''policyRevision''] policy_revision
         \<or> \<not> int_in v ''roleRevision'' 1 2147483647 \<or> \<not> int_in v ''relayPid'' 1 2147483647
         \<or> \<not> texts_in v [''cliVersion''] cli_version
         \<or> \<not> texts_in v [''startupBackend''] (\<lambda>s. s \<in> set [''systemd-user'', ''container-entrypoint''])
         \<or> \<not> texts_in v [''firstLearning''] (\<lambda>s. s \<in> set [''synchronized'', ''no_eligible_history'', ''denied_disclosure''])
      then None
      else case (iso_time h v ''relayPolledAt'', iso_time h v ''verifiedAt'', iso_time h v ''expiresAt'') of
        (Some polled, Some verified, Some expires) \<Rightarrow>
          if verified < polled \<or> 60000 < verified - polled \<or> expires \<le> verified \<or> 900000 < expires - verified
          then None else Some (pick readiness_fields v)
      | _ \<Rightarrow> None)"

record readiness_receipt =
  rr_receiptId :: string
  rr_intentDigest :: string
  rr_observationHash :: string
  rr_observation :: json

definition readiness_aad :: "'key vault_context \<Rightarrow> string \<Rightarrow> string \<Rightarrow> string \<Rightarrow> string \<Rightarrow> string" where
  "readiness_aad x receiptId operationId intentDigest observationHash =
     canonical x (JObj [(''receiptId'', JStr receiptId), (''operationId'', JStr operationId),
       (''intentDigest'', JStr intentDigest), (''observationHash'', JStr observationHash)])"

definition readiness_by_receipt :: "string \<Rightarrow> 'a setup_tables_scheme \<Rightarrow> (string \<times> readiness_row) option" where
  "readiness_by_receipt receiptId ts = (case su_receipts ts receiptId of None \<Rightarrow> None
     | Some operationId \<Rightarrow> map_option (Pair operationId) (su_readiness ts operationId))"

definition open_readiness ::
  "'key vault_context \<Rightarrow> string \<Rightarrow> string \<Rightarrow> string \<Rightarrow> readiness_row \<Rightarrow> json option" where
  "open_readiness x receiptId operationId intentDigest row =
     (case unseal_text x (readiness_aad x receiptId operationId intentDigest (rd_observationHash row)) row of None \<Rightarrow> None
      | Some plaintext \<Rightarrow> (case vc_parseJson x plaintext of None \<Rightarrow> None | Some v \<Rightarrow>
        (case parseLocalCodexSetupReadiness (vc_host x) v of None \<Rightarrow> None | Some observation \<Rightarrow>
           if text_property observation ''operationId'' \<noteq> Some operationId
              \<or> objectDigest (vc_host x) observation \<noteq> rd_observationHash row then None else Some observation)))"

definition getCodexSetupReadiness ::
  "'key vault_context \<Rightarrow> string \<Rightarrow> string \<Rightarrow> string \<Rightarrow> 'a setup_tables_scheme
     \<Rightarrow> (setup_error, readiness_receipt option) result" where
  "getCodexSetupReadiness x receiptId operationId intentDigest ts =
     (if \<not> setup_id receiptId \<or> \<not> setup_id operationId \<or> \<not> is_digest intentDigest then Inl ReadinessInvalid
      else case readiness_by_receipt receiptId ts of None \<Rightarrow> Inr None
      | Some (rowOperation, row) \<Rightarrow>
        if rowOperation \<noteq> operationId \<or> rd_intent row \<noteq> intentDigest then Inl ReadinessScopeMismatch
        else (case open_readiness x receiptId operationId intentDigest row of None \<Rightarrow> Inl ReadinessIntegrity
          | Some observation \<Rightarrow> Inr (Some \<lparr>rr_receiptId = receiptId, rr_intentDigest = intentDigest,
              rr_observationHash = rd_observationHash row, rr_observation = observation\<rparr>)))"

definition readiness_row_of ::
  "'key vault_context \<Rightarrow> string \<Rightarrow> string \<Rightarrow> string \<Rightarrow> string \<Rightarrow> json \<Rightarrow> readiness_row" where
  "readiness_row_of x nonce receiptId operationId intentDigest observation =
     (let observationHash = objectDigest (vc_host x) observation in
      sealed_text.extend (seal_text x nonce (readiness_aad x receiptId operationId intentDigest observationHash) (canonical x observation))
        \<lparr>rd_receiptId = receiptId, rd_intent = intentDigest, rd_observationHash = observationHash\<rparr>)"

text \<open>The insert selects the running operation, so it adds nothing once the operation has ended, and
  \<open>on conflict do nothing\<close> keeps an earlier observation.\<close>

definition insert_readiness ::
  "string \<Rightarrow> string \<Rightarrow> string \<Rightarrow> readiness_row \<Rightarrow> 'a setup_tables_scheme \<Rightarrow> (setup_error, unit) result \<times> 'a setup_tables_scheme" where
  "insert_readiness operationId leaseHash intentDigest row ts =
     (if \<not> operation_running operationId leaseHash intentDigest ts then (Inr (), ts)
      else if su_readiness ts operationId \<noteq> None then (Inr (), ts)
      else if su_receipts ts (rd_receiptId row) \<noteq> None then (Inl UniqueViolation, ts)
      else (Inr (), ts\<lparr>su_readiness := (su_readiness ts)(operationId \<mapsto> row),
              su_receipts := (su_receipts ts)(rd_receiptId row \<mapsto> operationId)\<rparr>))"

definition recordCodexSetupReadiness ::
  "'key vault_context \<Rightarrow> sql_mode \<Rightarrow> int \<Rightarrow> string \<Rightarrow> string \<Rightarrow> ('a setup_tables_scheme \<Rightarrow> 'a setup_tables_scheme)
     \<Rightarrow> string \<Rightarrow> string \<Rightarrow> json \<Rightarrow> 'a setup_tables_scheme
     \<Rightarrow> (setup_error, readiness_receipt) result \<times> 'a setup_tables_scheme" where
  "recordCodexSetupReadiness x m now nonce receiptId gap leaseId intentDigest v ts =
     (case parseLocalCodexSetupReadiness (vc_host x) v of None \<Rightarrow> (Inl ReadinessInvalid, ts) | Some observation \<Rightarrow>
      if \<not> setup_id leaseId \<or> \<not> is_digest intentDigest then (Inl ReadinessInvalid, ts)
      else case assertSetupJournalDurability m of Inl e \<Rightarrow> (Inl e, ts) | Inr _ \<Rightarrow>
      (case (iso_time (vc_host x) observation ''verifiedAt'', iso_time (vc_host x) observation ''expiresAt'',
             text_property observation ''operationId'') of
        (Some verified, Some expires, Some operationId) \<Rightarrow>
          if now < verified \<or> 60000 < now - verified \<or> expires \<le> now then (Inl ReadinessStale, ts)
          else let leaseHash = setup_lease_hash x leaseId in
          if \<not> operation_running operationId leaseHash intentDigest ts then (Inl SetupConflict, ts)
          else
            let row = readiness_row_of x nonce receiptId operationId intentDigest observation in
            (case insert_readiness operationId leaseHash intentDigest row (gap ts) of (Inl e, ts1) \<Rightarrow> (Inl e, ts1)
             | (Inr _, ts1) \<Rightarrow>
               (case su_readiness ts1 operationId of None \<Rightarrow> (Inl SetupConflict, ts1)
                | Some persisted \<Rightarrow>
                  (case getCodexSetupReadiness x (rd_receiptId persisted) operationId intentDigest ts1 of
                     Inl e \<Rightarrow> (Inl e, ts1)
                   | Inr None \<Rightarrow> (Inl ReadinessConflict, ts1)
                   | Inr (Some receipt) \<Rightarrow>
                       (if rr_observationHash receipt \<noteq> rd_observationHash row then Inl ReadinessConflict
                        else Inr receipt, ts1))))
      | _ \<Rightarrow> (Inl ReadinessInvalid, ts)))"

subsection \<open>Statements of all processes\<close>

datatype setup_stmt =
    InsertOperation string string string
  | TerminateOperation string string string string setup_result
  | InsertReadiness string string string readiness_row

fun setup_exec :: "'key vault_context \<Rightarrow> setup_stmt \<Rightarrow> 'a setup_tables_scheme \<Rightarrow> 'a setup_tables_scheme" where
  "setup_exec x (InsertOperation operationId intentDigest leaseHash) ts =
     (if su_operations ts operationId \<noteq> None \<or> su_leases ts leaseHash \<noteq> None then ts
      else insert_operation operationId intentDigest leaseHash ts)"
| "setup_exec x (TerminateOperation nonce operationId leaseHash intentDigest r) ts =
     (if operation_running operationId leaseHash intentDigest ts
      then terminate_operation operationId (seal_result x nonce operationId intentDigest r) ts else ts)"
| "setup_exec x (InsertReadiness operationId leaseHash intentDigest row) ts =
     snd (insert_readiness operationId leaseHash intentDigest row ts)"

fun stmt_ok :: "'key vault_context \<Rightarrow> setup_stmt \<Rightarrow> bool" where
  "stmt_ok x (TerminateOperation nonce operationId leaseHash intentDigest r) =
     (valid_result r \<and> reads_back x (setup_result_json r))"
| "stmt_ok x _ = True"

definition setup_above :: "setup_row \<Rightarrow> setup_row \<Rightarrow> bool" where
  "setup_above row row' = (op_intent row' = op_intent row \<and> op_leaseHash row' = op_leaseHash row
     \<and> (op_terminal row \<noteq> None \<longrightarrow> op_terminal row' = op_terminal row))"

lemma insert_operation_simps [simp]:
  "su_operations (insert_operation i d h ts) = (su_operations ts)(i \<mapsto> \<lparr>op_intent = d, op_leaseHash = h, op_terminal = None\<rparr>)"
  "su_leases (insert_operation i d h ts) = (su_leases ts)(h \<mapsto> i)"
  "su_readiness (insert_operation i d h ts) = su_readiness ts" "su_receipts (insert_operation i d h ts) = su_receipts ts"
  by (simp_all add: insert_operation_def)

lemma terminate_operation_simps [simp]:
  "su_leases (terminate_operation i s ts) = su_leases ts"
  "su_readiness (terminate_operation i s ts) = su_readiness ts" "su_receipts (terminate_operation i s ts) = su_receipts ts"
  "su_operations ts i = Some row \<Longrightarrow> su_operations (terminate_operation i s ts) = (su_operations ts)(i \<mapsto> row\<lparr>op_terminal := Some s\<rparr>)"
  by (simp_all add: terminate_operation_def split: option.split)

lemma insert_readiness_simps [simp]:
  "su_operations (snd (insert_readiness i h d row ts)) = su_operations ts"
  "su_leases (snd (insert_readiness i h d row ts)) = su_leases ts"
  by (simp_all add: insert_readiness_def)

lemma operation_running_row:
  "operation_running i h d ts \<Longrightarrow> \<exists>row. su_operations ts i = Some row \<and> op_leaseHash row = h \<and> op_intent row = d \<and> op_terminal row = None"
  by (simp add: operation_running_def split: option.splits)

interpretation setup_store: advancing_store "\<lambda>ts i. su_operations ts i" "setup_exec x" setup_above for x
proof unfold_locales
  show "setup_above row row" for row by (simp add: setup_above_def)
  show "setup_above u w" if "setup_above u v" "setup_above v w" for u v w
    using that unfolding setup_above_def by (metis (no_types))
  fix ts :: "'c setup_tables_scheme" and i row op
  assume row: "su_operations ts i = Some row"
  show "\<exists>row'. su_operations (setup_exec x op ts) i = Some row' \<and> setup_above row row'"
  proof (cases op)
    case (TerminateOperation n j h d r)
    show ?thesis
    proof (cases "operation_running j h d ts")
      case True
      from operation_running_row [OF this] obtain rw where "su_operations ts j = Some rw" "op_terminal rw = None" by blast
      with row True TerminateOperation show ?thesis by (auto simp: setup_above_def)
    qed (use row TerminateOperation in \<open>simp add: setup_above_def\<close>)
  qed (use row in \<open>auto simp: setup_above_def\<close>)
qed

interpretation readiness_store: advancing_store "\<lambda>ts i. su_readiness ts i" "setup_exec x" "(=)" for x
proof unfold_locales
  fix ts :: "'c setup_tables_scheme" and i row op
  assume row: "su_readiness ts i = Some row"
  show "\<exists>row'. su_readiness (setup_exec x op ts) i = Some row' \<and> row = row'"
    using row by (cases op) (auto simp: insert_readiness_def)
qed simp_all

interpretation receipt_index: advancing_store "\<lambda>ts i. su_receipts ts i" "setup_exec x" "(=)" for x
proof unfold_locales
  fix ts :: "'c setup_tables_scheme" and i j op
  assume row: "su_receipts ts i = Some j"
  show "\<exists>j'. su_receipts (setup_exec x op ts) i = Some j' \<and> j = j'"
    using row by (cases op) (auto simp: insert_readiness_def)
qed simp_all

subsection \<open>Well-formed journals\<close>

definition setup_ok :: "'key vault_context \<Rightarrow> 'a setup_tables_scheme \<Rightarrow> bool" where
  "setup_ok x ts = ((\<forall>i row. su_operations ts i = Some row \<longrightarrow> su_leases ts (op_leaseHash row) = Some i
        \<and> (op_terminal row \<noteq> None \<longrightarrow> (\<exists>r. decodeCodexSetupResult x i row = Inr r)))
     \<and> (\<forall>h i. su_leases ts h = Some i \<longrightarrow> (\<exists>row. su_operations ts i = Some row \<and> op_leaseHash row = h)))"

lemma setup_okD:
  assumes "setup_ok x ts"
  shows "su_operations ts i = Some row \<Longrightarrow> su_leases ts (op_leaseHash row) = Some i"
    "su_operations ts i = Some row \<Longrightarrow> op_terminal row \<noteq> None \<Longrightarrow> \<exists>r. decodeCodexSetupResult x i row = Inr r"
    "su_leases ts h = Some i \<Longrightarrow> \<exists>row. su_operations ts i = Some row \<and> op_leaseHash row = h"
  using assms unfolding setup_ok_def by blast+

lemma decode_sealed [simp]:
  assumes "valid_result r" "reads_back x (setup_result_json r)"
  shows "decodeCodexSetupResult x i (row\<lparr>op_terminal := Some (seal_result x nonce i (op_intent row) r)\<rparr>) = Inr r"
proof -
  from assms(2) obtain w where w: "aead_law (vc_aead x)" "vc_parseJson x (canonical x (setup_result_json r)) = Some w"
    "meaning w = meaning (setup_result_json r)" unfolding reads_back_def by blast
  from parse_result_meaning [OF w(3)] assms(1) w(1,2) show ?thesis
    by (simp add: decodeCodexSetupResult_def seal_result_def)
qed

lemma setup_ok_exec:
  assumes "setup_ok x ts" "stmt_ok x op"
  shows "setup_ok x (setup_exec x op ts)"
proof (cases op)
  case (InsertOperation i d h)
  show ?thesis
  proof (cases "su_operations ts i = None \<and> su_leases ts h = None")
    case True
    moreover from True assms(1) have "su_leases ts h' \<noteq> Some i" for h'
      using setup_okD(3) [of x ts h' i] by auto
    ultimately show ?thesis using assms(1) InsertOperation by (auto simp: setup_ok_def)
  qed (use assms(1) InsertOperation in auto)
next
  case (TerminateOperation n i h d r)
  show ?thesis
  proof (cases "operation_running i h d ts")
    case True
    from operation_running_row [OF this] obtain row where row: "su_operations ts i = Some row" "op_intent row = d" by blast
    from assms(2) TerminateOperation have "decodeCodexSetupResult x i (row\<lparr>op_terminal := Some (seal_result x n i d r)\<rparr>) = Inr r"
      using decode_sealed [where r = r and x = x and i = i and row = row and nonce = n] by (simp add: row(2))
    moreover have "op_leaseHash row = h'" if "su_leases ts h' = Some i" for h'
      using setup_okD(3) [OF assms(1) that] row(1) by simp
    ultimately show ?thesis using assms(1) row True TerminateOperation by (auto simp: setup_ok_def)
  qed (use assms(1) TerminateOperation in auto)
next
  case (InsertReadiness i h d row)
  with assms(1) show ?thesis by (simp add: setup_ok_def)
qed

lemma setup_ok_fold: "setup_ok x ts \<Longrightarrow> list_all (stmt_ok x) stmts \<Longrightarrow> setup_ok x (fold (setup_exec x) stmts ts)"
  by (induction stmts arbitrary: ts) (auto simp: setup_ok_exec)

lemma canonical_meaning: "wf_json a \<Longrightarrow> wf_json b \<Longrightarrow> canonical x a = canonical x b \<Longrightarrow> meaning a = meaning b"
  unfolding canonical_def canonicalize_def by (metis stringify_inj meaning_canonical)

lemma canonical_result_iff: "canonical x (setup_result_json r) = canonical x (setup_result_json q) \<longleftrightarrow> r = q"
proof
  assume "canonical x (setup_result_json r) = canonical x (setup_result_json q)"
  moreover have "wf_json (setup_result_json p)" for p by (cases p) simp_all
  ultimately have "meaning (setup_result_json r) = meaning (setup_result_json q)" using canonical_meaning by blast
  from same_meaning_properties(2) [OF this]
  have "text_property (setup_result_json r) k = text_property (setup_result_json q) k" for k by simp
  from this [of "''state''"] this [of "''readinessReceiptId''"] show "r = q"
    by (cases r; cases q) (simp_all add: text_property_obj)
qed simp

subsection \<open>The abstract journal\<close>

text \<open>A cell per operation: the intent and the lease it was claimed with, and its result, written once.\<close>

type_synonym setup_cells = "string \<rightharpoonup> string \<times> string \<times> setup_result option"

definition setup_cells :: "'key vault_context \<Rightarrow> 'a setup_tables_scheme \<Rightarrow> setup_cells" where
  "setup_cells x ts = (\<lambda>i. map_option (\<lambda>row. (op_intent row, op_leaseHash row,
     map_option (\<lambda>_. projr (decodeCodexSetupResult x i row)) (op_terminal row))) (su_operations ts i))"

definition spec_read :: "string \<Rightarrow> string \<Rightarrow> setup_cells \<Rightarrow> (setup_error, setup_claim option) result" where
  "spec_read i d cells = (case cells i of None \<Rightarrow> Inr None
     | Some (d', _, q) \<Rightarrow> if d' \<noteq> d then Inl SetupConflict
         else Inr (Some (case q of None \<Rightarrow> ClaimRunning | Some r \<Rightarrow> ClaimTerminal r)))"

definition spec_claim :: "string \<Rightarrow> string \<Rightarrow> string \<Rightarrow> string \<Rightarrow> setup_cells \<Rightarrow> (setup_error, setup_claim) result \<times> setup_cells" where
  "spec_claim leaseId h i d cells = (case spec_read i d cells of
       Inl e \<Rightarrow> (Inl e, cells) | Inr (Some c) \<Rightarrow> (Inr c, cells)
     | Inr None \<Rightarrow> (Inr (ClaimAcquired leaseId), cells(i \<mapsto> (d, h, None))))"

definition spec_finish :: "string \<Rightarrow> string \<Rightarrow> string \<Rightarrow> setup_result \<Rightarrow> setup_cells \<Rightarrow> (setup_error, unit) result \<times> setup_cells" where
  "spec_finish i h d r cells = (case cells i of None \<Rightarrow> (Inl SetupConflict, cells)
     | Some (d', h', q) \<Rightarrow> if d' \<noteq> d \<or> h' \<noteq> h then (Inl SetupConflict, cells)
         else (case q of None \<Rightarrow> (Inr (), cells(i \<mapsto> (d, h, Some r)))
               | Some r' \<Rightarrow> (if r' = r then Inr () else Inl SetupConflict, cells)))"

lemma setup_cells_Some: "su_operations ts i = Some row \<Longrightarrow> setup_cells x ts i = Some (op_intent row, op_leaseHash row,
    map_option (\<lambda>_. projr (decodeCodexSetupResult x i row)) (op_terminal row))"
  by (simp add: setup_cells_def)

lemma setup_cells_None: "su_operations ts i = None \<Longrightarrow> setup_cells x ts i = None"
  by (simp add: setup_cells_def)

lemma observe_refines:
  assumes "setup_ok x ts" "su_operations ts i = Some row"
  shows "map_sum id Some (observe_operation x i d row) = spec_read i d (setup_cells x ts)"
proof (cases "op_terminal row")
  case None
  then show ?thesis by (simp add: observe_operation_def spec_read_def setup_cells_Some [OF assms(2)])
next
  case (Some s)
  with setup_okD(2) [OF assms] obtain r where "decodeCodexSetupResult x i row = Inr r" by auto
  with Some show ?thesis by (simp add: observe_operation_def spec_read_def setup_cells_Some [OF assms(2)])
qed

lemma same_result_refines:
  assumes "setup_ok x ts" "su_operations ts i = Some row" "op_terminal row \<noteq> None"
  shows "(same_result x i row r, setup_cells x ts) = spec_finish i (op_leaseHash row) (op_intent row) r (setup_cells x ts)"
proof -
  from setup_okD(2) [OF assms] assms(3) obtain q s
    where "decodeCodexSetupResult x i row = Inr q" "op_terminal row = Some s" by auto
  then show ?thesis
    by (simp add: same_result_def spec_finish_def setup_cells_Some [OF assms(2)] canonical_result_iff)
qed

lemma terminate_refines:
  assumes "operation_running i h d ts" "valid_result r" "reads_back x (setup_result_json r)"
  shows "(Inr (), setup_cells x (terminate_operation i (seal_result x nonce i d r) ts)) = spec_finish i h d r (setup_cells x ts)"
proof -
  from operation_running_row [OF assms(1)] obtain row
    where row: "su_operations ts i = Some row" "op_leaseHash row = h" "op_intent row = d" "op_terminal row = None" by blast
  have "setup_cells x (terminate_operation i (seal_result x nonce i d r) ts) = (setup_cells x ts)(i \<mapsto> (d, h, Some r))"
    using decode_sealed [OF assms(2,3), where i = i and row = row and nonce = nonce, unfolded row(3)] row
    by (simp add: setup_cells_def fun_eq_iff)
  with row show ?thesis by (simp add: spec_finish_def setup_cells_Some [OF row(1)])
qed

lemma read_refines:
  assumes "setup_ok x ts" "setup_id i" "is_digest d" "assertSetupJournalDurability m = Inr ()"
  shows "readCodexSetupOperation x m i d ts = spec_read i d (setup_cells x ts)"
proof (cases "su_operations ts i")
  case None
  with assms(2-4) show ?thesis by (simp add: readCodexSetupOperation_def spec_read_def setup_cells_None)
next
  case (Some row)
  with assms(2-4) observe_refines [OF assms(1) Some] show ?thesis by (simp add: readCodexSetupOperation_def)
qed

lemma claim_refines:
  assumes "setup_ok x ts" "setup_id i" "is_digest d" "assertSetupJournalDurability m = Inr ()"
    and "su_leases ts (setup_lease_hash x leaseId) = None" and "list_all (stmt_ok x) stmts"
    and "claimCodexSetupOperation x m leaseId (fold (setup_exec x) stmts) i d ts = (q, ts')"
  shows "\<exists>ts0 \<in> {ts, fold (setup_exec x) stmts ts}.
    (q, setup_cells x ts') = spec_claim leaseId (setup_lease_hash x leaseId) i d (setup_cells x ts0)"
proof (cases "su_operations ts i")
  case None
  with assms(2-5,7) have "q = Inr (ClaimAcquired leaseId)" "ts' = insert_operation i d (setup_lease_hash x leaseId) ts"
    by (auto simp: claimCodexSetupOperation_def Let_def)
  moreover have "spec_claim leaseId (setup_lease_hash x leaseId) i d (setup_cells x ts)
      = (Inr (ClaimAcquired leaseId), (setup_cells x ts)(i \<mapsto> (d, setup_lease_hash x leaseId, None)))"
    by (simp add: spec_claim_def spec_read_def setup_cells_None [OF None])
  ultimately show ?thesis by (intro bexI [of _ ts]) (simp_all add: setup_cells_def fun_eq_iff)
next
  case (Some row)
  let ?ts1 = "fold (setup_exec x) stmts ts"
  from setup_store.run_advances [OF Some] obtain row1 where row1: "su_operations ?ts1 i = Some row1" by blast
  with assms(2-4,7) Some have "q = observe_operation x i d row1" "ts' = ?ts1"
    by (auto simp: claimCodexSetupOperation_def Let_def)
  moreover have "spec_claim leaseId h i d cells = (case observe of Inl e \<Rightarrow> Inl e | Inr c \<Rightarrow> Inr c, cells)"
    if "map_sum id Some observe = spec_read i d cells" for h cells and observe :: "(setup_error, setup_claim) result"
    using that [symmetric] by (cases observe) (simp_all add: spec_claim_def)
  note this [OF observe_refines [OF setup_ok_fold [OF assms(1,6)] row1]]
  ultimately show ?thesis by (intro bexI [of _ ?ts1]) (auto split: sum.split)
qed

lemma operation_of_lease_ok:
  assumes "setup_ok x ts" "su_leases ts h = Some i"
  obtains row where "su_operations ts i = Some row" "op_leaseHash row = h"
    "operation_of_lease h d ts = (if op_intent row = d then Some (i, row) else None)"
  using setup_okD(3) [OF assms] assms(2) that by (force simp: operation_of_lease_def)

lemma finish_refines:
  assumes "setup_ok x ts" "setup_id leaseId" "is_digest d" "assertSetupJournalDurability m = Inr ()"
    and "su_leases ts (setup_lease_hash x leaseId) = Some i" and "list_all (stmt_ok x) stmts"
    and "parseCodexSetupResult v = Some r" and "reads_back x (setup_result_json r)"
    and "finishCodexSetupOperation x m nonce (fold (setup_exec x) stmts) leaseId d v ts = (q, ts')"
  shows "\<exists>ts0 \<in> {ts, fold (setup_exec x) stmts ts}.
    (q, setup_cells x ts') = spec_finish i (setup_lease_hash x leaseId) d r (setup_cells x ts0)"
proof -
  let ?h = "setup_lease_hash x leaseId" and ?ts1 = "fold (setup_exec x) stmts ts"
  from operation_of_lease_ok [OF assms(1,5)] obtain row where row: "su_operations ts i = Some row" "op_leaseHash row = ?h"
    "operation_of_lease ?h d ts = (if op_intent row = d then Some (i, row) else None)" .
  note run = assms(9) [unfolded finishCodexSetupOperation_def assms(4,7) row(3) Let_def, simplified assms(2,3) simp_thms if_False option.case sum.case]
  show ?thesis
  proof (cases "op_intent row = d")
    case False
    with run have "q = Inl SetupConflict" "ts' = ts" by simp_all
    with False show ?thesis
      by (intro bexI [of _ ts]) (simp_all add: spec_finish_def setup_cells_Some [OF row(1)])
  next
    case intent: True
    show ?thesis
    proof (cases "op_terminal row = None")
      case False
      with run intent have "q = same_result x i row r" "ts' = ts" by simp_all
      with same_result_refines [OF assms(1) row(1) False, of r] show ?thesis
        by (intro bexI [of _ ts]) (simp_all add: intent row(2))
    next
      case running: True
      note ok1 = setup_ok_fold [OF assms(1,6)]
      from setup_store.run_advances [OF row(1), where x = x and ops = stmts] obtain row1
        where row1: "su_operations ?ts1 i = Some row1" "op_intent row1 = d" "op_leaseHash row1 = ?h"
        by (auto simp: setup_above_def intent row(2))
      show ?thesis
      proof (cases "op_terminal row1 = None")
        case True
        with row1 have here: "operation_running i ?h d ?ts1" by (simp add: operation_running_def)
        with run intent running have "q = Inr ()" "ts' = terminate_operation i (seal_result x nonce i d r) ?ts1" by simp_all
        with terminate_refines [OF here parse_result_valid [OF assms(7)] assms(8), of nonce] show ?thesis
          by (intro bexI [of _ ?ts1]) simp_all
      next
        case False
        with row1 have "\<not> operation_running i ?h d ?ts1" by (simp add: operation_running_def)
        with run intent running row1 False have "q = same_result x i row1 r" "ts' = ?ts1" by simp_all
        with same_result_refines [OF ok1 row1(1) False, of r] show ?thesis
          by (intro bexI [of _ ?ts1]) (simp_all add: row1)
      qed
    qed
  qed
qed

text \<open>
  C17. The setup journal is a set of write-once cells.  Over a well-formed journal, for valid
  arguments and a durable connection, reading an operation is reading its cell; a claim with a
  fresh lease, and a finish by the lease that owns the operation, have the result and the effect
  of the abstract step on the cells, either as they were at the beginning or as they were after
  the statements that other processes executed in between: each operation is linearisable.
\<close>

theorem setup_journal_refines:
  assumes "setup_ok x ts" and "list_all (stmt_ok x) stmts"
    and "setup_id i" and "is_digest d" and "assertSetupJournalDurability m = Inr ()"
  shows "readCodexSetupOperation x m i d ts = spec_read i d (setup_cells x ts)
    \<and> (\<forall>leaseId q ts'. su_leases ts (setup_lease_hash x leaseId) = None
         \<and> claimCodexSetupOperation x m leaseId (fold (setup_exec x) stmts) i d ts = (q, ts') \<longrightarrow>
         (\<exists>ts0 \<in> {ts, fold (setup_exec x) stmts ts}.
            (q, setup_cells x ts') = spec_claim leaseId (setup_lease_hash x leaseId) i d (setup_cells x ts0)))
    \<and> (\<forall>leaseId nonce v r q ts'. setup_id leaseId \<and> su_leases ts (setup_lease_hash x leaseId) = Some i
         \<and> parseCodexSetupResult v = Some r \<and> reads_back x (setup_result_json r)
         \<and> finishCodexSetupOperation x m nonce (fold (setup_exec x) stmts) leaseId d v ts = (q, ts') \<longrightarrow>
         (\<exists>ts0 \<in> {ts, fold (setup_exec x) stmts ts}.
            (q, setup_cells x ts') = spec_finish i (setup_lease_hash x leaseId) d r (setup_cells x ts0)))"
  by (intro conjI allI impI; (elim conjE)?)
    (rule read_refines [OF assms(1,3-5)] claim_refines [OF assms(1,3-5) _ assms(2)]
       finish_refines [OF assms(1) _ assms(4,5) _ assms(2)]; assumption)+

lemma readiness_get:
  "getCodexSetupReadiness x receiptId i d ts = Inr (Some receipt) \<Longrightarrow>
     \<exists>row. su_receipts ts (rr_receiptId receipt) = Some i \<and> su_readiness ts i = Some row
       \<and> objectDigest (vc_host x) (rr_observation receipt) = rr_observationHash receipt \<and> rr_receiptId receipt = receiptId"
  by (auto simp: getCodexSetupReadiness_def readiness_by_receipt_def open_readiness_def split: if_splits option.splits)

lemma readiness_get_same: "readiness_by_receipt r ts2 = readiness_by_receipt r ts1 \<Longrightarrow>
    getCodexSetupReadiness x r i d ts2 = getCodexSetupReadiness x r i d ts1"
  by (simp only: getCodexSetupReadiness_def)

text \<open>
  An observation is recorded once, by the running lease.  A successful record had the running
  operation's lease, took an observation that was verified within the last minute and has not
  expired, and returns what is stored; whatever statements any process executes later, reading
  that receipt returns the same, and the observation's hash is the one that was recorded.
\<close>

theorem readiness_recorded_once:
  assumes "recordCodexSetupReadiness x m now nonce receiptId (fold (setup_exec x) before) leaseId d v ts = (Inr receipt, ts1)"
    and "ts2 = fold (setup_exec x) after ts1"
  shows "\<exists>observation i verified expires. parseLocalCodexSetupReadiness (vc_host x) v = Some observation
    \<and> text_property observation ''operationId'' = Some i
    \<and> operation_running i (setup_lease_hash x leaseId) d ts
    \<and> iso_time (vc_host x) observation ''verifiedAt'' = Some verified \<and> iso_time (vc_host x) observation ''expiresAt'' = Some expires
    \<and> verified \<le> now \<and> now \<le> verified + 60000 \<and> now < expires
    \<and> rr_observationHash receipt = objectDigest (vc_host x) observation
    \<and> objectDigest (vc_host x) (rr_observation receipt) = rr_observationHash receipt
    \<and> getCodexSetupReadiness x (rr_receiptId receipt) i d ts2 = Inr (Some receipt)"
proof -
  from assms(1) obtain observation where obs: "parseLocalCodexSetupReadiness (vc_host x) v = Some observation"
    by (simp add: recordCodexSetupReadiness_def split: option.splits)
  note run = assms(1) [unfolded recordCodexSetupReadiness_def obs option.case Let_def]
  from run obtain verified expires i where times: "iso_time (vc_host x) observation ''verifiedAt'' = Some verified"
    "iso_time (vc_host x) observation ''expiresAt'' = Some expires" "text_property observation ''operationId'' = Some i"
    by (simp split: if_splits sum.splits option.splits)
  note run1 = run [unfolded times prod.case option.case]
  let ?row = "readiness_row_of x nonce receiptId i d observation" and ?h = "setup_lease_hash x leaseId"
  from run1 have fresh: "verified \<le> now" "now \<le> verified + 60000" "now < expires" "operation_running i ?h d ts"
    by (simp_all split: if_splits sum.splits)
  from run1 fresh obtain persisted where row: "su_readiness ts1 i = Some persisted"
    and got: "getCodexSetupReadiness x (rd_receiptId persisted) i d ts1 = Inr (Some receipt)"
    and hash: "rr_observationHash receipt = rd_observationHash ?row"
    by (cases "insert_readiness i ?h d ?row (fold (setup_exec x) before ts)")
      (auto split: if_splits sum.splits option.splits)
  from readiness_get [OF got] obtain row' where row': "su_receipts ts1 (rr_receiptId receipt) = Some i" "su_readiness ts1 i = Some row'"
    "objectDigest (vc_host x) (rr_observation receipt) = rr_observationHash receipt" "rr_receiptId receipt = rd_receiptId persisted"
    by blast
  have "su_receipts ts2 (rr_receiptId receipt) = Some i" "su_readiness ts2 i = su_readiness ts1 i"
    using receipt_index.run_advances [OF row'(1), where x = x and ops = after] row'(2)
      readiness_store.run_advances [OF row'(2), where x = x and ops = after] by (auto simp: assms(2))
  with row' have "readiness_by_receipt (rr_receiptId receipt) ts2 = readiness_by_receipt (rr_receiptId receipt) ts1"
    by (simp add: readiness_by_receipt_def)
  with got row'(4) have "getCodexSetupReadiness x (rr_receiptId receipt) i d ts2 = Inr (Some receipt)"
    using readiness_get_same by metis
  with obs times fresh hash row'(3) show ?thesis by (auto simp: readiness_row_of_def Let_def sealed_text.defs)
qed

subsection \<open>Closed instances\<close>

definition empty_setup :: setup_tables where
  "empty_setup = binding_tables.extend empty_bindings
     \<lparr>su_operations = \<lambda>_. None, su_leases = \<lambda>_. None, su_readiness = \<lambda>_. None, su_receipts = \<lambda>_. None\<rparr>"

definition demo_mode :: sql_mode where
  "demo_mode = \<lparr>sm_transaction = Some False, sm_synchronous = Some 2\<rparr>"

definition demo_lease :: string where
  "demo_lease = ''00000000-0000-4000-8000-000000000001''"

definition demo_intent :: string where
  "demo_intent = ''sha256:'' @ replicate 64 (CHR ''a'')"

lemma demo_setup_facts: "assertSetupJournalDurability demo_mode = Inr ()" "setup_id demo_id" "setup_id demo_lease" "is_digest demo_intent"
  by code_simp+

definition demo_unconfirmed :: "string vault_context" where
  "demo_unconfirmed = knowing [setup_result_json SetupUnconfirmed]"

definition demo_journal :: setup_tables where
  "demo_journal = insert_operation demo_id demo_intent (setup_lease_hash demo_unconfirmed demo_lease) empty_setup"

lemma empty_setup_simps [simp]: "su_operations empty_setup = (\<lambda>_. None)" "su_leases empty_setup = (\<lambda>_. None)"
  by (simp_all add: empty_setup_def binding_tables.defs)

lemma demo_journal_ok: "setup_ok demo_unconfirmed demo_journal"
  by (simp add: setup_ok_def demo_journal_def)

text \<open>Another process ends the operation between the two statements of a finish; the finish then
  agrees with the result it finds.\<close>

theorem setup_journal_refines_witness:
  "\<exists>q ts'. finishCodexSetupOperation demo_unconfirmed demo_mode ''n''
       (fold (setup_exec demo_unconfirmed) [TerminateOperation ''o'' demo_id (setup_lease_hash demo_unconfirmed demo_lease) demo_intent SetupUnconfirmed])
       demo_lease demo_intent (setup_result_json SetupUnconfirmed) demo_journal = (q, ts')
     \<and> setup_cells demo_unconfirmed ts' demo_id \<noteq> None"
proof -
  let ?x = demo_unconfirmed and ?h = "setup_lease_hash demo_unconfirmed demo_lease"
  let ?stmts = "[TerminateOperation ''o'' demo_id ?h demo_intent SetupUnconfirmed]"
  have known: "reads_back ?x (setup_result_json SetupUnconfirmed)"
    unfolding demo_unconfirmed_def by (rule knowing_reads_back)
  then have stmts: "list_all (stmt_ok ?x) ?stmts" by simp
  obtain q ts' where run: "finishCodexSetupOperation ?x demo_mode ''n'' (fold (setup_exec ?x) ?stmts) demo_lease demo_intent
      (setup_result_json SetupUnconfirmed) demo_journal = (q, ts')" by fastforce
  have "setup_id demo_lease \<and> su_leases demo_journal ?h = Some demo_id
      \<and> parseCodexSetupResult (setup_result_json SetupUnconfirmed) = Some SetupUnconfirmed
      \<and> reads_back ?x (setup_result_json SetupUnconfirmed)
      \<and> finishCodexSetupOperation ?x demo_mode ''n'' (fold (setup_exec ?x) ?stmts) demo_lease demo_intent
          (setup_result_json SetupUnconfirmed) demo_journal = (q, ts')"
    using known run demo_setup_facts(3) parse_setup_result_json [of SetupUnconfirmed]
    by (simp only: valid_result.simps if_True simp_thms) (simp add: demo_journal_def)
  from setup_journal_refines [OF demo_journal_ok stmts demo_setup_facts(2,4,1), THEN conjunct2, THEN conjunct2, rule_format, OF this]
  obtain ts0 where ts0: "ts0 \<in> {demo_journal, fold (setup_exec ?x) ?stmts demo_journal}"
    "setup_cells ?x ts' = snd (spec_finish demo_id ?h demo_intent SetupUnconfirmed (setup_cells ?x ts0))"
    by (metis snd_conv)
  have "su_operations ts0 demo_id \<noteq> None"
    using ts0(1) setup_store.never_lost [of demo_journal demo_id _ ?x ?stmts] by (auto simp: demo_journal_def)
  then have "setup_cells ?x ts0 demo_id \<noteq> None" by (simp add: setup_cells_def)
  then have "setup_cells ?x ts' demo_id \<noteq> None"
    unfolding ts0(2) spec_finish_def by (auto split: option.split)
  with run show ?thesis by blast
qed

definition demo_readiness :: json where
  "demo_readiness = JObj ([(''schema'', JStr ''dharma.local-codex-setup-readiness/v1'')]
     @ map (\<lambda>k. (k, JStr demo_id)) readiness_ids @ map (\<lambda>k. (k, JStr demo_intent)) readiness_hashes
     @ [(''organizationId'', JStr ''org_a''), (''sessionId'', JStr ''s''), (''policyRevision'', JStr ''r1''),
        (''roleRevision'', JNum 1), (''cliVersion'', JStr ''0.2.10''), (''relayPid'', JNum 7), (''relayPolledAt'', JStr ''100''),
        (''startupBackend'', JStr ''systemd-user''), (''firstLearning'', JStr ''synchronized''), (''verifiedAt'', JStr ''110''),
        (''expiresAt'', JStr ''900'')])"

abbreviation demo_knowing :: "string vault_context" where
  "demo_knowing \<equiv> knowing [demo_readiness]"

definition demo_claimed :: setup_tables where
  "demo_claimed = insert_operation demo_id demo_intent (setup_lease_hash demo_knowing demo_lease) empty_setup"

lemma demo_readiness_ok:
  "parseLocalCodexSetupReadiness (vc_host demo_vault_context) demo_readiness = Some demo_readiness"
  "iso_time (vc_host demo_vault_context) demo_readiness ''verifiedAt'' = Some 110"
  "iso_time (vc_host demo_vault_context) demo_readiness ''expiresAt'' = Some 900"
  "text_property demo_readiness ''operationId'' = Some demo_id"
  by code_simp+

lemma readiness_row_of_simps [simp]:
  "rd_receiptId (readiness_row_of x n r i d v) = r" "rd_intent (readiness_row_of x n r i d v) = d"
  "rd_observationHash (readiness_row_of x n r i d v) = objectDigest (vc_host x) v"
  "unseal_text x aad (readiness_row_of x n r i d v)
     = unseal_text x aad (seal_text x n (readiness_aad x r i d (objectDigest (vc_host x) v)) (canonical x v))"
  by (simp_all add: readiness_row_of_def unseal_text_def sealed_text.defs Let_def)

lemma knowing_parses [simp]: "vc_parseJson (knowing [v]) (canonicalize code_unit_le v) = Some v"
  by (simp add: knowing_def)

lemma demo_open_readiness:
  "open_readiness demo_knowing r demo_id demo_intent (readiness_row_of demo_knowing n r demo_id demo_intent demo_readiness) = Some demo_readiness"
  by (simp add: open_readiness_def demo_readiness_ok)

theorem readiness_recorded_once_witness:
  "\<exists>receipt. fst (recordCodexSetupReadiness demo_knowing demo_mode 120 ''n'' demo_lease (\<lambda>ts. ts) demo_lease demo_intent demo_readiness
        demo_claimed) = Inr receipt
     \<and> getCodexSetupReadiness demo_knowing (rr_receiptId receipt) demo_id demo_intent
         (setup_exec demo_knowing (TerminateOperation ''o'' demo_id (setup_lease_hash demo_knowing demo_lease) demo_intent SetupUnconfirmed)
           (snd (recordCodexSetupReadiness demo_knowing demo_mode 120 ''n'' demo_lease (\<lambda>ts. ts) demo_lease demo_intent demo_readiness
             demo_claimed))) = Inr (Some receipt)"
proof -
  let ?x = demo_knowing and ?h = "setup_lease_hash demo_knowing demo_lease"
  let ?row = "readiness_row_of ?x ''n'' demo_lease demo_id demo_intent demo_readiness"
  have here: "operation_running demo_id ?h demo_intent demo_claimed"
    by (simp add: operation_running_def demo_claimed_def)
  have none: "su_readiness demo_claimed = (\<lambda>_. None)" "su_receipts demo_claimed = (\<lambda>_. None)"
    by (simp_all add: demo_claimed_def empty_setup_def binding_tables.defs)
  obtain receipt ts1 where run: "recordCodexSetupReadiness ?x demo_mode 120 ''n'' demo_lease (fold (setup_exec ?x) []) demo_lease demo_intent
      demo_readiness demo_claimed = (Inr receipt, ts1)"
    by (simp add: recordCodexSetupReadiness_def demo_readiness_ok demo_setup_facts here insert_readiness_def none Let_def
        getCodexSetupReadiness_def readiness_by_receipt_def demo_open_readiness)
  from readiness_recorded_once [OF run refl, of "[TerminateOperation ''o'' demo_id ?h demo_intent SetupUnconfirmed]"]
  have "getCodexSetupReadiness ?x (rr_receiptId receipt) demo_id demo_intent
     (setup_exec ?x (TerminateOperation ''o'' demo_id ?h demo_intent SetupUnconfirmed) ts1) = Inr (Some receipt)"
    by (auto simp: demo_readiness_ok)
  with run show ?thesis by (simp add: id_def [symmetric])
qed

end
