(* ===== verification/Setup_Handoff.thy ===== *)
theory Setup_Handoff
  imports Vault_Setup
begin

text \<open>
  The handoff of a setup session in packages/local-vault/src/index.ts and
  packages/local-vault/src/setupSessionHandoff.ts: the sender of a running setup operation stages
  an encrypted request, one receiver accepts it, the receiver records one result, and the sender
  may withdraw what was not accepted.  Every row carries a MAC over all of it.  As in
  \<open>Vault_Setup\<close>, \<open>gap\<close> stands for the statements of other processes.
\<close>

subsection \<open>Requests and results\<close>

text \<open>HMAC-SHA256 under the vault's master key, in hexadecimal, and the WHATWG URL parser of the
  host: protocol, origin, user name and password.\<close>

record handoff_host =
  hh_hmac :: "string \<Rightarrow> string"
  hh_url :: "string \<Rightarrow> (string \<times> string \<times> string \<times> string) option"

definition request_ids :: "string list" where
  "request_ids = [''operationId'', ''setupReference'', ''membershipId'', ''deviceId'', ''workspaceId'',
     ''repositoryBindingId'', ''endpointId'']"

definition request_hashes :: "string list" where
  "request_hashes = [''intentDigest'', ''repositoryFingerprint'', ''policyHash'', ''scopeDigest'', ''contractDigest'']"

definition request_fields :: "string list" where
  "request_fields = ''schema'' # request_ids @ request_hashes @ [''senderPid'', ''senderStartTicks'', ''organizationId'',
     ''provider'', ''origin'', ''policyRevision'', ''name'', ''workspaceRoot'', ''maximumCostCents'', ''maximumTurnCostCents'',
     ''issuedAt'', ''expiresAt'']"

definition start_ticks :: "string \<Rightarrow> bool" where
  "start_ticks s = (s \<noteq> [] \<and> length s \<le> 30 \<and> list_all is_digit s)"

definition https_origin :: "handoff_host \<Rightarrow> string \<Rightarrow> bool" where
  "https_origin k s = (length s \<le> 2048 \<and> (case hh_url k s of None \<Rightarrow> False
     | Some (protocol, origin, username, password) \<Rightarrow> protocol = ''https:'' \<and> origin = s \<and> username = [] \<and> password = []))"

definition no_control :: "char \<Rightarrow> bool" where
  "no_control c = (let n = of_char c :: nat in 31 < n \<and> n \<noteq> 127)"

definition session_root :: "string \<Rightarrow> bool" where
  "session_root s = (length s \<le> 4096 \<and> list_all no_control s \<and> isAbsolute s \<and> resolve [] s = s)"

definition parseLocalCodexSetupSessionRequest :: "'key host \<Rightarrow> handoff_host \<Rightarrow> json \<Rightarrow> json option" where
  "parseLocalCodexSetupSessionRequest h k v =
     (if \<not> has_exactly v request_fields then None
      else if text_property v ''schema'' \<noteq> Some ''dharma.local-codex-setup-session/v1''
         \<or> text_property v ''provider'' \<noteq> Some ''codex''
         \<or> \<not> int_in v ''senderPid'' 1 2147483647 \<or> \<not> texts_in v [''senderStartTicks''] start_ticks
         \<or> \<not> texts_in v request_ids setup_id \<or> \<not> texts_in v request_hashes is_digest
         \<or> \<not> texts_in v [''organizationId''] (\<lambda>s. length s \<le> 200 \<and> org_id s)
         \<or> \<not> texts_in v [''origin''] (https_origin k)
         \<or> \<not> texts_in v [''policyRevision''] policy_revision
         \<or> \<not> texts_in v [''name''] (token is_lower (\<lambda>c. is_lower c \<or> is_digit c \<or> c = CHR ''-'') 48)
         \<or> \<not> texts_in v [''workspaceRoot''] session_root
         \<or> \<not> int_in v ''maximumCostCents'' 1 10000
         \<or> \<not> int_in v ''maximumTurnCostCents'' 1 (case int_property v ''maximumCostCents'' of None \<Rightarrow> 0 | Some i \<Rightarrow> i)
      then None
      else case (iso_time h v ''issuedAt'', iso_time h v ''expiresAt'') of
        (Some issued, Some expires) \<Rightarrow>
          if expires \<le> issued \<or> 900000 < expires - issued then None else Some (pick request_fields v)
      | _ \<Rightarrow> None)"

definition started_fields :: "string list" where
  "started_fields = [''state'', ''bindingId'', ''sessionId'', ''sessionPid'', ''supervisorPid'', ''sessionStartTicks'',
     ''supervisorStartTicks'']"

definition parseLocalCodexSetupSessionResult :: "json \<Rightarrow> json option" where
  "parseLocalCodexSetupSessionResult v =
     (let keys = if text_property v ''state'' = Some ''unconfirmed'' then [''state'', ''code''] else started_fields in
      if \<not> has_exactly v keys then None
      else if text_property v ''state'' = Some ''unconfirmed'' \<and> text_property v ''code'' = Some ''session_start_unconfirmed''
      then Some (pick keys v)
      else if text_property v ''state'' \<noteq> Some ''started'' \<or> \<not> texts_in v [''bindingId''] setup_id
         \<or> \<not> texts_in v [''sessionId''] session_token
         \<or> \<not> int_in v ''sessionPid'' 1 2147483647 \<or> \<not> int_in v ''supervisorPid'' 1 2147483647
         \<or> \<not> texts_in v [''sessionStartTicks'', ''supervisorStartTicks''] start_ticks
      then None else Some (pick keys v))"

subsection \<open>Rows\<close>

datatype handoff_state = HandoffPending | HandoffAccepted | HandoffWithdrawn

fun handoff_state_name :: "handoff_state \<Rightarrow> string" where
  "handoff_state_name HandoffPending = ''pending''"
| "handoff_state_name HandoffAccepted = ''accepted''"
| "handoff_state_name HandoffWithdrawn = ''withdrawn''"

record handoff_row =
  hr_intent :: string
  hr_sender :: string
  hr_request :: string
  hr_expiresAt :: string
  hr_state :: handoff_state
  hr_mac :: string
  hr_acceptance :: "string option"
  hr_acceptedAt :: "string option"
  hr_sealedRequest :: sealed_text
  hr_sealedResult :: "sealed_text option"
  hr_recordedAt :: "string option"

record handoff_tables = setup_tables +
  ha_sessions :: "string \<rightharpoonup> handoff_row"

definition blob_part :: "string option \<Rightarrow> string" where
  "blob_part v = (case v of None \<Rightarrow> ''-1:'' | Some s \<Rightarrow> nat_string (length s) @ '':'' @ s)"

definition sealed_parts :: "sealed_text option \<Rightarrow> string" where
  "sealed_parts s = concat (map (\<lambda>f. blob_part (map_option f s)) [st_nonce, st_tag, st_ciphertext])"

definition json_or_null :: "string option \<Rightarrow> json" where
  "json_or_null v = (case v of None \<Rightarrow> JNull | Some s \<Rightarrow> JStr s)"

definition handoff_state_json :: "'key vault_context \<Rightarrow> string \<Rightarrow> handoff_row \<Rightarrow> json" where
  "handoff_state_json x operationId row =
     (let timed = hr_acceptedAt row \<noteq> None \<or> hr_recordedAt row \<noteq> None in JObj
       ([(''schema'', JStr (if timed then ''dharma.local-setup-session-state/v2'' else ''dharma.local-setup-session-state/v1'')),
         (''operationId'', JStr operationId), (''intentDigest'', JStr (hr_intent row)), (''senderHash'', JStr (hr_sender row)),
         (''requestHash'', JStr (hr_request row)), (''expiresAt'', JStr (hr_expiresAt row)),
         (''state'', JStr (handoff_state_name (hr_state row))), (''acceptanceHash'', json_or_null (hr_acceptance row))]
        @ (if timed then [(''acceptedAt'', json_or_null (hr_acceptedAt row)), (''resultRecordedAt'', json_or_null (hr_recordedAt row))] else [])
        @ [(''ciphertextHash'', JStr (sha256Hex (vc_host x)
             (sealed_parts (Some (hr_sealedRequest row)) @ sealed_parts (hr_sealedResult row))))]))"

definition setupSessionStateMac :: "'key vault_context \<Rightarrow> handoff_host \<Rightarrow> string \<Rightarrow> handoff_row \<Rightarrow> string" where
  "setupSessionStateMac x k operationId row = hh_hmac k (canonical x (handoff_state_json x operationId row))"

definition authenticate_row :: "'key vault_context \<Rightarrow> handoff_host \<Rightarrow> string \<Rightarrow> handoff_row \<Rightarrow> handoff_row" where
  "authenticate_row x k operationId row = row\<lparr>hr_mac := setupSessionStateMac x k operationId row\<rparr>"

definition request_aad :: "string \<Rightarrow> string \<Rightarrow> string \<Rightarrow> string \<Rightarrow> string" where
  "request_aad what operationId intentDigest requestHash =
     what @ '':'' @ operationId @ '':'' @ intentDigest @ '':'' @ requestHash"

record handoff_observation =
  ho_state :: handoff_state
  ho_request :: json
  ho_acceptedAt :: "string option"
  ho_result :: "json option"
  ho_recordedAt :: "string option"

definition exact_time :: "'key host \<Rightarrow> string option \<Rightarrow> int option" where
  "exact_time h v = (case v of None \<Rightarrow> None | Some s \<Rightarrow>
     (case dateParse h s of None \<Rightarrow> None | Some t \<Rightarrow> if isoString h t = s then Some t else None))"

definition opens_to :: "'key vault_context \<Rightarrow> string \<Rightarrow> sealed_text \<Rightarrow> (json \<Rightarrow> json option) \<Rightarrow> json option" where
  "opens_to x aad sealed parse = (case unseal_text x aad sealed of None \<Rightarrow> None | Some plaintext \<Rightarrow>
     (case vc_parseJson x plaintext of None \<Rightarrow> None | Some v \<Rightarrow> parse v))"

definition request_matches :: "'key vault_context \<Rightarrow> string \<Rightarrow> handoff_row \<Rightarrow> json \<Rightarrow> bool" where
  "request_matches x operationId row request =
     (text_property request ''operationId'' = Some operationId
      \<and> text_property request ''intentDigest'' = Some (hr_intent row)
      \<and> text_property request ''expiresAt'' = Some (hr_expiresAt row)
      \<and> objectDigest (vc_host x) request = hr_request row)"

text \<open>The time at which a row was accepted, and the time its result was recorded, are within the
  request's window; rows from before these columns existed have neither.\<close>

definition accepted_in_window :: "'key host \<Rightarrow> json \<Rightarrow> handoff_row \<Rightarrow> bool" where
  "accepted_in_window h request row =
     (if hr_state row = HandoffAccepted
      then hr_acceptedAt row = None \<and> hr_recordedAt row = None
        \<or> (case (exact_time h (hr_acceptedAt row), iso_time h request ''issuedAt'', iso_time h request ''expiresAt'') of
             (Some accepted, Some issued, Some expires) \<Rightarrow> issued \<le> accepted \<and> accepted < expires | _ \<Rightarrow> False)
      else hr_acceptedAt row = None \<and> hr_recordedAt row = None)"

definition recorded_in_window :: "'key host \<Rightarrow> json \<Rightarrow> handoff_row \<Rightarrow> bool" where
  "recorded_in_window h request row =
     (if hr_sealedResult row = None then hr_recordedAt row = None
      else hr_acceptedAt row = None \<and> hr_recordedAt row = None
        \<or> (case (exact_time h (hr_acceptedAt row), exact_time h (hr_recordedAt row), iso_time h request ''expiresAt'') of
             (Some accepted, Some recorded, Some expires) \<Rightarrow> accepted \<le> recorded \<and> recorded < expires | _ \<Rightarrow> False))"

definition decode_handoff :: "'key vault_context \<Rightarrow> handoff_host \<Rightarrow> string \<Rightarrow> handoff_row \<Rightarrow> handoff_observation option" where
  "decode_handoff x k operationId row =
     (if length (hr_mac row) \<noteq> 64 \<or> \<not> list_all is_lower_hex (hr_mac row) \<or> hr_mac row \<noteq> setupSessionStateMac x k operationId row
      then None
      else if (if hr_state row = HandoffAccepted
               then (case hr_acceptance row of None \<Rightarrow> True | Some a \<Rightarrow> \<not> is_digest a) else hr_acceptance row \<noteq> None)
      then None
      else case opens_to x (request_aad ''setup-session-request'' operationId (hr_intent row) (hr_request row)) (hr_sealedRequest row)
             (parseLocalCodexSetupSessionRequest (vc_host x) k) of None \<Rightarrow> None | Some request \<Rightarrow>
      if \<not> request_matches x operationId row request \<or> \<not> accepted_in_window (vc_host x) request row then None
      else case hr_sealedResult row of
        None \<Rightarrow> if \<not> recorded_in_window (vc_host x) request row then None
          else Some \<lparr>ho_state = hr_state row, ho_request = request, ho_acceptedAt = hr_acceptedAt row, ho_result = None,
                 ho_recordedAt = hr_recordedAt row\<rparr>
      | Some sealed \<Rightarrow>
          if hr_state row \<noteq> HandoffAccepted then None
          else case opens_to x (request_aad ''setup-session-result'' operationId (hr_intent row) (hr_request row)) sealed
                 parseLocalCodexSetupSessionResult of None \<Rightarrow> None | Some r \<Rightarrow>
          if \<not> recorded_in_window (vc_host x) request row then None
          else Some \<lparr>ho_state = hr_state row, ho_request = request, ho_acceptedAt = hr_acceptedAt row, ho_result = Some r,
                 ho_recordedAt = hr_recordedAt row\<rparr>)"

definition decodeSetupSession ::
  "'key vault_context \<Rightarrow> handoff_host \<Rightarrow> string \<Rightarrow> handoff_row \<Rightarrow> (setup_error, handoff_observation) result" where
  "decodeSetupSession x k operationId row =
     (case decode_handoff x k operationId row of None \<Rightarrow> Inl SetupIntegrity | Some obs \<Rightarrow> Inr obs)"

subsection \<open>Statements\<close>

definition with_session :: "string \<Rightarrow> handoff_row \<Rightarrow> 'a handoff_tables_scheme \<Rightarrow> 'a handoff_tables_scheme" where
  "with_session operationId row ts = ts\<lparr>ha_sessions := (ha_sessions ts)(operationId \<mapsto> row)\<rparr>"

definition insert_session :: "string \<Rightarrow> handoff_row \<Rightarrow> 'a handoff_tables_scheme \<Rightarrow> 'a handoff_tables_scheme" where
  "insert_session operationId row ts = (if ha_sessions ts operationId = None then with_session operationId row ts else ts)"

text \<open>The row that a sender's handle stands for.\<close>

definition is_staged_by :: "string \<Rightarrow> string \<Rightarrow> string \<Rightarrow> handoff_row \<Rightarrow> bool" where
  "is_staged_by intentDigest senderHash requestHash row =
     (hr_intent row = intentDigest \<and> hr_sender row = senderHash \<and> hr_request row = requestHash)"

definition withdraw_session ::
  "string \<Rightarrow> string \<Rightarrow> string \<Rightarrow> string \<Rightarrow> handoff_row \<Rightarrow> string \<Rightarrow> 'a handoff_tables_scheme \<Rightarrow> 'a handoff_tables_scheme" where
  "withdraw_session operationId intentDigest senderHash requestHash seen mac ts =
     (case ha_sessions ts operationId of None \<Rightarrow> ts | Some row \<Rightarrow>
        if is_staged_by intentDigest senderHash requestHash row \<and> hr_state row = HandoffPending \<and> hr_mac row = hr_mac seen
        then with_session operationId (row\<lparr>hr_state := HandoffWithdrawn, hr_mac := mac\<rparr>) ts else ts)"

definition accept_session ::
  "'key vault_context \<Rightarrow> handoff_host \<Rightarrow> string \<Rightarrow> string \<Rightarrow> string \<Rightarrow> string \<Rightarrow> string \<Rightarrow> string \<Rightarrow> string
     \<Rightarrow> 'a handoff_tables_scheme \<Rightarrow> 'a handoff_tables_scheme option" where
  "accept_session x k operationId intentDigest requestHash issuedAt mac tokenHash clock ts =
     (case (ha_sessions ts operationId, su_operations ts operationId) of
        (Some row, Some operation) \<Rightarrow>
          if hr_intent row = intentDigest \<and> hr_request row = requestHash \<and> hr_state row = HandoffPending
             \<and> \<not> sql_less clock issuedAt \<and> sql_less clock (hr_expiresAt row) \<and> hr_mac row = mac
             \<and> op_intent operation = intentDigest \<and> op_terminal operation = None
          then Some (with_session operationId (authenticate_row x k operationId
                 (row\<lparr>hr_state := HandoffAccepted, hr_acceptance := Some tokenHash, hr_acceptedAt := Some clock\<rparr>)) ts)
          else None
      | _ \<Rightarrow> None)"

definition record_session ::
  "'key vault_context \<Rightarrow> handoff_host \<Rightarrow> string \<Rightarrow> string \<Rightarrow> string \<Rightarrow> string \<Rightarrow> sealed_text \<Rightarrow> string
     \<Rightarrow> 'a handoff_tables_scheme \<Rightarrow> 'a handoff_tables_scheme option" where
  "record_session x k operationId intentDigest tokenHash mac sealed clock ts =
     (case ha_sessions ts operationId of None \<Rightarrow> None | Some row \<Rightarrow>
        if hr_intent row = intentDigest \<and> hr_acceptance row = Some tokenHash \<and> hr_state row = HandoffAccepted
           \<and> hr_sealedResult row = None
           \<and> (case hr_acceptedAt row of None \<Rightarrow> False | Some a \<Rightarrow> \<not> sql_less clock a)
           \<and> sql_less clock (hr_expiresAt row) \<and> hr_mac row = mac
        then Some (with_session operationId (authenticate_row x k operationId
               (row\<lparr>hr_sealedResult := Some sealed, hr_recordedAt := Some clock\<rparr>)) ts)
        else None)"

subsection \<open>Operations\<close>

record handoff_handle =
  hl_operationId :: string
  hl_intentDigest :: string
  hl_senderHash :: string
  hl_requestHash :: string

definition withdraw_handoff ::
  "'key vault_context \<Rightarrow> handoff_host \<Rightarrow> bool \<Rightarrow> ('a handoff_tables_scheme \<Rightarrow> 'a handoff_tables_scheme) \<Rightarrow> handoff_handle
     \<Rightarrow> 'a handoff_tables_scheme \<Rightarrow> (setup_error, unit) result \<times> 'a handoff_tables_scheme" where
  "withdraw_handoff x k inTransaction gap l ts =
     (if inTransaction then (Inl HandoffCleanupUnconfirmed, ts)
      else case ha_sessions ts (hl_operationId l) of None \<Rightarrow> (Inr (), ts)
      | Some row \<Rightarrow>
        if \<not> is_staged_by (hl_intentDigest l) (hl_senderHash l) (hl_requestHash l) row then (Inr (), ts)
        else case decodeSetupSession x k (hl_operationId l) row of Inl e \<Rightarrow> (Inl e, ts)
        | Inr _ \<Rightarrow> if hr_state row \<noteq> HandoffPending then (Inr (), ts)
            else (Inr (), withdraw_session (hl_operationId l) (hl_intentDigest l) (hl_senderHash l) (hl_requestHash l) row
                   (setupSessionStateMac x k (hl_operationId l) (row\<lparr>hr_state := HandoffWithdrawn\<rparr>)) (gap ts)))"

definition stageCodexSetupSession ::
  "'key vault_context \<Rightarrow> handoff_host \<Rightarrow> sql_mode \<Rightarrow> int \<Rightarrow> string \<Rightarrow> ('a handoff_tables_scheme \<Rightarrow> 'a handoff_tables_scheme)
     \<Rightarrow> string \<Rightarrow> string \<Rightarrow> json \<Rightarrow> 'a handoff_tables_scheme \<Rightarrow> (setup_error, handoff_handle) result \<times> 'a handoff_tables_scheme" where
  "stageCodexSetupSession x k m now nonce gap leaseId intentDigest v ts =
     (case parseLocalCodexSetupSessionRequest (vc_host x) k v of None \<Rightarrow> (Inl HandoffInvalid, ts) | Some request \<Rightarrow>
      (case (text_property request ''operationId'', text_property request ''expiresAt'',
             iso_time (vc_host x) request ''issuedAt'', iso_time (vc_host x) request ''expiresAt'') of
        (Some operationId, Some expiresAt, Some issued, Some expires) \<Rightarrow>
          if \<not> setup_id leaseId \<or> \<not> is_digest intentDigest \<or> text_property request ''intentDigest'' \<noteq> Some intentDigest
             \<or> now < issued \<or> expires \<le> now
          then (Inl HandoffInvalid, ts)
          else case assertSetupJournalDurability m of Inl e \<Rightarrow> (Inl e, ts) | Inr _ \<Rightarrow>
          let senderHash = setup_lease_hash x leaseId in
          (case operation_of_lease senderHash intentDigest ts of None \<Rightarrow> (Inl SetupConflict, ts)
           | Some (owner, operation) \<Rightarrow>
             if owner \<noteq> operationId \<or> op_terminal operation \<noteq> None then (Inl SetupConflict, ts)
             else
               let requestHash = objectDigest (vc_host x) request;
                   handle = \<lparr>hl_operationId = operationId, hl_intentDigest = intentDigest, hl_senderHash = senderHash,
                             hl_requestHash = requestHash\<rparr> in
               let row = authenticate_row x k operationId
                       \<lparr>hr_intent = intentDigest, hr_sender = senderHash, hr_request = requestHash, hr_expiresAt = expiresAt,
                        hr_state = HandoffPending, hr_mac = [], hr_acceptance = None, hr_acceptedAt = None,
                        hr_sealedRequest = seal_text x nonce (request_aad ''setup-session-request'' operationId intentDigest requestHash)
                          (canonical x request),
                        hr_sealedResult = None, hr_recordedAt = None\<rparr>;
                     ts1 = gap (insert_session operationId row (gap ts)) in
                 (case ha_sessions ts1 operationId of None \<Rightarrow> (Inl SetupConflict, ts1)
                  | Some stored \<Rightarrow>
                    if \<not> is_staged_by intentDigest senderHash requestHash stored then (Inl SetupConflict, ts1)
                    else (map_sum id (\<lambda>_. handle) (decodeSetupSession x k operationId stored), ts1)))
      | _ \<Rightarrow> (Inl HandoffInvalid, ts)))"

definition readCodexSetupSession ::
  "'key vault_context \<Rightarrow> handoff_host \<Rightarrow> sql_mode \<Rightarrow> string \<Rightarrow> string \<Rightarrow> 'a handoff_tables_scheme
     \<Rightarrow> (setup_error, handoff_observation option) result" where
  "readCodexSetupSession x k m operationId intentDigest ts =
     (if \<not> setup_id operationId \<or> \<not> is_digest intentDigest then Inl HandoffInvalid
      else case assertSetupJournalDurability m of Inl e \<Rightarrow> Inl e | Inr _ \<Rightarrow>
      (case ha_sessions ts operationId of None \<Rightarrow> Inr None
       | Some row \<Rightarrow> if hr_intent row \<noteq> intentDigest then Inl SetupConflict
           else map_sum id Some (decodeSetupSession x k operationId row)))"

text \<open>\<open>ids\<close> are the keys of the table in their order.\<close>

definition listPendingCodexSetupSessions ::
  "'key host \<Rightarrow> sql_mode \<Rightarrow> int \<Rightarrow> int \<Rightarrow> string list \<Rightarrow> 'a handoff_tables_scheme \<Rightarrow> (setup_error, (string \<times> string) list) result" where
  "listPendingCodexSetupSessions h m limit now ids ts =
     (if limit < 1 \<or> 50 < limit then Inl HandoffInvalid
      else case assertSetupJournalDurability m of Inl e \<Rightarrow> Inl e | Inr _ \<Rightarrow>
        Inr (take (nat limit) (concat (map (\<lambda>i. case ha_sessions ts i of None \<Rightarrow> []
          | Some row \<Rightarrow> if hr_state row = HandoffPending \<and> sql_less (isoString h now) (hr_expiresAt row)
              then [(i, hr_intent row)] else []) ids))))"

record handoff_acceptance =
  hq_operationId :: string
  hq_intentDigest :: string
  hq_requestHash :: string
  hq_tokenHash :: string
  hq_request :: json

definition acceptCodexSetupSession ::
  "'key vault_context \<Rightarrow> handoff_host \<Rightarrow> sql_mode \<Rightarrow> int \<Rightarrow> int \<Rightarrow> string \<Rightarrow> ('a handoff_tables_scheme \<Rightarrow> 'a handoff_tables_scheme)
     \<Rightarrow> string \<Rightarrow> string \<Rightarrow> string \<Rightarrow> 'a handoff_tables_scheme
     \<Rightarrow> (setup_error, handoff_acceptance option) result \<times> 'a handoff_tables_scheme" where
  "acceptCodexSetupSession x k m now clock uuid gap operationId intentDigest requestHash ts =
     (if \<not> setup_id operationId \<or> \<not> is_digest intentDigest \<or> \<not> is_digest requestHash then (Inl HandoffInvalid, ts)
      else case assertSetupJournalDurability m of Inl e \<Rightarrow> (Inl e, ts) | Inr _ \<Rightarrow>
      (case ha_sessions ts operationId of None \<Rightarrow> (Inr None, ts) | Some row \<Rightarrow>
       if hr_intent row \<noteq> intentDigest then (Inl SetupConflict, ts)
       else case decodeSetupSession x k operationId row of Inl e \<Rightarrow> (Inl e, ts)
       | Inr obs \<Rightarrow>
         (case (text_property (ho_request obs) ''issuedAt'', iso_time (vc_host x) (ho_request obs) ''expiresAt'') of
            (Some issuedAt, Some expires) \<Rightarrow>
              if ho_state obs \<noteq> HandoffPending \<or> objectDigest (vc_host x) (ho_request obs) \<noteq> requestHash \<or> expires \<le> now
              then (Inr None, ts)
              else
                let tokenHash = sha256 (vc_host x) uuid; ts1 = gap ts in
                (case accept_session x k operationId intentDigest requestHash issuedAt (hr_mac row) tokenHash
                        (isoString (vc_host x) clock) ts1 of
                   None \<Rightarrow> (Inr None, ts1)
                 | Some ts2 \<Rightarrow> (Inr (Some \<lparr>hq_operationId = operationId, hq_intentDigest = intentDigest,
                     hq_requestHash = requestHash, hq_tokenHash = tokenHash, hq_request = ho_request obs\<rparr>), ts2))
          | _ \<Rightarrow> (Inl SetupIntegrity, ts))))"

definition is_accepted_by :: "handoff_acceptance \<Rightarrow> handoff_row \<Rightarrow> bool" where
  "is_accepted_by q row = (hr_intent row = hq_intentDigest q \<and> hr_acceptance row = Some (hq_tokenHash q)
     \<and> hr_state row = HandoffAccepted)"

definition seal_handoff_result :: "'key vault_context \<Rightarrow> string \<Rightarrow> handoff_acceptance \<Rightarrow> json \<Rightarrow> sealed_text" where
  "seal_handoff_result x nonce q r =
     seal_text x nonce (request_aad ''setup-session-result'' (hq_operationId q) (hq_intentDigest q) (hq_requestHash q)) (canonical x r)"

definition record_handoff_result ::
  "'key vault_context \<Rightarrow> handoff_host \<Rightarrow> sql_mode \<Rightarrow> int \<Rightarrow> string \<Rightarrow> ('a handoff_tables_scheme \<Rightarrow> 'a handoff_tables_scheme)
     \<Rightarrow> handoff_acceptance \<Rightarrow> json \<Rightarrow> 'a handoff_tables_scheme \<Rightarrow> (setup_error, unit) result \<times> 'a handoff_tables_scheme" where
  "record_handoff_result x k m clock nonce gap q v ts =
     (case parseLocalCodexSetupSessionResult v of None \<Rightarrow> (Inl HandoffInvalid, ts) | Some r \<Rightarrow>
      (case assertSetupJournalDurability m of Inl e \<Rightarrow> (Inl e, ts) | Inr _ \<Rightarrow>
      (case ha_sessions ts (hq_operationId q) of None \<Rightarrow> (Inl SetupConflict, ts) | Some row \<Rightarrow>
       if \<not> is_accepted_by q row then (Inl SetupConflict, ts)
       else case decodeSetupSession x k (hq_operationId q) row of Inl e \<Rightarrow> (Inl e, ts)
       | Inr current \<Rightarrow>
         (case ho_result current of
            Some r' \<Rightarrow> (if canonical x r' \<noteq> canonical x r then Inl SetupConflict else Inr (), ts)
          | None \<Rightarrow>
            if hr_acceptedAt row = None then (Inl HandoffScopeUnavailable, ts)
            else let ts1 = gap ts in
              (case record_session x k (hq_operationId q) (hq_intentDigest q) (hq_tokenHash q) (hr_mac row)
                      (seal_handoff_result x nonce q r) (isoString (vc_host x) clock) ts1 of
                 Some ts2 \<Rightarrow> (Inr (), ts2)
               | None \<Rightarrow>
                 (case ha_sessions ts1 (hq_operationId q) of None \<Rightarrow> (Inl HandoffScopeUnavailable, ts1)
                  | Some reconciled \<Rightarrow>
                    if \<not> is_accepted_by q reconciled then (Inl HandoffScopeUnavailable, ts1)
                    else case decodeSetupSession x k (hq_operationId q) reconciled of Inl e \<Rightarrow> (Inl e, ts1)
                    | Inr observed \<Rightarrow> (case ho_result observed of None \<Rightarrow> (Inl HandoffScopeUnavailable, ts1)
                        | Some r' \<Rightarrow> (if canonical x r' = canonical x r then Inr () else Inl HandoffScopeUnavailable, ts1))))))))"

subsection \<open>Statements of all processes\<close>

datatype handoff_stmt =
    SetupStatement setup_stmt
  | InsertSession string handoff_row
  | WithdrawSession string string string string handoff_row string
  | AcceptSession string string string string string string string
  | RecordSession string string string string sealed_text string

definition applied :: "'a option \<Rightarrow> 'a \<Rightarrow> 'a" where
  "applied r ts = (case r of None \<Rightarrow> ts | Some ts' \<Rightarrow> ts')"

fun handoff_exec :: "'key vault_context \<Rightarrow> handoff_host \<Rightarrow> handoff_stmt \<Rightarrow> 'a handoff_tables_scheme \<Rightarrow> 'a handoff_tables_scheme" where
  "handoff_exec x k (SetupStatement s) ts = setup_exec x s ts"
| "handoff_exec x k (InsertSession i row) ts = insert_session i row ts"
| "handoff_exec x k (WithdrawSession i d sender request seen mac) ts = withdraw_session i d sender request seen mac ts"
| "handoff_exec x k (AcceptSession i d request issuedAt mac tokenHash clock) ts =
     applied (accept_session x k i d request issuedAt mac tokenHash clock ts) ts"
| "handoff_exec x k (RecordSession i d tokenHash mac sealed clock) ts =
     applied (record_session x k i d tokenHash mac sealed clock ts) ts"

definition decided :: "handoff_row \<Rightarrow> bool" where
  "decided row = (hr_state row = HandoffWithdrawn \<or> hr_state row = HandoffAccepted \<and> hr_sealedResult row \<noteq> None)"

text \<open>A row keeps its request; once accepted or withdrawn its state is final, and with a result, or
  withdrawn, the whole row is.\<close>

definition handoff_above :: "handoff_row \<Rightarrow> handoff_row \<Rightarrow> bool" where
  "handoff_above row row' = ((decided row \<longrightarrow> row' = row)
     \<and> (hr_intent row', hr_sender row', hr_request row', hr_expiresAt row', hr_sealedRequest row')
        = (hr_intent row, hr_sender row, hr_request row, hr_expiresAt row, hr_sealedRequest row)
     \<and> (hr_state row \<noteq> HandoffPending \<longrightarrow>
          (hr_state row', hr_acceptance row', hr_acceptedAt row') = (hr_state row, hr_acceptance row, hr_acceptedAt row)))"

lemma handoff_above_refl: "handoff_above row row"
  by (simp add: handoff_above_def)

lemma handoff_above_trans:
  assumes "handoff_above u v" "handoff_above v w"
  shows "handoff_above u w"
  using assms unfolding handoff_above_def by (auto simp del: not_None_eq)

lemma with_session_simps [simp]:
  "ha_sessions (with_session i row ts) = (ha_sessions ts)(i \<mapsto> row)"
  "su_operations (with_session i row ts) = su_operations ts"
  by (simp_all add: with_session_def)

lemma authenticate_row_simps [simp]:
  "hr_intent (authenticate_row x k i row) = hr_intent row" "hr_sender (authenticate_row x k i row) = hr_sender row"
  "hr_request (authenticate_row x k i row) = hr_request row" "hr_expiresAt (authenticate_row x k i row) = hr_expiresAt row"
  "hr_state (authenticate_row x k i row) = hr_state row" "hr_acceptance (authenticate_row x k i row) = hr_acceptance row"
  "hr_acceptedAt (authenticate_row x k i row) = hr_acceptedAt row"
  "hr_sealedRequest (authenticate_row x k i row) = hr_sealedRequest row"
  "hr_sealedResult (authenticate_row x k i row) = hr_sealedResult row"
  "hr_recordedAt (authenticate_row x k i row) = hr_recordedAt row"
  by (simp_all add: authenticate_row_def)

lemma setup_exec_sessions [simp]:
  fixes ts :: "'a handoff_tables_scheme"
  shows "ha_sessions (setup_exec x s ts) = ha_sessions ts"
  by (cases s) (auto simp: insert_operation_def terminate_operation_def insert_readiness_def split: option.split)

lemma accept_session_Some:
  "accept_session x k i d request issuedAt mac tokenHash clock ts = Some ts' \<Longrightarrow>
     \<exists>row operation. ha_sessions ts i = Some row \<and> hr_state row = HandoffPending \<and> hr_intent row = d \<and> hr_request row = request
       \<and> \<not> sql_less clock issuedAt \<and> sql_less clock (hr_expiresAt row)
       \<and> su_operations ts i = Some operation \<and> op_intent operation = d \<and> op_terminal operation = None
       \<and> ts' = with_session i (authenticate_row x k i
             (row\<lparr>hr_state := HandoffAccepted, hr_acceptance := Some tokenHash, hr_acceptedAt := Some clock\<rparr>)) ts"
  by (auto simp: accept_session_def split: option.splits if_splits)

lemma record_session_Some:
  "record_session x k i d tokenHash mac sealed clock ts = Some ts' \<Longrightarrow>
     \<exists>row. ha_sessions ts i = Some row \<and> hr_state row = HandoffAccepted \<and> hr_intent row = d \<and> hr_acceptance row = Some tokenHash
       \<and> hr_sealedResult row = None \<and> sql_less clock (hr_expiresAt row)
       \<and> ts' = with_session i (authenticate_row x k i (row\<lparr>hr_sealedResult := Some sealed, hr_recordedAt := Some clock\<rparr>)) ts"
  by (auto simp: record_session_def split: option.splits if_splits)

lemma with_session_advances:
  assumes "ha_sessions ts i = Some row" "ha_sessions ts j = Some old" "handoff_above old new"
  shows "\<exists>row'. ha_sessions (with_session j new ts) i = Some row' \<and> handoff_above row row'"
  using assms by (auto simp: handoff_above_refl)

lemma handoff_exec_advances:
  assumes "ha_sessions ts i = Some row"
  shows "\<exists>row'. ha_sessions (handoff_exec x k op ts) i = Some row' \<and> handoff_above row row'"
proof -
  have same: ?thesis if "ha_sessions (handoff_exec x k op ts) = ha_sessions ts"
    using assms that handoff_above_refl by auto
  show ?thesis
  proof (cases op)
    case (SetupStatement s)
    then show ?thesis by (intro same) simp
  next
    case (InsertSession j new)
    then show ?thesis using assms by (auto simp: insert_session_def handoff_above_refl)
  next
    case (WithdrawSession j d sender request seen mac)
    show ?thesis
    proof (cases "handoff_exec x k op ts = ts")
      case False
      then obtain old where "ha_sessions ts j = Some old" "hr_state old = HandoffPending"
        "handoff_exec x k op ts = with_session j (old\<lparr>hr_state := HandoffWithdrawn, hr_mac := mac\<rparr>) ts"
        by (auto simp: WithdrawSession withdraw_session_def split: option.splits if_splits)
      then show ?thesis using with_session_advances [OF assms] by (simp add: handoff_above_def decided_def)
    next
      case True
      then show ?thesis by (intro same) simp
    qed
  next
    case (AcceptSession j d request issuedAt mac tokenHash clock)
    show ?thesis
    proof (cases "accept_session x k j d request issuedAt mac tokenHash clock ts")
      case (Some ts')
      from accept_session_Some [OF Some] obtain old where "ha_sessions ts j = Some old" "hr_state old = HandoffPending"
        "ts' = with_session j (authenticate_row x k j
             (old\<lparr>hr_state := HandoffAccepted, hr_acceptance := Some tokenHash, hr_acceptedAt := Some clock\<rparr>)) ts" by blast
      then show ?thesis using with_session_advances [OF assms] Some
        by (simp add: AcceptSession applied_def handoff_above_def decided_def)
    next
      case None
      then show ?thesis by (intro same) (simp add: AcceptSession applied_def)
    qed
  next
    case (RecordSession j d tokenHash mac sealed clock)
    show ?thesis
    proof (cases "record_session x k j d tokenHash mac sealed clock ts")
      case (Some ts')
      from record_session_Some [OF Some] obtain old where "ha_sessions ts j = Some old" "hr_state old = HandoffAccepted"
        "hr_sealedResult old = None"
        "ts' = with_session j (authenticate_row x k j (old\<lparr>hr_sealedResult := Some sealed, hr_recordedAt := Some clock\<rparr>)) ts" by blast
      then show ?thesis using with_session_advances [OF assms] Some
        by (simp add: RecordSession applied_def handoff_above_def decided_def)
    next
      case None
      then show ?thesis by (intro same) (simp add: RecordSession applied_def)
    qed
  qed
qed

interpretation handoff_store: advancing_store "\<lambda>ts i. ha_sessions ts i" "handoff_exec x hh" handoff_above for x hh
proof unfold_locales
  show "handoff_above row row" for row by (rule handoff_above_refl)
  show "handoff_above u w" if "handoff_above u v" "handoff_above v w" for u v w
    using that by (rule handoff_above_trans)
  fix ts :: "'c handoff_tables_scheme" and i row op
  assume row: "ha_sessions ts i = Some row"
  then show "\<exists>row'. ha_sessions (handoff_exec x hh op ts) i = Some row' \<and> handoff_above row row'"
    by (rule handoff_exec_advances)
qed

subsection \<open>Decisions are final\<close>

lemma accept_handoff_cases:
  assumes "acceptCodexSetupSession x k m now clock uuid gap i d request ts = (Inr (Some q), ts1)"
  obtains row obs where "ha_sessions ts i = Some row" "decodeSetupSession x k i row = Inr obs" "ho_state obs = HandoffPending"
    "accept_session x k i d request (the (text_property (ho_request obs) ''issuedAt'')) (hr_mac row) (sha256 (vc_host x) uuid)
       (isoString (vc_host x) clock) (gap ts) = Some ts1"
    "q = \<lparr>hq_operationId = i, hq_intentDigest = d, hq_requestHash = request, hq_tokenHash = sha256 (vc_host x) uuid,
          hq_request = ho_request obs\<rparr>"
  using assms by (auto simp: acceptCodexSetupSession_def Let_def split: if_splits sum.splits option.splits)

lemma decode_state: "decodeSetupSession x k i row = Inr obs \<Longrightarrow> ho_state obs = hr_state row"
  by (auto simp: decodeSetupSession_def decode_handoff_def split: if_splits option.splits)

text \<open>
  C18. A setup session is accepted once.  A successful acceptance found the pending request of a
  running operation inside the request's window; whatever statements any process executes
  afterwards, withdrawals and other acceptances included, the row stays accepted by the same
  token, the request is never offered to another receiver, and the sender's withdrawal leaves it.
\<close>

theorem handoff_accepted_once:
  assumes "acceptCodexSetupSession x k m now clock uuid (fold (handoff_exec x k) before) i d request ts = (Inr (Some q), ts1)"
    and "ts2 = fold (handoff_exec x k) after ts1"
  shows "(\<exists>row. ha_sessions ts i = Some row \<and> hr_state row = HandoffPending \<and> sql_less (isoString (vc_host x) clock) (hr_expiresAt row))
    \<and> (\<exists>operation. su_operations (fold (handoff_exec x k) before ts) i = Some operation \<and> op_terminal operation = None)
    \<and> (\<exists>row2. ha_sessions ts2 i = Some row2 \<and> is_accepted_by q row2 \<and> hr_request row2 = request)
    \<and> (\<forall>m' now' clock' uuid' between d' request'.
         \<forall>q'. fst (acceptCodexSetupSession x k m' now' clock' uuid' (fold (handoff_exec x k) between) i d' request' ts2) \<noteq> Inr (Some q'))
    \<and> (\<forall>l. hl_operationId l = i \<longrightarrow> snd (withdraw_handoff x k False (\<lambda>ts. ts) l ts2) = ts2)"
proof -
  from accept_handoff_cases [OF assms(1)] obtain row obs where row: "ha_sessions ts i = Some row"
    "decodeSetupSession x k i row = Inr obs" "ho_state obs = HandoffPending"
    and accept: "accept_session x k i d request (the (text_property (ho_request obs) ''issuedAt'')) (hr_mac row)
        (sha256 (vc_host x) uuid) (isoString (vc_host x) clock) (fold (handoff_exec x k) before ts) = Some ts1"
    and q: "q = \<lparr>hq_operationId = i, hq_intentDigest = d, hq_requestHash = request, hq_tokenHash = sha256 (vc_host x) uuid,
          hq_request = ho_request obs\<rparr>" .
  from accept_session_Some [OF accept] obtain row1 operation where row1:
    "ha_sessions (fold (handoff_exec x k) before ts) i = Some row1" "hr_request row1 = request" "hr_intent row1 = d"
    "sql_less (isoString (vc_host x) clock) (hr_expiresAt row1)"
    "su_operations (fold (handoff_exec x k) before ts) i = Some operation" "op_terminal operation = None"
    "ts1 = with_session i (authenticate_row x k i (row1\<lparr>hr_state := HandoffAccepted,
        hr_acceptance := Some (sha256 (vc_host x) uuid), hr_acceptedAt := Some (isoString (vc_host x) clock)\<rparr>))
        (fold (handoff_exec x k) before ts)" by blast
  from handoff_store.run_advances [OF row(1), where x = x and hh = k and ops = before] row1(1,4)
  have "sql_less (isoString (vc_host x) clock) (hr_expiresAt row)" by (auto simp: handoff_above_def)
  moreover have "hr_state row = HandoffPending" using decode_state [OF row(2)] row(3) by simp
  moreover define accepted where "accepted = authenticate_row x k i (row1\<lparr>hr_state := HandoffAccepted,
        hr_acceptance := Some (sha256 (vc_host x) uuid), hr_acceptedAt := Some (isoString (vc_host x) clock)\<rparr>)"
  have "ha_sessions ts1 i = Some accepted" by (simp add: row1(7) accepted_def)
  from handoff_store.run_advances [OF this, where x = x and hh = k and ops = after] obtain row2
    where row2: "ha_sessions ts2 i = Some row2" "handoff_above accepted row2" by (auto simp: assms(2))
  then have acc: "is_accepted_by q row2" "hr_request row2 = request"
    by (auto simp: handoff_above_def accepted_def is_accepted_by_def q row1(2,3))
  moreover have "fst (acceptCodexSetupSession x k m' now' clock' uuid' g i d' request' ts2) \<noteq> Inr (Some q')" for m' now' clock' uuid' g d' request' q'
  proof
    assume "fst (acceptCodexSetupSession x k m' now' clock' uuid' g i d' request' ts2) = Inr (Some q')"
    then obtain ts3 where "acceptCodexSetupSession x k m' now' clock' uuid' g i d' request' ts2 = (Inr (Some q'), ts3)"
      by (metis prod.collapse)
    from accept_handoff_cases [OF this] decode_state row2(1) acc(1) show False
      by (metis handoff_state.distinct(1) is_accepted_by_def option.inject)
  qed
  moreover have "snd (withdraw_handoff x k False (\<lambda>ts. ts) l ts2) = ts2" if "hl_operationId l = i" for l
    using that row2(1) acc(1) by (auto simp: withdraw_handoff_def is_accepted_by_def split: sum.split)
  ultimately show ?thesis using row(1) row1(5,6) row2(1) by blast
qed

subsection \<open>What the MAC covers\<close>

lemma digits_colon:
  "list_all is_digit a \<Longrightarrow> list_all is_digit b \<Longrightarrow> a @ CHR '':'' # u = b @ CHR '':'' # v \<Longrightarrow> a = b \<and> u = v"
proof (induction a arbitrary: b)
  case Nil
  then show ?case by (cases b) (auto simp: is_digit_def)
next
  case (Cons c a)
  then show ?case by (cases b) (auto simp: is_digit_def)
qed

lemma blob_part_prefix: "blob_part a @ u = blob_part b @ v \<longleftrightarrow> a = b \<and> u = v"
proof
  assume eq: "blob_part a @ u = blob_part b @ v"
  have digit: "CHR ''-'' # w \<noteq> nat_string n @ CHR '':'' # w'" for n w w'
    using nat_string_no_minus [of n "CHR '':'' # w'" w] by (metis)
  have colon: "m = n \<and> w = w'" if "nat_string m @ CHR '':'' # w = nat_string n @ CHR '':'' # w'" for m n w w'
    using digits_colon [OF nat_string_digits nat_string_digits that] nat_string_inj by blast
  show "a = b \<and> u = v"
  proof (cases a)
    case None
    with eq digit show ?thesis by (cases b) (auto simp: blob_part_def)
  next
    case (Some s)
    show ?thesis
    proof (cases b)
      case None
      with eq Some digit [of "''1:'' @ v" "length s" "s @ u"] show ?thesis by (simp add: blob_part_def)
    next
      case (Some t)
      with eq \<open>a = Some s\<close> colon [of "length s" "s @ u" "length t" "t @ v"] show ?thesis
        by (auto simp add: blob_part_def)
    qed
  qed
qed simp

lemma sealed_parts_prefix: "sealed_parts a @ u = sealed_parts b @ v \<longleftrightarrow> a = b \<and> u = v"
proof
  assume "sealed_parts a @ u = sealed_parts b @ v"
  then have "map_option st_nonce a = map_option st_nonce b \<and> map_option st_tag a = map_option st_tag b
      \<and> map_option st_ciphertext a = map_option st_ciphertext b \<and> u = v"
    by (simp add: sealed_parts_def blob_part_prefix)
  then show "a = b \<and> u = v" by (cases a; cases b) auto
qed simp

lemma handoff_state_fields [simp]:
  "text_property (handoff_state_json x i row) ''operationId'' = Some i"
  "text_property (handoff_state_json x i row) ''intentDigest'' = Some (hr_intent row)"
  "text_property (handoff_state_json x i row) ''senderHash'' = Some (hr_sender row)"
  "text_property (handoff_state_json x i row) ''requestHash'' = Some (hr_request row)"
  "text_property (handoff_state_json x i row) ''expiresAt'' = Some (hr_expiresAt row)"
  "text_property (handoff_state_json x i row) ''state'' = Some (handoff_state_name (hr_state row))"
  "text_property (handoff_state_json x i row) ''acceptanceHash'' = hr_acceptance row"
  "text_property (handoff_state_json x i row) ''acceptedAt'' = hr_acceptedAt row"
  "text_property (handoff_state_json x i row) ''resultRecordedAt'' = hr_recordedAt row"
  "text_property (handoff_state_json x i row) ''ciphertextHash'' = Some (sha256Hex (vc_host x)
     (sealed_parts (Some (hr_sealedRequest row)) @ sealed_parts (hr_sealedResult row)))"
  by (simp_all add: handoff_state_json_def text_property_obj json_or_null_def Let_def split: option.split)

lemma wf_handoff_state_json: "wf_json (handoff_state_json x i row)"
  by (auto simp add: handoff_state_json_def json_or_null_def Let_def split: option.split)

lemma handoff_state_name_inj: "handoff_state_name a = handoff_state_name b \<longleftrightarrow> a = b"
  by (cases a; cases b) simp_all


subsection \<open>Results are final\<close>

lemma map_of_pick:
  "map_of (concat (map (\<lambda>k. case map_of kvs k of None \<Rightarrow> [] | Some w \<Rightarrow> [(k, w)]) names)) k
     = (if k \<in> set names then map_of kvs k else None)"
  by (induction names) (auto split: option.split)

lemma meaning_pick: "meaning v = VObj m \<Longrightarrow> meaning (pick names v) = VObj (\<lambda>k. if k \<in> set names then m k else None)"
  by (cases v) (auto simp: pick_def map_of_meaning map_of_pick fun_eq_iff)

lemma keys_pick: "set (map fst (concat (map (\<lambda>k. case map_of kvs k of None \<Rightarrow> [] | Some w \<Rightarrow> [(k, w)]) names))) \<subseteq> set names"
  by (auto split: option.splits)

lemma wf_pick:
  assumes "distinct names" and "\<And>k. k \<in> set names \<Longrightarrow> text_property v k \<noteq> None \<or> int_property v k \<noteq> None" and "is_object v"
  shows "wf_json (pick names v)"
proof -
  from assms(3) obtain kvs where v: "v = JObj kvs" by (cases v) (simp_all add: is_object_def)
  have leaf: "wf_json w" if "k \<in> set names" "map_of kvs k = Some w" for k w
    using assms(2) [OF that(1)] that(2) unfolding v
    by (cases w) (auto simp: text_property_obj int_property_obj)
  have "wf_json (JObj (concat (map (\<lambda>k. case map_of kvs k of None \<Rightarrow> [] | Some w \<Rightarrow> [(k, w)]) ns)))"
    if "distinct ns" "set ns \<subseteq> set names" for ns
    using that
  proof (induction ns)
    case (Cons n ns)
    then show ?case using keys_pick [of kvs ns] leaf [of n] by (auto split: option.split)
  qed simp
  from this [OF assms(1)] show ?thesis by (simp add: pick_def v)
qed

definition result_keys :: "json \<Rightarrow> string list" where
  "result_keys v = (if text_property v ''state'' = Some ''unconfirmed'' then [''state'', ''code''] else started_fields)"

lemma parse_handoff_result:
  assumes "parseLocalCodexSetupSessionResult v = Some r"
  shows "r = pick (result_keys v) v" and "is_object v" and "wf_json r"
    and "\<And>k. property v k \<noteq> None \<longleftrightarrow> k \<in> set (result_keys v)"
proof -
  show r: "r = pick (result_keys v) v" and obj: "is_object v"
    using assms by (auto simp: parseLocalCodexSetupSessionResult_def result_keys_def has_exactly_iff Let_def split: if_splits)
  show "property v k \<noteq> None \<longleftrightarrow> k \<in> set (result_keys v)" for k
    using assms by (auto simp: parseLocalCodexSetupSessionResult_def result_keys_def has_exactly_iff Let_def split: if_splits)
  have "text_property v k \<noteq> None \<or> int_property v k \<noteq> None" if "k \<in> set (result_keys v)" for k
    using assms that
    by (auto simp: parseLocalCodexSetupSessionResult_def result_keys_def started_fields_def texts_in_def int_in_def Let_def
        split: if_splits option.splits)
  moreover have "distinct (result_keys v)" by (simp add: result_keys_def started_fields_def)
  ultimately show "wf_json r" using obj wf_pick r by blast
qed

text \<open>What was recorded is read back: parsing the canonical text of a result gives the result.\<close>

lemma reparsed_result:
  assumes "parseLocalCodexSetupSessionResult v = Some r" and "meaning w = meaning r" and "key_order (collation (vc_host x))"
  shows "\<exists>r'. parseLocalCodexSetupSessionResult w = Some r' \<and> canonical x r' = canonical x r"
proof -
  note v = parse_handoff_result [OF assms(1)]
  from v(2) obtain m where m: "meaning v = VObj m" by (auto simp: object_of_meaning)
  have dom: "m k = None" if "k \<notin> set (result_keys v)" for k
    using that v(4) [of k] m by (simp add: property_def)
  have "meaning r = meaning v" unfolding v(1) m meaning_pick [OF m] using dom by (auto simp: fun_eq_iff)
  with assms(2) have mv: "meaning w = meaning v" by simp
  have keys: "result_keys w = result_keys v" by (simp add: result_keys_def same_meaning_properties(2) [OF mv])
  have "parseLocalCodexSetupSessionResult w = Some (pick (result_keys w) w)"
    using assms(1) unfolding parseLocalCodexSetupSessionResult_def texts_in_def int_in_def Let_def
      same_meaning_properties [OF mv] result_keys_def [symmetric] keys
    by (auto split: if_splits)
  moreover from this have "wf_json (pick (result_keys w) w)" using parse_handoff_result(1,3) by metis
  moreover have "meaning (pick (result_keys w) w) = meaning r"
    using m mv by (simp add: keys v(1) meaning_pick)
  ultimately show ?thesis
    using v(3) canonical_text_iff [OF assms(3)] unfolding canonical_def by blast
qed

definition holds_result :: "'key vault_context \<Rightarrow> handoff_acceptance \<Rightarrow> json \<Rightarrow> handoff_row \<Rightarrow> bool" where
  "holds_result x q r row = (is_accepted_by q row
     \<and> (\<exists>sealed r'. hr_sealedResult row = Some sealed
          \<and> opens_to x (request_aad ''setup-session-result'' (hq_operationId q) (hr_intent row) (hr_request row)) sealed
              parseLocalCodexSetupSessionResult = Some r'
          \<and> canonical x r' = canonical x r))"

lemma decode_result:
  "decodeSetupSession x k i row = Inr obs \<Longrightarrow> ho_result obs = Some r' \<Longrightarrow>
     \<exists>sealed. hr_sealedResult row = Some sealed
       \<and> opens_to x (request_aad ''setup-session-result'' i (hr_intent row) (hr_request row)) sealed
           parseLocalCodexSetupSessionResult = Some r'"
  by (auto simp: decodeSetupSession_def decode_handoff_def split: if_splits option.splits)

lemma seal_opens:
  assumes "parseLocalCodexSetupSessionResult v = Some r" "reads_back x r" "key_order (collation (vc_host x))"
  shows "\<exists>r'. opens_to x (request_aad ''setup-session-result'' (hq_operationId q) (hq_intentDigest q) (hq_requestHash q))
       (seal_handoff_result x nonce q r) parseLocalCodexSetupSessionResult = Some r' \<and> canonical x r' = canonical x r"
proof -
  from assms(2) obtain w where "aead_law (vc_aead x)" "vc_parseJson x (canonical x r) = Some w" "meaning w = meaning r"
    unfolding reads_back_def by blast
  with reparsed_result [OF assms(1) _ assms(3)] show ?thesis by (simp add: opens_to_def seal_handoff_result_def)
qed

lemma record_holds:
  assumes "record_handoff_result x k m clock nonce gap q v ts = (Inr (), ts1)" "parseLocalCodexSetupSessionResult v = Some r"
    and "reads_back x r" "key_order (collation (vc_host x))"
    and "\<And>row. ha_sessions ts1 (hq_operationId q) = Some row \<Longrightarrow> hr_request row = hq_requestHash q"
  shows "\<exists>row. ha_sessions ts1 (hq_operationId q) = Some row \<and> holds_result x q r row"
proof -
  note run = assms(1) [unfolded record_handoff_result_def assms(2) option.case Let_def]
  have holds: "\<exists>row. ha_sessions ts1 (hq_operationId q) = Some row \<and> holds_result x q r row"
    if "ha_sessions ts1 (hq_operationId q) = Some row" "is_accepted_by q row"
      "decodeSetupSession x k (hq_operationId q) row = Inr obs" "ho_result obs = Some r'" "canonical x r' = canonical x r" for row obs r'
    using that decode_result [OF that(3,4)] by (auto simp: holds_result_def)
  from run obtain row current where row: "ha_sessions ts (hq_operationId q) = Some row" "is_accepted_by q row"
    "decodeSetupSession x k (hq_operationId q) row = Inr current"
    by (auto split: sum.splits option.splits if_splits)
  note run1 = run [unfolded row(1,3) option.case sum.case]
  show ?thesis
  proof (cases "ho_result current")
    case (Some r')
    with run1 row(2) have "ts1 = ts" "canonical x r' = canonical x r" by (auto split: sum.splits if_splits)
    with holds [of row current r'] row Some show ?thesis by simp
  next
    case None
    let ?new = "record_session x k (hq_operationId q) (hq_intentDigest q) (hq_tokenHash q) (hr_mac row)
        (seal_handoff_result x nonce q r) (isoString (vc_host x) clock) (gap ts)"
    show ?thesis
    proof (cases ?new)
      case (Some ts2)
      with run1 row(2) None have ts1: "ts1 = ts2" by (auto split: sum.splits if_splits)
      from record_session_Some [OF Some] obtain old where old: "ha_sessions (gap ts) (hq_operationId q) = Some old"
        "hr_state old = HandoffAccepted" "hr_intent old = hq_intentDigest q" "hr_acceptance old = Some (hq_tokenHash q)"
        "ts2 = with_session (hq_operationId q) (authenticate_row x k (hq_operationId q)
           (old\<lparr>hr_sealedResult := Some (seal_handoff_result x nonce q r), hr_recordedAt := Some (isoString (vc_host x) clock)\<rparr>)) (gap ts)"
        by blast
      with assms(5) ts1 have "hr_request old = hq_requestHash q" by simp
      with seal_opens [OF assms(2-4), of q nonce] old show ?thesis by (simp add: ts1 holds_result_def is_accepted_by_def)
    next
      case unwritten: None
      from run1 row(2) None unwritten obtain row2 obs r' where "ha_sessions (gap ts) (hq_operationId q) = Some row2"
        "is_accepted_by q row2" "decodeSetupSession x k (hq_operationId q) row2 = Inr obs" "ho_result obs = Some r'"
        "canonical x r' = canonical x r" "ts1 = gap ts"
        by (auto split: sum.splits if_splits option.splits)
      with holds show ?thesis by simp
    qed
  qed
qed

lemma holds_result_unique: "holds_result x q r row \<Longrightarrow> holds_result x q r' row \<Longrightarrow> canonical x r = canonical x r'"
  by (auto simp: holds_result_def)

lemma holds_result_kept:
  assumes "ha_sessions ts i = Some row" "holds_result x q r row"
  shows "ha_sessions (fold (handoff_exec x k) stmts ts) i = Some row"
proof -
  have "decided row" using assms(2) by (auto simp: holds_result_def decided_def is_accepted_by_def)
  with handoff_store.run_advances [OF assms(1), where x = x and hh = k and ops = stmts] show ?thesis
    by (auto simp: handoff_above_def)
qed

lemma record_statements:
  "\<exists>stmts'. snd (record_handoff_result x k m clock nonce (fold (handoff_exec x k) stmts) q v ts) = fold (handoff_exec x k) stmts' ts"
proof -
  let ?ts1 = "fold (handoff_exec x k) stmts ts"
  have stop: "\<exists>stmts'. ts = fold (handoff_exec x k) stmts' ts" by (rule exI [of _ "[]"]) simp
  have gap: "\<exists>stmts'. ?ts1 = fold (handoff_exec x k) stmts' ts" by blast
  have wrote: "\<exists>stmts'. ts2 = fold (handoff_exec x k) stmts' ts" if "record_session x k i d tk mac sealed clk ?ts1 = Some ts2" for ts2 i d tk mac sealed clk
    using that by (intro exI [of _ "stmts @ [RecordSession i d tk mac sealed clk]"]) (simp add: applied_def)
  show ?thesis unfolding record_handoff_result_def Let_def
    by (auto simp: stop gap wrote split: option.split sum.split)
qed

lemma accepted_row:
  assumes "acceptCodexSetupSession x k m now clock uuid gap i d request ts = (Inr (Some q), ts1)"
  shows "\<exists>row. ha_sessions ts1 i = Some row \<and> is_accepted_by q row \<and> hr_request row = hq_requestHash q \<and> hq_operationId q = i"
  using assms
proof (cases rule: accept_handoff_cases)
  case (1 row obs)
  from accept_session_Some [OF 1(4)] 1(5) show ?thesis by (auto simp: is_accepted_by_def)
qed

text \<open>
  A recorded result is the result.  After a receiver whose acceptance succeeded has recorded
  a result, the row never changes again, its sealed result opens to the recorded one, and no
  later record by that receiver succeeds with a different one.
\<close>

theorem handoff_result_final:
  assumes "key_order (collation (vc_host x))" and "parseLocalCodexSetupSessionResult v = Some r" and "reads_back x r"
    and "acceptCodexSetupSession x k m now clock uuid gap i d request ts = (Inr (Some q), ts1)"
    and "record_handoff_result x k m clock' nonce (fold (handoff_exec x k) between) q v (fold (handoff_exec x k) after ts1) = (Inr (), ts3)"
    and "ts4 = fold (handoff_exec x k) later ts3"
  shows "(\<exists>row. ha_sessions ts3 i = Some row \<and> ha_sessions ts4 i = Some row \<and> holds_result x q r row)
    \<and> (\<forall>v2 r2 clock2 nonce2 between2. parseLocalCodexSetupSessionResult v2 = Some r2 \<and> reads_back x r2
         \<and> fst (record_handoff_result x k m clock2 nonce2 (fold (handoff_exec x k) between2) q v2 ts4) = Inr ()
         \<longrightarrow> canonical x r2 = canonical x r)"
proof -
  from accepted_row [OF assms(4)] obtain row1
    where row1: "ha_sessions ts1 i = Some row1" "hr_request row1 = hq_requestHash q" "hq_operationId q = i" by blast
  have request: "hr_request row = hq_requestHash q" if "ha_sessions (fold (handoff_exec x k) stmts ts1) i = Some row" for stmts row
    using handoff_store.run_advances [OF row1(1), where x = x and hh = k and ops = stmts] that row1(2)
    by (auto simp: handoff_above_def)
  from record_statements [of x k m clock' nonce between q v "fold (handoff_exec x k) after ts1"] assms(5)
  obtain s3 where ts3: "ts3 = fold (handoff_exec x k) (after @ s3) ts1" by auto
  from record_holds [OF assms(5,2,3,1)] request [of "after @ s3"] row1(3) ts3 obtain row
    where row: "ha_sessions ts3 i = Some row" "holds_result x q r row" by auto
  from holds_result_kept [OF row] have row4: "ha_sessions ts4 i = Some row" by (simp add: assms(6))
  moreover have "canonical x r2 = canonical x r"
    if "parseLocalCodexSetupSessionResult v2 = Some r2" "reads_back x r2"
      "fst (record_handoff_result x k m clock2 nonce2 (fold (handoff_exec x k) between2) q v2 ts4) = Inr ()" for v2 r2 clock2 nonce2 between2
  proof -
    from that(3) obtain ts5 where run: "record_handoff_result x k m clock2 nonce2 (fold (handoff_exec x k) between2) q v2 ts4 = (Inr (), ts5)"
      by (metis prod.collapse)
    from record_statements [of x k m clock2 nonce2 between2 q v2 ts4] run
    obtain s5 where ts5: "ts5 = fold (handoff_exec x k) s5 ts4" by auto
    with holds_result_kept [OF row4 row(2)] have row5: "ha_sessions ts5 i = Some row" by simp
    moreover have "ts5 = fold (handoff_exec x k) (after @ s3 @ later @ s5) ts1" by (simp add: ts5 assms(6) ts3)
    ultimately have "hr_request row = hq_requestHash q" using request by metis
    with record_holds [OF run that(1,2) assms(1)] row1(3) row5 have "holds_result x q r2 row" by auto
    with row(2) show ?thesis using holds_result_unique by blast
  qed
  ultimately show ?thesis using row by blast
qed

subsection \<open>Closed instances\<close>

definition demo_handoff_host :: handoff_host where
  "demo_handoff_host = \<lparr>hh_hmac = demo_hex, hh_url = \<lambda>s. Some (''https:'', s, [], [])\<rparr>"

definition demo_request :: json where
  "demo_request = JObj ([(''schema'', JStr ''dharma.local-codex-setup-session/v1'')]
     @ map (\<lambda>k. (k, JStr demo_id)) request_ids @ map (\<lambda>k. (k, JStr demo_intent)) request_hashes
     @ [(''senderPid'', JNum 7), (''senderStartTicks'', JStr ''42''), (''organizationId'', JStr ''org_a''), (''provider'', JStr ''codex''),
        (''origin'', JStr ''https://a''), (''policyRevision'', JStr ''r1''), (''name'', JStr ''s''), (''workspaceRoot'', JStr ''/w''),
        (''maximumCostCents'', JNum 5), (''maximumTurnCostCents'', JNum 5), (''issuedAt'', JStr ''100''), (''expiresAt'', JStr ''900'')])"

definition demo_result_json :: json where
  "demo_result_json = JObj [(''state'', JStr ''unconfirmed''), (''code'', JStr ''session_start_unconfirmed'')]"

abbreviation demo_handoff_context :: "string vault_context" where
  "demo_handoff_context \<equiv> knowing [demo_request, demo_result_json]"

lemma demo_request_ok:
  "parseLocalCodexSetupSessionRequest (vc_host demo_vault_context) demo_handoff_host demo_request = Some demo_request"
  "iso_time (vc_host demo_vault_context) demo_request ''issuedAt'' = Some 100"
  "iso_time (vc_host demo_vault_context) demo_request ''expiresAt'' = Some 900"
  "text_property demo_request ''operationId'' = Some demo_id" "text_property demo_request ''intentDigest'' = Some demo_intent"
  "text_property demo_request ''expiresAt'' = Some ''900''" "text_property demo_request ''issuedAt'' = Some ''100''"
  "parseLocalCodexSetupSessionResult demo_result_json = Some demo_result_json"
  by code_simp+

lemma demo_clock:
  "isoString (vc_host demo_vault_context) 150 = ''150''" "isoString (vc_host demo_vault_context) 160 = ''160''"
  "\<not> sql_less ''150'' ''100''" "sql_less ''150'' ''900''" "\<not> sql_less ''160'' ''150''" "sql_less ''160'' ''900''"
  "exact_time (vc_host demo_vault_context) (Some ''150'') = Some 150"
  by code_simp+

lemma demo_texts_differ: "canonicalize code_unit_le demo_request \<noteq> canonicalize code_unit_le demo_result_json"
proof
  assume "canonicalize code_unit_le demo_request = canonicalize code_unit_le demo_result_json"
  then have "canonical demo_handoff_context demo_request = canonical demo_handoff_context demo_result_json" by simp
  moreover have "wf_json demo_request" "wf_json demo_result_json" by code_simp+
  ultimately have "meaning demo_request = meaning demo_result_json" using canonical_meaning by blast
  from fun_cong [OF same_meaning_properties(2) [OF this], of "''state''"] show False by code_simp
qed

lemma demo_handoff_parses [simp]:
  "vc_parseJson demo_handoff_context (canonicalize code_unit_le demo_request) = Some demo_request"
  "vc_parseJson demo_handoff_context (canonicalize code_unit_le demo_result_json) = Some demo_result_json"
  using demo_texts_differ by (simp_all add: knowing_def)

lemma demo_reads_back: "reads_back demo_handoff_context demo_result_json"
  by (simp add: reads_back_def)

definition demo_staged :: handoff_row where
  "demo_staged = authenticate_row demo_handoff_context demo_handoff_host demo_id
     \<lparr>hr_intent = demo_intent, hr_sender = setup_lease_hash demo_handoff_context demo_lease,
      hr_request = objectDigest (vc_host demo_vault_context) demo_request, hr_expiresAt = ''900'', hr_state = HandoffPending, hr_mac = [],
      hr_acceptance = None, hr_acceptedAt = None,
      hr_sealedRequest = seal_text demo_handoff_context ''n'' (request_aad ''setup-session-request'' demo_id demo_intent
         (objectDigest (vc_host demo_vault_context) demo_request)) (canonicalize code_unit_le demo_request),
      hr_sealedResult = None, hr_recordedAt = None\<rparr>"

lemma mac_ignores_mac [simp]: "setupSessionStateMac x k i (row\<lparr>hr_mac := mac\<rparr>) = setupSessionStateMac x k i row"
  by (simp add: setupSessionStateMac_def handoff_state_json_def Let_def)

lemma mac_authenticated [simp]:
  "hr_mac (authenticate_row x k i row) = setupSessionStateMac x k i row"
  "setupSessionStateMac x k i (authenticate_row x k i row) = setupSessionStateMac x k i row"
  by (simp_all add: authenticate_row_def)

lemma demo_mac: "length (setupSessionStateMac x demo_handoff_host i row) = 64"
  "list_all is_lower_hex (setupSessionStateMac x demo_handoff_host i row)"
  by (simp_all add: setupSessionStateMac_def demo_handoff_host_def length_demo_hex demo_hex_hex)

lemma demo_opens: "opens_to demo_handoff_context (request_aad ''setup-session-request'' demo_id demo_intent
     (objectDigest (vc_host demo_vault_context) demo_request)) (hr_sealedRequest demo_staged)
     (parseLocalCodexSetupSessionRequest (vc_host demo_vault_context) demo_handoff_host) = Some demo_request"
  by (simp add: demo_staged_def opens_to_def demo_request_ok)

lemma demo_staged_simps [simp]:
  "hr_intent demo_staged = demo_intent" "hr_request demo_staged = objectDigest (vc_host demo_vault_context) demo_request"
  "hr_expiresAt demo_staged = ''900''" "hr_state demo_staged = HandoffPending" "hr_acceptance demo_staged = None"
  "hr_acceptedAt demo_staged = None" "hr_sealedResult demo_staged = None" "hr_recordedAt demo_staged = None"
  "hr_mac demo_staged = setupSessionStateMac demo_handoff_context demo_handoff_host demo_id demo_staged"
  by (simp_all add: demo_staged_def)

lemma demo_staged_decodes: "decode_handoff demo_handoff_context demo_handoff_host demo_id demo_staged
    = Some \<lparr>ho_state = HandoffPending, ho_request = demo_request, ho_acceptedAt = None, ho_result = None, ho_recordedAt = None\<rparr>"
  by (simp add: decode_handoff_def demo_mac demo_opens request_matches_def demo_request_ok accepted_in_window_def
      recorded_in_window_def)


definition demo_offered :: handoff_tables where
  "demo_offered = with_session demo_id demo_staged (setup_tables.extend
     (insert_operation demo_id demo_intent (setup_lease_hash demo_handoff_context demo_lease) empty_setup) \<lparr>ha_sessions = \<lambda>_. None\<rparr>)"

abbreviation demo_token :: string where
  "demo_token \<equiv> sha256 (vc_host demo_vault_context) ''u''"

definition demo_acceptance :: handoff_acceptance where
  "demo_acceptance = \<lparr>hq_operationId = demo_id, hq_intentDigest = demo_intent,
     hq_requestHash = objectDigest (vc_host demo_vault_context) demo_request, hq_tokenHash = demo_token, hq_request = demo_request\<rparr>"

definition demo_accepted :: handoff_row where
  "demo_accepted = authenticate_row demo_handoff_context demo_handoff_host demo_id
     (demo_staged\<lparr>hr_state := HandoffAccepted, hr_acceptance := Some demo_token, hr_acceptedAt := Some ''150''\<rparr>)"

lemma demo_digest: "is_digest (objectDigest (vc_host demo_vault_context) v)" "is_digest demo_token"
  using demo_vault_laws by (simp_all add: vault_laws_def objectDigest_def)

lemma demo_accepts:
  "acceptCodexSetupSession demo_handoff_context demo_handoff_host demo_mode 120 150 ''u'' (fold (handoff_exec demo_handoff_context demo_handoff_host) [])
     demo_id demo_intent (objectDigest (vc_host demo_vault_context) demo_request) demo_offered
   = (Inr (Some demo_acceptance), with_session demo_id demo_accepted demo_offered)"
proof -
  have "ha_sessions demo_offered demo_id = Some demo_staged"
    "su_operations demo_offered demo_id = Some \<lparr>op_intent = demo_intent, op_leaseHash = setup_lease_hash demo_handoff_context demo_lease,
        op_terminal = None\<rparr>"
    by (simp_all add: demo_offered_def setup_tables.defs insert_operation_def)
  then show ?thesis
    by (simp add: acceptCodexSetupSession_def demo_setup_facts demo_digest decodeSetupSession_def demo_staged_decodes
        demo_request_ok accept_session_def demo_clock demo_acceptance_def demo_accepted_def Let_def)
qed

theorem handoff_accepted_once_witness:
  "\<exists>row. ha_sessions (handoff_exec demo_handoff_context demo_handoff_host
       (WithdrawSession demo_id demo_intent (hr_sender demo_staged) (hr_request demo_staged) demo_staged ''m'')
       (with_session demo_id demo_accepted demo_offered)) demo_id = Some row
     \<and> is_accepted_by demo_acceptance row"
  using handoff_accepted_once [OF demo_accepts refl,
    of "[WithdrawSession demo_id demo_intent (hr_sender demo_staged) (hr_request demo_staged) demo_staged ''m'']"] by auto

lemma demo_accepted_simps [simp]:
  "hr_intent demo_accepted = demo_intent" "hr_request demo_accepted = objectDigest (vc_host demo_vault_context) demo_request"
  "hr_expiresAt demo_accepted = ''900''" "hr_state demo_accepted = HandoffAccepted" "hr_acceptance demo_accepted = Some demo_token"
  "hr_acceptedAt demo_accepted = Some ''150''" "hr_sealedResult demo_accepted = None" "hr_recordedAt demo_accepted = None"
  "hr_sealedRequest demo_accepted = hr_sealedRequest demo_staged"
  "hr_mac demo_accepted = setupSessionStateMac demo_handoff_context demo_handoff_host demo_id demo_accepted"
  by (simp_all add: demo_accepted_def)

lemma demo_accepted_decodes: "decode_handoff demo_handoff_context demo_handoff_host demo_id demo_accepted
    = Some \<lparr>ho_state = HandoffAccepted, ho_request = demo_request, ho_acceptedAt = Some ''150'', ho_result = None, ho_recordedAt = None\<rparr>"
  by (simp add: decode_handoff_def demo_mac demo_opens request_matches_def demo_request_ok accepted_in_window_def
      recorded_in_window_def demo_digest demo_clock)

theorem handoff_result_final_witness:
  "\<exists>ts3 row. record_handoff_result demo_handoff_context demo_handoff_host demo_mode 160 ''n'' (\<lambda>ts. ts) demo_acceptance demo_result_json
       (with_session demo_id demo_accepted demo_offered) = (Inr (), ts3)
     \<and> ha_sessions ts3 demo_id = Some row \<and> holds_result demo_handoff_context demo_acceptance demo_result_json row"
proof -
  let ?x = demo_handoff_context and ?k = demo_handoff_host
  let ?ts1 = "with_session demo_id demo_accepted demo_offered"
  obtain ts3 where run: "record_handoff_result ?x ?k demo_mode 160 ''n'' (fold (handoff_exec ?x ?k) []) demo_acceptance demo_result_json
      (fold (handoff_exec ?x ?k) [] ?ts1) = (Inr (), ts3)"
    by (simp add: record_handoff_result_def demo_request_ok demo_setup_facts demo_acceptance_def is_accepted_by_def
        decodeSetupSession_def demo_accepted_decodes record_session_def demo_clock Let_def)
  have order: "key_order (collation (vc_host ?x))" using demo_host_key_order by (simp add: demo_vault_context_def)
  from handoff_result_final [OF order demo_request_ok(8) demo_reads_back demo_accepts run, of ts3 "[]"] run show ?thesis
    by (auto simp: id_def)
qed

end
