(* ===== verification/Vault_Sessions.thy ===== *)
theory Vault_Sessions
  imports Setup_Handoff
begin

text \<open>
  What a provider session leaves in packages/local-vault/src/index.ts: exported task descriptors,
  the checkpointed question offers with their handoff and settlement, and the replies with their
  acknowledgement or quarantine.  Every operation first needs the session's binding.  \<open>gap\<close> stands
  for the statements of other processes between two statements; \<open>mw\<close>, inside a put, for everything
  else that runs while the put waits.
\<close>

subsection \<open>Tables\<close>

record export_row =
  ex_descriptor :: string
  ex_createdAt :: string
  ex_acknowledgedAt :: "string option"
  ex_receipt :: "string option"

record offer_row =
  of_hash :: string
  of_createdAt :: string
  of_settled :: "string option"

record delivery_row =
  dl_attempt :: string
  dl_fingerprint :: string
  dl_handedOffAt :: string

record reply_row =
  rp_blob :: string
  rp_createdAt :: string
  rp_acknowledgedAt :: "string option"

record disposition_row =
  ds_completion :: string
  ds_hash :: string

text \<open>All five tables are keyed by binding and question (or work key).  \<open>sx_open\<close> is the unique
  index on the unsettled offer of a binding.\<close>

record session_tables = handoff_tables +
  sx_exports :: "string \<times> string \<rightharpoonup> export_row"
  sx_offers :: "string \<times> string \<rightharpoonup> offer_row"
  sx_open :: "string \<rightharpoonup> string"
  sx_deliveries :: "string \<times> string \<rightharpoonup> delivery_row"
  sx_replies :: "string \<times> string \<rightharpoonup> reply_row"
  sx_dispositions :: "string \<times> string \<rightharpoonup> disposition_row"

datatype session_error =
    BindingFailed binding_error | BlobFailed vault_error | BindingUnavailable | ForeignKeyFailed
  | ExportInvalid | ExportConflict | OfferInvalid | OfferConflict | OfferSettled | OfferBusy | OfferIntegrity
  | OfferReplyUnconfirmed | DeliveryInvalid | DeliveryConflict | DeliveryBindingChanged
  | ReplyInvalid | ReplyConflict | ReplyQuarantined | DispositionInvalid | TransactionOpen

definition require_binding ::
  "'key vault_context \<Rightarrow> string \<Rightarrow> session_identity \<Rightarrow> 'a binding_tables_scheme \<Rightarrow> (session_error, session_binding) result" where
  "require_binding x i e ts = (case getProviderSessionBinding x i e ts of
     Inl err \<Rightarrow> Inl (BindingFailed err) | Inr None \<Rightarrow> Inl BindingUnavailable | Inr (Some b) \<Rightarrow> Inr b)"

definition unrevoked :: "string \<Rightarrow> 'a binding_tables_scheme \<Rightarrow> bool" where
  "unrevoked i ts = (case bt_bindings ts i of None \<Rightarrow> False | Some row \<Rightarrow> \<not> binding_revoked row)"

definition has_blob :: "string \<Rightarrow> 'a blob_tables_scheme \<Rightarrow> bool" where
  "has_blob c ts = (bt_blobs ts c \<noteq> None)"

subsection \<open>Statements\<close>

definition insert_export :: "string \<Rightarrow> string \<Rightarrow> string \<Rightarrow> string \<Rightarrow> 'a session_tables_scheme \<Rightarrow> (session_error, unit) result \<times> 'a session_tables_scheme" where
  "insert_export i workKey hash now ts =
     (if \<not> unrevoked i ts \<or> sx_exports ts (i, workKey) \<noteq> None then (Inr (), ts)
      else if \<not> has_blob hash ts then (Inl ForeignKeyFailed, ts)
      else (Inr (), ts\<lparr>sx_exports := (sx_exports ts)((i, workKey) \<mapsto>
              \<lparr>ex_descriptor = hash, ex_createdAt = now, ex_acknowledgedAt = None, ex_receipt = None\<rparr>)\<rparr>))"

text \<open>The value says whether a row changed.\<close>

definition acknowledge_export ::
  "string \<Rightarrow> string \<Rightarrow> string \<Rightarrow> string option \<Rightarrow> string \<Rightarrow> 'a session_tables_scheme
     \<Rightarrow> (session_error, bool) result \<times> 'a session_tables_scheme" where
  "acknowledge_export i workKey descriptorHash receiptHash now ts =
     (case sx_exports ts (i, workKey) of None \<Rightarrow> (Inr False, ts) | Some row \<Rightarrow>
        if ex_descriptor row \<noteq> descriptorHash \<or> \<not> unrevoked i ts
           \<or> ex_receipt row \<noteq> None \<and> receiptHash \<noteq> None \<and> ex_receipt row \<noteq> receiptHash
        then (Inr False, ts)
        else
          let receipt = (case ex_receipt row of None \<Rightarrow> receiptHash | Some r \<Rightarrow> Some r) in
          if (case receipt of None \<Rightarrow> False | Some r \<Rightarrow> \<not> has_blob r ts) then (Inl ForeignKeyFailed, ts)
          else (Inr True, ts\<lparr>sx_exports := (sx_exports ts)((i, workKey) \<mapsto>
              row\<lparr>ex_acknowledgedAt := (case ex_acknowledgedAt row of None \<Rightarrow> Some now | Some a \<Rightarrow> Some a), ex_receipt := receipt\<rparr>)\<rparr>))"

definition insert_offer :: "string \<Rightarrow> string \<Rightarrow> string \<Rightarrow> string \<Rightarrow> 'a session_tables_scheme \<Rightarrow> (session_error, unit) result \<times> 'a session_tables_scheme" where
  "insert_offer i questionId hash now ts =
     (if \<not> unrevoked i ts \<or> sx_offers ts (i, questionId) \<noteq> None \<or> sx_open ts i \<noteq> None then (Inr (), ts)
      else if \<not> has_blob hash ts then (Inl ForeignKeyFailed, ts)
      else (Inr (), ts\<lparr>sx_offers := (sx_offers ts)((i, questionId) \<mapsto>
              \<lparr>of_hash = hash, of_createdAt = now, of_settled = None\<rparr>),
            sx_open := (sx_open ts)(i \<mapsto> questionId)\<rparr>))"

definition settle_offer ::
  "string \<Rightarrow> string \<Rightarrow> string \<Rightarrow> string \<Rightarrow> 'a session_tables_scheme
     \<Rightarrow> (session_error, bool) result \<times> 'a session_tables_scheme" where
  "settle_offer i questionId offerHash completionHash ts =
     (case sx_offers ts (i, questionId) of None \<Rightarrow> (Inr False, ts) | Some row \<Rightarrow>
        if of_hash row \<noteq> offerHash \<or> (of_settled row \<noteq> None \<and> of_settled row \<noteq> Some completionHash) \<or> \<not> unrevoked i ts
        then (Inr False, ts)
        else if of_settled row = None \<and> \<not> has_blob completionHash ts then (Inl ForeignKeyFailed, ts)
        else (Inr True, ts\<lparr>sx_offers := (sx_offers ts)((i, questionId) \<mapsto> row\<lparr>of_settled := Some completionHash\<rparr>),
               sx_open := (if of_settled row = None then (sx_open ts)(i := None) else sx_open ts)\<rparr>))"

definition insert_delivery ::
  "string \<Rightarrow> string \<Rightarrow> delivery_row \<Rightarrow> 'a session_tables_scheme \<Rightarrow> (session_error, unit) result \<times> 'a session_tables_scheme" where
  "insert_delivery i questionId row ts =
     (if sx_deliveries ts (i, questionId) \<noteq> None then (Inr (), ts)
      else if sx_offers ts (i, questionId) = None then (Inl ForeignKeyFailed, ts)
      else (Inr (), ts\<lparr>sx_deliveries := (sx_deliveries ts)((i, questionId) \<mapsto> row)\<rparr>))"

definition insert_reply :: "string \<Rightarrow> string \<Rightarrow> string \<Rightarrow> string \<Rightarrow> 'a session_tables_scheme \<Rightarrow> (session_error, unit) result \<times> 'a session_tables_scheme" where
  "insert_reply i questionId hash now ts =
     (if sx_replies ts (i, questionId) \<noteq> None then (Inr (), ts)
      else if \<not> has_blob hash ts \<or> bt_bindings ts i = None then (Inl ForeignKeyFailed, ts)
      else (Inr (), ts\<lparr>sx_replies := (sx_replies ts)((i, questionId) \<mapsto>
              \<lparr>rp_blob = hash, rp_createdAt = now, rp_acknowledgedAt = None\<rparr>)\<rparr>))"

definition insert_disposition ::
  "string \<Rightarrow> string \<Rightarrow> string \<Rightarrow> string \<Rightarrow> 'a session_tables_scheme \<Rightarrow> (session_error, unit) result \<times> 'a session_tables_scheme" where
  "insert_disposition i questionId completionHash dispositionHash ts =
     (case sx_replies ts (i, questionId) of None \<Rightarrow> (Inr (), ts) | Some row \<Rightarrow>
        if rp_blob row \<noteq> completionHash \<or> rp_acknowledgedAt row \<noteq> None \<or> sx_dispositions ts (i, questionId) \<noteq> None
        then (Inr (), ts)
        else if \<not> has_blob dispositionHash ts \<or> \<not> has_blob (rp_blob row) ts then (Inl ForeignKeyFailed, ts)
        else (Inr (), ts\<lparr>sx_dispositions := (sx_dispositions ts)((i, questionId) \<mapsto>
               \<lparr>ds_completion = rp_blob row, ds_hash = dispositionHash\<rparr>)\<rparr>))"

definition acknowledge_reply :: "string \<Rightarrow> string \<Rightarrow> string \<Rightarrow> string \<Rightarrow> 'a session_tables_scheme \<Rightarrow> 'a session_tables_scheme" where
  "acknowledge_reply i questionId completionHash now ts =
     (case sx_replies ts (i, questionId) of None \<Rightarrow> ts | Some row \<Rightarrow>
        if rp_blob row \<noteq> completionHash then ts
        else ts\<lparr>sx_replies := (sx_replies ts)((i, questionId) \<mapsto>
               row\<lparr>rp_acknowledgedAt := (case rp_acknowledgedAt row of None \<Rightarrow> Some now | Some a \<Rightarrow> Some a)\<rparr>)\<rparr>)"


subsection \<open>Checks\<close>

text \<open>An operation on the tables, run on a vault.\<close>

definition in_tables :: "('t \<Rightarrow> 'r \<times> 't) \<Rightarrow> 't vault \<Rightarrow> 'r \<times> 't vault" where
  "in_tables f v = (case f (va_tables v) of (r, ts) \<Rightarrow> (r, v\<lparr>va_tables := ts\<rparr>))"

text \<open>A query, and a moment at which other processes execute statements.\<close>

definition asking :: "('t \<Rightarrow> 'r) \<Rightarrow> 't \<Rightarrow> ('e, 'r) result \<times> 't" where
  "asking f ts = (Inr (f ts), ts)"

definition yielding :: "('t \<Rightarrow> 't) \<Rightarrow> 't \<Rightarrow> ('e, unit) result \<times> 't" where
  "yielding gap ts = (Inr (), gap ts)"

definition bound ::
  "'key vault_context \<Rightarrow> string \<Rightarrow> session_identity \<Rightarrow> 'a binding_tables_scheme
     \<Rightarrow> (session_error, session_binding) result \<times> 'a binding_tables_scheme" where
  "bound x i e ts = (require_binding x i e ts, ts)"

definition put_content ::
  "'key vault_context \<Rightarrow> put_io \<Rightarrow> (nat \<Rightarrow> 'a blob_tables_scheme vault \<Rightarrow> 'a blob_tables_scheme vault) \<Rightarrow> string \<Rightarrow> string
     \<Rightarrow> 'a blob_tables_scheme vault \<Rightarrow> (session_error, string) result \<times> 'a blob_tables_scheme vault" where
  "put_content x io mw plaintext kind v = (case putBlob x io mw plaintext kind v of (r, v1) \<Rightarrow> (map_sum BlobFailed fst r, v1))"

text \<open>The schema of a session question and the PEM import of a public key.\<close>

record 'key offer_host =
  oh_question :: "json \<Rightarrow> session_question option"
  oh_pemKey :: "string \<Rightarrow> 'key option"

definition strip_cr :: "string \<Rightarrow> string" where
  "strip_cr s = (if s \<noteq> [] \<and> last s = CHR 0x0D then butlast s else s)"

text \<open>The lines of a PEM public key; a final line break is optional.\<close>

definition public_key_pem :: "string \<Rightarrow> bool" where
  "public_key_pem s =
     (let ls = split_on (CHR 0x0A) s;
          body = map strip_cr (butlast ls) @ (if last ls = [] then [] else [last ls]) in
      3 \<le> length body \<and> hd body = ''-----BEGIN PUBLIC KEY-----'' \<and> last body = ''-----END PUBLIC KEY-----''
      \<and> list_all (\<lambda>l. l \<noteq> [] \<and> list_all (\<lambda>c. is_word_char c \<or> c \<in> set ''+/='') l) (butlast (tl body)))"

definition offerCheckpointVerifier ::
  "'key offer_host \<Rightarrow> json \<Rightarrow> (session_error, string \<Rightarrow> 'key option) result" where
  "offerCheckpointVerifier k value =
     (case (text_property value ''version'', text_property value ''publicKeyPem'') of
        (Some version, Some pem) \<Rightarrow>
          if \<not> has_exactly value [''publicKeyPem'', ''version''] \<or> version = [] \<or> 1024 < length version
             \<or> \<not> list_all no_control version \<or> 16384 < length pem \<or> \<not> public_key_pem pem
          then Inl OfferInvalid
          else (case oh_pemKey k pem of None \<Rightarrow> Inl OfferInvalid
                | Some key \<Rightarrow> Inr (\<lambda>requested. if requested = version then Some key else None))
      | _ \<Rightarrow> Inl OfferInvalid)"

definition offerCheckpointBinding ::
  "'key vault_context \<Rightarrow> int \<Rightarrow> string \<Rightarrow> session_identity \<Rightarrow> 'a binding_tables_scheme
     \<Rightarrow> (session_error, session_binding) result" where
  "offerCheckpointBinding x now i e ts =
     (if \<not> provider_offer_id i then Inl OfferInvalid
      else case getProviderSessionBinding x i e ts of
        Inl err \<Rightarrow> Inl (BindingFailed err) | Inr None \<Rightarrow> Inl BindingUnavailable
      | Inr (Some b) \<Rightarrow> if sb_owner b \<noteq> CooperativeSession \<or> \<not> binding_live x now b then Inl BindingUnavailable else Inr b)"

definition offer_bound ::
  "'key vault_context \<Rightarrow> int \<Rightarrow> string \<Rightarrow> session_identity \<Rightarrow> 'a binding_tables_scheme
     \<Rightarrow> (session_error, session_binding) result \<times> 'a binding_tables_scheme" where
  "offer_bound x now i e ts = (offerCheckpointBinding x now i e ts, ts)"

definition offerCheckpointRow :: "string \<Rightarrow> string \<Rightarrow> 'a session_tables_scheme \<Rightarrow> offer_row option" where
  "offerCheckpointRow i questionId ts = sx_offers ts (i, questionId)"

definition requireOfferReplyAcknowledgment ::
  "string \<Rightarrow> string \<Rightarrow> string \<Rightarrow> 'a session_tables_scheme \<Rightarrow> (session_error, unit) result \<times> 'a session_tables_scheme" where
  "requireOfferReplyAcknowledgment i questionId completionHash ts =
     (if (case sx_replies ts (i, questionId) of None \<Rightarrow> False
          | Some r \<Rightarrow> rp_blob r = completionHash \<and> rp_acknowledgedAt r \<noteq> None \<and> sx_dispositions ts (i, questionId) = None)
      then Inr () else Inl OfferReplyUnconfirmed, ts)"

definition authorized_by ::
  "'key vault_context \<Rightarrow> (string \<Rightarrow> 'key option) \<Rightarrow> session_binding \<Rightarrow> jsnum \<Rightarrow> session_question \<Rightarrow> bool" where
  "authorized_by x resolver b now q =
     (inspectSessionQuestionForBinding (vc_host x) (\<lambda>_. True) resolver q (sb_scope b) now = Authorized)"

subsection \<open>Exported tasks\<close>

definition stageProviderSessionTaskExport ::
  "'key vault_context \<Rightarrow> put_io \<Rightarrow> (nat \<Rightarrow> 'a session_tables_scheme vault \<Rightarrow> 'a session_tables_scheme vault)
     \<Rightarrow> ('a session_tables_scheme \<Rightarrow> 'a session_tables_scheme) \<Rightarrow> int \<Rightarrow> string \<Rightarrow> session_identity \<Rightarrow> string \<Rightarrow> string
     \<Rightarrow> 'a session_tables_scheme vault \<Rightarrow> (session_error, string) result \<times> 'a session_tables_scheme vault" where
  "stageProviderSessionTaskExport x io mw gap now i e workKey descriptor =
     and_then (guard_that (is_digest workKey \<and> 1 \<le> length descriptor \<and> length descriptor \<le> 16384) ExportInvalid) (\<lambda>_.
     and_then (in_tables (bound x i e)) (\<lambda>_.
     and_then (in_tables (asking (\<lambda>ts. sx_exports ts (i, workKey)))) (\<lambda>prior.
     case prior of
       Some row \<Rightarrow> lift_result (if ex_descriptor row \<noteq> sha256 (vc_host x) descriptor then Inl ExportConflict
                                else Inr (sha256 (vc_host x) descriptor))
     | None \<Rightarrow>
         and_then (put_content x io mw descriptor ''provider-session-task-export-descriptor'') (\<lambda>stored.
         and_then (in_tables (bound x i e)) (\<lambda>_.
         and_then (in_tables (yielding gap)) (\<lambda>_.
         and_then (in_tables (insert_export i workKey stored (isoString (vc_host x) now))) (\<lambda>_.
         and_then (in_tables (yielding gap)) (\<lambda>_.
         and_then (in_tables (asking (\<lambda>ts. sx_exports ts (i, workKey)))) (\<lambda>row.
         lift_result (case row of None \<Rightarrow> Inl BindingUnavailable
           | Some r \<Rightarrow> if ex_descriptor r \<noteq> sha256 (vc_host x) descriptor then Inl ExportConflict else Inr stored))))))))))"

text \<open>\<open>keys\<close> are the work keys of the binding; SQLite sorts by the columns named.\<close>

definition by_columns :: "(string \<times> string \<times> 'r) list \<Rightarrow> (string \<times> string \<times> 'r) list" where
  "by_columns = sort_by (\<lambda>(a, b, _) (c, d, _). sql_less a c \<or> a = c \<and> \<not> sql_less d b)"

definition listProviderSessionTaskExports ::
  "'key vault_context \<Rightarrow> string \<Rightarrow> session_identity \<Rightarrow> string list \<Rightarrow> 'a session_tables_scheme
     \<Rightarrow> (session_error, (string \<times> string) list) result" where
  "listProviderSessionTaskExports x i e keys ts =
     (case require_binding x i e ts of Inl err \<Rightarrow> Inl err | Inr _ \<Rightarrow>
        Inr (map (\<lambda>(_, workKey, descriptor). (workKey, descriptor)) (take 100 (by_columns
          (concat (map (\<lambda>workKey. case sx_exports ts (i, workKey) of None \<Rightarrow> []
             | Some row \<Rightarrow> if ex_acknowledgedAt row = None then [(ex_createdAt row, workKey, ex_descriptor row)] else []) keys))))))"

text \<open>An empty receipt hash counts as none in the checks, and is written as it is.\<close>

definition acknowledgeProviderSessionTaskExport ::
  "'key vault_context \<Rightarrow> ('a session_tables_scheme \<Rightarrow> 'a session_tables_scheme) \<Rightarrow> int \<Rightarrow> string \<Rightarrow> session_identity
     \<Rightarrow> string \<Rightarrow> string \<Rightarrow> string option \<Rightarrow> 'a session_tables_scheme \<Rightarrow> (session_error, unit) result \<times> 'a session_tables_scheme" where
  "acknowledgeProviderSessionTaskExport x gap now i e workKey descriptorHash receiptHash =
     and_then (bound x i e) (\<lambda>_.
     and_then (asking (\<lambda>ts. case receiptHash of None \<Rightarrow> True | Some r \<Rightarrow> r = [] \<or> is_digest r \<and> has_blob r ts)) (\<lambda>known.
     and_then (guard_that known ExportConflict) (\<lambda>_.
     and_then (asking (\<lambda>ts. case sx_exports ts (i, workKey) of None \<Rightarrow> False
        | Some row \<Rightarrow> ex_descriptor row = descriptorHash
            \<and> (case (receiptHash, ex_receipt row) of (Some r, Some s) \<Rightarrow> r = [] \<or> s = [] \<or> r = s | _ \<Rightarrow> True))) (\<lambda>ok.
     and_then (guard_that ok ExportConflict) (\<lambda>_.
     and_then (yielding gap) (\<lambda>_.
     and_then (acknowledge_export i workKey descriptorHash receiptHash (isoString (vc_host x) now)) (\<lambda>changed.
     guard_that changed BindingUnavailable)))))))"

definition latestProviderSessionTaskExportReceipt ::
  "'key vault_context \<Rightarrow> string \<Rightarrow> session_identity \<Rightarrow> string list \<Rightarrow> 'a session_tables_scheme
     \<Rightarrow> (session_error, (string \<times> string) option) result" where
  "latestProviderSessionTaskExportReceipt x i e keys ts =
     (case require_binding x i e ts of Inl err \<Rightarrow> Inl err | Inr _ \<Rightarrow>
        let rows = by_columns (concat (map (\<lambda>workKey. case sx_exports ts (i, workKey) of None \<Rightarrow> []
             | Some row \<Rightarrow> (case (ex_acknowledgedAt row, ex_receipt row) of
                 (Some at, Some receipt) \<Rightarrow> [(at, workKey, ex_descriptor row, receipt)] | _ \<Rightarrow> [])) keys)) in
        Inr (if rows = [] then None else Some (snd (snd (last rows)))))"

subsection \<open>Question offers\<close>

text \<open>The text of an offer and the question it spells, where the binding admits it at \<open>now\<close>.\<close>

definition offer_snapshot ::
  "'key vault_context \<Rightarrow> 'key offer_host \<Rightarrow> (string \<Rightarrow> 'key option) \<Rightarrow> session_binding \<Rightarrow> int \<Rightarrow> json
     \<Rightarrow> (session_error, string \<times> session_question) result" where
  "offer_snapshot x k resolver b now question =
     (let plaintext = canonical x question in
      if utf8_length plaintext < 1 \<or> 16384 < utf8_length plaintext then Inl OfferInvalid
      else case Option.bind (vc_parseJson x plaintext) (oh_question k) of None \<Rightarrow> Inl OfferInvalid
      | Some q \<Rightarrow> if authorized_by x resolver b (Some now) q then Inr (plaintext, q) else Inl OfferInvalid)"

definition offer_settled_check :: "string \<Rightarrow> offer_row \<Rightarrow> 'v \<Rightarrow> (session_error, 'v) result" where
  "offer_settled_check hash row v =
     (if of_hash row \<noteq> hash then Inl OfferConflict else if of_settled row \<noteq> None then Inl OfferSettled else Inr v)"

text \<open>\<open>now n\<close> is the \<open>n\<close>-th reading of the clock.\<close>

definition stageProviderSessionOfferCheckpoint ::
  "'key vault_context \<Rightarrow> 'key offer_host \<Rightarrow> put_io \<Rightarrow> (nat \<Rightarrow> 'a session_tables_scheme vault \<Rightarrow> 'a session_tables_scheme vault)
     \<Rightarrow> ('a session_tables_scheme \<Rightarrow> 'a session_tables_scheme) \<Rightarrow> (nat \<Rightarrow> int) \<Rightarrow> string \<Rightarrow> session_identity \<Rightarrow> json \<Rightarrow> json
     \<Rightarrow> 'a session_tables_scheme vault \<Rightarrow> (session_error, string) result \<times> 'a session_tables_scheme vault" where
  "stageProviderSessionOfferCheckpoint x k io mw gap now i e question verificationKey =
     and_then (in_tables (offer_bound x (now 0) i e)) (\<lambda>b.
     and_then (lift_result (offerCheckpointVerifier k verificationKey)) (\<lambda>resolver.
     and_then (lift_result (offer_snapshot x k resolver b (now 1) question)) (\<lambda>(plaintext, q).
     and_then (in_tables (asking (offerCheckpointRow i (sq_questionId q)))) (\<lambda>prior.
     case prior of
       Some row \<Rightarrow> lift_result (offer_settled_check (sha256 (vc_host x) plaintext) row (sha256 (vc_host x) plaintext))
     | None \<Rightarrow>
         and_then (in_tables (asking (\<lambda>ts. sx_open ts i = None))) (\<lambda>free.
         and_then (guard_that free OfferBusy) (\<lambda>_.
         and_then (put_content x io mw plaintext ''provider-session-offer-checkpoint'') (\<lambda>stored.
         and_then (in_tables (offer_bound x (now 2) i e)) (\<lambda>current.
         and_then (guard_that (sb_sessionId current = sb_sessionId b \<and> sb_workspaceRoot current = sb_workspaceRoot b
             \<and> authorized_by x resolver current (Some (now 3)) q) OfferInvalid) (\<lambda>_.
         and_then (in_tables (yielding gap)) (\<lambda>_.
         and_then (in_tables (insert_offer i (sq_questionId q) stored (isoString (vc_host x) (now 4)))) (\<lambda>_.
         and_then (in_tables (yielding gap)) (\<lambda>_.
         and_then (in_tables (offer_bound x (now 5) i e)) (\<lambda>_.
         and_then (in_tables (asking (offerCheckpointRow i (sq_questionId q)))) (\<lambda>row.
         lift_result (case row of None \<Rightarrow> Inl OfferBusy
           | Some r \<Rightarrow> offer_settled_check (sha256 (vc_host x) plaintext) r stored)))))))))))))))"

datatype offer_view = ViewSettled | ViewExpired | ViewRecoveryRequired json

text \<open>The stored text still spells a question of this binding.\<close>

definition stored_offer ::
  "'key vault_context \<Rightarrow> 'key offer_host \<Rightarrow> (string \<Rightarrow> 'key option) \<Rightarrow> session_binding \<Rightarrow> session_binding \<Rightarrow> string \<Rightarrow> string
     \<Rightarrow> string \<Rightarrow> (session_error, json \<times> session_question) result" where
  "stored_offer x k resolver b current questionId offerHash bytes =
     (case vc_parseJson x bytes of None \<Rightarrow> Inl OfferIntegrity | Some w \<Rightarrow>
      (case oh_question k w of None \<Rightarrow> Inl OfferIntegrity | Some q \<Rightarrow>
         if 16384 < utf8_length bytes \<or> sha256 (vc_host x) bytes \<noteq> offerHash \<or> sq_questionId q \<noteq> questionId
            \<or> canonical x w \<noteq> bytes \<or> sb_sessionId current \<noteq> sb_sessionId b \<or> sb_workspaceRoot current \<noteq> sb_workspaceRoot b
            \<or> \<not> authorized_by x resolver current (dateParse (vc_host x) (sq_createdAt q)) q
         then Inl OfferIntegrity else Inr (w, q)))"

definition get_content :: "'key vault_context \<Rightarrow> string \<Rightarrow> 't vault \<Rightarrow> (session_error, string) result \<times> 't vault" where
  "get_content x c v = (map_sum BlobFailed id (getBlob x c v), v)"

definition readProviderSessionOfferCheckpoint ::
  "'key vault_context \<Rightarrow> 'key offer_host \<Rightarrow> ('a session_tables_scheme vault \<Rightarrow> 'a session_tables_scheme vault)
     \<Rightarrow> (nat \<Rightarrow> int) \<Rightarrow> string \<Rightarrow> session_identity \<Rightarrow> string \<Rightarrow> json
     \<Rightarrow> 'a session_tables_scheme vault \<Rightarrow> (session_error, (string \<times> offer_view) option) result \<times> 'a session_tables_scheme vault" where
  "readProviderSessionOfferCheckpoint x k mw now i e questionId verificationKey =
     and_then (in_tables (offer_bound x (now 0) i e)) (\<lambda>b.
     and_then (lift_result (offerCheckpointVerifier k verificationKey)) (\<lambda>resolver.
     and_then (guard_that (provider_offer_id questionId) OfferInvalid) (\<lambda>_.
     and_then (in_tables (asking (offerCheckpointRow i questionId))) (\<lambda>found.
     case found of None \<Rightarrow> lift_result (Inr None)
     | Some row \<Rightarrow>
         and_then (get_content x (of_hash row)) (\<lambda>bytes.
         and_then (yielding mw) (\<lambda>_.
         and_then (in_tables (offer_bound x (now 1) i e)) (\<lambda>current.
         and_then (lift_result (stored_offer x k resolver b current questionId (of_hash row) bytes)) (\<lambda>(question, q).
         and_then (in_tables (asking (offerCheckpointRow i questionId))) (\<lambda>latest.
         case latest of None \<Rightarrow> lift_result (Inl OfferIntegrity)
         | Some r \<Rightarrow>
             if of_hash r \<noteq> of_hash row then lift_result (Inl OfferIntegrity)
             else case of_settled r of
               Some reply \<Rightarrow>
                 and_then (in_tables (requireOfferReplyAcknowledgment i questionId reply)) (\<lambda>_.
                 lift_result (Inr (Some (of_hash row, ViewSettled))))
             | None \<Rightarrow> lift_result (Inr (Some (of_hash row,
                 if num_le (dateParse (vc_host x) (sq_expiresAt q)) (Some (now 2)) then ViewExpired
                 else ViewRecoveryRequired question))))))))))))"

text \<open>At most one offer of a binding is unsettled, so the unique index answers.\<close>

definition listProviderSessionOfferCheckpoints ::
  "'key vault_context \<Rightarrow> int \<Rightarrow> string \<Rightarrow> session_identity \<Rightarrow> 'a session_tables_scheme
     \<Rightarrow> (session_error, (string \<times> string) list) result" where
  "listProviderSessionOfferCheckpoints x now i e ts =
     (case offerCheckpointBinding x now i e ts of Inl err \<Rightarrow> Inl err | Inr _ \<Rightarrow>
        Inr (case sx_open ts i of None \<Rightarrow> [] | Some questionId \<Rightarrow>
          (case sx_offers ts (i, questionId) of None \<Rightarrow> [] | Some row \<Rightarrow> [(questionId, of_hash row)])))"

record offer_handoff =
  od_settled :: bool
  od_offerHash :: string
  od_attemptId :: string
  od_fingerprint :: string
  od_handedOffAt :: string

definition binding_fingerprint :: "'key vault_context \<Rightarrow> session_binding \<Rightarrow> string" where
  "binding_fingerprint x b = objectDigest (vc_host x) (binding_json b)"

definition readProviderSessionOfferHandoff ::
  "'key vault_context \<Rightarrow> int \<Rightarrow> string \<Rightarrow> session_identity \<Rightarrow> string \<Rightarrow> 'a session_tables_scheme
     \<Rightarrow> (session_error, offer_handoff option) result \<times> 'a session_tables_scheme" where
  "readProviderSessionOfferHandoff x now i e questionId =
     and_then (offer_bound x now i e) (\<lambda>b.
     and_then (guard_that (provider_offer_id questionId) DeliveryInvalid) (\<lambda>_.
     and_then (asking (\<lambda>ts. (sx_deliveries ts (i, questionId), offerCheckpointRow i questionId ts))) (\<lambda>found.
     case found of
       (Some d, Some offer) \<Rightarrow>
         and_then (guard_that (dl_fingerprint d = binding_fingerprint x b) DeliveryBindingChanged) (\<lambda>_.
         and_then (case of_settled offer of None \<Rightarrow> lift_result (Inr ())
                   | Some reply \<Rightarrow> requireOfferReplyAcknowledgment i questionId reply) (\<lambda>_.
         lift_result (Inr (Some \<lparr>od_settled = (of_settled offer \<noteq> None), od_offerHash = of_hash offer,
           od_attemptId = dl_attempt d, od_fingerprint = dl_fingerprint d, od_handedOffAt = dl_handedOffAt d\<rparr>))))
     | _ \<Rightarrow> lift_result (Inr None))))"

definition handoffProviderSessionOfferCheckpoint ::
  "'key vault_context \<Rightarrow> ('a session_tables_scheme \<Rightarrow> 'a session_tables_scheme) \<Rightarrow> (nat \<Rightarrow> int) \<Rightarrow> string \<Rightarrow> session_identity
     \<Rightarrow> string \<Rightarrow> string \<Rightarrow> string \<Rightarrow> 'a session_tables_scheme \<Rightarrow> (session_error, offer_handoff) result \<times> 'a session_tables_scheme" where
  "handoffProviderSessionOfferCheckpoint x gap now i e questionId offerHash attemptId =
     and_then (offer_bound x (now 0) i e) (\<lambda>b.
     and_then (guard_that (provider_offer_id questionId \<and> provider_offer_id attemptId \<and> is_digest offerHash) DeliveryInvalid) (\<lambda>_.
     and_then (asking (\<lambda>ts. (case offerCheckpointRow i questionId ts of None \<Rightarrow> False
        | Some offer \<Rightarrow> of_hash offer = offerHash \<and> of_settled offer = None) \<and> sx_replies ts (i, questionId) = None)) (\<lambda>ok.
     and_then (guard_that ok DeliveryConflict) (\<lambda>_.
     and_then (yielding gap) (\<lambda>_.
     and_then (insert_delivery i questionId \<lparr>dl_attempt = attemptId, dl_fingerprint = binding_fingerprint x b,
        dl_handedOffAt = isoString (vc_host x) (now 1)\<rparr>) (\<lambda>_.
     and_then (yielding gap) (\<lambda>_.
     and_then (readProviderSessionOfferHandoff x (now 2) i e questionId) (\<lambda>stored.
     lift_result (case stored of None \<Rightarrow> Inl DeliveryConflict
       | Some d \<Rightarrow> if od_attemptId d \<noteq> attemptId \<or> od_offerHash d \<noteq> offerHash then Inl DeliveryConflict else Inr d)))))))))"

definition settleProviderSessionOfferCheckpoint ::
  "'key vault_context \<Rightarrow> ('a session_tables_scheme \<Rightarrow> 'a session_tables_scheme) \<Rightarrow> int \<Rightarrow> string \<Rightarrow> session_identity
     \<Rightarrow> string \<Rightarrow> string \<Rightarrow> string \<Rightarrow> 'a session_tables_scheme \<Rightarrow> (session_error, unit) result \<times> 'a session_tables_scheme" where
  "settleProviderSessionOfferCheckpoint x gap now i e questionId offerHash completionHash =
     and_then (offer_bound x now i e) (\<lambda>_.
     and_then (guard_that (provider_offer_id questionId \<and> is_digest offerHash \<and> is_digest completionHash) OfferInvalid) (\<lambda>_.
     and_then (asking (\<lambda>ts. case offerCheckpointRow i questionId ts of None \<Rightarrow> False
        | Some row \<Rightarrow> of_hash row = offerHash \<and> (of_settled row = None \<or> of_settled row = Some completionHash))) (\<lambda>ok.
     and_then (guard_that ok OfferConflict) (\<lambda>_.
     and_then (requireOfferReplyAcknowledgment i questionId completionHash) (\<lambda>_.
     and_then (yielding gap) (\<lambda>_.
     and_then (settle_offer i questionId offerHash completionHash) (\<lambda>changed.
     guard_that changed OfferConflict)))))))"

subsection \<open>Replies\<close>

definition stageProviderSessionReply ::
  "'key vault_context \<Rightarrow> put_io \<Rightarrow> (nat \<Rightarrow> 'a session_tables_scheme vault \<Rightarrow> 'a session_tables_scheme vault)
     \<Rightarrow> ('a session_tables_scheme \<Rightarrow> 'a session_tables_scheme) \<Rightarrow> int \<Rightarrow> string \<Rightarrow> session_identity \<Rightarrow> string \<Rightarrow> string
     \<Rightarrow> 'a session_tables_scheme vault \<Rightarrow> (session_error, string) result \<times> 'a session_tables_scheme vault" where
  "stageProviderSessionReply x io mw gap now i e questionId plaintext =
     and_then (guard_that (provider_offer_id questionId \<and> 1 \<le> length plaintext \<and> length plaintext \<le> 16384) ReplyInvalid) (\<lambda>_.
     and_then (in_tables (bound x i e)) (\<lambda>_.
     and_then (in_tables (asking (\<lambda>ts. sx_replies ts (i, questionId)))) (\<lambda>existing.
     case existing of
       Some row \<Rightarrow> lift_result (if rp_blob row \<noteq> sha256 (vc_host x) plaintext then Inl ReplyConflict else Inr (rp_blob row))
     | None \<Rightarrow>
         and_then (put_content x io mw plaintext ''provider-session-completion'') (\<lambda>hash.
         and_then (in_tables (bound x i e)) (\<lambda>_.
         and_then (in_tables (yielding gap)) (\<lambda>_.
         and_then (in_tables (insert_reply i questionId hash (isoString (vc_host x) now))) (\<lambda>_.
         and_then (in_tables (yielding gap)) (\<lambda>_.
         and_then (in_tables (asking (\<lambda>ts. sx_replies ts (i, questionId)))) (\<lambda>staged.
         lift_result (case staged of None \<Rightarrow> Inl ReplyConflict
           | Some row \<Rightarrow> if rp_blob row \<noteq> hash then Inl ReplyConflict else Inr hash))))))))))"

definition listProviderSessionReplies ::
  "'key vault_context \<Rightarrow> string \<Rightarrow> session_identity \<Rightarrow> string list \<Rightarrow> 'a session_tables_scheme
     \<Rightarrow> (session_error, (string \<times> string) list) result" where
  "listProviderSessionReplies x i e questionIds ts =
     (case require_binding x i e ts of Inl err \<Rightarrow> Inl err | Inr _ \<Rightarrow>
        Inr (map (\<lambda>(_, questionId, completion). (questionId, completion)) (take 100 (by_columns
          (concat (map (\<lambda>questionId. case sx_replies ts (i, questionId) of None \<Rightarrow> []
             | Some row \<Rightarrow> if rp_acknowledgedAt row = None \<and> sx_dispositions ts (i, questionId) = None
                 then [(rp_createdAt row, questionId, rp_blob row)] else []) questionIds))))))"

text \<open>The observation of an expired task: exactly its state, task and correlation.\<close>

definition expired_observation :: "json \<Rightarrow> bool" where
  "expired_observation v =
     (has_exactly v [''correlationId'', ''state'', ''taskId''] \<and> text_property v ''state'' = Some ''expired''
      \<and> (case (text_property v ''taskId'', text_property v ''correlationId'') of
           (Some task, Some correlation) \<Rightarrow> provider_offer_id task \<and> provider_offer_id correlation | _ \<Rightarrow> False))"

definition identity_fields :: "session_identity \<Rightarrow> (string \<times> json) list" where
  "identity_fields e = [(''organizationId'', JStr (si_organizationId e)), (''repositoryBindingId'', JStr (si_repositoryBindingId e))]
     @ party_fields (si_party e) @ [(''provider'', JStr (provider_name (si_provider e)))]"

definition disposition_text :: "string \<Rightarrow> session_identity \<Rightarrow> string \<Rightarrow> string \<Rightarrow> json \<Rightarrow> string \<Rightarrow> string" where
  "disposition_text i e questionId completionHash observation observedAt = stringify (JObj
     ([(''schema'', JStr ''dharma.provider-session-expired-reply/v1'')] @ identity_fields e
      @ [(''bindingId'', JStr i), (''questionId'', JStr questionId), (''completionHash'', JStr completionHash)]
      @ (case observation of JObj kvs \<Rightarrow> kvs | _ \<Rightarrow> [])
      @ [(''observedAt'', JStr observedAt), (''delivered'', JBool False)]))"

definition quarantineExpiredProviderSessionReply ::
  "'key vault_context \<Rightarrow> put_io \<Rightarrow> (nat \<Rightarrow> 'a session_tables_scheme vault \<Rightarrow> 'a session_tables_scheme vault)
     \<Rightarrow> ('a session_tables_scheme \<Rightarrow> 'a session_tables_scheme) \<Rightarrow> int \<Rightarrow> string \<Rightarrow> session_identity \<Rightarrow> string \<Rightarrow> string \<Rightarrow> json
     \<Rightarrow> 'a session_tables_scheme vault \<Rightarrow> (session_error, string) result \<times> 'a session_tables_scheme vault" where
  "quarantineExpiredProviderSessionReply x io mw gap now i e questionId completionHash observation =
     and_then (guard_that (provider_offer_id questionId \<and> is_digest completionHash \<and> expired_observation observation)
       DispositionInvalid) (\<lambda>_.
     and_then (in_tables (bound x i e)) (\<lambda>_.
     and_then (in_tables (asking (\<lambda>ts. case sx_replies ts (i, questionId) of None \<Rightarrow> False
        | Some row \<Rightarrow> rp_blob row = completionHash \<and> rp_acknowledgedAt row = None))) (\<lambda>pending.
     and_then (guard_that pending ReplyConflict) (\<lambda>_.
     and_then (in_tables (asking (\<lambda>ts. sx_dispositions ts (i, questionId)))) (\<lambda>existing.
     case existing of
       Some d \<Rightarrow> lift_result (if ds_completion d \<noteq> completionHash then Inl ReplyConflict else Inr (ds_hash d))
     | None \<Rightarrow>
         and_then (put_content x io mw (disposition_text i e questionId completionHash observation (isoString (vc_host x) now))
           ''provider-session-expired-reply'') (\<lambda>dispositionHash.
         and_then (in_tables (bound x i e)) (\<lambda>_.
         and_then (in_tables (yielding gap)) (\<lambda>_.
         and_then (in_tables (insert_disposition i questionId completionHash dispositionHash)) (\<lambda>_.
         and_then (in_tables (yielding gap)) (\<lambda>_.
         and_then (in_tables (asking (\<lambda>ts. sx_dispositions ts (i, questionId)))) (\<lambda>persisted.
         lift_result (case persisted of None \<Rightarrow> Inl ReplyConflict
           | Some d \<Rightarrow> if ds_completion d \<noteq> completionHash then Inl ReplyConflict else Inr (ds_hash d)))))))))))))"

definition acknowledgeProviderSessionReply ::
  "'key vault_context \<Rightarrow> ('a session_tables_scheme \<Rightarrow> 'a session_tables_scheme) \<Rightarrow> int \<Rightarrow> string \<Rightarrow> session_identity
     \<Rightarrow> string \<Rightarrow> string \<Rightarrow> 'a session_tables_scheme \<Rightarrow> (session_error, unit) result \<times> 'a session_tables_scheme" where
  "acknowledgeProviderSessionReply x gap now i e questionId completionHash =
     and_then (bound x i e) (\<lambda>_.
     and_then (asking (\<lambda>ts. case sx_replies ts (i, questionId) of None \<Rightarrow> False | Some row \<Rightarrow> rp_blob row = completionHash)) (\<lambda>ok.
     and_then (guard_that ok ReplyConflict) (\<lambda>_.
     and_then (asking (\<lambda>ts. sx_dispositions ts (i, questionId) = None)) (\<lambda>free.
     and_then (guard_that free ReplyQuarantined) (\<lambda>_.
     and_then (yielding gap) (\<lambda>_.
     yielding (acknowledge_reply i questionId completionHash (isoString (vc_host x) now))))))))"

text \<open>\<open>begin immediate\<close>: the write lock is held from the start, so no other process has a statement
  between those of the body, and a failure rolls all of them back.\<close>

definition immediately ::
  "bool \<Rightarrow> ('t \<Rightarrow> (session_error, 'r) result \<times> 't) \<Rightarrow> 't \<Rightarrow> (session_error, 'r) result \<times> 't" where
  "immediately inTransaction body ts =
     (if inTransaction then (Inl TransactionOpen, ts)
      else case body ts of (Inl err, _) \<Rightarrow> (Inl err, ts) | (Inr r, ts1) \<Rightarrow> (Inr r, ts1))"

definition acknowledgeProviderSessionOfferReply ::
  "'key vault_context \<Rightarrow> bool \<Rightarrow> (nat \<Rightarrow> int) \<Rightarrow> string \<Rightarrow> session_identity
     \<Rightarrow> string \<Rightarrow> string \<Rightarrow> string \<Rightarrow> 'a session_tables_scheme \<Rightarrow> (session_error, unit) result \<times> 'a session_tables_scheme" where
  "acknowledgeProviderSessionOfferReply x inTransaction now i e questionId offerHash completionHash =
     immediately inTransaction
       (and_then (acknowledgeProviderSessionReply x id (now 0) i e questionId completionHash)
          (\<lambda>_. settleProviderSessionOfferCheckpoint x id (now 1) i e questionId offerHash completionHash))"

subsection \<open>Statements of all processes\<close>

datatype session_stmt =
    HandoffStatement handoff_stmt
  | IndexBlob string blob_row
  | PutBinding string binding_row
  | InsertExport string string string string
  | AcknowledgeExport string string string "string option" string
  | InsertOffer string string string string
  | SettleOffer string string string string
  | InsertDelivery string string delivery_row
  | InsertReply string string string string
  | InsertDisposition string string string string
  | AcknowledgeReply string string string string

fun session_exec ::
  "'key vault_context \<Rightarrow> handoff_host \<Rightarrow> session_stmt \<Rightarrow> 'a session_tables_scheme \<Rightarrow> 'a session_tables_scheme" where
  "session_exec x k (HandoffStatement s) ts = handoff_exec x k s ts"
| "session_exec x k (IndexBlob c row) ts = ts\<lparr>bt_blobs := insert_new c row (bt_blobs ts)\<rparr>"
| "session_exec x k (PutBinding i row) ts = ts\<lparr>bt_bindings := (bt_bindings ts)(i \<mapsto> row)\<rparr>"
| "session_exec x k (InsertExport i w c now) ts = snd (insert_export i w c now ts)"
| "session_exec x k (AcknowledgeExport i w d r now) ts = snd (acknowledge_export i w d r now ts)"
| "session_exec x k (InsertOffer i q c now) ts = snd (insert_offer i q c now ts)"
| "session_exec x k (SettleOffer i q c r) ts = snd (settle_offer i q c r ts)"
| "session_exec x k (InsertDelivery i q row) ts = snd (insert_delivery i q row ts)"
| "session_exec x k (InsertReply i q c now) ts = snd (insert_reply i q c now ts)"
| "session_exec x k (InsertDisposition i q c d) ts = snd (insert_disposition i q c d ts)"
| "session_exec x k (AcknowledgeReply i q c now) ts = acknowledge_reply i q c now ts"

text \<open>Every row of a session refers to rows that exist; an offer is unsettled exactly when the
  unique index names it; a quarantined reply is quarantined with the content it has.\<close>

definition exports_wf :: "'a session_tables_scheme \<Rightarrow> bool" where
  "exports_wf ts = (\<forall>i w row. sx_exports ts (i, w) = Some row \<longrightarrow>
     has_blob (ex_descriptor row) ts \<and> (\<forall>r. ex_receipt row = Some r \<longrightarrow> has_blob r ts))"

definition offers_wf :: "'a session_tables_scheme \<Rightarrow> bool" where
  "offers_wf ts =
     ((\<forall>i q row. sx_offers ts (i, q) = Some row \<longrightarrow> bt_bindings ts i \<noteq> None \<and> has_blob (of_hash row) ts
         \<and> (\<forall>r. of_settled row = Some r \<longrightarrow> has_blob r ts) \<and> (of_settled row = None \<longleftrightarrow> sx_open ts i = Some q))
      \<and> (\<forall>i q. sx_open ts i = Some q \<longrightarrow> sx_offers ts (i, q) \<noteq> None)
      \<and> (\<forall>i q. sx_deliveries ts (i, q) \<noteq> None \<longrightarrow> sx_offers ts (i, q) \<noteq> None))"

definition replies_wf :: "'a session_tables_scheme \<Rightarrow> bool" where
  "replies_wf ts =
     ((\<forall>i q row. sx_replies ts (i, q) = Some row \<longrightarrow> bt_bindings ts i \<noteq> None \<and> has_blob (rp_blob row) ts)
      \<and> (\<forall>i q d. sx_dispositions ts (i, q) = Some d \<longrightarrow> has_blob (ds_hash d) ts
         \<and> (\<exists>row. sx_replies ts (i, q) = Some row \<and> rp_blob row = ds_completion d)))"

definition session_wf :: "'a session_tables_scheme \<Rightarrow> bool" where
  "session_wf ts = (exports_wf ts \<and> offers_wf ts \<and> replies_wf ts)"

definition unsettled :: "'a session_tables_scheme \<Rightarrow> string \<Rightarrow> string set" where
  "unsettled ts i = {q. \<exists>row. sx_offers ts (i, q) = Some row \<and> of_settled row = None}"

lemma setup_exec_sx [simp]:
  fixes ts :: "'a session_tables_scheme"
  shows "session_tables.more (setup_exec x s ts) = session_tables.more ts"
    "sx_exports (setup_exec x s ts) = sx_exports ts" "sx_offers (setup_exec x s ts) = sx_offers ts"
    "sx_open (setup_exec x s ts) = sx_open ts" "sx_deliveries (setup_exec x s ts) = sx_deliveries ts"
    "sx_replies (setup_exec x s ts) = sx_replies ts" "sx_dispositions (setup_exec x s ts) = sx_dispositions ts"
    "bt_blobs (setup_exec x s ts) = bt_blobs ts" "bt_bindings (setup_exec x s ts) = bt_bindings ts"
  by (cases s; auto simp: insert_operation_def terminate_operation_def insert_readiness_def split: option.split)+

lemma handoff_exec_sx [simp]:
  fixes ts :: "'a session_tables_scheme"
  shows "session_tables.more (handoff_exec x k s ts) = session_tables.more ts"
    "sx_exports (handoff_exec x k s ts) = sx_exports ts" "sx_offers (handoff_exec x k s ts) = sx_offers ts"
    "sx_open (handoff_exec x k s ts) = sx_open ts" "sx_deliveries (handoff_exec x k s ts) = sx_deliveries ts"
    "sx_replies (handoff_exec x k s ts) = sx_replies ts" "sx_dispositions (handoff_exec x k s ts) = sx_dispositions ts"
    "bt_blobs (handoff_exec x k s ts) = bt_blobs ts" "bt_bindings (handoff_exec x k s ts) = bt_bindings ts"
  by (cases s; simp add: insert_session_def withdraw_session_def accept_session_def record_session_def
        with_session_def applied_def split: option.split)+

lemma has_blob_simps [simp]:
  fixes ts :: "'a session_tables_scheme"
  shows "has_blob c (handoff_exec x k s ts) = has_blob c ts"
    "has_blob c (sx_exports_update f ts) = has_blob c ts" "has_blob c (sx_offers_update f1 ts) = has_blob c ts"
    "has_blob c (sx_open_update f2 ts) = has_blob c ts" "has_blob c (sx_deliveries_update f3 ts) = has_blob c ts"
    "has_blob c (sx_replies_update f4 ts) = has_blob c ts" "has_blob c (sx_dispositions_update f5 ts) = has_blob c ts"
    "has_blob c (bt_bindings_update f6 ts) = has_blob c ts"
  by (simp_all add: has_blob_def)

lemma unrevoked_bound: "unrevoked i ts \<Longrightarrow> bt_bindings ts i \<noteq> None"
  by (auto simp: unrevoked_def split: option.splits)

lemma session_wf_same:
  fixes ts :: "'a session_tables_scheme"
  assumes "session_wf ts" "sx_exports ts' = sx_exports ts" "sx_offers ts' = sx_offers ts" "sx_open ts' = sx_open ts"
    "sx_deliveries ts' = sx_deliveries ts" "sx_replies ts' = sx_replies ts" "sx_dispositions ts' = sx_dispositions ts"
    and blob: "\<And>c. has_blob c ts \<Longrightarrow> has_blob c ts'" and bound: "\<And>i. bt_bindings ts i \<noteq> None \<Longrightarrow> bt_bindings ts' i \<noteq> None"
  shows "session_wf ts'"
  using assms(1) unfolding session_wf_def exports_wf_def offers_wf_def replies_wf_def assms(2-7)
  by (intro conjI allI impI; elim conjE; meson blob bound)

lemma session_wf_exports:
  assumes "session_wf ts"
  shows "session_wf (snd (insert_export i w c now ts))" "session_wf (snd (acknowledge_export i w d r now ts))"
proof -
  have "exports_wf (snd (insert_export i w c now ts))" "exports_wf (snd (acknowledge_export i w d r now ts))"
    using assms by (auto simp: session_wf_def exports_wf_def insert_export_def acknowledge_export_def Let_def split: option.splits)
  with assms show "session_wf (snd (insert_export i w c now ts))" "session_wf (snd (acknowledge_export i w d r now ts))"
    by (auto simp: session_wf_def offers_wf_def replies_wf_def insert_export_def acknowledge_export_def Let_def split: option.splits)
qed

lemma offers_wf_steps:
  assumes "offers_wf ts"
  shows "offers_wf (snd (insert_offer i q c now ts))" "offers_wf (snd (settle_offer i q c r ts))"
    "offers_wf (snd (insert_delivery i q row ts))"
  using assms unrevoked_bound [of i ts]
  by (auto simp: offers_wf_def insert_offer_def settle_offer_def insert_delivery_def split: option.splits)
    (metis option.exhaust option.inject)+

lemma session_wf_offers:
  assumes "session_wf ts"
  shows "session_wf (snd (insert_offer i q c now ts))" "session_wf (snd (settle_offer i q c r ts))"
    "session_wf (snd (insert_delivery i q row ts))"
  using assms offers_wf_steps [of ts]
  by (auto simp: session_wf_def exports_wf_def replies_wf_def insert_offer_def settle_offer_def insert_delivery_def split: option.splits)

lemma replies_wf_steps:
  assumes "replies_wf ts"
  shows "replies_wf (snd (insert_reply i q c now ts))" "replies_wf (acknowledge_reply i q c now ts)"
    "replies_wf (snd (insert_disposition i q c d ts))"
  using assms by (auto simp: replies_wf_def insert_reply_def acknowledge_reply_def insert_disposition_def split: option.splits) force+

lemma session_wf_replies:
  assumes "session_wf ts"
  shows "session_wf (snd (insert_reply i q c now ts))" "session_wf (acknowledge_reply i q c now ts)"
    "session_wf (snd (insert_disposition i q c d ts))"
  using assms replies_wf_steps [of ts]
  by (auto simp: session_wf_def exports_wf_def offers_wf_def insert_reply_def acknowledge_reply_def insert_disposition_def
      split: option.splits)

lemma session_wf_exec: "session_wf ts \<Longrightarrow> session_wf (session_exec x k s ts)"
proof (cases s)
  case (HandoffStatement s')
  then show "session_wf ts \<Longrightarrow> ?thesis" by (auto intro: session_wf_same)
next
  case (IndexBlob c row)
  then show "session_wf ts \<Longrightarrow> ?thesis" by (auto intro!: session_wf_same [of ts] simp: has_blob_def insert_new_def split: option.split)
next
  case (PutBinding i row)
  then show "session_wf ts \<Longrightarrow> ?thesis" by (auto intro!: session_wf_same [of ts])
qed (simp_all add: session_wf_exports session_wf_offers session_wf_replies)


subsection \<open>Operations keep the tables well-formed\<close>

definition sessions_ok :: "'a session_tables_scheme vault \<Rightarrow> bool" where
  "sessions_ok v = session_wf (va_tables v)"

lemma keeps_in_tables [inv_intros]: "keeps session_wf f \<Longrightarrow> keeps sessions_ok (in_tables f)"
  by (simp add: keeps_def sessions_ok_def in_tables_def split_beta)

lemma keeps_asking [inv_intros]: "keeps I (asking f)" "keeps session_wf (bound x i e)"
  "keeps session_wf (offer_bound x now i e)" "keeps session_wf (requireOfferReplyAcknowledgment i q c)"
  by (simp_all add: keeps_def asking_def bound_def offer_bound_def requireOfferReplyAcknowledgment_def)

lemma keeps_get_content [inv_intros]: "keeps I (get_content x c)"
  by (simp add: keeps_def get_content_def)

lemma keeps_yielding [inv_intros]: "(\<And>s. I s \<Longrightarrow> I (gap s)) \<Longrightarrow> keeps I (yielding gap)"
  by (simp add: keeps_def yielding_def)

lemma keeps_statements [inv_intros]:
  "keeps session_wf (insert_export i w c now)" "keeps session_wf (acknowledge_export i w d receipt now)"
  "keeps session_wf (insert_offer i q c now)" "keeps session_wf (settle_offer i q c r)"
  "keeps session_wf (insert_delivery i q row)" "keeps session_wf (insert_reply i q c now)"
  "keeps session_wf (insert_disposition i q c d)" "keeps session_wf (yielding (acknowledge_reply i q c now))"
  by (simp_all add: keeps_def yielding_def session_wf_exports session_wf_offers session_wf_replies)

text \<open>What runs while a put waits, and what other processes execute, keeps the tables well-formed.\<close>

definition considerate :: "(nat \<Rightarrow> 'a session_tables_scheme vault \<Rightarrow> 'a session_tables_scheme vault) \<Rightarrow> bool" where
  "considerate mw = (\<forall>n v. sessions_ok v \<longrightarrow> sessions_ok (mw n v))"

lemma sessions_ok_write_file [simp]: "sessions_ok (write_file n e v) = sessions_ok v"
  by (simp add: sessions_ok_def)

lemma sessions_ok_publish: "sessions_ok v \<Longrightarrow> sessions_ok (snd (publish x io c path temporary n kind v))"
  by (auto simp: publish_def sessions_ok_def index_blob_def has_blob_def intro: session_wf_same)

lemma keeps_put_content [inv_intros]:
  fixes mw :: "nat \<Rightarrow> 'a session_tables_scheme vault \<Rightarrow> 'a session_tables_scheme vault"
  assumes "considerate mw"
  shows "keeps sessions_ok (put_content x io mw t kind)"
  unfolding keeps_def
proof (intro allI impI)
  fix v :: "'a session_tables_scheme vault" assume ok: "sessions_ok v"
  obtain r v1 where run: "putBlob x io mw t kind v = (r, v1)" by fastforce
  then have "sessions_ok v1"
  proof (cases rule: putBlob_cases)
    case (written path v0 r1 v2)
    have mw: "sessions_ok (mw n u)" if "sessions_ok u" for n u using assms that unfolding considerate_def by blast
    then have "sessions_ok v0" using ok by (simp add: written(2))
    from sessions_ok_publish [OF this] have "sessions_ok v2" by (metis written(3) snd_conv)
    then show ?thesis by (simp add: written(4) mw)
  qed (use ok in auto)
  then show "sessions_ok (snd (put_content x io mw t kind v))" by (simp add: put_content_def run)
qed

lemma session_wf_run [inv_intros]: "session_wf ts \<Longrightarrow> session_wf (fold (session_exec x k) ops ts)"
  by (induction ops arbitrary: ts) (simp_all add: session_wf_exec)

definition executes ::
  "'key vault_context \<Rightarrow> handoff_host \<Rightarrow> ('a session_tables_scheme vault \<Rightarrow> 'a session_tables_scheme vault) \<Rightarrow> bool" where
  "executes x hh m = (\<forall>v. \<exists>ops. va_tables (m v) = fold (session_exec x hh) ops (va_tables v))"

lemma executes_ok: "executes x hh m \<Longrightarrow> sessions_ok v \<Longrightarrow> sessions_ok (m v)"
  unfolding executes_def sessions_ok_def by (metis session_wf_run)

lemma executes_considerate: "(\<And>n. executes x hh (mw n)) \<Longrightarrow> considerate mw"
  unfolding considerate_def using executes_ok by blast

text \<open>One step of the system: a statement of any process, or an operation during which other
  statements are executed.\<close>

inductive session_step ::
  "'key vault_context \<Rightarrow> 'key offer_host \<Rightarrow> handoff_host
     \<Rightarrow> 'a session_tables_scheme vault \<Rightarrow> 'a session_tables_scheme vault \<Rightarrow> bool"
  for x :: "'key vault_context" and k :: "'key offer_host" and hh :: handoff_host where
  statement: "session_step x k hh v (v\<lparr>va_tables := session_exec x hh s (va_tables v), va_files := files\<rparr>)"
| stage_export: "(\<And>n. executes x hh (mw n)) \<Longrightarrow>
    session_step x k hh v (snd (stageProviderSessionTaskExport x io mw (fold (session_exec x hh) ops) now i e w d v))"
| acknowledge_export:
    "session_step x k hh v (snd (in_tables (acknowledgeProviderSessionTaskExport x (fold (session_exec x hh) ops) now i e w d receipt) v))"
| stage_offer: "(\<And>n. executes x hh (mw n)) \<Longrightarrow>
    session_step x k hh v (snd (stageProviderSessionOfferCheckpoint x k io mw (fold (session_exec x hh) ops) clock i e question key v))"
| read_offer: "executes x hh m \<Longrightarrow>
    session_step x k hh v (snd (readProviderSessionOfferCheckpoint x k m clock i e q key v))"
| handoff_offer:
    "session_step x k hh v (snd (in_tables (handoffProviderSessionOfferCheckpoint x (fold (session_exec x hh) ops) clock i e q c attempt) v))"
| settle:
    "session_step x k hh v (snd (in_tables (settleProviderSessionOfferCheckpoint x (fold (session_exec x hh) ops) now i e q c completion) v))"
| stage_reply: "(\<And>n. executes x hh (mw n)) \<Longrightarrow>
    session_step x k hh v (snd (stageProviderSessionReply x io mw (fold (session_exec x hh) ops) now i e q reply v))"
| quarantine: "(\<And>n. executes x hh (mw n)) \<Longrightarrow>
    session_step x k hh v (snd (quarantineExpiredProviderSessionReply x io mw (fold (session_exec x hh) ops) now i e q completion observation v))"
| acknowledge_answer:
    "session_step x k hh v (snd (in_tables (acknowledgeProviderSessionReply x (fold (session_exec x hh) ops) now i e q completion) v))"
| acknowledge_both:
    "session_step x k hh v (snd (in_tables (acknowledgeProviderSessionOfferReply x inTransaction clock i e q c completion) v))"

lemma keeps_case_option [inv_intros]: "keeps I m \<Longrightarrow> (\<And>a. keeps I (g a)) \<Longrightarrow> keeps I (case found of None \<Rightarrow> m | Some a \<Rightarrow> g a)"
  by (cases found) simp_all

lemma keeps_case_prod [inv_intros]: "(\<And>a b. keeps I (g a b)) \<Longrightarrow> keeps I (case p of (a, b) \<Rightarrow> g a b)"
  by (cases p) simp

lemma keeps_immediately [inv_intros]: "keeps I m \<Longrightarrow> keeps I (immediately b m)"
  by (fastforce simp: keeps_def immediately_def split: prod.splits sum.splits)

lemma keeps_session_operations:
  "keeps sessions_ok (stageProviderSessionTaskExport x io mw (fold (session_exec x hh) ops) now i e w d)"
  "keeps sessions_ok (stageProviderSessionOfferCheckpoint x k io mw (fold (session_exec x hh) ops) clock i e question key)"
  "keeps sessions_ok (stageProviderSessionReply x io mw (fold (session_exec x hh) ops) now i e q reply)"
  "keeps sessions_ok (quarantineExpiredProviderSessionReply x io mw (fold (session_exec x hh) ops) now i e q completion observation)"
  if "\<And>n. executes x hh (mw n)"
  unfolding stageProviderSessionTaskExport_def stageProviderSessionOfferCheckpoint_def stageProviderSessionReply_def
    quarantineExpiredProviderSessionReply_def
  by - (intro inv_intros executes_considerate [OF that]; assumption)+

lemma keeps_session_reads:
  "keeps session_wf (acknowledgeProviderSessionTaskExport x (fold (session_exec x hh) ops) now i e w d receipt)"
  "keeps session_wf (handoffProviderSessionOfferCheckpoint x (fold (session_exec x hh) ops) clock i e q c attempt)"
  unfolding acknowledgeProviderSessionTaskExport_def handoffProviderSessionOfferCheckpoint_def
    readProviderSessionOfferHandoff_def
  by - (intro inv_intros; assumption)+

lemma keeps_settle:
  "keeps session_wf (settleProviderSessionOfferCheckpoint x gap now i e q c completion)"
  "keeps session_wf (acknowledgeProviderSessionReply x gap now i e q completion)"
  if "\<And>ts. session_wf ts \<Longrightarrow> session_wf (gap ts)"
  unfolding settleProviderSessionOfferCheckpoint_def acknowledgeProviderSessionReply_def
  by - (intro inv_intros that; assumption)+

lemma keeps_settlements:
  "keeps session_wf (settleProviderSessionOfferCheckpoint x (fold (session_exec x hh) ops) now i e q c completion)"
  "keeps session_wf (acknowledgeProviderSessionReply x (fold (session_exec x hh) ops) now i e q completion)"
  "keeps session_wf (acknowledgeProviderSessionOfferReply x inTransaction clock i e q c completion)"
  unfolding acknowledgeProviderSessionOfferReply_def
  by - (intro keeps_immediately keeps_and_then keeps_settle session_wf_run; simp)+

lemma keeps_read_offer:
  assumes "executes x hh m"
  shows "keeps sessions_ok (readProviderSessionOfferCheckpoint x k m clock i e q key)"
  unfolding readProviderSessionOfferCheckpoint_def
  by (intro inv_intros executes_ok [OF assms]; assumption?)


subsection \<open>Settled offers and acknowledged replies are final\<close>

definition offer_above :: "offer_row \<Rightarrow> offer_row \<Rightarrow> bool" where
  "offer_above a b = (of_hash b = of_hash a \<and> (of_settled a \<noteq> None \<longrightarrow> of_settled b = of_settled a))"

text \<open>A reply with its disposition.\<close>

definition disposed_reply_of :: "'a session_tables_scheme \<Rightarrow> string \<times> string \<Rightarrow> (reply_row \<times> disposition_row option) option" where
  "disposed_reply_of ts k = map_option (\<lambda>row. (row, sx_dispositions ts k)) (sx_replies ts k)"

definition reply_above :: "reply_row \<times> disposition_row option \<Rightarrow> reply_row \<times> disposition_row option \<Rightarrow> bool" where
  "reply_above a b = (rp_blob (fst b) = rp_blob (fst a)
     \<and> (rp_acknowledgedAt (fst a) \<noteq> None \<longrightarrow> rp_acknowledgedAt (fst b) = rp_acknowledgedAt (fst a))
     \<and> (snd a \<noteq> None \<longrightarrow> snd b = snd a)
     \<and> (rp_acknowledgedAt (fst a) \<noteq> None \<and> snd a = None \<longrightarrow> snd b = None))"

lemma offer_advances:
  "sx_offers ts key = Some row \<Longrightarrow> \<exists>row'. sx_offers (session_exec x hh s ts) key = Some row' \<and> offer_above row row'"
  by (cases s) (auto simp: offer_above_def insert_export_def acknowledge_export_def insert_offer_def settle_offer_def
      insert_delivery_def insert_reply_def insert_disposition_def acknowledge_reply_def Let_def split: option.split)

lemma reply_advances:
  "disposed_reply_of ts key = Some a \<Longrightarrow> \<exists>b. disposed_reply_of (session_exec x hh s ts) key = Some b \<and> reply_above a b"
  by (cases s) (auto simp: disposed_reply_of_def reply_above_def insert_export_def acknowledge_export_def insert_offer_def
      settle_offer_def insert_delivery_def insert_reply_def insert_disposition_def acknowledge_reply_def Let_def split: option.split)

interpretation offer_store: advancing_store sx_offers "session_exec x hh" offer_above for x hh
  by (unfold_locales; (rule offer_advances, assumption)?; simp add: offer_above_def)

interpretation reply_store: advancing_store disposed_reply_of "session_exec x hh" reply_above for x hh
  by (unfold_locales; (rule reply_advances, assumption)?; simp add: reply_above_def)

lemma immediately_cases:
  "immediately b m ts = (Inl err, ts1) \<Longrightarrow> ts1 = ts"
  "immediately b m ts = (Inr r, ts1) \<Longrightarrow> m ts = (Inr r, ts1)"
  by (auto simp: immediately_def split: if_splits prod.splits sum.splits)

lemma settled_by:
  assumes "settleProviderSessionOfferCheckpoint x gap now i e q c completion ts = (Inr (), ts1)"
  shows "\<exists>row. sx_offers ts1 (i, q) = Some row \<and> of_hash row = c \<and> of_settled row = Some completion"
    and "fst (requireOfferReplyAcknowledgment i q completion ts) = Inr ()"
    and "\<exists>ts2. ts2 = gap ts \<and> sx_replies ts1 = sx_replies ts2 \<and> sx_dispositions ts1 = sx_dispositions ts2"
  using assms
  by (auto simp: settleProviderSessionOfferCheckpoint_def and_then_ok asking_def yielding_def offer_bound_def settle_offer_def
      requireOfferReplyAcknowledgment_def split: option.splits if_splits)

lemma acknowledgment_iff:
  "fst (requireOfferReplyAcknowledgment i q completion ts) = Inr () \<longleftrightarrow>
     (\<exists>r. disposed_reply_of ts (i, q) = Some (r, None) \<and> rp_blob r = completion \<and> rp_acknowledgedAt r \<noteq> None)"
  by (auto simp: requireOfferReplyAcknowledgment_def disposed_reply_of_def split: option.splits)

text \<open>An acknowledged reply without a disposition stays so.\<close>

lemma acknowledgment_stays:
  assumes "fst (requireOfferReplyAcknowledgment i q completion ts) = Inr ()"
  shows "fst (requireOfferReplyAcknowledgment i q completion (fold (session_exec x hh) ops ts)) = Inr ()"
proof -
  from assms obtain r where r: "disposed_reply_of ts (i, q) = Some (r, None)" "rp_blob r = completion" "rp_acknowledgedAt r \<noteq> None"
    unfolding acknowledgment_iff by blast
  from reply_store.run_advances [OF r(1), where x = x and ops = ops] obtain b
    where "disposed_reply_of (fold (session_exec x hh) ops ts) (i, q) = Some b" "reply_above (r, None) b" by blast
  with r(2,3) show ?thesis unfolding acknowledgment_iff by (cases b) (auto simp: reply_above_def)
qed

text \<open>
  C21. An answered offer is acknowledged and settled together, and for good.  When the combined
  acknowledgement fails it leaves the tables as they were.  When it succeeds the offer is settled
  with the answer, and whatever statements any process executes afterwards, it remains settled with
  the same answer, whose reply remains acknowledged and is never quarantined.
\<close>

theorem offer_reply_settled:
  assumes "acknowledgeProviderSessionOfferReply x inTransaction now i e q c completion ts = (r, ts1)"
  shows "case r of Inl err \<Rightarrow> ts1 = ts
    | Inr _ \<Rightarrow> let later = fold (session_exec x hh) ops ts1 in
        (\<exists>row. sx_offers later (i, q) = Some row \<and> of_hash row = c \<and> of_settled row = Some completion)
        \<and> fst (requireOfferReplyAcknowledgment i q completion later) = Inr ()"
proof (cases r)
  case (Inl err)
  with assms immediately_cases(1) show ?thesis by (fastforce simp: acknowledgeProviderSessionOfferReply_def)
next
  case (Inr u)
  let ?ack = "acknowledgeProviderSessionReply x id (now 0) i e q completion"
  from assms Inr immediately_cases(2) obtain ts2
    where ack: "?ack ts = (Inr (), ts2)"
      and settle: "settleProviderSessionOfferCheckpoint x id (now 1) i e q c completion ts2 = (Inr (), ts1)"
    by (fastforce simp: acknowledgeProviderSessionOfferReply_def and_then_ok)
  from settled_by(1) [OF settle] obtain row where row: "sx_offers ts1 (i, q) = Some row" "of_hash row = c"
      "of_settled row = Some completion" by blast
  from offer_store.run_advances [OF row(1), where x = x and ops = ops] row(2,3)
  have offer: "\<exists>row. sx_offers (fold (session_exec x hh) ops ts1) (i, q) = Some row \<and> of_hash row = c
      \<and> of_settled row = Some completion" by (auto simp: offer_above_def)
  from settled_by(2,3) [OF settle] have "fst (requireOfferReplyAcknowledgment i q completion ts1) = Inr ()"
    by (simp add: acknowledgment_iff disposed_reply_of_def)
  from acknowledgment_stays [OF this] offer show ?thesis by (simp add: Inr Let_def)
qed

text \<open>The plain acknowledgement reads the dispositions and writes the reply in two statements.  A
  quarantine by another process between them leaves the reply acknowledged and quarantined.\<close>

lemma acknowledged_and_quarantined:
  assumes "getProviderSessionBinding x i e ts = Inr (Some b)"
    and "sx_replies ts (i, q) = Some row" "rp_acknowledgedAt row = None" "sx_dispositions ts (i, q) = None"
    and "has_blob (rp_blob row) ts" "has_blob d ts"
  shows "\<exists>ts1. acknowledgeProviderSessionReply x (session_exec x hh (InsertDisposition i q (rp_blob row) d)) now i e q (rp_blob row) ts
      = (Inr (), ts1)
    \<and> (\<exists>row'. sx_replies ts1 (i, q) = Some row' \<and> rp_acknowledgedAt row' \<noteq> None) \<and> sx_dispositions ts1 (i, q) \<noteq> None"
  using assms
  by (simp add: acknowledgeProviderSessionReply_def and_then_def bound_def require_binding_def asking_def guard_that_def
      yielding_def insert_disposition_def acknowledge_reply_def)

subsection \<open>Instances\<close>

definition demo_cooperative :: session_binding where
  "demo_cooperative = demo_session\<lparr>sb_owner := CooperativeSession\<rparr>"

abbreviation demo_session_context :: "string vault_context" where
  "demo_session_context \<equiv> knowing [binding_json demo_cooperative]"

definition demo_row :: "blob_row" where
  "demo_row = \<lparr>br_bytes = 1, br_kind = ''k'', br_createdAt = ''1''\<rparr>"

definition demo_answered :: session_tables where
  "demo_answered = \<lparr>bt_blobs = [demo_intent \<mapsto> demo_row, demo_token \<mapsto> demo_row],
     bt_bindings = [demo_id \<mapsto> binding_row_of demo_session_context ''n'' demo_cooperative],
     bt_locators = [locatorHash demo_session_context demo_cooperative \<mapsto> demo_id],
     bt_leases = (\<lambda>_. None), bt_declarations = (\<lambda>_. None), bt_renewals = (\<lambda>_. None),
     su_operations = (\<lambda>_. None), su_leases = (\<lambda>_. None), su_readiness = (\<lambda>_. None), su_receipts = (\<lambda>_. None), ha_sessions = (\<lambda>_. None),
     sx_exports = (\<lambda>_. None),
     sx_offers = [(demo_id, demo_id) \<mapsto> \<lparr>of_hash = demo_intent, of_createdAt = ''20'', of_settled = None\<rparr>],
     sx_open = [demo_id \<mapsto> demo_id], sx_deliveries = (\<lambda>_. None),
     sx_replies = [(demo_id, demo_id) \<mapsto> \<lparr>rp_blob = demo_token, rp_createdAt = ''25'', rp_acknowledgedAt = None\<rparr>],
     sx_dispositions = (\<lambda>_. None)\<rparr>"

lemma demo_answered_get:
  "getProviderSessionBinding demo_session_context demo_id (identity_of demo_cooperative) demo_answered = Inr (Some demo_cooperative)"
proof -
  have "reads_back demo_session_context (binding_json demo_cooperative)"
    by (simp add: reads_back_def)
  moreover have "valid_binding (vc_host demo_session_context) demo_cooperative" by simp code_simp
  ultimately have "open_binding demo_session_context (bs_bindingId (sb_scope demo_cooperative))
      (binding_row_of demo_session_context ''n'' demo_cooperative) = Inr demo_cooperative"
    by (rule open_binding_row_of)
  moreover have "bs_bindingId (sb_scope demo_cooperative) = demo_id" by (simp add: demo_cooperative_def demo_session_def)
  ultimately show ?thesis
    by (simp add: getProviderSessionBinding_def readProviderSessionBinding_def demo_answered_def binding_revoked_def
        binding_row_of_def sealed_text.defs same_identity_iff)
qed

lemma demo_answered_wf: "session_wf demo_answered"
  by (simp add: session_wf_def exports_wf_def offers_wf_def replies_wf_def demo_answered_def has_blob_def)

definition demo_vault :: "session_tables vault" where
  "demo_vault = \<lparr>va_tables = demo_answered, va_files = (\<lambda>_. None)\<rparr>"

definition demo_settle :: "session_tables \<Rightarrow> (session_error, unit) result \<times> session_tables" where
  "demo_settle = acknowledgeProviderSessionOfferReply demo_session_context False (\<lambda>_. 30) demo_id (identity_of demo_cooperative)
     demo_id demo_intent demo_token"

lemma demo_live:
  "provider_offer_id demo_id" "is_digest demo_intent" "sb_owner demo_cooperative = CooperativeSession"
  "dateParse (vc_host demo_vault_context) (bs_expiresAt (sb_scope demo_cooperative)) = Some 90"
  by code_simp+

lemma demo_answered_simps [simp]:
  "sx_offers demo_answered = [(demo_id, demo_id) \<mapsto> \<lparr>of_hash = demo_intent, of_createdAt = ''20'', of_settled = None\<rparr>]"
  "sx_replies demo_answered = [(demo_id, demo_id) \<mapsto> \<lparr>rp_blob = demo_token, rp_createdAt = ''25'', rp_acknowledgedAt = None\<rparr>]"
  "sx_dispositions demo_answered = (\<lambda>_. None)" "has_blob demo_token demo_answered"
  "unrevoked demo_id demo_answered"
  by (simp_all add: demo_answered_def has_blob_def unrevoked_def binding_revoked_def binding_row_of_def sealed_text.defs)

lemma settle_ok:
  assumes "offerCheckpointBinding x now i e ts = Inr b" "provider_offer_id q" "is_digest c" "is_digest completion"
    and "sx_offers ts (i, q) = Some row" "of_hash row = c" "of_settled row = None"
    and "fst (requireOfferReplyAcknowledgment i q completion ts) = Inr ()" "unrevoked i ts" "has_blob completion ts"
  shows "\<exists>ts1. settleProviderSessionOfferCheckpoint x id now i e q c completion ts = (Inr (), ts1)"
proof -
  from assms(8) have "requireOfferReplyAcknowledgment i q completion ts = (Inr (), ts)"
    by (auto simp: requireOfferReplyAcknowledgment_def split: option.splits if_splits)
  with assms show ?thesis
    by (simp add: settleProviderSessionOfferCheckpoint_def and_then_def offer_bound_def asking_def guard_that_def yielding_def
        offerCheckpointRow_def settle_offer_def)
qed

lemma demo_settles: "\<exists>ts1. demo_settle demo_answered = (Inr (), ts1)"
proof -
  define acked where "acked = demo_answered\<lparr>sx_replies := [(demo_id, demo_id) \<mapsto>
     \<lparr>rp_blob = demo_token, rp_createdAt = ''25'', rp_acknowledgedAt = Some (isoString (vc_host demo_session_context) 30)\<rparr>]\<rparr>"
  have ack: "acknowledgeProviderSessionReply demo_session_context id 30 demo_id (identity_of demo_cooperative) demo_id demo_token demo_answered
      = (Inr (), acked)"
    unfolding acknowledgeProviderSessionReply_def acked_def
    by (simp add: and_then_def bound_def require_binding_def demo_answered_get asking_def guard_that_def yielding_def
        acknowledge_reply_def)
  have bound: "offerCheckpointBinding demo_session_context 30 demo_id (identity_of demo_cooperative) acked = Inr demo_cooperative"
    using demo_answered_get by (simp add: offerCheckpointBinding_def getProviderSessionBinding_def readProviderSessionBinding_def
        acked_def demo_live binding_live_def)
  have facts: "sx_offers acked (demo_id, demo_id) = Some \<lparr>of_hash = demo_intent, of_createdAt = ''20'', of_settled = None\<rparr>"
      "fst (requireOfferReplyAcknowledgment demo_id demo_id demo_token acked) = Inr ()" "unrevoked demo_id acked" "has_blob demo_token acked"
    using demo_answered_simps(5) by (simp_all add: acked_def requireOfferReplyAcknowledgment_def unrevoked_def)
  from settle_ok [OF bound demo_live(1,2) demo_digest(2) facts(1) _ _ facts(2-4)]
  obtain ts1 where "settleProviderSessionOfferCheckpoint demo_session_context id 30 demo_id (identity_of demo_cooperative)
      demo_id demo_intent demo_token acked = (Inr (), ts1)" by auto
  then show ?thesis
    by (simp add: demo_settle_def acknowledgeProviderSessionOfferReply_def immediately_def and_then_def ack)
qed

theorem offer_reply_settled_witness:
  "fst (requireOfferReplyAcknowledgment demo_id demo_id demo_token
     (session_exec demo_session_context demo_handoff_host (InsertDisposition demo_id demo_id demo_token demo_intent)
        (snd (demo_settle demo_answered)))) = Inr ()"
proof -
  obtain ts1 where run: "demo_settle demo_answered = (Inr (), ts1)" using demo_settles by blast
  from offer_reply_settled [OF run [unfolded demo_settle_def], where hh = demo_handoff_host
      and ops = "[InsertDisposition demo_id demo_id demo_token demo_intent]"] show ?thesis
    by (simp add: run Let_def del: session_exec.simps)
qed


end
