(* ===== verification/Vault_Capsules.thy ===== *)
theory Vault_Capsules
  imports Vault_Sessions "HOL-Library.AList"
begin

text \<open>
  Captured sessions and trajectory capsules in packages/local-vault/src/index.ts: the capture
  transaction, the revisions of a capsule with the queue of those to upload, disclosures, and the
  completion that a task leaves for recovery.  These tables are lists of rows with their keys, in the
  order of insertion.  \<open>mw k n\<close> is what everything else does at the \<open>n\<close>-th \<open>await\<close> of the \<open>k\<close>-th put.
\<close>

subsection \<open>Tables\<close>

record captured_session =
  cs_provider :: string
  cs_workspaceId :: string
  cs_locatorHash :: string
  cs_status :: string
  cs_observedAt :: string

record capsule_row =
  cp_hash :: string
  cp_blob :: string
  cp_createdAt :: string

record queue_row =
  qu_blob :: string
  qu_createdAt :: string

record disclosure_row =
  di_receiptHash :: string
  di_bytes :: int
  di_createdAt :: string

record recovery_row =
  ry_blob :: string
  ry_createdAt :: string

type_synonym capsule_key = "string \<times> int"

record capsule_tables = session_tables +
  ct_sessions :: "(string \<times> captured_session) list"
  ct_capsules :: "(capsule_key \<times> capsule_row) list"
  ct_queue :: "(capsule_key \<times> queue_row) list"
  ct_failures :: "(capsule_key \<times> string \<times> string) list"
  ct_refs :: "((capsule_key \<times> string) \<times> bool) list"
  ct_disclosures :: "(string \<times> disclosure_row) list"
  ct_recovery :: "(string \<times> recovery_row) list"

datatype capsule_error =
    CapsuleBlobFailed vault_error | RawContentChanged | CapsuleConflict | CapsuleUndecodable | CapsuleAbsent | RevisionInvalid
  | LimitInvalid | QueueIdentityInvalid | FailureReasonInvalid | DisclosureInvalid | RecoveryPayloadInvalid | RecoveryChanged
  | RecoveryStaged | CapsuleTransactionOpen | CommitFailed | BlobReferenced | QuarantineFailed | RawEvidenceChanged | RetentionInvalid

text \<open>\<open>insert ... on conflict do nothing\<close>; an upsert is \<open>AList.update\<close>.\<close>

definition insert_ignore :: "'k \<Rightarrow> 'v \<Rightarrow> ('k \<times> 'v) list \<Rightarrow> ('k \<times> 'v) list" where
  "insert_ignore k v rows = (if map_of rows k = None then rows @ [(k, v)] else rows)"

definition delete_rows :: "('k \<Rightarrow> bool) \<Rightarrow> ('k \<times> 'v) list \<Rightarrow> ('k \<times> 'v) list" where
  "delete_rows P rows = filter (\<lambda>(k, _). \<not> P k) rows"

text \<open>The columns of the session tables that refer to blobs; \<open>ks\<close> are the keys of those tables.\<close>

definition blob_referenced :: "(string \<times> string) list \<Rightarrow> string \<Rightarrow> 'a session_tables_scheme \<Rightarrow> bool" where
  "blob_referenced ks c ts = list_ex (\<lambda>k.
      (case sx_exports ts k of None \<Rightarrow> False | Some r \<Rightarrow> ex_descriptor r = c \<or> ex_receipt r = Some c)
    \<or> (case sx_offers ts k of None \<Rightarrow> False | Some r \<Rightarrow> of_hash r = c \<or> of_settled r = Some c)
    \<or> (case sx_replies ts k of None \<Rightarrow> False | Some r \<Rightarrow> rp_blob r = c)
    \<or> (case sx_dispositions ts k of None \<Rightarrow> False | Some d \<Rightarrow> ds_completion d = c \<or> ds_hash d = c)) ks"

text \<open>\<open>delete from blobs where content_id = ? and kind in (...)\<close>; the value says whether a row went.\<close>

definition delete_blob ::
  "(string \<times> string) list \<Rightarrow> (string \<Rightarrow> bool) \<Rightarrow> string \<Rightarrow> 'a session_tables_scheme
     \<Rightarrow> (capsule_error, bool) result \<times> 'a session_tables_scheme" where
  "delete_blob ks kinds c ts = (case bt_blobs ts c of None \<Rightarrow> (Inr False, ts) | Some row \<Rightarrow>
     if \<not> kinds (br_kind row) then (Inr False, ts)
     else if blob_referenced ks c ts then (Inl BlobReferenced, ts)
     else (Inr True, ts\<lparr>bt_blobs := (bt_blobs ts)(c := None)\<rparr>))"

subsection \<open>Captured sessions and revisions\<close>

record capture_session =
  ci_sessionId :: string
  ci_provider :: string
  ci_workspaceId :: string
  ci_sourceLocator :: string
  ci_status :: string
  ci_observedAt :: string

definition recordSession :: "'key host \<Rightarrow> capture_session \<Rightarrow> 'a capsule_tables_scheme \<Rightarrow> 'a capsule_tables_scheme" where
  "recordSession h i ts =
     (let row = (case map_of (ct_sessions ts) (ci_sessionId i) of
          None \<Rightarrow> \<lparr>cs_provider = ci_provider i, cs_workspaceId = ci_workspaceId i,
             cs_locatorHash = sha256Hex h (ci_sourceLocator i), cs_status = ci_status i, cs_observedAt = ci_observedAt i\<rparr>
        | Some old \<Rightarrow> old\<lparr>cs_status := ci_status i, cs_observedAt := ci_observedAt i\<rparr>)
      in ts\<lparr>ct_sessions := AList.update (ci_sessionId i) row (ct_sessions ts)\<rparr>)"

definition recordCapsule ::
  "'key host \<Rightarrow> int \<Rightarrow> string \<Rightarrow> int \<Rightarrow> string \<Rightarrow> string \<Rightarrow> 'a capsule_tables_scheme
     \<Rightarrow> (capsule_error, unit) result \<times> 'a capsule_tables_scheme" where
  "recordCapsule h now trajectoryId revision capsuleHash blobContentId ts =
     (case map_of (ct_capsules ts) (trajectoryId, revision) of
        None \<Rightarrow> (Inr (), ts\<lparr>ct_capsules := ct_capsules ts @
          [((trajectoryId, revision), \<lparr>cp_hash = capsuleHash, cp_blob = blobContentId, cp_createdAt = isoString h now\<rparr>)]\<rparr>)
      | Some existing \<Rightarrow> (if cp_hash existing \<noteq> capsuleHash then Inl CapsuleConflict else Inr (), ts))"

text \<open>The revisions of a trajectory, the latest first.\<close>

definition revisions_of :: "string \<Rightarrow> 'a capsule_tables_scheme \<Rightarrow> (capsule_key \<times> capsule_row) list" where
  "revisions_of trajectoryId ts = sort_by (\<lambda>((_, r), _) ((_, r'), _). r' \<le> r)
     (filter (\<lambda>((t, _), _). t = trajectoryId) (ct_capsules ts))"

definition getLatestCapsuleMetadata :: "string \<Rightarrow> 'a capsule_tables_scheme \<Rightarrow> (int \<times> capsule_row) option" where
  "getLatestCapsuleMetadata trajectoryId ts = (case revisions_of trajectoryId ts of [] \<Rightarrow> None
     | ((_, r), row) # _ \<Rightarrow> Some (r, row))"

definition safe_revision :: "int \<Rightarrow> bool" where
  "safe_revision r = (1 \<le> r \<and> r \<le> 2 ^ 53 - 1)"

definition getCapsuleMetadata :: "string \<Rightarrow> int \<Rightarrow> 'a capsule_tables_scheme \<Rightarrow> (capsule_error, capsule_row option) result" where
  "getCapsuleMetadata trajectoryId revision ts =
     (if \<not> safe_revision revision then Inl RevisionInvalid else Inr (map_of (ct_capsules ts) (trajectoryId, revision)))"

definition read_json :: "'key vault_context \<Rightarrow> string \<Rightarrow> 't vault \<Rightarrow> (capsule_error, json) result" where
  "read_json x c v = (case getBlob x c v of Inl e \<Rightarrow> Inl (CapsuleBlobFailed e) | Inr plaintext \<Rightarrow>
     (case vc_parseJson x plaintext of None \<Rightarrow> Inl CapsuleUndecodable | Some w \<Rightarrow> Inr w))"

definition getLatestCapsule :: "'key vault_context \<Rightarrow> string \<Rightarrow> 'a capsule_tables_scheme vault \<Rightarrow> (capsule_error, json) result" where
  "getLatestCapsule x trajectoryId v = (case getLatestCapsuleMetadata trajectoryId (va_tables v) of
     None \<Rightarrow> Inl CapsuleAbsent | Some (_, row) \<Rightarrow> read_json x (cp_blob row) v)"

definition getCapsule :: "'key vault_context \<Rightarrow> string \<Rightarrow> int \<Rightarrow> 'a capsule_tables_scheme vault \<Rightarrow> (capsule_error, json) result" where
  "getCapsule x trajectoryId revision v = (case getCapsuleMetadata trajectoryId revision (va_tables v) of
     Inl e \<Rightarrow> Inl e | Inr None \<Rightarrow> Inl CapsuleAbsent | Inr (Some row) \<Rightarrow> read_json x (cp_blob row) v)"

subsection \<open>Content that a capsule refers to\<close>

definition member_of :: "json \<Rightarrow> string \<Rightarrow> json option" where
  "member_of v k = (case v of JObj kvs \<Rightarrow> map_of kvs k | _ \<Rightarrow> None)"

definition array_member :: "json \<Rightarrow> string \<Rightarrow> json list" where
  "array_member v k = (case member_of v k of Some (JArr xs) \<Rightarrow> xs | _ \<Rightarrow> [])"

definition content_of :: "json \<Rightarrow> string option" where
  "content_of item = (case member_of item ''contentId'' of Some (JStr c) \<Rightarrow> Some c | _ \<Rightarrow> None)"

definition available_locally :: "json \<Rightarrow> bool" where
  "available_locally item = (member_of item ''availableLocally'' = Some (JBool True))"

definition recordCapsuleContentRefs :: "string \<Rightarrow> int \<Rightarrow> json \<Rightarrow> 'a capsule_tables_scheme \<Rightarrow> 'a capsule_tables_scheme" where
  "recordCapsuleContentRefs trajectoryId revision capsule ts =
     ts\<lparr>ct_refs := fold (\<lambda>item refs. case content_of item of None \<Rightarrow> refs
          | Some c \<Rightarrow> AList.update ((trajectoryId, revision), c) (available_locally item) refs)
        (array_member capsule ''contentIndex'') (ct_refs ts)\<rparr>"

text \<open>\<open>JSON.parse\<close> of \<open>null\<close> has no members at all, and reading one throws.\<close>

fun backfill_each ::
  "'key vault_context \<Rightarrow> (nat \<Rightarrow> 'a capsule_tables_scheme vault \<Rightarrow> 'a capsule_tables_scheme vault) \<Rightarrow> nat
     \<Rightarrow> (capsule_key \<times> capsule_row) list \<Rightarrow> 'a capsule_tables_scheme vault
     \<Rightarrow> (capsule_error, unit) result \<times> 'a capsule_tables_scheme vault" where
  "backfill_each x mw n [] v = (Inr (), v)"
| "backfill_each x mw n (((t, r), row) # rest) v =
     (case read_json x (cp_blob row) v of
        Inl e \<Rightarrow> (Inl e, mw n v)
      | Inr w \<Rightarrow> let v1 = mw n v in
          if w = JNull then (Inl CapsuleUndecodable, v1)
          else backfill_each x mw (Suc n) rest (v1\<lparr>va_tables := recordCapsuleContentRefs t r w (va_tables v1)\<rparr>))"

definition backfillCapsuleContentRefs ::
  "'key vault_context \<Rightarrow> (nat \<Rightarrow> 'a capsule_tables_scheme vault \<Rightarrow> 'a capsule_tables_scheme vault)
     \<Rightarrow> 'a capsule_tables_scheme vault \<Rightarrow> (capsule_error, unit) result \<times> 'a capsule_tables_scheme vault" where
  "backfillCapsuleContentRefs x mw v =
     (let ts = va_tables v in
      backfill_each x mw 0
        (sort_by (\<lambda>((t, r), _) ((t', r'), _). sql_less t t' \<or> t = t' \<and> r \<le> r')
          (filter (\<lambda>(k, _). \<not> list_ex (\<lambda>((k', _), _). k' = k) (ct_refs ts)) (ct_capsules ts))) v)"


subsection \<open>Capture\<close>

record capture_input =
  ca_raw :: string
  ca_rawKind :: string
  ca_expected :: string
  ca_capsule :: string
  ca_trajectoryId :: string
  ca_revision :: int
  ca_capsuleHash :: string
  ca_session :: capture_session

definition record_capture ::
  "'key vault_context \<Rightarrow> int \<Rightarrow> capture_input \<Rightarrow> string \<Rightarrow> 'a capsule_tables_scheme
     \<Rightarrow> (capsule_error, unit) result \<times> 'a capsule_tables_scheme" where
  "record_capture x now i capsuleId ts =
     (let ts1 = recordSession (vc_host x) (ca_session i) ts in
      case recordCapsule (vc_host x) now (ca_trajectoryId i) (ca_revision i) (ca_capsuleHash i) capsuleId ts1 of
        (Inl e, ts2) \<Rightarrow> (Inl e, ts2)
      | (Inr _, ts2) \<Rightarrow> (case vc_parseJson x (ca_capsule i) of
            None \<Rightarrow> (Inl CapsuleUndecodable, ts2)
          | Some w \<Rightarrow> if w = JNull then (Inl CapsuleUndecodable, ts2)
              else (Inr (), recordCapsuleContentRefs (ca_trajectoryId i) (ca_revision i) w ts2)))"

text \<open>The body of the transaction; the list has the content that it stored.\<close>

definition capture_body ::
  "'key vault_context \<Rightarrow> (nat \<Rightarrow> put_io) \<Rightarrow> (nat \<Rightarrow> nat \<Rightarrow> 'a capsule_tables_scheme vault \<Rightarrow> 'a capsule_tables_scheme vault)
     \<Rightarrow> int \<Rightarrow> capture_input \<Rightarrow> 'a capsule_tables_scheme vault
     \<Rightarrow> (capsule_error, string \<times> string) result \<times> string list \<times> 'a capsule_tables_scheme vault" where
  "capture_body x io mw now i v =
     (case putBlob x (io 0) (mw 0) (ca_raw i) (ca_rawKind i) v of
        (Inl e, v1) \<Rightarrow> (Inl (CapsuleBlobFailed e), [], v1)
      | (Inr (raw, rawNew), v1) \<Rightarrow>
          if raw \<noteq> ca_expected i then (Inl RawContentChanged, [], v1)
          else let made = (if rawNew then [raw] else []) in
          (case putBlob x (io 1) (mw 1) (ca_capsule i) ''trajectory-capsule'' v1 of
             (Inl e, v2) \<Rightarrow> (Inl (CapsuleBlobFailed e), made, v2)
           | (Inr (capsule, capsuleNew), v2) \<Rightarrow>
               let made2 = made @ (if capsuleNew then [capsule] else []);
                   (r, ts) = record_capture x now i capsule (va_tables v2)
               in (map_sum id (\<lambda>_. (raw, capsule)) r, made2, v2\<lparr>va_tables := ts\<rparr>)))"

definition remove_blob_file :: "string \<Rightarrow> 't vault \<Rightarrow> 't vault" where
  "remove_blob_file c v = (case blobPath c of None \<Rightarrow> v | Some path \<Rightarrow> write_file path None v)"

text \<open>A rollback restores the tables of the beginning, with them what other operations of the same
  process executed meanwhile; the files of the content just stored are removed.\<close>

definition commitCapture ::
  "'key vault_context \<Rightarrow> (nat \<Rightarrow> put_io) \<Rightarrow> (nat \<Rightarrow> nat \<Rightarrow> 'a capsule_tables_scheme vault \<Rightarrow> 'a capsule_tables_scheme vault)
     \<Rightarrow> bool \<Rightarrow> bool \<Rightarrow> int \<Rightarrow> capture_input \<Rightarrow> 'a capsule_tables_scheme vault
     \<Rightarrow> (capsule_error, string \<times> string) result \<times> 'a capsule_tables_scheme vault" where
  "commitCapture x io mw inTransaction commits now i v =
     (if inTransaction then (Inl CapsuleTransactionOpen, v)
      else case capture_body x io mw now i v of (r, made, v1) \<Rightarrow>
        let failed = (\<lambda>e. (Inl e, mw 2 0 (fold remove_blob_file made (v1\<lparr>va_tables := va_tables v\<rparr>)))) in
        case r of Inl e \<Rightarrow> failed e | Inr ids \<Rightarrow> if commits then (Inr ids, v1) else failed CommitFailed)"

subsection \<open>Discarding revisions\<close>

definition later_than :: "string \<Rightarrow> int \<Rightarrow> capsule_key \<Rightarrow> bool" where
  "later_than trajectoryId revision k = (fst k = trajectoryId \<and> revision < snd k)"

definition delete_revisions :: "string \<Rightarrow> int \<Rightarrow> 'a capsule_tables_scheme \<Rightarrow> 'a capsule_tables_scheme" where
  "delete_revisions trajectoryId accepted ts = ts\<lparr>
     ct_queue := delete_rows (later_than trajectoryId accepted) (ct_queue ts),
     ct_failures := delete_rows (later_than trajectoryId accepted) (ct_failures ts),
     ct_refs := delete_rows (\<lambda>(k, _). later_than trajectoryId accepted k) (ct_refs ts),
     ct_capsules := delete_rows (later_than trajectoryId accepted) (ct_capsules ts)\<rparr>"

text \<open>The blob row goes only when it has the kind of a capsule; the file goes in any case.\<close>

fun remove_capsule_blobs ::
  "(string \<times> string) list \<Rightarrow> (nat \<Rightarrow> 'a capsule_tables_scheme vault \<Rightarrow> 'a capsule_tables_scheme vault)
     \<Rightarrow> nat \<Rightarrow> string list \<Rightarrow> 'a capsule_tables_scheme vault \<Rightarrow> (capsule_error, unit) result \<times> 'a capsule_tables_scheme vault" where
  "remove_capsule_blobs ks mw n [] v = (Inr (), v)"
| "remove_capsule_blobs ks mw n (c # cs) v =
     (if list_ex (\<lambda>(_, row). cp_blob row = c) (ct_capsules (va_tables v)) then remove_capsule_blobs ks mw n cs v
      else case delete_blob ks (\<lambda>kind. kind = ''trajectory-capsule'') c (va_tables v) of
        (Inl e, _) \<Rightarrow> (Inl e, v)
      | (Inr _, ts) \<Rightarrow> remove_capsule_blobs ks mw (Suc n) cs (mw n (remove_blob_file c (v\<lparr>va_tables := ts\<rparr>))))"

definition discardCapsuleRevisionsAfter ::
  "(string \<times> string) list \<Rightarrow> (nat \<Rightarrow> 'a capsule_tables_scheme vault \<Rightarrow> 'a capsule_tables_scheme vault) \<Rightarrow> bool \<Rightarrow> bool
     \<Rightarrow> string \<Rightarrow> int \<Rightarrow> 'a capsule_tables_scheme vault \<Rightarrow> (capsule_error, nat) result \<times> 'a capsule_tables_scheme vault" where
  "discardCapsuleRevisionsAfter ks mw inTransaction commits trajectoryId accepted v =
     (if accepted < 0 \<or> 2 ^ 53 - 1 < accepted then (Inl RevisionInvalid, v)
      else let rows = rev (filter (\<lambda>((_, r), _). accepted < r) (revisions_of trajectoryId (va_tables v))) in
      if rows = [] then (Inr 0, v)
      else if inTransaction then (Inl CapsuleTransactionOpen, v)
      else if \<not> commits then (Inl CommitFailed, v)
      else case remove_capsule_blobs ks mw 0 (map (\<lambda>(_, row). cp_blob row) rows)
          (v\<lparr>va_tables := delete_revisions trajectoryId accepted (va_tables v)\<rparr>) of
        (Inl e, v1) \<Rightarrow> (Inl e, v1) | (Inr _, v1) \<Rightarrow> (Inr (length rows), v1))"

subsection \<open>The queue of capsules to upload\<close>

text \<open>The blobs are read one after the other; \<open>v\<close> is the vault that they are read from.\<close>

fun read_all :: "'key vault_context \<Rightarrow> (capsule_key \<times> queue_row) list \<Rightarrow> 't vault \<Rightarrow> (capsule_error, (capsule_key \<times> json) list) result" where
  "read_all x [] v = Inr []"
| "read_all x ((k, row) # rest) v = (case read_json x (qu_blob row) v of Inl e \<Rightarrow> Inl e
     | Inr w \<Rightarrow> map_sum id ((#) (k, w)) (read_all x rest v))"

definition listPendingCapsuleSyncs ::
  "'key vault_context \<Rightarrow> int \<Rightarrow> int \<Rightarrow> 'a capsule_tables_scheme vault \<Rightarrow> (capsule_error, (capsule_key \<times> json) list) result" where
  "listPendingCapsuleSyncs x limit offset v =
     (if limit < 1 \<or> 1000 < limit then Inl LimitInvalid
      else if offset < 0 \<or> 2 ^ 53 - 1 < offset then Inl LimitInvalid
      else read_all x (take (nat limit) (drop (nat offset)
        (sort_by (\<lambda>((t, r), a) ((t', r'), b). sql_less (qu_createdAt a) (qu_createdAt b)
             \<or> qu_createdAt a = qu_createdAt b \<and> (sql_less t t' \<or> t = t' \<and> r \<le> r')) (ct_queue (va_tables v))))) v)"

definition queueCapsuleSync ::
  "'key host \<Rightarrow> int \<Rightarrow> string \<Rightarrow> int \<Rightarrow> 'a capsule_tables_scheme \<Rightarrow> (capsule_error, unit) result \<times> 'a capsule_tables_scheme" where
  "queueCapsuleSync h now trajectoryId revision ts =
     (if trajectoryId = [] \<or> \<not> safe_revision revision then (Inl QueueIdentityInvalid, ts)
      else case map_of (ct_capsules ts) (trajectoryId, revision) of None \<Rightarrow> (Inl CapsuleAbsent, ts)
      | Some row \<Rightarrow> (Inr (), ts\<lparr>ct_queue := insert_ignore (trajectoryId, revision)
            \<lparr>qu_blob = cp_blob row, qu_createdAt = isoString h now\<rparr> (ct_queue ts)\<rparr>))"

definition markCapsuleSynced :: "string \<Rightarrow> int \<Rightarrow> 'a capsule_tables_scheme \<Rightarrow> 'a capsule_tables_scheme" where
  "markCapsuleSynced trajectoryId revision ts =
     ts\<lparr>ct_queue := delete_rows (\<lambda>k. k = (trajectoryId, revision)) (ct_queue ts)\<rparr>"

definition discardPendingCapsuleSync ::
  "'key host \<Rightarrow> bool \<Rightarrow> bool \<Rightarrow> int \<Rightarrow> string \<Rightarrow> int \<Rightarrow> string \<Rightarrow> 'a capsule_tables_scheme
     \<Rightarrow> (capsule_error, unit) result \<times> 'a capsule_tables_scheme" where
  "discardPendingCapsuleSync h inTransaction commits now trajectoryId revision reason ts =
     (if reason = [] \<or> 120 < length reason then (Inl FailureReasonInvalid, ts)
      else if inTransaction then (Inl CapsuleTransactionOpen, ts)
      else if \<not> commits then (Inl CommitFailed, ts)
      else (Inr (), markCapsuleSynced trajectoryId revision
              (ts\<lparr>ct_failures := AList.update (trajectoryId, revision) (reason, isoString h now) (ct_failures ts)\<rparr>)))"

definition recordDisclosure ::
  "'key host \<Rightarrow> int \<Rightarrow> string \<Rightarrow> string \<Rightarrow> int \<Rightarrow> 'a capsule_tables_scheme \<Rightarrow> (capsule_error, unit) result \<times> 'a capsule_tables_scheme" where
  "recordDisclosure h now disclosureId receiptHash bytesUploaded ts =
     (if \<not> is_digest receiptHash \<or> bytesUploaded < 0 \<or> 2 ^ 53 - 1 < bytesUploaded then (Inl DisclosureInvalid, ts)
      else (Inr (), ts\<lparr>ct_disclosures := AList.update disclosureId
           (case map_of (ct_disclosures ts) disclosureId of
              None \<Rightarrow> \<lparr>di_receiptHash = receiptHash, di_bytes = bytesUploaded, di_createdAt = isoString h now\<rparr>
            | Some old \<Rightarrow> old\<lparr>di_receiptHash := receiptHash, di_bytes := bytesUploaded\<rparr>) (ct_disclosures ts)\<rparr>))"

subsection \<open>Recovery of task completions\<close>

definition recovery_task :: "string \<Rightarrow> bool" where
  "recovery_task s = (length s = 36 \<and> list_all (\<lambda>c. is_lower_hex (lower_ascii c) \<or> c = CHR ''-'') s)"

text \<open>The insert has no conflict clause: a row staged meanwhile makes it throw.\<close>

definition stageTaskCompletionRecovery ::
  "'key vault_context \<Rightarrow> (string \<times> string) list \<Rightarrow> put_io \<Rightarrow> (nat \<Rightarrow> 'a capsule_tables_scheme vault \<Rightarrow> 'a capsule_tables_scheme vault)
     \<Rightarrow> int \<Rightarrow> string \<Rightarrow> string \<Rightarrow> 'a capsule_tables_scheme vault \<Rightarrow> (capsule_error, string) result \<times> 'a capsule_tables_scheme vault" where
  "stageTaskCompletionRecovery x ks io mw now taskId plaintext v =
     (if \<not> recovery_task taskId \<or> plaintext = [] then (Inl RecoveryPayloadInvalid, v)
      else case map_of (ct_recovery (va_tables v)) taskId of
        Some existing \<Rightarrow> (if ry_blob existing \<noteq> sha256 (vc_host x) plaintext then Inl RecoveryChanged else Inr (ry_blob existing), v)
      | None \<Rightarrow>
          (case putBlob x io mw plaintext ''task-completion-recovery'' v of
             (Inl e, v1) \<Rightarrow> (Inl (CapsuleBlobFailed e), v1)
           | (Inr (c, new), v1) \<Rightarrow>
               if map_of (ct_recovery (va_tables v1)) taskId = None
               then (Inr c, v1\<lparr>va_tables := (va_tables v1)\<lparr>ct_recovery := ct_recovery (va_tables v1) @
                       [(taskId, \<lparr>ry_blob = c, ry_createdAt = isoString (vc_host x) now\<rparr>)]\<rparr>\<rparr>)
               else if \<not> new then (Inl RecoveryStaged, v1)
               else let v2 = mw 2 (remove_blob_file c v1) in
                 (case delete_blob ks (\<lambda>_. True) c (va_tables v2) of
                    (Inl e, _) \<Rightarrow> (Inl e, v2) | (Inr _, ts) \<Rightarrow> (Inl RecoveryStaged, v2\<lparr>va_tables := ts\<rparr>))))"

definition getTaskCompletionRecovery ::
  "'key vault_context \<Rightarrow> string \<Rightarrow> 'a capsule_tables_scheme vault \<Rightarrow> (capsule_error, json option) result" where
  "getTaskCompletionRecovery x taskId v =
     (if \<not> recovery_task taskId then Inl RecoveryPayloadInvalid
      else case map_of (ct_recovery (va_tables v)) taskId of None \<Rightarrow> Inr None
      | Some row \<Rightarrow> map_sum id Some (read_json x (ry_blob row) v))"

definition recovery_retained :: "string \<Rightarrow> 'a capsule_tables_scheme \<Rightarrow> bool" where
  "recovery_retained c ts =
     (list_ex (\<lambda>(_, row). ry_blob row = c) (ct_recovery ts) \<or> list_ex (\<lambda>(_, row). cp_blob row = c) (ct_capsules ts)
      \<or> list_ex (\<lambda>(_, row). qu_blob row = c) (ct_queue ts) \<or> list_ex (\<lambda>((_, c'), here). c' = c \<and> here) (ct_refs ts))"

definition clearTaskCompletionRecovery ::
  "(string \<times> string) list \<Rightarrow> ('a capsule_tables_scheme vault \<Rightarrow> 'a capsule_tables_scheme vault) \<Rightarrow> bool \<Rightarrow> bool \<Rightarrow> string
     \<Rightarrow> 'a capsule_tables_scheme vault \<Rightarrow> (capsule_error, unit) result \<times> 'a capsule_tables_scheme vault" where
  "clearTaskCompletionRecovery ks mw inTransaction commits taskId v =
     (if \<not> recovery_task taskId then (Inl RecoveryPayloadInvalid, v)
      else case map_of (ct_recovery (va_tables v)) taskId of None \<Rightarrow> (Inr (), v)
      | Some row \<Rightarrow>
          if inTransaction then (Inl CapsuleTransactionOpen, v)
          else let ts1 = (va_tables v)\<lparr>ct_recovery := delete_rows (\<lambda>k. k = taskId) (ct_recovery (va_tables v))\<rparr>;
                   (r, ts2) = (if recovery_retained (ry_blob row) ts1 then (Inr False, ts1)
                     else delete_blob ks (\<lambda>kind. kind = ''task-completion-recovery'') (ry_blob row) ts1) in
          (case r of Inl e \<Rightarrow> (Inl e, v)
           | Inr gone \<Rightarrow> if \<not> commits then (Inl CommitFailed, v)
               else if gone then (Inr (), mw (remove_blob_file (ry_blob row) (v\<lparr>va_tables := ts2\<rparr>)))
               else (Inr (), v\<lparr>va_tables := ts2\<rparr>)))"

text \<open>\<open>blobs\<close> has as many rows as \<open>ids\<close>, its keys.\<close>

definition listSessions :: "'a capsule_tables_scheme \<Rightarrow> (string \<times> captured_session) list" where
  "listSessions ts = sort_by (\<lambda>(_, a) (_, b). \<not> sql_less (cs_observedAt a) (cs_observedAt b)) (ct_sessions ts)"

definition stats :: "string list \<Rightarrow> 'a capsule_tables_scheme \<Rightarrow> nat \<times> nat \<times> nat" where
  "stats ids ts = (length ids, length (ct_sessions ts), length (ct_capsules ts))"

subsection \<open>All or nothing\<close>

text \<open>While a capture waits, the rest of the program keeps the store readable, deletes no blob and
  leaves the temporary files of the capture alone.\<close>

definition considerate ::
  "'key vault_context \<Rightarrow> (nat \<Rightarrow> put_io) \<Rightarrow> (nat \<Rightarrow> nat \<Rightarrow> 'a capsule_tables_scheme vault \<Rightarrow> 'a capsule_tables_scheme vault) \<Rightarrow> bool" where
  "considerate x io mw = (\<forall>k n. (\<forall>path. calm x (temporary_of x (io k) path) (mw k n))
     \<and> (\<forall>u c. bt_blobs (va_tables u) c \<noteq> None \<longrightarrow> bt_blobs (va_tables (mw k n u)) c \<noteq> None))"

lemma considerate_put:
  fixes v :: "'a capsule_tables_scheme vault"
  assumes laws: "vault_laws x" and mw: "considerate x io mw" and ok: "blobs_ok x v"
    and run: "putBlob x (io k) (mw k) t kind v = (r, v')"
  shows "blobs_ok x v'" and "bt_blobs (va_tables v) c \<noteq> None \<Longrightarrow> bt_blobs (va_tables v') c \<noteq> None"
    and "r = Inr (c, created) \<Longrightarrow> c = sha256 (vc_host x) t \<and> bt_blobs (va_tables v') c \<noteq> None
      \<and> (created \<longrightarrow> bt_blobs (va_tables v) c = None)"
proof -
  have calm: "calm x (temporary_of x (io k) path) (mw k n)" for n path
    using mw unfolding considerate_def by blast
  have rows: "bt_blobs (va_tables u) c \<noteq> None \<Longrightarrow> bt_blobs (va_tables (mw k n u)) c \<noteq> None" for n u c
    using mw unfolding considerate_def by blast
  show "blobs_ok x v'" by (rule putBlob_ok [OF laws ok calm run])
  have publish: "bt_blobs (va_tables u) c \<noteq> None \<longrightarrow> bt_blobs (va_tables u') c \<noteq> None"
      "r1 = Inr b \<longrightarrow> bt_blobs (va_tables u') d \<noteq> None \<and> (b \<longrightarrow> bt_blobs (va_tables u) d = None)"
    if "publish x (io k) d path temporary n kind u = (r1, u')" for d path temporary n r1 b c and u u' :: "'a capsule_tables_scheme vault"
    using that by (auto simp: publish_def index_blob_def split: if_splits)
  show "bt_blobs (va_tables v') c \<noteq> None" if "bt_blobs (va_tables v) c \<noteq> None"
    using run
  proof (cases rule: putBlob_cases)
    case (written path v1 r1 v2)
    have "bt_blobs (va_tables v1) c \<noteq> None" using that rows by (simp add: written(2))
    then have "bt_blobs (va_tables v2) c \<noteq> None" using publish(1) [OF written(3)] by blast
    then show ?thesis using rows by (simp add: written(4))
  qed (use that in auto)
  show "c = sha256 (vc_host x) t \<and> bt_blobs (va_tables v') c \<noteq> None \<and> (created \<longrightarrow> bt_blobs (va_tables v) c = None)"
    if "r = Inr (c, created)"
    using run
  proof (cases rule: putBlob_cases)
    case (written path v1 r1 v2)
    from written(5) that have r1: "r1 = Inr created" and c: "c = sha256 (vc_host x) t" by (cases r1; simp)+
    from publish(2) [OF written(3), of created] r1 c
    have "bt_blobs (va_tables v2) c \<noteq> None" and new: "created \<Longrightarrow> bt_blobs (va_tables v1) c = None" by blast+
    moreover have "created \<Longrightarrow> bt_blobs (va_tables v) c = None"
      using new rows [of "write_file (temporary_of x (io k) path) (Some (envelope (vc_aead x) (random_nonce (io k)) t)) v" c 0]
      unfolding written(2) write_file_simps(1) by blast
    ultimately show ?thesis using rows c by (simp add: written(4))
  qed (use that in auto)
qed

lemma remove_files:
  "va_tables (fold remove_blob_file cs v) = va_tables v"
  "blobPath c = Some path \<Longrightarrow> c \<notin> set cs \<Longrightarrow> va_files (fold remove_blob_file cs v) path = va_files v path"
proof -
  show "va_tables (fold remove_blob_file cs v) = va_tables v"
    by (induction cs arbitrary: v) (simp_all add: remove_blob_file_def split: option.split)
  assume path: "blobPath c = Some path"
  show "c \<notin> set cs \<Longrightarrow> va_files (fold remove_blob_file cs v) path = va_files v path"
  proof (induction cs arbitrary: v)
    case (Cons d cs)
    then have "blobPath d \<noteq> Some path" using blobPath_inj [OF path] by auto
    with Cons show ?case by (auto simp: remove_blob_file_def split: option.split)
  qed simp
qed

text \<open>The tables of the beginning come back, and only files of content without a row in them go.\<close>

lemma rollback_ok:
  fixes v v1 :: "'a capsule_tables_scheme vault"
  assumes ok: "blobs_ok x v1" and rows: "\<And>c. bt_blobs (va_tables v) c \<noteq> None \<Longrightarrow> bt_blobs (va_tables v1) c \<noteq> None"
    and new: "\<And>c. c \<in> set made \<Longrightarrow> bt_blobs (va_tables v) c = None"
  shows "blobs_ok x (fold remove_blob_file made (v1\<lparr>va_tables := va_tables v\<rparr>))"
proof (rule blobs_ok_transfer [OF ok])
  fix c assume "bt_blobs (va_tables (fold remove_blob_file made (v1\<lparr>va_tables := va_tables v\<rparr>))) c \<noteq> None"
  then have c: "bt_blobs (va_tables v) c \<noteq> None" by (simp add: remove_files(1))
  then show "bt_blobs (va_tables v1) c \<noteq> None" by (rule rows)
  fix q assume "blobPath c = Some q"
  moreover have "c \<notin> set made" using c by (auto dest: new)
  ultimately show "va_files (fold remove_blob_file made (v1\<lparr>va_tables := va_tables v\<rparr>)) q = va_files v1 q"
    by (simp add: remove_files(2))
qed

lemma record_capture_rows:
  assumes "record_capture x now i c ts = (r, ts')"
  shows "bt_blobs ts' = bt_blobs ts"
    and "r = Inr () \<Longrightarrow> (\<exists>row. map_of (ct_capsules ts') (ca_trajectoryId i, ca_revision i) = Some row \<and> cp_hash row = ca_capsuleHash i)
      \<and> (\<exists>row. map_of (ct_sessions ts') (ci_sessionId (ca_session i)) = Some row \<and> cs_status row = ci_status (ca_session i)
          \<and> cs_observedAt row = ci_observedAt (ca_session i))"
  using assms by (auto simp: record_capture_def recordSession_def recordCapsule_def recordCapsuleContentRefs_def Let_def update_conv'
      map_add_def split: option.splits if_splits)

lemma capture_body_cases:
  assumes "capture_body x io mw now i v = (r, made, v')"
  obtains (raw) e where "putBlob x (io 0) (mw 0) (ca_raw i) (ca_rawKind i) v = (Inl e, v')" "r = Inl (CapsuleBlobFailed e)" "made = []"
  | (changed) raw new where "putBlob x (io 0) (mw 0) (ca_raw i) (ca_rawKind i) v = (Inr (raw, new), v')"
      "r = Inl RawContentChanged" "made = []"
  | (capsule) new v1 e where "putBlob x (io 0) (mw 0) (ca_raw i) (ca_rawKind i) v = (Inr (ca_expected i, new), v1)"
      "putBlob x (io 1) (mw 1) (ca_capsule i) ''trajectory-capsule'' v1 = (Inl e, v')" "r = Inl (CapsuleBlobFailed e)"
      "made = (if new then [ca_expected i] else [])"
  | (both) new v1 c new2 v2 r2 ts where "putBlob x (io 0) (mw 0) (ca_raw i) (ca_rawKind i) v = (Inr (ca_expected i, new), v1)"
      "putBlob x (io 1) (mw 1) (ca_capsule i) ''trajectory-capsule'' v1 = (Inr (c, new2), v2)"
      "record_capture x now i c (va_tables v2) = (r2, ts)" "v' = v2\<lparr>va_tables := ts\<rparr>"
      "r = map_sum id (\<lambda>_. (ca_expected i, c)) r2"
      "made = (if new then [ca_expected i] else []) @ (if new2 then [c] else [])"
  using assms unfolding capture_body_def Let_def
  by (auto split: prod.splits sum.splits if_splits)

lemma capture_body_ok:
  fixes v :: "'a capsule_tables_scheme vault"
  assumes laws: "vault_laws x" and mw: "considerate x io mw" and ok: "blobs_ok x v"
    and run: "capture_body x io mw now i v = (r, made, v')"
  shows "blobs_ok x v'" and "bt_blobs (va_tables v) c \<noteq> None \<Longrightarrow> bt_blobs (va_tables v') c \<noteq> None"
    and "c \<in> set made \<Longrightarrow> bt_blobs (va_tables v) c = None"
proof -
  note put = considerate_put [OF laws mw]
  have "blobs_ok x v' \<and> (bt_blobs (va_tables v) c \<noteq> None \<longrightarrow> bt_blobs (va_tables v') c \<noteq> None)
      \<and> (c \<in> set made \<longrightarrow> bt_blobs (va_tables v) c = None)"
    using run
  proof (cases rule: capture_body_cases)
    case (raw e)
    with put(1,2) [OF ok raw(1)] show ?thesis by simp
  next
    case (changed raw new)
    with put(1,2) [OF ok changed(1)] show ?thesis by simp
  next
    case (capsule new v1 e)
    note one = put [OF ok capsule(1)]
    with put(1,2) [OF one(1) capsule(2)] one(2,3) capsule(4) show ?thesis by auto
  next
    case (both new v1 d new2 v2 r2 ts)
    note one = put [OF ok both(1)]
    note two = put [OF one(1) both(2)]
    have "blobs_ok x v'" using two(1) record_capture_rows(1) [OF both(3)]
      by (intro blobs_ok_transfer [OF two(1)]) (simp_all add: both(4))
    moreover have "c \<in> set made \<longrightarrow> bt_blobs (va_tables v) c = None"
    proof
      assume "c \<in> set made"
      then consider "new" "c = ca_expected i" | "new2" "c = d" by (auto simp: both(6) split: if_splits)
      then show "bt_blobs (va_tables v) c = None"
        using one(3) [of "ca_expected i" new] two(3) [of d new2] one(2) [of c] by cases blast+
    qed
    ultimately show ?thesis using one(2) [of c] two(2) [of c] record_capture_rows(1) [OF both(3)] by (simp add: both(4))
  qed
  then show "blobs_ok x v'" "bt_blobs (va_tables v) c \<noteq> None \<Longrightarrow> bt_blobs (va_tables v') c \<noteq> None"
    "c \<in> set made \<Longrightarrow> bt_blobs (va_tables v) c = None" by blast+
qed

text \<open>
  C24. A capture is stored as a whole or not at all.  When it fails, whatever the reason, it leaves
  the vault as it was or with the tables of its beginning, the content of whose rows can all be read,
  and only what runs while the removal of its files is awaited comes after; when it succeeds, the raw
  evidence has the expected address, both contents can be read, and the capsule's hash and the
  session's status are recorded as given.
\<close>

theorem capture_all_or_nothing:
  fixes v :: "'a capsule_tables_scheme vault"
  assumes "vault_laws x" and "considerate x io mw" and "blobs_ok x v"
    and "commitCapture x io mw inTransaction commits now i v = (r, v')"
  shows "case r of
      Inl e \<Rightarrow> v' = v \<or> (\<exists>u. va_tables u = va_tables v \<and> blobs_ok x u \<and> v' = mw 2 0 u)
    | Inr (raw, capsule) \<Rightarrow> raw = ca_expected i \<and> raw = sha256 (vc_host x) (ca_raw i)
        \<and> (\<forall>c \<in> {raw, capsule}. \<exists>q. getBlob x c v' = Inr q \<and> sha256 (vc_host x) q = c)
        \<and> (\<exists>row. map_of (ct_capsules (va_tables v')) (ca_trajectoryId i, ca_revision i) = Some row \<and> cp_hash row = ca_capsuleHash i)
        \<and> (\<exists>row. map_of (ct_sessions (va_tables v')) (ci_sessionId (ca_session i)) = Some row
            \<and> cs_status row = ci_status (ca_session i) \<and> cs_observedAt row = ci_observedAt (ca_session i))"
proof (cases inTransaction)
  case False
  obtain r1 made v1 where run: "capture_body x io mw now i v = (r1, made, v1)" by (metis prod_cases3)
  note body = capture_body_ok [OF assms(1-3) run]
  let ?u = "fold remove_blob_file made (v1\<lparr>va_tables := va_tables v\<rparr>)"
  have u: "va_tables ?u = va_tables v" "blobs_ok x ?u"
    using rollback_ok [OF body(1) body(2) body(3)] by (simp_all add: remove_files(1))
  note out = assms(4) [unfolded commitCapture_def Let_def run, simplified False, simplified]
  show ?thesis
  proof (cases "\<exists>ids. r1 = Inr ids \<and> commits")
    case True
    then obtain ids where r1: "r1 = Inr ids" and commits by blast
    with out have r: "r = Inr ids" and v': "v' = v1" by simp_all
    from run [unfolded r1] obtain new w1 c new2 v2 ts where
        one: "putBlob x (io 0) (mw 0) (ca_raw i) (ca_rawKind i) v = (Inr (ca_expected i, new), w1)"
        and two: "putBlob x (io 1) (mw 1) (ca_capsule i) ''trajectory-capsule'' w1 = (Inr (c, new2), v2)"
        and rec: "record_capture x now i c (va_tables v2) = (Inr (), ts)" and v1: "v1 = v2\<lparr>va_tables := ts\<rparr>"
        and ids: "ids = (ca_expected i, c)"
      by (cases rule: capture_body_cases) (auto simp: map_sum_def split: sum.splits)
    note put1 = considerate_put [OF assms(1-3) one]
    note put2 = considerate_put [OF assms(1,2) put1(1) two]
    have rows: "bt_blobs (va_tables v1) d \<noteq> None" if "d \<in> {ca_expected i, c}" for d
      using that put1(3) [OF refl] put2(2) [of d] put2(3) [OF refl] record_capture_rows(1) [OF rec] by (auto simp: v1)
    have "\<forall>d \<in> {ca_expected i, c}. \<exists>q. getBlob x d v1 = Inr q \<and> sha256 (vc_host x) q = d"
      using body(1) rows unfolding blobs_ok_def by (metis getBlob_iff)
    moreover note record_capture_rows(2) [OF rec refl] put1(3) [OF refl]
    moreover have "ct_capsules (va_tables v1) = ct_capsules ts" "ct_sessions (va_tables v1) = ct_sessions ts" by (simp_all add: v1)
    ultimately show ?thesis unfolding r v' ids sum.case prod.case by metis
  next
    case False
    with out have "(\<exists>e. r = Inl e) \<and> v' = mw 2 0 ?u" by (cases r1) (auto split: if_splits)
    with u show ?thesis by auto
  qed
qed (use assms(4) in \<open>auto simp: commitCapture_def\<close>)

definition empty_capsules :: capsule_tables where
  "empty_capsules = \<lparr>bt_blobs = \<lambda>_. None,
     bt_bindings = \<lambda>_. None, bt_locators = \<lambda>_. None, bt_leases = \<lambda>_. None, bt_declarations = \<lambda>_. None, bt_renewals = \<lambda>_. None,
     su_operations = \<lambda>_. None, su_leases = \<lambda>_. None, su_readiness = \<lambda>_. None, su_receipts = \<lambda>_. None,
     ha_sessions = \<lambda>_. None,
     sx_exports = \<lambda>_. None, sx_offers = \<lambda>_. None, sx_open = \<lambda>_. None, sx_deliveries = \<lambda>_. None, sx_replies = \<lambda>_. None,
     sx_dispositions = \<lambda>_. None,
     ct_sessions = [], ct_capsules = [], ct_queue = [], ct_failures = [], ct_refs = [], ct_disclosures = [], ct_recovery = []\<rparr>"

definition demo_capture :: capture_input where
  "demo_capture = \<lparr>ca_raw = ''hi'', ca_rawKind = ''raw-provider-turn'', ca_expected = demo_address, ca_capsule = ''{}'',
     ca_trajectoryId = ''t'', ca_revision = 1, ca_capsuleHash = ''h'',
     ca_session = \<lparr>ci_sessionId = ''s'', ci_provider = ''codex'', ci_workspaceId = ''w'', ci_sourceLocator = ''l'',
       ci_status = ''open'', ci_observedAt = ''1''\<rparr>\<rparr>"

theorem capture_all_or_nothing_witness:
  "\<exists>e v'. commitCapture demo_vault_context (\<lambda>_. demo_io) (\<lambda>_ _ v. v) False False 1 demo_capture
      \<lparr>va_tables = empty_capsules, va_files = \<lambda>_. None\<rparr> = (Inl e, v') \<and> va_tables v' = empty_capsules"
proof -
  let ?v = "\<lparr>va_tables = empty_capsules, va_files = \<lambda>_. None\<rparr>"
  have ok: "considerate demo_vault_context (\<lambda>_. demo_io) (\<lambda>_ _ (v :: capsule_tables vault). v)" "blobs_ok demo_vault_context ?v"
    by (simp_all add: considerate_def blobs_ok_def empty_capsules_def)
  obtain r v' where run: "commitCapture demo_vault_context (\<lambda>_. demo_io) (\<lambda>_ _ v. v) False False 1 demo_capture ?v = (r, v')"
    by (rule prod.exhaust)
  moreover obtain e where "r = Inl e" using run by (cases r) (auto simp: commitCapture_def Let_def split: prod.splits sum.splits)
  ultimately show ?thesis using capture_all_or_nothing [OF demo_vault_laws ok run] by auto
qed

end
