(* ===== verification/Patterns.thy ===== *)
theory Patterns
  imports Parsed_Json
begin

text \<open>
  Regular expressions of JavaScript, as far as the fabric uses them: a match is a path of the
  backtracking matcher, and \<open>ends r p\<close> lists the ends of the matches that start at \<open>p\<close> in the order
  in which the matcher finds them.  A spot in a text is what comes before it, reversed, with what
  comes after it.  On top of them are \<open>test\<close> and \<open>replace\<close> with a global expression.
\<close>

subsection \<open>Characters\<close>

definition js_space :: "char \<Rightarrow> bool" where
  "js_space c = ((of_char c :: nat) \<in> {9, 10, 11, 12, 13, 32, 160})"

definition word_char :: "char \<Rightarrow> bool" where
  "word_char c = (is_word_char c \<or> c = CHR ''_'')"

text \<open>Case is ignored by comparing upper-case letters, where these are one code unit.\<close>

definition upper_latin :: "char \<Rightarrow> char" where
  "upper_latin c = (let n = of_char c :: nat in
     if 97 \<le> n \<and> n \<le> 122 \<or> 224 \<le> n \<and> n \<le> 254 \<and> n \<noteq> 247 then char_of (n - 32) else c)"

definition lower_latin :: "char \<Rightarrow> char" where
  "lower_latin c = (let n = of_char c :: nat in
     if 65 \<le> n \<and> n \<le> 90 \<or> 192 \<le> n \<and> n \<le> 222 \<and> n \<noteq> 215 then char_of (n + 32) else c)"

subsection \<open>Expressions and their matches\<close>

datatype regex =
    Nothing
  | One "char \<Rightarrow> bool"
  | Then regex regex
  | Either regex regex
  | Repeat bool nat "nat option" regex
  | Boundary
  | AtStart
  | AtEnd
  | NotAhead regex
  | NotBehind "char \<Rightarrow> bool"

type_synonym spot = "string \<times> string"

text \<open>An iteration beyond the least number that consumes nothing fails.\<close>

function repeat_ends :: "(spot \<Rightarrow> spot list) \<Rightarrow> bool \<Rightarrow> nat \<Rightarrow> nat option \<Rightarrow> spot \<Rightarrow> spot list" where
  "repeat_ends f greedy m n p =
     (if n = Some 0 then [p]
      else if 0 < m then concat (map (\<lambda>q. repeat_ends f greedy (m - 1) (map_option (\<lambda>k. k - 1) n) q) (f p))
      else let more = concat (map (\<lambda>q. repeat_ends f greedy m (map_option (\<lambda>k. k - 1) n) q)
             (filter (\<lambda>q. length (snd q) < length (snd p)) (f p)))
        in if greedy then more @ [p] else p # more)"
  by pat_completeness auto
termination
  by (relation "inv_image (less_than <*lex*> less_than) (\<lambda>(f, greedy, m, n, p). (m, length (snd p)))") auto

declare repeat_ends.simps [simp del]

fun ends :: "regex \<Rightarrow> spot \<Rightarrow> spot list" where
  "ends Nothing p = [p]"
| "ends (One P) p = (case snd p of [] \<Rightarrow> [] | c # s \<Rightarrow> if P c then [(c # fst p, s)] else [])"
| "ends (Then a b) p = concat (map (ends b) (ends a p))"
| "ends (Either a b) p = ends a p @ ends b p"
| "ends (Repeat greedy m n r) p = repeat_ends (ends r) greedy m n p"
| "ends Boundary p =
     (let word = (\<lambda>s. case s of [] \<Rightarrow> False | c # _ \<Rightarrow> word_char c) in
      if word (fst p) \<noteq> word (snd p) then [p] else [])"
| "ends AtStart p = (if fst p = [] then [p] else [])"
| "ends AtEnd p = (if snd p = [] then [p] else [])"
| "ends (NotAhead r) p = (if ends r p = [] then [p] else [])"
| "ends (NotBehind P) p = (case fst p of [] \<Rightarrow> [p] | c # _ \<Rightarrow> if P c then [] else [p])"

definition seq :: "regex list \<Rightarrow> regex" where
  "seq rs = foldr Then rs Nothing"

fun any_of :: "regex list \<Rightarrow> regex" where
  "any_of [] = NotAhead Nothing"
| "any_of [r] = r"
| "any_of (r # rs) = Either r (any_of rs)"

definition lit :: "string \<Rightarrow> regex" where
  "lit s = seq (map (\<lambda>c. One (\<lambda>d. d = c)) s)"

definition lit_ci :: "string \<Rightarrow> regex" where
  "lit_ci s = seq (map (\<lambda>c. One (\<lambda>d. upper_latin d = upper_latin c)) s)"

definition at_least :: "nat \<Rightarrow> (char \<Rightarrow> bool) \<Rightarrow> regex" where
  "at_least n P = Repeat True n None (One P)"

definition optional :: "regex \<Rightarrow> regex" where
  "optional r = Repeat True 0 (Some 1) r"

subsection \<open>Searching and replacing\<close>

text \<open>\<open>r.test(s)\<close>: there is a match somewhere.\<close>

fun found_after :: "regex \<Rightarrow> string \<Rightarrow> string \<Rightarrow> bool" where
  "found_after r past [] = (ends r (past, []) \<noteq> [])"
| "found_after r past (c # s) = (ends r (past, c # s) \<noteq> [] \<or> found_after r (c # past) s)"

definition found :: "regex \<Rightarrow> string \<Rightarrow> bool" where
  "found r s = found_after r [] s"

text \<open>\<open>s.replace(r, ...)\<close> for a global \<open>r\<close> cuts the text into matches and the characters between them.\<close>

datatype piece = Kept char | Cut string

function pieces :: "regex \<Rightarrow> string \<Rightarrow> string \<Rightarrow> piece list" where
  "pieces r past s = (case ends r (past, s) of
       [] \<Rightarrow> (case s of [] \<Rightarrow> [] | c # s' \<Rightarrow> Kept c # pieces r (c # past) s')
     | (past', s') # _ \<Rightarrow>
         if length s' < length s then Cut (take (length s - length s') s) # pieces r past' s'
         else Cut [] # (case s of [] \<Rightarrow> [] | c # s' \<Rightarrow> Kept c # pieces r (c # past) s'))"
  by pat_completeness auto
termination by (relation "measure (\<lambda>(r, past, s). length s)") auto

declare pieces.simps [simp del]

definition piece_text :: "string \<Rightarrow> piece \<Rightarrow> string" where
  "piece_text replacement p = (case p of Kept c \<Rightarrow> [c] | Cut _ \<Rightarrow> replacement)"

lemma piece_text_simps [simp]: "piece_text R (Kept c) = [c]" "piece_text R (Cut m) = R"
  by (simp_all add: piece_text_def)

definition is_cut :: "piece \<Rightarrow> bool" where
  "is_cut p = (case p of Kept _ \<Rightarrow> False | Cut _ \<Rightarrow> True)"

definition replace_all :: "regex \<Rightarrow> string \<Rightarrow> string \<Rightarrow> string" where
  "replace_all r replacement s = concat (map (piece_text replacement) (pieces r [] s))"

definition count_matches :: "regex \<Rightarrow> string \<Rightarrow> nat" where
  "count_matches r s = length (filter is_cut (pieces r [] s))"

subsection \<open>Matches stay in the text\<close>

definition spot_text :: "spot \<Rightarrow> string" where
  "spot_text p = rev (fst p) @ snd p"

lemma repeat_ends_iff:
  "q \<in> set (repeat_ends f greedy m n p) \<longleftrightarrow>
     (if n = Some 0 then q = p
      else if 0 < m then \<exists>p' \<in> set (f p). q \<in> set (repeat_ends f greedy (m - 1) (map_option (\<lambda>k. k - 1) n) p')
      else q = p \<or> (\<exists>p' \<in> set (f p). length (snd p') < length (snd p)
        \<and> q \<in> set (repeat_ends f greedy m (map_option (\<lambda>k. k - 1) n) p')))"
  by (subst repeat_ends.simps) (auto simp: Let_def)

lemma repeat_ends_path:
  "q \<in> set (repeat_ends f greedy m n p) \<Longrightarrow> (\<lambda>a b. b \<in> set (f a))\<^sup>*\<^sup>* p q"
proof (induction f greedy m n p rule: repeat_ends.induct)
  case (1 f greedy m n p)
  from "1.prems" consider "q = p"
    | p' where "n \<noteq> Some 0" "0 < m" "p' \<in> set (f p)" "q \<in> set (repeat_ends f greedy (m - 1) (map_option (\<lambda>k. k - 1) n) p')"
    | p' where "n \<noteq> Some 0" "\<not> 0 < m" "p' \<in> set (f p)" "length (snd p') < length (snd p)"
        "q \<in> set (repeat_ends f greedy m (map_option (\<lambda>k. k - 1) n) p')"
    unfolding repeat_ends_iff [of q f greedy m n p] by (auto split: if_splits)
  then show ?case
  proof cases
    case 2
    from "1.IH"(1) [OF 2] 2(3) show ?thesis by (rule converse_rtranclp_into_rtranclp [rotated])
  next
    case 3
    then have "p' \<in> set (filter (\<lambda>q. length (snd q) < length (snd p)) (f p))" by simp
    from "1.IH"(2) [OF 3(1,2) this 3(5)] 3(3) show ?thesis by (rule converse_rtranclp_into_rtranclp [rotated])
  qed simp
qed

lemma ends_text: "q \<in> set (ends r p) \<Longrightarrow> spot_text q = spot_text p \<and> length (snd q) \<le> length (snd p)"
proof (induction r arbitrary: p q)
  case (One P)
  then show ?case by (cases p; cases "snd p") (auto simp: spot_text_def split: if_splits)
next
  case (Then a b)
  then obtain p' where "p' \<in> set (ends a p)" "q \<in> set (ends b p')" by auto
  with Then.IH show ?case by fastforce
next
  case (Either a b)
  then have "q \<in> set (ends a p) \<or> q \<in> set (ends b p)" by simp
  with Either.IH show ?case by blast
next
  case (Repeat greedy m n r)
  then have "(\<lambda>a b. b \<in> set (ends r a))\<^sup>*\<^sup>* p q" by (simp add: repeat_ends_path)
  then show ?case by induction (use Repeat.IH in fastforce)+
qed (auto simp: Let_def split: list.splits if_splits)

text \<open>The pieces are the text, and every cut is the first match at its place.\<close>

lemma ends_cut:
  assumes "(b', s') \<in> set (ends r (b, s))"
  shows "s = take (length s - length s') s @ s'" and "b' = rev (take (length s - length s') s) @ b"
proof -
  from ends_text [OF assms] have eq: "rev b' @ s' = rev b @ s" and le: "length s' \<le> length s" by (simp_all add: spot_text_def)
  then obtain m where m: "rev b' = rev b @ m" "s = m @ s'" by (auto simp: append_eq_append_conv2)
  then have "take (length s - length s') s = m" by simp
  with m show "s = take (length s - length s') s @ s'" "b' = rev (take (length s - length s') s) @ b"
    by (simp, metis rev_append rev_rev_ident)
qed

text \<open>One step of the scan.\<close>

lemma pieces_cases:
  obtains (over) "ends r (b, s) = []" "s = []" "pieces r b s = []"
  | (kept) c s' where "ends r (b, s) = []" "s = c # s'" "pieces r b s = Kept c # pieces r (c # b) s'"
  | (cut) m s' rest where "ends r (b, s) = (rev m @ b, s') # rest" "m \<noteq> []" "s = m @ s'" "pieces r b s = Cut m # pieces r (rev m @ b) s'"
  | (empty_end) "s = []" "pieces r b s = [Cut []]" "ends r (b, s) \<noteq> []"
  | (empty) c s' rest where "ends r (b, s) = (b, s) # rest" "s = c # s'" "pieces r b s = Cut [] # Kept c # pieces r (c # b) s'"
proof (cases "ends r (b, s)")
  case Nil
  then have "pieces r b s = (case s of [] \<Rightarrow> [] | c # s' \<Rightarrow> Kept c # pieces r (c # b) s')" by (subst pieces.simps) simp
  with Nil over kept show thesis by (cases s) simp_all
next
  case (Cons q rest)
  obtain b' s' where q: "q = (b', s')" by (rule prod.exhaust)
  with Cons have "(b', s') \<in> set (ends r (b, s))" by simp
  note cut_eq = ends_cut [OF this] and le = ends_text [OF this]
  have step: "pieces r b s = (if length s' < length s then Cut (take (length s - length s') s) # pieces r b' s'
         else Cut [] # (case s of [] \<Rightarrow> [] | c # s' \<Rightarrow> Kept c # pieces r (c # b) s'))"
    by (subst pieces.simps) (simp add: Cons q)
  show thesis
  proof (cases "length s' < length s")
    case True
    let ?m = "take (length s - length s') s"
    show thesis
    proof (rule cut)
      show "ends r (b, s) = (rev ?m @ b, s') # rest" using Cons q cut_eq(2) by simp
      show "?m \<noteq> []" using True by auto
      show "s = ?m @ s'" by (rule cut_eq(1))
      show "pieces r b s = Cut ?m # pieces r (rev ?m @ b) s'" unfolding step cut_eq(2) [symmetric] using True by simp
    qed
  next
    case False
    with le have "take (length s - length s') s = []" by simp
    with cut_eq have same: "s' = s" "b' = b" by (metis append_Nil, metis append_Nil rev.simps(1))
    show thesis
    proof (cases s)
      case Nil
      show thesis by (rule empty_end) (use Nil Cons step in simp_all)
    next
      fix c s1 assume s: "s = c # s1"
      show thesis by (rule empty) (use s Cons q same step in simp_all)
    qed
  qed
qed

text \<open>The pieces are the text.\<close>

definition piece_source :: "piece \<Rightarrow> string" where
  "piece_source p = (case p of Kept c \<Rightarrow> [c] | Cut m \<Rightarrow> m)"

lemma pieces_join: "concat (map piece_source (pieces r b s)) = s"
proof (induction "length s" arbitrary: b s rule: less_induct)
  case less
  show ?case
    by (cases rule: pieces_cases [of r b s]) (simp_all add: piece_source_def less)
qed

subsection \<open>The matcher against the relation it computes\<close>

text \<open>What an expression matches, without the order in which matches are tried.\<close>

primrec spans :: "regex \<Rightarrow> (spot \<times> spot) set" where
  "spans Nothing = Id"
| "spans (One P) = {((b, c # s), (c # b, s)) | b c s. P c}"
| "spans (Then a b) = spans a O spans b"
| "spans (Either a b) = spans a \<union> spans b"
| "spans (Repeat greedy m n r) = (\<Union>k \<in> {k. (case n of None \<Rightarrow> m \<le> k | Some n' \<Rightarrow> min m n' \<le> k \<and> k \<le> n')}. spans r ^^ k)"
| "spans Boundary = {(p, p) | p. (fst p \<noteq> [] \<and> word_char (hd (fst p))) \<noteq> (snd p \<noteq> [] \<and> word_char (hd (snd p)))}"
| "spans AtStart = {(p, p) | p. fst p = []}"
| "spans AtEnd = {(p, p) | p. snd p = []}"
| "spans (NotAhead r) = {(p, p) | p. p \<notin> Domain (spans r)}"
| "spans (NotBehind P) = {(p, p) | p. fst p = [] \<or> \<not> P (hd (fst p))}"

lemma repeat_ends_sound:
  "q \<in> set (repeat_ends f greedy m n p) \<Longrightarrow>
     \<exists>k. (case n of None \<Rightarrow> m \<le> k | Some n' \<Rightarrow> min m n' \<le> k \<and> k \<le> n') \<and> (p, q) \<in> {(a, b). b \<in> set (f a)} ^^ k"
proof (induction f greedy m n p rule: repeat_ends.induct)
  case (1 f greedy m n p)
  let ?R = "{(a, b). b \<in> set (f a)}"
  from "1.prems" consider (now) "q = p" "n = Some 0 \<or> m = 0"
    | (least) p' where "n \<noteq> Some 0" "0 < m" "p' \<in> set (f p)" "q \<in> set (repeat_ends f greedy (m - 1) (map_option (\<lambda>k. k - 1) n) p')"
    | (more) p' where "n \<noteq> Some 0" "\<not> 0 < m" "p' \<in> set (f p)" "length (snd p') < length (snd p)"
        "q \<in> set (repeat_ends f greedy m (map_option (\<lambda>k. k - 1) n) p')"
    unfolding repeat_ends_iff [of q f greedy m n p] by (auto split: if_splits)
  then show ?case
  proof cases
    case now
    then have "(p, q) \<in> ?R ^^ 0" by simp
    with now(2) show ?thesis by (intro exI [of _ 0]) (auto split: option.splits)
  next
    case least
    from "1.IH"(1) [OF least] obtain k where
      k: "case map_option (\<lambda>k. k - 1) n of None \<Rightarrow> m - 1 \<le> k | Some n' \<Rightarrow> min (m - 1) n' \<le> k \<and> k \<le> n'" "(p', q) \<in> ?R ^^ k" by blast
    have "(p, q) \<in> ?R ^^ Suc k" using relpow_Suc_I2 [of p p' ?R q k] least(3) k(2) by simp
    with k(1) least(1,2) show ?thesis by (intro exI [of _ "Suc k"]) (auto split: option.splits)
  next
    case more
    then have "p' \<in> set (filter (\<lambda>q. length (snd q) < length (snd p)) (f p))" by simp
    from "1.IH"(2) [OF more(1,2) this more(5)] obtain k where
      k: "case map_option (\<lambda>k. k - 1) n of None \<Rightarrow> m \<le> k | Some n' \<Rightarrow> min m n' \<le> k \<and> k \<le> n'" "(p', q) \<in> ?R ^^ k" by blast
    have "(p, q) \<in> ?R ^^ Suc k" using relpow_Suc_I2 [of p p' ?R q k] more(3) k(2) by simp
    with k(1) more(1,2) show ?thesis by (intro exI [of _ "Suc k"]) (auto split: option.splits)
  qed
qed

text \<open>Iterations that consume nothing can be left out.\<close>

lemma repeat_ends_complete:
  assumes f: "\<And>p q. q \<in> set (f p) \<Longrightarrow> q = p \<or> length (snd q) < length (snd p)"
  shows "(case n of None \<Rightarrow> m \<le> k | Some n' \<Rightarrow> min m n' \<le> k \<and> k \<le> n') \<Longrightarrow> (p, q) \<in> {(a, b). b \<in> set (f a)} ^^ k
    \<Longrightarrow> q \<in> set (repeat_ends f greedy m n p)"
proof (induction k arbitrary: m n p)
  case 0
  then show ?case unfolding repeat_ends_iff [of q f greedy m n p] by (auto split: option.splits)
next
  case (Suc k)
  from relpow_Suc_D2 [OF Suc.prems(2)] obtain p' where p': "p' \<in> set (f p)" "(p', q) \<in> {(a, b). b \<in> set (f a)} ^^ k"
    by blast
  from Suc.prems(1) have n: "n \<noteq> Some 0" by auto
  show ?case
  proof (cases "0 < m")
    case True
    have "q \<in> set (repeat_ends f greedy (m - 1) (map_option (\<lambda>k. k - 1) n) p')"
      by (rule Suc.IH [OF _ p'(2)]) (use Suc.prems(1) True in \<open>auto split: option.splits\<close>)
    with True n p'(1) show ?thesis unfolding repeat_ends_iff [of q f greedy m n p] by auto
  next
    case False
    show ?thesis
    proof (cases "p' = p")
      case True
      show ?thesis by (rule Suc.IH) (use Suc.prems(1) p'(2) True False in \<open>auto split: option.splits\<close>)
    next
      case neq: False
      have "q \<in> set (repeat_ends f greedy m (map_option (\<lambda>k. k - 1) n) p')"
        by (rule Suc.IH [OF _ p'(2)]) (use Suc.prems(1) False in \<open>auto split: option.splits\<close>)
      moreover from f [OF p'(1)] neq have "length (snd p') < length (snd p)" by blast
      ultimately show ?thesis using False n p'(1) unfolding repeat_ends_iff [of q f greedy m n p] by auto
    qed
  qed
qed

lemma ends_shrink: "q \<in> set (ends r p) \<Longrightarrow> q = p \<or> length (snd q) < length (snd p)"
proof -
  assume q: "q \<in> set (ends r p)"
  obtain b s b' s' where eq: "p = (b, s)" "q = (b', s')" by (metis prod.exhaust)
  from q have "(b', s') \<in> set (ends r (b, s))" by (simp add: eq)
  from ends_text [OF this] show ?thesis by (auto simp: eq spot_text_def)
qed

text \<open>
  The matcher finds exactly the matches.  From every place of a text, the ends that
  backtracking visits are those that the expression relates to that place.
\<close>

theorem matcher_exact: "set (ends r p) = {q. (p, q) \<in> spans r}"
proof (induction r arbitrary: p)
  case (One P)
  then show ?case by (cases p; cases "snd p") auto
next
  case (Then a b)
  then show ?case by auto
next
  case (Repeat greedy m n r)
  have R: "{(a, b). b \<in> set (ends r a)} = spans r" using Repeat.IH by auto
  show ?case
    using repeat_ends_sound [of _ "ends r" greedy m n p] 
      repeat_ends_complete [where f = "ends r" and greedy = greedy and n = n and m = m and p = p, OF ends_shrink]
    unfolding R by auto
next
  case (NotAhead r)
  then have "ends r p = [] \<longleftrightarrow> p \<notin> Domain (spans r)" by (metis (no_types, lifting) Domain.simps empty_Collect_eq set_empty)
  then show ?case by auto
qed (auto simp: Let_def split: list.splits)

subsection \<open>Replacing shows\<close>

text \<open>Every match of a guarded expression begins with a character of the text that is not \<open>d\<close>.\<close>

primrec zero_width :: "regex \<Rightarrow> bool" where
  "zero_width Nothing = True"
| "zero_width (One P) = False"
| "zero_width (Then a b) = (zero_width a \<and> zero_width b)"
| "zero_width (Either a b) = (zero_width a \<and> zero_width b)"
| "zero_width (Repeat greedy m n r) = False"
| "zero_width Boundary = True"
| "zero_width AtStart = True"
| "zero_width AtEnd = True"
| "zero_width (NotAhead r) = True"
| "zero_width (NotBehind P) = True"

primrec guarded :: "char \<Rightarrow> regex \<Rightarrow> bool" where
  "guarded d Nothing = False"
| "guarded d (One P) = (\<not> P d)"
| "guarded d (Then a b) = (guarded d a \<or> zero_width a \<and> guarded d b)"
| "guarded d (Either a b) = (guarded d a \<and> guarded d b)"
| "guarded d (Repeat greedy m n r) = (0 < m \<and> n \<noteq> Some 0 \<and> guarded d r)"
| "guarded d Boundary = False"
| "guarded d AtStart = False"
| "guarded d AtEnd = False"
| "guarded d (NotAhead r) = (r = Nothing)"
| "guarded d (NotBehind P) = False"

lemma zero_width_stays: "zero_width r \<Longrightarrow> q \<in> set (ends r p) \<Longrightarrow> q = p"
proof (induction r arbitrary: p q)
  case (Then a b)
  then obtain p' where "p' \<in> set (ends a p)" "q \<in> set (ends b p')" by auto
  moreover from Then.prems(1) have "zero_width a" "zero_width b" by simp_all
  ultimately show ?case using Then.IH(1) [of p' p] Then.IH(2) [of q p'] by blast
next
  case (Either a b)
  from Either.prems(2) have "q \<in> set (ends a p) \<or> q \<in> set (ends b p)" by simp
  moreover from Either.prems(1) have "zero_width a" "zero_width b" by simp_all
  ultimately show ?case using Either.IH by blast
qed (auto simp: Let_def split: list.splits if_splits)

lemma guarded_starts: "guarded d r \<Longrightarrow> q \<in> set (ends r p) \<Longrightarrow> \<exists>c s. snd p = c # s \<and> c \<noteq> d \<and> length (snd q) \<le> length s"
proof (induction r arbitrary: p q)
  case (One P)
  then show ?case by (cases p; cases "snd p") (auto split: if_splits)
next
  case (Then a b)
  then obtain p' where p': "p' \<in> set (ends a p)" "q \<in> set (ends b p')" by auto
  show ?case
  proof (cases "guarded d a")
    case True
    from Then.IH(1) [OF this p'(1)] ends_text [OF p'(2)] show ?thesis by (metis order_trans)
  next
    case False
    with Then.prems(1) have "zero_width a" "guarded d b" by auto
    with zero_width_stays [OF _ p'(1)] have "p' = p" "guarded d b" by blast+
    with Then.IH(2) p'(2) show ?thesis by blast
  qed
next
  case (Either a b)
  from Either.prems(2) have "q \<in> set (ends a p) \<or> q \<in> set (ends b p)" by simp
  moreover from Either.prems(1) have "guarded d a" "guarded d b" by simp_all
  ultimately show ?case using Either.IH by blast
next
  case (Repeat greedy m n r)
  then obtain p' where p': "p' \<in> set (ends r p)" "q \<in> set (repeat_ends (ends r) greedy (m - 1) (map_option (\<lambda>k. k - 1) n) p')"
    unfolding ends.simps repeat_ends_iff [of q "ends r" greedy m n p] by auto
  then have "length (snd q) \<le> length (snd p')"
    using ends_text [of q "Repeat greedy (m - 1) (map_option (\<lambda>k. k - 1) n) r" p'] by simp
  with Repeat.IH [OF _ p'(1)] Repeat.prems(1) show ?case by (auto intro: order_trans)
next
  case (NotAhead r)
  then show ?case by simp
qed simp_all

text \<open>Two texts differ, and at the first difference the second has \<open>d\<close>.\<close>

definition marked :: "char \<Rightarrow> string \<Rightarrow> string \<Rightarrow> bool" where
  "marked d s t = (\<exists>u x y. s = u @ x \<and> t = u @ d # y \<and> (x = [] \<or> hd x \<noteq> d))"

lemma marked_differs: "marked d s t \<Longrightarrow> s \<noteq> t"
  unfolding marked_def by auto

text \<open>Either the text before \<open>d\<close> stays, and \<open>d\<close> with it, or a match in it is replaced.\<close>

lemma pieces_before_mark:
  assumes g: "guarded d r"
  shows "(\<exists>y'. concat (map (piece_text (d # R)) (pieces r b (u @ d # y))) = u @ d # y')
    \<or> (\<exists>u1 c u2 y'. u = u1 @ c # u2 \<and> c \<noteq> d \<and> concat (map (piece_text (d # R)) (pieces r b (u @ d # y))) = u1 @ d # y')"
proof (induction u arbitrary: b)
  case Nil
  have "ends r (b, d # y) = []" using guarded_starts [OF g, of _ "(b, d # y)"] by (metis list.inject list.set_intros(1) neq_Nil_conv snd_conv)
  then have "pieces r b (d # y) = Kept d # pieces r (d # b) y" by (subst pieces.simps) simp
  then show ?case by auto
next
  case (Cons c u)
  show ?case
  proof (cases rule: pieces_cases [of r b "(c # u) @ d # y"])
    case (kept c' s')
    then have eq: "concat (map (piece_text (d # R)) (pieces r b ((c # u) @ d # y)))
        = c # concat (map (piece_text (d # R)) (pieces r (c # b) (u @ d # y)))" by simp
    show ?thesis using Cons.IH [of "c # b"]
    proof (elim disjE exE conjE)
      fix u1 c1 u2 y' assume "u = u1 @ c1 # u2" "c1 \<noteq> d"
        "concat (map (piece_text (d # R)) (pieces r (c # b) (u @ d # y))) = u1 @ d # y'"
      then show ?thesis unfolding eq by (intro disjI2 exI [of _ "c # u1"] exI [of _ c1] exI [of _ u2] exI [of _ y']) simp
    next
      fix y' assume "concat (map (piece_text (d # R)) (pieces r (c # b) (u @ d # y))) = u @ d # y'"
      then show ?thesis unfolding eq by simp
    qed
  next
    case (cut m s' rest)
    then have "c \<noteq> d" using guarded_starts [OF g, of "(rev m @ b, s')" "(b, (c # u) @ d # y)"] by auto
    then show ?thesis using cut(4)
      by - (rule disjI2, rule exI [of _ "[]"], rule exI [of _ c], rule exI [of _ u],
          rule exI [of _ "R @ concat (map (piece_text (d # R)) (pieces r (rev m @ b) s'))"], simp)
  next
    case (empty c' s' rest)
    then show ?thesis using guarded_starts [OF g, of "(b, (c # u) @ d # y)" "(b, (c # u) @ d # y)"] by auto
  qed simp_all
qed

lemma marked_replace:
  assumes "guarded d r" "marked d s t"
  shows "marked d s (replace_all r (d # R) t)"
proof -
  from assms(2) obtain u x y where t: "s = u @ x" "t = u @ d # y" "x = [] \<or> hd x \<noteq> d" unfolding marked_def by blast
  from pieces_before_mark [OF assms(1), of R "[]" u y] show ?thesis
  proof (elim disjE exE conjE)
    fix u1 c u2 y' assume "u = u1 @ c # u2" "c \<noteq> d" "concat (map (piece_text (d # R)) (pieces r [] (u @ d # y))) = u1 @ d # y'"
    with t show ?thesis unfolding marked_def replace_all_def
      by (intro exI [of _ u1] exI [of _ "c # u2 @ x"] exI [of _ y']) simp
  qed (use t in \<open>auto simp: marked_def replace_all_def\<close>)
qed

text \<open>A text without a match stays as it is, any other is changed in the first match.\<close>

lemma replace_none:
  assumes "\<not> found_after r b s"
  shows "pieces r b s = map Kept s"
  using assms
proof (induction s arbitrary: b)
  case Nil
  then show ?case by (subst pieces.simps) simp
next
  case (Cons c s)
  then show ?case by (subst pieces.simps) simp
qed

lemma concat_kept [simp]: "concat (map (piece_text R \<circ> Kept) s) = s" "filter (is_cut \<circ> Kept) s = []"
  by (induction s) (simp_all add: is_cut_def)

lemma replace_some:
  assumes "guarded d r" "found_after r b s"
  shows "marked d s (concat (map (piece_text (d # R)) (pieces r b s)))"
  using assms(2)
proof (induction s arbitrary: b)
  case Nil
  then show ?case using guarded_starts [OF assms(1), of _ "(b, [])"] by (cases "ends r (b, [])") auto
next
  case (Cons c s)
  show ?case
  proof (cases rule: pieces_cases [of r b "c # s"])
    case (kept c' s')
    with Cons have "marked d s (concat (map (piece_text (d # R)) (pieces r (c # b) s)))" by simp
    then obtain u x y where "s = u @ x" "concat (map (piece_text (d # R)) (pieces r (c # b) s)) = u @ d # y" "x = [] \<or> hd x \<noteq> d"
      unfolding marked_def by blast
    with kept show ?thesis unfolding marked_def
      by (intro exI [of _ "c # u"] exI [of _ x] exI [of _ y]) simp
  next
    case (cut m s' rest)
    then have "c \<noteq> d" using guarded_starts [OF assms(1), of "(rev m @ b, s')" "(b, c # s)"] by auto
    then show ?thesis unfolding marked_def cut(4)
      by (intro exI [of _ "[]"] exI [of _ "c # s"]
          exI [of _ "R @ concat (map (piece_text (d # R)) (pieces r (rev m @ b) s'))"]) simp
  next
    case (empty c' s' rest)
    then show ?thesis using guarded_starts [OF assms(1), of "(b, c # s)" "(b, c # s)"] by auto
  qed simp_all
qed

end
