(* ===== verification/Redaction.thy ===== *)
theory Redaction
  imports Patterns Org_Policy "HOL-Library.AList"
begin

text \<open>
  Redaction in packages/evidence-reduction/src/index.ts: the patterns of secrets and local paths,
  the redaction of strings and of whole values, and the tests for paths that a policy excludes.
  \<open>JSON.parse\<close> is an argument; \<open>None\<close> is its exception.
\<close>

subsection \<open>The patterns\<close>

definition in_class :: "string \<Rightarrow> char \<Rightarrow> bool" where
  "in_class s c = (is_word_char c \<or> c \<in> set s)"

definition no_space :: "string \<Rightarrow> char \<Rightarrow> bool" where
  "no_space s c = (\<not> js_space c \<and> c \<notin> set s)"

text \<open>Words that may be joined by one of \<open>_-\<close>.\<close>

fun joined :: "string list \<Rightarrow> regex" where
  "joined [] = Nothing"
| "joined [w] = lit_ci w"
| "joined (w # ws) = seq [lit_ci w, optional (One (\<lambda>c. c \<in> set ''_-'')), joined ws]"

definition key_kind :: regex where
  "key_kind = optional (any_of [lit ''RSA '', lit ''EC '', lit ''OPENSSH ''])"

definition assignment :: regex where
  "assignment = seq [at_least 0 js_space, One (\<lambda>c. c \<in> set '':=''), at_least 0 js_space]"

definition SECRET_PATTERNS :: "(string \<times> regex) list" where
  "SECRET_PATTERNS =
    [(''private_key'', seq [lit ''-----BEGIN '', key_kind, lit ''PRIVATE KEY-----'', Repeat False 0 None (One (\<lambda>_. True)),
        lit ''-----END '', key_kind, lit ''PRIVATE KEY-----'']),
     (''github_token'', seq [Boundary,
        any_of [seq [lit ''gh'', One (\<lambda>c. c \<in> set ''opusr''), lit ''_'', at_least 20 (in_class ''_'')],
                seq [lit ''github_pat_'', at_least 20 (in_class ''_'')]], Boundary]),
     (''openai_key'', seq [Boundary, lit ''sk-'', at_least 20 (in_class ''_-''), Boundary]),
     (''aws_access_key'', seq [Boundary, any_of [lit ''AKIA'', lit ''ASIA''],
        Repeat True 16 (Some 16) (One (\<lambda>c. is_letter c \<and> \<not> is_lower c \<or> is_digit c)), Boundary]),
     (''jwt'', seq [Boundary, lit ''eyJ'', at_least 8 (in_class ''_-''), lit ''.'', at_least 8 (in_class ''_-''), lit ''.'',
        at_least 8 (in_class ''_-''), Boundary]),
     (''connection_string'', seq [Boundary,
        any_of [seq [lit_ci ''postgres'', optional (lit_ci ''ql'')], lit_ci ''mysql'', seq [lit_ci ''mongodb'', optional (lit_ci ''+srv'')]],
        lit ''://'', at_least 1 (no_space [CHR 0x22, CHR 0x27])]),
     (''authorization'', seq [Boundary,
        any_of [lit_ci ''authorization'', joined [''api'', ''key''], joined [''access'', ''token''], joined [''refresh'', ''token''],
          joined [''auth'', ''token''], joined [''client'', ''secret''], joined [''aws'', ''secret'', ''access'', ''key'']],
        assignment, at_least 8 (no_space '',;'')]),
     (''google_api_key'', seq [Boundary, lit ''AIza'', at_least 30 (in_class ''_-''), Boundary]),
     (''slack_token'', seq [Boundary, lit ''xox'', One (\<lambda>c. c \<in> set ''baprs''), lit ''-'', at_least 10 (in_class ''-''), Boundary]),
     (''generic_secret'', seq [Boundary,
        any_of [joined [''client'', ''secret''], joined [''refresh'', ''token''], joined [''aws'', ''secret'', ''access'', ''key''],
          joined [''auth'', ''token''], joined [''x'', ''api'', ''key'']],
        assignment, optional (One (\<lambda>c. c \<in> {CHR 0x22, CHR 0x27})), at_least 8 (in_class ''_./+=-''),
        optional (One (\<lambda>c. c \<in> {CHR 0x22, CHR 0x27}))])]"

definition path_stop :: string where
  "path_stop = [CHR 0x22, CHR 0x27] @ ''<>|,}]''"

definition is_slash :: "char \<Rightarrow> bool" where
  "is_slash c = (c = CHR ''/'' \<or> c = CHR 0x5C)"

definition rooted :: "string list \<Rightarrow> regex" where
  "rooted names = any_of (map lit_ci names @ [seq [lit_ci ''mnt/'', One is_letter]])"

definition LOCAL_PATH_PATTERNS :: "regex list" where
  "LOCAL_PATH_PATTERNS =
    [seq [Boundary, lit_ci ''file:'', Repeat True 2 (Some 3) (lit ''/''),
       optional (seq [at_least 0 (no_space path_stop), One (in_class ''_~@%+=/-'')])],
     seq [NotBehind (in_class ''_:/''), lit ''/'',
       rooted [''home'', ''users'', ''root'', ''usr'', ''srv'', ''tmp'', ''var'', ''etc'', ''opt'', ''boot'', ''dev'', ''proc'', ''sys'',
         ''workspace'', ''repo''],
       any_of [seq [One is_slash, at_least 0 (no_space path_stop)], AtEnd]],
     seq [NotBehind (in_class ''_:/''), lit ''/'',
       NotAhead (any_of [seq [lit ''api'', any_of [lit ''/'', Boundary]], seq [lit ''help'', any_of [Boundary, lit ''/'']]]),
       at_least 1 (in_class ''._-''),
       Repeat True 1 None (seq [lit ''/'', at_least 0 (in_class ''._~@%+=:,-''), One (in_class ''_~@%+=-'')])],
     seq [Boundary, One is_letter, lit '':'', at_least 1 is_slash, at_least 0 (no_space path_stop)],
     seq [at_least 2 (\<lambda>c. c = CHR 0x5C),
       optional (seq [lit_ci ''wsl'', optional (lit_ci ''.localhost''), at_least 1 (\<lambda>c. c = CHR 0x5C)]),
       at_least 1 (no_space path_stop)]]"

definition FORBIDDEN_LOCAL_PATH :: regex where
  "FORBIDDEN_LOCAL_PATH =
     (let share = at_least 1 (no_space ([CHR 0x5C, CHR ''/'', CHR 0x22, CHR 0x27] @ ''<>'')) in
      any_of [seq [lit_ci ''file:'', Repeat True 2 (Some 3) (lit ''/'')],
        seq [any_of [AtStart, One (\<lambda>c. js_space c \<or> c \<in> {CHR 0x22, CHR 0x27, CHR ''='', CHR ''(''})],
          any_of [seq [One is_letter, lit '':'', One is_slash],
            seq [lit [CHR 0x5C, CHR 0x5C], share, One is_slash, share],
            seq [lit ''/'', any_of (map lit_ci [''home'', ''users'', ''root'', ''usr'', ''srv'', ''tmp'', ''var'', ''etc'', ''opt'', ''boot'',
                ''dev'', ''proc'', ''sys''] @ [seq [lit_ci ''mnt/'', One is_letter], lit_ci ''workspace'', lit_ci ''repo'']),
              any_of [One is_slash, AtEnd]]]]])"

subsection \<open>Strings\<close>

record redaction_stats =
  rd_classes :: "string set"
  rd_redactedValues :: nat
  rd_excludedPaths :: nat
  rd_inputBytes :: nat
  rd_outputBytes :: nat

definition no_stats :: redaction_stats where
  "no_stats = \<lparr>rd_classes = {}, rd_redactedValues = 0, rd_excludedPaths = 0, rd_inputBytes = 0, rd_outputBytes = 0\<rparr>"

definition note_class :: "string \<Rightarrow> nat \<Rightarrow> redaction_stats \<Rightarrow> redaction_stats" where
  "note_class name n st = (if n = 0 then st
     else st\<lparr>rd_classes := insert name (rd_classes st), rd_redactedValues := rd_redactedValues st + n\<rparr>)"

text \<open>Class, pattern and replacement, in the order of application.\<close>

definition redaction_rules :: "(string \<times> regex \<times> string) list" where
  "redaction_rules =
     [(''invalid_unicode_nul'', One (\<lambda>c. c = CHR 0x00), ''[REMOVED:nul]'')]
     @ map (\<lambda>(name, r). (name, r, ''[REDACTED:'' @ name @ '']'')) SECRET_PATTERNS
     @ map (\<lambda>r. (''local_path'', r, ''[REDACTED:local_path]'')) LOCAL_PATH_PATTERNS"

definition apply_rule :: "string \<times> regex \<times> string \<Rightarrow> string \<times> redaction_stats \<Rightarrow> string \<times> redaction_stats" where
  "apply_rule = (\<lambda>(name, r, replacement) (s, st).
     (replace_all r replacement s, note_class name (count_matches r s) st))"

lemma apply_rule_simp [simp]:
  "apply_rule (name, r, R) (s, st) = (replace_all r R s, note_class name (count_matches r s) st)"
  by (simp add: apply_rule_def)

definition redactString :: "string \<Rightarrow> redaction_stats \<Rightarrow> string \<times> redaction_stats" where
  "redactString s st =
     (case fold apply_rule redaction_rules (s, st\<lparr>rd_inputBytes := rd_inputBytes st + utf8_length s\<rparr>) of
        (out, st1) \<Rightarrow> (out, st1\<lparr>rd_outputBytes := rd_outputBytes st1 + utf8_length out\<rparr>))"

lemma rules_guarded:
  "rule \<in> set redaction_rules \<Longrightarrow> guarded (CHR ''['') (fst (snd rule)) \<and> (\<exists>R. snd (snd rule) = CHR ''['' # R)"
proof -
  have "list_all (\<lambda>(name, r, R). guarded (CHR ''['') r \<and> hd R = CHR ''['' \<and> R \<noteq> []) redaction_rules"
    unfolding redaction_rules_def SECRET_PATTERNS_def LOCAL_PATH_PATTERNS_def
    by (simp add: seq_def lit_def lit_ci_def at_least_def optional_def is_letter_def upper_latin_def rooted_def is_slash_def
        in_class_def is_word_char_def is_digit_def) code_simp
  then show "rule \<in> set redaction_rules \<Longrightarrow> ?thesis"
    by (cases rule) (auto simp: list_all_iff neq_Nil_conv)
qed

lemma marked_rules:
  assumes "set rules \<subseteq> set redaction_rules" "marked (CHR ''['') s t"
  shows "marked (CHR ''['') s (fst (fold apply_rule rules (t, st)))"
  using assms
proof (induction rules arbitrary: t st)
  case (Cons rule rules)
  obtain name r R where rule: "rule = (name, r, R)" by (rule prod_cases3)
  with rules_guarded [of rule] Cons.prems(1) obtain R' where "guarded (CHR ''['') r" "R = CHR ''['' # R'" by auto
  with marked_replace [OF this(1) Cons.prems(2)] have "marked (CHR ''['') s (replace_all r R t)" by simp
  from Cons.IH [OF _ this] Cons.prems(1) show ?case by (simp add: rule)
qed simp

lemma rules_unchanged:
  assumes "set rules \<subseteq> set redaction_rules"
  shows "fst (fold apply_rule rules (s, st)) = s \<longleftrightarrow> (\<forall>(name, r, R) \<in> set rules. \<not> found r s)"
  using assms
proof (induction rules arbitrary: st)
  case (Cons rule rules)
  obtain name r R where rule: "rule = (name, r, R)" by (rule prod_cases3)
  with rules_guarded [of rule] Cons.prems obtain R' where g: "guarded (CHR ''['') r" "R = CHR ''['' # R'" by auto
  show ?case
  proof (cases "found r s")
    case True
    then have "marked (CHR ''['') s (replace_all r R s)"
      using replace_some [OF g(1), of "[]" s R'] by (simp add: found_def replace_all_def g(2))
    with marked_rules [of rules, OF _ this] Cons.prems have "fst (fold apply_rule (rule # rules) (s, st)) \<noteq> s"
      by (metis fold_simps(2) apply_rule_simp insert_subset list.simps(15) marked_differs rule)
    with True show ?thesis by (auto simp: rule)
  next
    case False
    then have "replace_all r R s = s" using replace_none [of r "[]" s] by (simp add: found_def replace_all_def)
    with Cons False show ?thesis by (simp add: rule)
  qed
qed simp

text \<open>
  Redaction leaves exactly the clean texts alone.  A text comes back unchanged if and only if
  it has no character NUL and none of the patterns of secrets and local paths matches anywhere in it.
  This is how the fabric tells whether a key or a kind may be published.
\<close>

theorem redaction_detects:
  "fst (redactString s st) = s \<longleftrightarrow>
     CHR 0x00 \<notin> set s \<and> list_all (\<lambda>(name, r). \<not> found r s) SECRET_PATTERNS
       \<and> list_all (\<lambda>r. \<not> found r s) LOCAL_PATH_PATTERNS"
proof -
  have nul: "found_after (One (\<lambda>c. c = CHR 0x00)) b s \<longleftrightarrow> CHR 0x00 \<in> set s" for b
    by (induction s arbitrary: b) auto
  have "fst (redactString s st) = s \<longleftrightarrow> (\<forall>(name, r, R) \<in> set redaction_rules. \<not> found r s)"
    using rules_unchanged [of redaction_rules s] by (simp add: redactString_def case_prod_beta)
  then show ?thesis
    unfolding redaction_rules_def by (simp add: found_def nul case_prod_beta ball_Un list_all_iff)
qed

text \<open>Texts of letters and spaces that no pattern can match, because each needs a character they do not have.\<close>

fun dead :: "string \<Rightarrow> regex \<Rightarrow> bool" where
  "dead S (One P) = list_all (\<lambda>c. \<not> P c) S"
| "dead S (Then a b) = (dead S a \<or> dead S b)"
| "dead S (Either a b) = (dead S a \<and> dead S b)"
| "dead S (Repeat greedy m n r) = (0 < m \<and> n \<noteq> Some 0 \<and> dead S r)"
| "dead S r = False"

lemma dead_ends: "dead S r \<Longrightarrow> set (snd p) \<subseteq> set S \<Longrightarrow> ends r p = []"
proof (induction r arbitrary: p)
  case (One P)
  then show ?case by (auto simp: list_all_iff split: list.split)
next
  case (Then a b)
  have "ends b q = []" if "dead S b" "q \<in> set (ends a p)" for q
  proof -
    obtain b' s' where q: "q = (b', s')" by (rule prod.exhaust)
    from that(2) have "snd p = take (length (snd p) - length s') (snd p) @ s'"
      using ends_cut(1) [of b' s' a "fst p" "snd p"] by (simp add: q)
    then have "set s' \<subseteq> set (snd p)" by (metis set_append sup_ge2)
    with Then that show ?thesis by (simp add: q)
  qed
  with Then show ?case by (cases "dead S a") auto
next
  case (Repeat greedy m n r)
  then have "ends r p = []" by simp
  with Repeat.prems show ?case by (simp add: repeat_ends.simps)
qed auto

lemma dead_not_found: "dead S r \<Longrightarrow> set s \<subseteq> set S \<Longrightarrow> \<not> found r s"
proof -
  have "dead S r \<Longrightarrow> set s \<subseteq> set S \<Longrightarrow> \<not> found_after r b s" for b
    by (induction s arbitrary: b) (simp_all add: dead_ends)
  then show "dead S r \<Longrightarrow> set s \<subseteq> set S \<Longrightarrow> ?thesis" by (simp add: found_def)
qed

definition plain_letters :: string where
  "plain_letters = ''aegimnorstuy ''"

lemma rules_dead: "list_all (\<lambda>(name, r, R). dead plain_letters r) redaction_rules"
  unfolding redaction_rules_def SECRET_PATTERNS_def LOCAL_PATH_PATTERNS_def
  by (simp add: seq_def lit_def lit_ci_def at_least_def optional_def rooted_def key_kind_def assignment_def) code_simp

lemma plain_text:
  assumes "set s \<subseteq> set plain_letters"
  shows "redactString s st = (s, st\<lparr>rd_inputBytes := rd_inputBytes st + utf8_length s, rd_outputBytes := rd_outputBytes st + utf8_length s\<rparr>)"
proof -
  have "fold apply_rule rules (s, st1) = (s, st1)" if "set rules \<subseteq> set redaction_rules" for rules st1
    using that
  proof (induction rules)
    case (Cons rule rules)
    obtain name r R where rule: "rule = (name, r, R)" by (rule prod_cases3)
    with Cons.prems rules_dead have "dead plain_letters r" by (auto simp: list_all_iff)
    with assms have "\<not> found_after r [] s" using dead_not_found by (auto simp: found_def)
    from replace_none [OF this] have "replace_all r R s = s" "count_matches r s = 0"
      by (simp_all add: replace_all_def count_matches_def is_cut_def o_def filter_map)
    with Cons show ?case by (simp add: rule note_class_def)
  qed simp
  from this [of redaction_rules] show ?thesis by (simp add: redactString_def)
qed

subsection \<open>Values\<close>

fun camel_parts :: "string \<Rightarrow> string" where
  "camel_parts (c # d # s) =
     (if (is_lower c \<or> is_digit c) \<and> is_letter d \<and> \<not> is_lower d then c # CHR ''_'' # camel_parts (d # s)
      else c # camel_parts (d # s))"
| "camel_parts s = s"

definition normalizedFieldName :: "string \<Rightarrow> string" where
  "normalizedFieldName key =
     map lower_latin (replace_all (at_least 1 (\<lambda>c. c = CHR ''-'' \<or> js_space c)) ''_'' (camel_parts key))"

definition sensitive_field :: "string \<Rightarrow> bool" where
  "sensitive_field k = (k \<in> set [''authorization'', ''authorization_header'', ''proxy_authorization'', ''proxy_authorization_header'',
     ''cookie'', ''set_cookie'', ''password'', ''passwd'', ''credential'', ''credentials'', ''private_key'', ''secret'', ''token'',
     ''api_key'', ''x_api_key'', ''client_secret'', ''refresh_token'', ''auth_token'', ''access_token'', ''aws_secret_access_key''])"

definition local_path_field :: "string \<Rightarrow> bool" where
  "local_path_field k = (k \<in> set [''cwd'', ''source_path'', ''workspace_path'', ''local_path''])"

text \<open>\<open>/^[\[{]/.test(value.trim())\<close>\<close>

definition trim :: "string \<Rightarrow> string" where
  "trim s = rev (dropWhile js_space (rev (dropWhile js_space s)))"

definition looks_like_json :: "string \<Rightarrow> bool" where
  "looks_like_json s = (case trim s of [] \<Rightarrow> False | c # _ \<Rightarrow> c \<in> set ''[{'')"

text \<open>A loop that hands a state on.\<close>

fun thread :: "('i \<Rightarrow> 's \<Rightarrow> 'o \<times> 's) \<Rightarrow> 'i list \<Rightarrow> 's \<Rightarrow> 'o list \<times> 's" where
  "thread f [] s = ([], s)"
| "thread f (i # rest) s = (case f i s of (v, s1) \<Rightarrow> case thread f rest s1 of (vs, s2) \<Rightarrow> (v # vs, s2))"

lemma thread_cong [fundef_cong]:
  "xs = ys \<Longrightarrow> s = t \<Longrightarrow> (\<And>x s. x \<in> set ys \<Longrightarrow> f x s = g x s) \<Longrightarrow> thread f xs s = thread g ys t"
  by (induction xs arbitrary: ys s t) (auto split: prod.splits)

text \<open>An assignment to \<open>__proto__\<close> makes no property.\<close>

definition set_member :: "string \<Rightarrow> json \<Rightarrow> (string \<times> json) list \<Rightarrow> (string \<times> json) list" where
  "set_member k v kvs = (if k = ''__proto__'' then kvs else AList.update k v kvs)"

definition safe_key :: "'key host \<Rightarrow> string \<Rightarrow> string \<Rightarrow> string" where
  "safe_key h childKey redactedKey =
     (if redactedKey = childKey then childKey else ''redacted_key_'' @ take 16 (drop 7 (sha256 h childKey)))"

function redactValue ::
  "'key host \<Rightarrow> (string \<Rightarrow> json option) \<Rightarrow> json \<Rightarrow> string \<Rightarrow> nat \<Rightarrow> redaction_stats \<Rightarrow> json \<times> redaction_stats" where
  "redactValue h parse value key depth st =
     (if 64 < depth then (JStr ''[REDACTED:maximum_depth]'', note_class ''maximum_redaction_depth'' 1 st)
      else let k = normalizedFieldName key in
      if sensitive_field k then
        (JStr ''[REDACTED:sensitive_field]'', if value \<noteq> JNull then note_class ''sensitive_field'' 1 st else st)
      else case value of
        JStr s \<Rightarrow>
          if local_path_field k then
            (JStr ''[REDACTED:local_path]'', note_class ''local_path'' 1
               (st\<lparr>rd_inputBytes := rd_inputBytes st + utf8_length s,
                  rd_outputBytes := rd_outputBytes st + utf8_length ''[REDACTED:local_path]''\<rparr>))
          else (case (if looks_like_json s then parse s else None) of
            Some parsed \<Rightarrow> apfst (JStr \<circ> stringify) (redactValue h parse parsed k (Suc depth) st)
          | None \<Rightarrow> apfst JStr (redactString s st))
      | JArr xs \<Rightarrow> apfst JArr (thread (\<lambda>item. redactValue h parse item [] (Suc depth)) xs st)
      | JObj kvs \<Rightarrow>
          apfst (\<lambda>members. JObj (own_order (fold (\<lambda>(k, v). set_member k v) members [])))
            (thread (\<lambda>(childKey, child) st1. case redactString childKey st1 of (redactedKey, st2) \<Rightarrow>
                 apfst (Pair (safe_key h childKey redactedKey)) (redactValue h parse child childKey (Suc depth) st2))
               (own_order kvs) st)
      | _ \<Rightarrow> (value, st))"
  by pat_completeness auto
termination by (relation "measure (\<lambda>(h, parse, value, key, depth, st). 65 - depth)") auto

declare redactValue.simps [simp del]

text \<open>What a redacted value is made of; a string may again be the text of a redacted value.\<close>

inductive redacted :: "'key host \<Rightarrow> json \<Rightarrow> bool" for h where
  marker: "m \<in> {''[REDACTED:maximum_depth]'', ''[REDACTED:sensitive_field]'', ''[REDACTED:local_path]''} \<Longrightarrow> redacted h (JStr m)"
| text_redacted: "redacted h (JStr (fst (redactString s no_stats)))"
| nested: "redacted h v \<Longrightarrow> redacted h (JStr (stringify v))"
| atom: "v \<in> {JNull} \<union> range JBool \<union> range JNum \<Longrightarrow> redacted h v"
| array: "(\<And>v. v \<in> set vs \<Longrightarrow> redacted h v) \<Longrightarrow> redacted h (JArr vs)"
| obj: "(\<And>k v. (k, v) \<in> set kvs \<Longrightarrow> redacted h v
      \<and> (sensitive_field (normalizedFieldName k) \<longrightarrow> v \<in> {JStr ''[REDACTED:sensitive_field]'', JStr ''[REDACTED:maximum_depth]''})
      \<and> (fst (redactString k no_stats) = k \<or> (\<exists>c. k = ''redacted_key_'' @ take 16 (drop 7 (sha256 h c)))))
    \<Longrightarrow> redacted h (JObj kvs)"

lemma thread_out: "v \<in> set (fst (thread f xs s)) \<Longrightarrow> \<exists>x \<in> set xs. \<exists>s'. v = fst (f x s')"
proof (induction xs arbitrary: s)
  case (Cons x xs)
  obtain v0 s1 vs s2 where f: "f x s = (v0, s1)" "thread f xs s1 = (vs, s2)" by (metis prod.exhaust)
  with Cons.prems have "v = v0 \<or> v \<in> set vs" by simp
  then show ?case
  proof
    assume "v = v0"
    with f(1) have "v = fst (f x s)" by simp
    then show ?thesis by (intro bexI [of _ x] exI [of _ s]) simp_all
  next
    assume "v \<in> set vs"
    with Cons.IH [of s1] f(2) show ?thesis by (metis fst_conv list.set_intros(2))
  qed
qed simp

lemma redact_text_only: "fst (redactString s st) = fst (redactString s st')"
proof -
  have "fst (fold apply_rule rules (s, st)) = fst (fold apply_rule rules (s, st'))" for rules s and st st' :: redaction_stats
    by (induction rules arbitrary: s st st') (simp_all add: apply_rule_def case_prod_beta)
  then show ?thesis by (simp add: redactString_def case_prod_beta)
qed

lemma at_least_one_skips:
  assumes "list_all (\<lambda>c. \<not> P c) p"
  shows "pieces (at_least 1 P) b (p @ s) = map Kept p @ pieces (at_least 1 P) (rev p @ b) s"
  using assms
proof (induction p arbitrary: b)
  case (Cons c p)
  then have "ends (at_least 1 P) (b, c # p @ s) = []" by (simp add: at_least_def repeat_ends.simps)
  then have "pieces (at_least 1 P) b (c # p @ s) = Kept c # pieces (at_least 1 P) (c # b) (p @ s)" by (subst pieces.simps) simp
  with Cons show ?case by simp
qed simp

lemma replace_skips: "list_all (\<lambda>c. \<not> P c) p \<Longrightarrow> \<exists>y. replace_all (at_least 1 P) R (p @ s) = p @ y"
  by (simp add: replace_all_def at_least_one_skips del: One_nat_def)

lemma redacted_key_plain: "\<not> sensitive_field (normalizedFieldName (''redacted_key_'' @ x))"
proof -
  have camel: "camel_parts (''redacted_key_'' @ x) = ''redacted_key_'' @ camel_parts x"
    by (cases x) (simp_all add: is_letter_def is_lower_def is_digit_def)
  let ?P = "\<lambda>c. c = CHR ''-'' \<or> js_space c"
  have "list_all (\<lambda>c. \<not> ?P c) ''redacted_key_''" by (simp add: js_space_def)
  from replace_skips [OF this] obtain y where
    "replace_all (at_least 1 ?P) ''_'' (''redacted_key_'' @ camel_parts x) = ''redacted_key_'' @ y" by blast
  then have "normalizedFieldName (''redacted_key_'' @ x) = map lower_latin ''redacted_key_'' @ map lower_latin y"
    unfolding normalizedFieldName_def camel by (metis map_append)
  then have "normalizedFieldName (''redacted_key_'' @ x) = ''redacted_key_'' @ map lower_latin y"
    by (simp add: lower_latin_def)
  then show ?thesis by (simp add: sensitive_field_def)
qed

lemma set_members: "set (fold (\<lambda>(k, v). set_member k v) members kvs) \<subseteq> set members \<union> set kvs"
proof (induction members arbitrary: kvs)
  case (Cons kv members)
  obtain k v where kv: "kv = (k, v)" by (rule prod.exhaust)
  have "set (AList.update k v xs) \<subseteq> insert (k, v) (set xs)" for xs :: "(string \<times> json) list"
    by (induction xs) auto
  then have "set (set_member k v kvs) \<subseteq> insert (k, v) (set kvs)" by (auto simp: set_member_def)
  with Cons.IH [of "set_member k v kvs"] show ?case by (auto simp: kv)
qed simp

lemma redact_value_covers: "redacted h (fst (redactValue h parse u key depth st))"
proof (induction h parse u key depth st rule: redactValue.induct)
  case (1 h parse u key depth st)
  let ?k = "normalizedFieldName key"
  note run = redactValue.simps [of h parse u key depth st, unfolded Let_def]
  have str: "redacted h (JStr (fst (redactString s st')))" for s st'
    using redacted.text_redacted [of h s] redact_text_only [of s st' no_stats] by simp
  consider "64 < depth \<or> sensitive_field ?k" | "\<not> 64 < depth" "\<not> sensitive_field ?k" by blast
  then show ?case
  proof cases
    case 1
    then show ?thesis by (auto simp: run intro: redacted.marker)
  next
    case 2
    show ?thesis
    proof (cases u)
      case (JStr s)
      show ?thesis unfolding run using 2 str "1.IH"(1) [OF 2(1) refl 2(2) JStr]
        by (auto simp: JStr intro: redacted.marker redacted.nested split: option.split)
    next
      case (JArr xs)
      with 2 have out: "fst (redactValue h parse u key depth st)
          = JArr (fst (thread (\<lambda>item. redactValue h parse item [] (Suc depth)) xs st))"
        unfolding run by (simp add: JArr)
      show ?thesis unfolding out
        by (rule redacted.array) (use thread_out "1.IH"(2) [OF 2(1) refl 2(2) JArr] in fastforce)
    next
      case (JObj kvs)
      let ?f = "\<lambda>(childKey, child) st1. case redactString childKey st1 of (redactedKey, st2) \<Rightarrow>
          apfst (Pair (safe_key h childKey redactedKey)) (redactValue h parse child childKey (Suc depth) st2)"
      let ?ms = "fst (thread ?f (own_order kvs) st)"
      from 2 have out: "fst (redactValue h parse u key depth st) = JObj (own_order (fold (\<lambda>(k, v). set_member k v) ?ms []))"
        unfolding run by (simp add: JObj)
      show ?thesis unfolding out
      proof (rule redacted.obj)
        fix k v assume "(k, v) \<in> set (own_order (fold (\<lambda>(k, v). set_member k v) ?ms []))"
        with set_members [of ?ms "[]"] have "(k, v) \<in> set ?ms" by auto
        from thread_out [OF this] obtain c w st1 where m: "(c, w) \<in> set kvs" "(k, v) = fst (?f (c, w) st1)" by auto
        obtain rk st2 where rk: "redactString c st1 = (rk, st2)" by (rule prod.exhaust)
        with m(2) have kv: "k = safe_key h c rk" "v = fst (redactValue h parse w c (Suc depth) st2)" by simp_all
        have "redacted h v" unfolding kv(2)
          using "1.IH"(3) [OF 2(1) refl 2(2) JObj _ refl rk [symmetric]] m(1) by simp
        moreover have "k = c \<and> fst (redactString k no_stats) = k \<or> k = ''redacted_key_'' @ take 16 (drop 7 (sha256 h c))"
          using rk redact_text_only [of c no_stats st1] by (simp add: kv(1) safe_key_def)
        moreover have "v \<in> {JStr ''[REDACTED:sensitive_field]'', JStr ''[REDACTED:maximum_depth]''}"
          if "sensitive_field (normalizedFieldName c)"
          using that by (simp add: kv(2) redactValue.simps [of h parse w])
        ultimately show "redacted h v
          \<and> (sensitive_field (normalizedFieldName k) \<longrightarrow> v \<in> {JStr ''[REDACTED:sensitive_field]'', JStr ''[REDACTED:maximum_depth]''})
          \<and> (fst (redactString k no_stats) = k \<or> (\<exists>c. k = ''redacted_key_'' @ take 16 (drop 7 (sha256 h c))))"
          using redacted_key_plain by metis
      qed
    qed (unfold run, use 2 in \<open>auto intro!: redacted.atom\<close>)
  qed
qed

text \<open>
  C25. No secret field survives redaction.  At every depth of a redacted value, strings encoded
  as JSON included, a member whose normalized name is that of a credential has the fixed marker as its
  value, every other string has gone through all patterns, and every member name either is free of
  matches itself or has been replaced by a digest.
\<close>

theorem redaction_covers_value: "redacted h (fst (redactValue h parse u key depth st))"
  by (rule redact_value_covers)

subsection \<open>Paths that must not leave the device\<close>

datatype reduction_error =
    PatternInvalid | PathDepthExceeded | PolicyFailed policy_error | ProvenanceTimeInvalid | ProvenanceInvalid | SkillNotAllowed
  | SkillIdInvalid | SkillWindowInvalid | SkillNotVerified | TimestampInvalid | CapsuleRevisionInvalid | FirstRevisionHasPrevious
  | PreviousHashRequired | CapsuleTooLarge

text \<open>\<open>some\<close> stops at the first member that is true or throws.\<close>

fun any_true :: "('a \<Rightarrow> ('e, bool) result) \<Rightarrow> 'a list \<Rightarrow> ('e, bool) result" where
  "any_true f [] = Inr False"
| "any_true f (a # rest) = (case f a of Inl e \<Rightarrow> Inl e | Inr True \<Rightarrow> Inr True | Inr False \<Rightarrow> any_true f rest)"

lemma any_true_cong [fundef_cong]: "xs = ys \<Longrightarrow> (\<And>x. x \<in> set ys \<Longrightarrow> f x = g x) \<Longrightarrow> any_true f xs = any_true g ys"
  by (induction xs arbitrary: ys) (auto split: sum.splits bool.splits)

lemma any_true_ok: "any_true f xs = Inr b \<Longrightarrow> (if b then \<exists>x \<in> set xs. f x = Inr True else \<forall>x \<in> set xs. f x = Inr False)"
  by (induction xs) (auto split: sum.splits bool.splits if_splits)

function containsDisallowedLocalPath ::
  "(string \<Rightarrow> json option) \<Rightarrow> json \<Rightarrow> nat \<Rightarrow> (reduction_error, bool) result" where
  "containsDisallowedLocalPath parse v depth =
     (if 64 < depth then Inl PathDepthExceeded
      else case v of
        JStr s \<Rightarrow>
          (case (if looks_like_json s then parse (trim s) else None) of
             None \<Rightarrow> Inr (found FORBIDDEN_LOCAL_PATH s)
           | Some parsed \<Rightarrow>
               (case containsDisallowedLocalPath parse parsed (Suc depth) of
                  Inr False \<Rightarrow> Inr (found FORBIDDEN_LOCAL_PATH s) | r \<Rightarrow> r))
      | JArr xs \<Rightarrow> any_true (\<lambda>item. containsDisallowedLocalPath parse item (Suc depth)) xs
      | JObj kvs \<Rightarrow> any_true (\<lambda>(_, item). containsDisallowedLocalPath parse item (Suc depth)) (own_order kvs)
      | _ \<Rightarrow> Inr False)"
  by pat_completeness auto
termination by (relation "measure (\<lambda>(parse, v, depth). 65 - depth)") auto

declare containsDisallowedLocalPath.simps [simp del]

text \<open>The translation of a glob: sequences of stars are replaced one kind after the other, the escaped
  characters stand for themselves, and a question mark stays an operator of the expression.\<close>

datatype glob_token = Chr char | AnyDirs | AnyPath | AnyName

fun dirs_pass :: "glob_token list \<Rightarrow> glob_token list" where
  "dirs_pass (a # b # c # ts) =
     (if a = Chr (CHR ''*'') \<and> b = Chr (CHR ''*'') \<and> c = Chr (CHR ''/'') then AnyDirs # dirs_pass ts else a # dirs_pass (b # c # ts))"
| "dirs_pass ts = ts"

fun path_pass :: "glob_token list \<Rightarrow> glob_token list" where
  "path_pass (a # b # ts) =
     (if a = Chr (CHR ''*'') \<and> b = Chr (CHR ''*'') then AnyPath # path_pass ts else a # path_pass (b # ts))"
| "path_pass ts = ts"

definition glob_tokens :: "string \<Rightarrow> glob_token list" where
  "glob_tokens s = map (\<lambda>t. if t = Chr (CHR ''*'') then AnyName else if t = Chr (CHR 0x01) then AnyDirs
      else if t = Chr (CHR 0x00) then AnyPath else t) (path_pass (dirs_pass (map Chr s)))"

definition dot :: "char \<Rightarrow> bool" where
  "dot c = ((of_char c :: nat) \<notin> {10, 13})"

fun make_lazy :: "regex \<Rightarrow> regex" where
  "make_lazy (Repeat greedy m n r) = Repeat False m n r"
| "make_lazy r = r"

text \<open>Atoms with the number of quantifiers they carry; a third one is a syntax error.\<close>

fun glob_atoms :: "glob_token list \<Rightarrow> (regex \<times> nat) \<Rightarrow> regex option" where
  "glob_atoms [] q = Some (fst q)"
| "glob_atoms (t # ts) q =
     (if t = Chr (CHR ''?'') then
        (if snd q = 0 then glob_atoms ts (optional (fst q), 1)
         else if snd q = 1 then glob_atoms ts (make_lazy (fst q), 2) else None)
      else map_option (Then (fst q)) (glob_atoms ts
        (case t of Chr c \<Rightarrow> (lit_ci [c], 0)
         | AnyDirs \<Rightarrow> (optional (seq [at_least 0 dot, lit ''/'']), 1)
         | AnyPath \<Rightarrow> (at_least 0 dot, 1)
         | AnyName \<Rightarrow> (at_least 0 (\<lambda>c. c \<noteq> CHR ''/''), 1))))"

definition forward_slashes :: "string \<Rightarrow> string" where
  "forward_slashes s = map (\<lambda>c. if c = CHR 0x5C then CHR ''/'' else c) s"

definition strip_dot_slash :: "string \<Rightarrow> string" where
  "strip_dot_slash s = (if starts_with s ''./'' then drop 2 s else s)"

definition globPattern :: "string \<Rightarrow> regex option" where
  "globPattern pattern = map_option (\<lambda>r. Then r AtEnd)
     (glob_atoms (glob_tokens (strip_dot_slash (forward_slashes pattern))) (any_of [AtStart, lit ''/''], 0))"

definition excluded_by :: "string list \<Rightarrow> string \<Rightarrow> (reduction_error, bool) result" where
  "excluded_by excludePaths s =
     any_true (\<lambda>p. case globPattern p of None \<Rightarrow> Inl PatternInvalid | Some r \<Rightarrow> Inr (found r s)) excludePaths"

text \<open>Quoted parts and words of a text; an empty quotation does not match as one.\<close>

definition quoted :: "char \<Rightarrow> string \<Rightarrow> (string \<times> string) option" where
  "quoted q s = (case s of [] \<Rightarrow> None | c # rest \<Rightarrow>
     let inner = takeWhile (\<lambda>d. d \<noteq> q) rest; after = dropWhile (\<lambda>d. d \<noteq> q) rest in
     if c = q \<and> inner \<noteq> [] \<and> after \<noteq> [] then Some (inner, tl after) else None)"

definition bare_char :: "char \<Rightarrow> bool" where
  "bare_char c = (\<not> js_space c \<and> c \<notin> set ''=,:;()[]{}'')"

definition candidate :: "string \<Rightarrow> (string \<times> string) option" where
  "candidate s = (case quoted (CHR 0x22) s of Some p \<Rightarrow> Some p | None \<Rightarrow>
     (case quoted (CHR 0x27) s of Some p \<Rightarrow> Some p | None \<Rightarrow>
     (case quoted (CHR 0x60) s of Some p \<Rightarrow> Some p | None \<Rightarrow>
      if takeWhile bare_char s \<noteq> [] then Some (takeWhile bare_char s, dropWhile bare_char s) else None)))"

lemma candidate_shorter: "candidate s = Some (c, rest) \<Longrightarrow> length rest < length s"
proof -
  have quoted: "quoted q s = Some (c, rest) \<Longrightarrow> length rest < length s" for q
    using length_dropWhile_le [of "\<lambda>d. d \<noteq> q" "tl s"] by (auto simp: quoted_def Let_def split: list.splits if_splits)
  have "takeWhile bare_char s \<noteq> [] \<Longrightarrow> length (dropWhile bare_char s) < length s"
    using length_dropWhile_le [of bare_char "tl s"] by (cases s) (auto split: if_splits)
  with quoted show "candidate s = Some (c, rest) \<Longrightarrow> ?thesis"
    by (auto simp: candidate_def split: option.splits if_splits)
qed

function candidates :: "string \<Rightarrow> string list" where
  "candidates s = (case candidate s of Some (c, rest) \<Rightarrow> c # candidates rest
     | None \<Rightarrow> (case s of [] \<Rightarrow> [] | _ # rest \<Rightarrow> candidates rest))"
  by pat_completeness auto
termination by (relation "measure length") (auto simp: candidate_shorter)

declare candidates.simps [simp del]

text \<open>A word between underscores is one of the parts of the normalized name.\<close>

definition path_bearing :: "string \<Rightarrow> bool" where
  "path_bearing k = list_ex (\<lambda>w. w \<in> set [''path'', ''file'', ''filename'', ''source'', ''cwd'']) (split_on (CHR ''_'') k)"

definition payload_bearing :: "string \<Rightarrow> bool" where
  "payload_bearing k = list_ex (\<lambda>w. w \<in> set [''argument'', ''arguments'', ''args'', ''command'', ''cmd'', ''input'', ''payload'', ''body'',
     ''data'', ''message'', ''content'']) (split_on (CHR ''_'') k)"

definition strip_leading_slashes :: "string \<Rightarrow> string" where
  "strip_leading_slashes s = (let t = (case s of c # rest \<Rightarrow> if c = CHR ''.'' then rest else s | [] \<Rightarrow> []) in
     if starts_with t ''/'' then dropWhile (\<lambda>c. c = CHR ''/'') t else s)"

definition string_excluded :: "string list \<Rightarrow> string \<Rightarrow> string \<Rightarrow> (reduction_error, bool) result" where
  "string_excluded excludePaths key s =
     (let k = normalizedFieldName key; normalized = forward_slashes s in
      if path_bearing k \<or> payload_bearing k
      then any_true (\<lambda>c. excluded_by excludePaths (strip_dot_slash c))
        ((if path_bearing k then [trim normalized] else []) @ candidates normalized)
      else Inr False)"

function referencesExcludedPath ::
  "(string \<Rightarrow> json option) \<Rightarrow> string list \<Rightarrow> json \<Rightarrow> string \<Rightarrow> nat \<Rightarrow> (reduction_error, bool) result" where
  "referencesExcludedPath parse excludePaths v key depth =
     (if 64 < depth then Inr True
      else case v of
        JStr s \<Rightarrow>
          (case (if looks_like_json s then parse s else None) of
             None \<Rightarrow> string_excluded excludePaths key s
           | Some parsed \<Rightarrow>
               (case referencesExcludedPath parse excludePaths parsed ''arguments'' (Suc depth) of
                  Inr False \<Rightarrow> string_excluded excludePaths key s | r \<Rightarrow> r))
      | JArr xs \<Rightarrow> any_true (\<lambda>item. referencesExcludedPath parse excludePaths item key (Suc depth)) xs
      | JObj kvs \<Rightarrow> any_true (\<lambda>(childKey, child).
            case excluded_by excludePaths (strip_leading_slashes (forward_slashes childKey)) of
              Inr False \<Rightarrow> referencesExcludedPath parse excludePaths child childKey (Suc depth) | r \<Rightarrow> r) (own_order kvs)
      | _ \<Rightarrow> Inr False)"
  by pat_completeness auto
termination by (relation "measure (\<lambda>(parse, excludePaths, v, key, depth). 65 - depth)") auto

declare referencesExcludedPath.simps [simp del]

end
