(* ===== verification/Capsule_Build.thy ===== *)
theory Capsule_Build
  imports Redaction Vault_Blobs "HOL-Library.Char_ord" "HOL-Library.List_Lexorder"
begin

text \<open>
  The trajectory capsule that is built from a provider session, in
  packages/evidence-reduction/src/index.ts: kinds and sizes of the records, the local analysis, the
  events under the disclosure mode of the policy, the receipt, and the reduction to the size limit.
\<close>

subsection \<open>Sessions\<close>

record source_record =
  sr_native :: "(string \<times> json) list"
  sr_sourcePath :: string
  sr_line :: int
  sr_timestamp :: "string option"
  sr_kind :: string

record provider_session =
  se_provider :: string
  se_sessionId :: string
  se_records :: "source_record list"
  se_coverage :: string
  se_startedAt :: string
  se_endedAt :: string

text \<open>\<open>String(a ?? b ?? missing)\<close>\<close>

definition first_given :: "(string \<times> json) list \<Rightarrow> string list \<Rightarrow> string \<Rightarrow> string" where
  "first_given native names missing =
     (case filter (\<lambda>v. v \<notin> {None, Some JNull}) (map (map_of native) names) of Some v # _ \<Rightarrow> js_string v | _ \<Rightarrow> missing)"

definition safeKind :: "string \<Rightarrow> string" where
  "safeKind k =
     (if k \<noteq> [] \<and> length k \<le> 80 \<and> list_all (in_class ''_.:-'') k
         \<and> fst (redactString k no_stats) = k
      then k else ''unknown'')"

definition safeSourceKind :: "source_record \<Rightarrow> string" where
  "safeSourceKind r = safeKind (first_given (sr_native r) [''type'', ''kind''] ''unknown'')"

definition error_words :: "string list \<Rightarrow> regex" where
  "error_words words = any_of (map lit_ci words)"

definition REDUCED_EVENT_KINDS :: "string list" where
  "REDUCED_EVENT_KINDS = [''user_message'', ''agent_message'', ''tool_call'', ''tool_result'', ''command'', ''file_read'', ''file_write'',
     ''git'', ''validation'', ''permission'', ''subagent'', ''error'', ''retry'', ''session_state'', ''metadata'', ''collapsed_output'']"

definition normalizedReducedEventKind :: "string \<Rightarrow> string" where
  "normalizedReducedEventKind value =
     (let kind = safeKind value in
      if kind \<in> set REDUCED_EVENT_KINDS then kind
      else if found (error_words [''error'', ''fail'', ''exception'', ''timeout'', ''cancel'']) kind then ''error''
      else if found (lit_ci ''retry'') kind then ''retry''
      else ''metadata'')"

definition isErrorRecord :: "source_record \<Rightarrow> bool" where
  "isErrorRecord r =
     (let words = [''error'', ''failed'', ''failure'', ''exception'', ''timeout'', ''cancelled'']; native = sr_native r in
      found (error_words words) (sr_kind r)
      \<or> map_of native ''is_error'' = Some (JBool True)
      \<or> found (error_words (words @ [''max_turns'']))
          (first_given native [''type'', ''kind''] [] @ '' '' @ first_given native [''status'', ''outcome''] [] @ '' ''
            @ first_given native [''subtype'', ''stop_reason''] []))"

text \<open>The bytes of \<open>JSON.stringify\<close>, counted with a stack; the marks \<open>Leave\<close> only serve the check for
  cycles, which values of \<open>JSON.parse\<close> do not have.\<close>

datatype pending = Visit json | Leave

fun pending_weight :: "pending \<Rightarrow> nat" where
  "pending_weight (Visit v) = Suc (2 * size v)"
| "pending_weight Leave = 1"

lemma weight_list: "sum_list (map (pending_weight \<circ> Visit) xs) \<le> 2 * size_list size xs"
  by (induction xs) simp_all

lemma weight_members: "sum_list (map (pending_weight \<circ> (Visit \<circ> snd)) kvs) \<le> 2 * size_list (size_prod (\<lambda>_. 0) size) kvs"
  by (induction kvs) (auto simp: size_prod_simp)

lemma weight_own_order:
  "sum_list (map (pending_weight \<circ> (Visit \<circ> snd)) (own_order kvs)) = sum_list (map (pending_weight \<circ> (Visit \<circ> snd)) kvs)"
  by (metis mset_map mset_own_order sum_mset_sum_list)

function count_bytes :: "pending list \<Rightarrow> nat \<Rightarrow> nat" where
  "count_bytes [] bytes = bytes"
| "count_bytes (Leave # rest) bytes = count_bytes rest bytes"
| "count_bytes (Visit v # rest) bytes = (case v of
       JNull \<Rightarrow> count_bytes rest (bytes + 4)
     | JStr s \<Rightarrow> count_bytes rest (bytes + utf8_length (quote_json s))
     | JBool b \<Rightarrow> count_bytes rest (bytes + (if b then 4 else 5))
     | JNum i \<Rightarrow> count_bytes rest (bytes + utf8_length (int_string i))
     | JArr xs \<Rightarrow> count_bytes (map Visit xs @ Leave # rest) (bytes + (2 + (length xs - 1)))
     | JObj kvs \<Rightarrow> count_bytes (map (Visit \<circ> snd) (own_order kvs) @ Leave # rest)
         (bytes + (2 + (length kvs - 1)) + sum_list (map (\<lambda>(k, _). utf8_length (quote_json k) + 1) (own_order kvs))))"
  by pat_completeness auto
termination
proof (relation "measure (\<lambda>(pending, bytes). sum_list (map pending_weight pending))", goal_cases)
  case (7 v rest bytes xs)
  then show ?case using weight_list [of xs] by simp
next
  case (8 v rest bytes kvs)
  then show ?case using weight_members [of kvs] weight_own_order [of kvs] by (simp add: o_assoc)
qed simp_all

definition nativeRecordBytes :: "source_record \<Rightarrow> nat" where
  "nativeRecordBytes r = count_bytes [Visit (JObj (sr_native r))] 0"

subsection \<open>Sizes of printed values\<close>

fun json_bytes :: "json \<Rightarrow> nat" where
  "json_bytes JNull = 4"
| "json_bytes (JBool b) = (if b then 4 else 5)"
| "json_bytes (JNum i) = utf8_length (int_string i)"
| "json_bytes (JStr s) = utf8_length (quote_json s)"
| "json_bytes (JArr xs) = 2 + (length xs - 1) + sum_list (map json_bytes xs)"
| "json_bytes (JObj kvs) = 2 + (length kvs - 1) + sum_list (map (\<lambda>(k, v). utf8_length (quote_json k) + 1 + json_bytes v) kvs)"

lemma utf8_length_simps [simp]:
  "utf8_length [] = 0" "utf8_length (c # s) = (if of_char c < (128 :: nat) then 1 else 2) + utf8_length s"
  "utf8_length (s @ t) = utf8_length s + utf8_length t"
  by (simp_all add: utf8_length_def)

lemma utf8_join: "utf8_length (join_with '','' xs) = sum_list (map utf8_length xs) + (length xs - 1)"
  by (induction "'',''" xs rule: join_with.induct) auto

lemma stringify_bytes: "utf8_length (stringify v) = json_bytes v"
proof (induction v)
  case (JArr xs)
  then have "map (utf8_length \<circ> stringify) xs = map json_bytes xs" by simp
  then have "sum_list (map (utf8_length \<circ> stringify) xs) = sum_list (map json_bytes xs)" by metis
  then show ?case by (simp add: utf8_join)
next
  case (JObj kvs)
  then have "map (utf8_length \<circ> (\<lambda>(k, v). quote_json k @ '':'' @ stringify v)) kvs
      = map (\<lambda>(k, v). utf8_length (quote_json k) + 1 + json_bytes v) kvs" by (auto simp: snds.simps)
  from arg_cong [OF this, of sum_list] show ?case by (simp add: utf8_join)
qed simp_all

lemma sum_list_mset: "mset xs = mset ys \<Longrightarrow> sum_list (map f xs) = (sum_list (map f ys) :: nat)"
  by (metis mset_map sum_mset_sum_list)

lemmas sum_list_own_order = sum_list_mset [OF mset_own_order]

lemma count_bytes_sum:
  "count_bytes pending bytes = bytes + sum_list (map (\<lambda>p. case p of Visit v \<Rightarrow> json_bytes v | Leave \<Rightarrow> 0) pending)"
proof (induction pending bytes rule: count_bytes.induct)
  case (3 v rest bytes)
  show ?case
  proof (cases v)
    case (JObj kvs)
    have members: "sum_list (map (\<lambda>(k, _). utf8_length (quote_json k) + 1) xs) + sum_list (map (\<lambda>kv. json_bytes (snd kv)) xs)
        = sum_list (map (\<lambda>(k, v). utf8_length (quote_json k) + 1 + json_bytes v) xs)" for xs
      by (induction xs) (auto simp: add_ac)
    from members [of "own_order kvs"] have sums: "sum_list (map (\<lambda>(k, _). utf8_length (quote_json k) + 1) (own_order kvs))
        + sum_list (map (\<lambda>kv. json_bytes (snd kv)) (own_order kvs))
        = sum_list (map (\<lambda>(k, v). utf8_length (quote_json k) + 1 + json_bytes v) kvs)" by (simp only: sum_list_own_order)
    have "count_bytes (Visit v # rest) bytes = bytes + (2 + (length kvs - 1))
        + sum_list (map (\<lambda>(k, _). utf8_length (quote_json k) + 1) (own_order kvs))
        + (sum_list (map (\<lambda>kv. json_bytes (snd kv)) (own_order kvs)) + sum_list (map (\<lambda>p. case p of Visit v \<Rightarrow> json_bytes v | Leave \<Rightarrow> 0) rest))"
      unfolding count_bytes.simps JObj json.case "3.IH"(6) [OF JObj] by (simp add: o_def)
    also have "\<dots> = bytes + json_bytes v + sum_list (map (\<lambda>p. case p of Visit v \<Rightarrow> json_bytes v | Leave \<Rightarrow> 0) rest)"
      unfolding JObj json_bytes.simps sums [symmetric] by (simp only: ac_simps)
    finally show ?thesis by simp
  next
    case (JArr xs)
    from "3.IH"(5) [OF JArr] show ?thesis by (simp add: JArr o_def)
  next
    case JNull
    from "3.IH"(1) [OF JNull] show ?thesis by (simp add: JNull)
  next
    case (JStr s)
    from "3.IH"(4) [OF JStr] show ?thesis by (simp add: JStr)
  next
    case (JBool b)
    from "3.IH"(2) [OF JBool] show ?thesis by (simp add: JBool)
  next
    case (JNum i)
    from "3.IH"(3) [OF JNum] show ?thesis by (simp add: JNum)
  qed
qed simp_all

text \<open>
  C26. The size that a capsule reports of a record is the size of its JSON text.  The counting
  with a stack gives the number of bytes that \<open>JSON.stringify\<close> would print, without printing it.
\<close>

theorem record_bytes_exact: "nativeRecordBytes r = utf8_length (stringify (JObj (sr_native r)))"
  unfolding stringify_bytes nativeRecordBytes_def count_bytes_sum by (simp del: json_bytes.simps)

text \<open>Sorting the members changes no size.\<close>

lemma json_bytes_obj_mset:
  assumes "mset kvs = mset kvs'"
  shows "json_bytes (JObj kvs) = json_bytes (JObj kvs')"
  unfolding json_bytes.simps mset_eq_length [OF assms]
  by (rule arg_cong [OF sum_list_mset [OF assms]])

lemma canonical_bytes: "json_bytes (canonicalValue le v) = json_bytes v"
proof (induction v)
  case (JArr xs)
  then have "map (json_bytes \<circ> canonicalValue le) xs = map json_bytes xs" by simp
  then have "sum_list (map (json_bytes \<circ> canonicalValue le) xs) = sum_list (map json_bytes xs)" by metis
  then show ?case by simp
next
  case (JObj kvs)
  have "json_bytes (canonicalValue le (JObj kvs)) = json_bytes (JObj (map (\<lambda>(k, v). (k, canonicalValue le v)) kvs))"
    unfolding canonicalValue.simps by (rule json_bytes_obj_mset) (simp add: mset_own_order)
  also have "\<dots> = json_bytes (JObj kvs)"
  proof -
    from JObj have "map ((\<lambda>(k, v). utf8_length (quote_json k) + 1 + json_bytes v) \<circ> (\<lambda>(k, v). (k, canonicalValue le v))) kvs
        = map (\<lambda>(k, v). utf8_length (quote_json k) + 1 + json_bytes v) kvs" by (auto simp: snds.simps)
    from arg_cong [OF this, of sum_list] show ?thesis by simp
  qed
  finally show ?case .
qed simp_all

lemma canonicalize_bytes: "utf8_length (canonicalize le v) = json_bytes v"
  by (simp add: canonicalize_def stringify_bytes canonical_bytes)

subsection \<open>Classes of content that is left out\<close>

definition key_classes :: "string \<Rightarrow> string set" where
  "key_classes key =
     (let k = map (\<lambda>c. if c = CHR ''-'' then CHR ''_'' else c) (map lower_latin key);
          has = (\<lambda>ws. found (any_of (map lit ws)) k);
          spanning = (\<lambda>a b. seq [lit a, at_least 0 dot, lit b]) in
      (if has [''instruction'', ''system_prompt'', ''developer_message''] then {''instruction_text''} else {})
      \<union> (if found (any_of [spanning ''tool'' ''schema'', lit ''input_schema'']) k then {''tool_schema''} else {})
      \<union> (if found (any_of [spanning ''tool'' ''input'', lit ''arguments'', lit ''params'']) k then {''tool_input''} else {})
      \<union> (if found (any_of [spanning ''tool'' ''result'', spanning ''tool'' ''output'']) k then {''tool_output''} else {})
      \<union> (if has [''token_usage'', ''tokens'', ''usage_metadata''] then {''token_metadata''} else {})
      \<union> (if has [''rate_limit'', ''ratelimit''] then {''rate_limit_metadata''} else {})
      \<union> (if has [''encrypted_content'', ''reasoning''] then {''encrypted_reasoning''} else {})
      \<union> (if has [''cwd'', ''path'', ''workspace_root''] then {''local_path''} else {})
      \<union> (if has [''model'', ''approval_policy'', ''sandbox'', ''collaboration'', ''configuration'', ''config'']
         then {''execution_configuration''} else {}))"

text \<open>The members are visited with a stack; their classes are collected in a set.\<close>

function content_classes :: "json \<Rightarrow> string \<Rightarrow> nat \<Rightarrow> string set" where
  "content_classes v key depth =
     (if 64 < depth then {}
      else key_classes key \<union> (case v of
          JArr xs \<Rightarrow> \<Union>(set (map (\<lambda>x. content_classes x [] (Suc depth)) xs))
        | JObj kvs \<Rightarrow> \<Union>(set (map (\<lambda>(k, x). content_classes x k (Suc depth)) kvs))
        | _ \<Rightarrow> {}))"
  by pat_completeness auto
termination by (relation "measure (\<lambda>(v, key, depth). 65 - depth)") auto

declare content_classes.simps [simp del]

definition excludedContentClasses :: "source_record \<Rightarrow> string set" where
  "excludedContentClasses r =
     {''native_provider_payload''}
     \<union> (case map_of [(''user_message'', ''prompt_text''), (''agent_message'', ''response_text''), (''tool_call'', ''tool_input''),
           (''tool_result'', ''tool_output'')] (sr_kind r) of None \<Rightarrow> {} | Some c \<Rightarrow> {c})
     \<union> content_classes (JObj (sr_native r)) [] 0"

subsection \<open>Local analysis\<close>

record analysis =
  an_eventKinds :: "(string \<times> nat) list"
  an_total :: nat
  an_maximum :: nat
  an_calls :: nat
  an_results :: nat
  an_errors :: nat

definition analyse_record :: "source_record \<Rightarrow> analysis \<Rightarrow> analysis" where
  "analyse_record r a =
     (let kind = normalizedReducedEventKind (sr_kind r); bytes = nativeRecordBytes r in
      \<lparr>an_eventKinds = AList.update kind (Suc (case map_of (an_eventKinds a) kind of None \<Rightarrow> 0 | Some n \<Rightarrow> n)) (an_eventKinds a),
       an_total = an_total a + bytes,
       an_maximum = max (an_maximum a) bytes,
       an_calls = an_calls a
         + (if sr_kind r = ''tool_call'' \<or> found (seq [lit_ci ''tool'', at_least 0 dot, lit_ci ''call'']) kind then 1 else 0),
       an_results = an_results a
         + (if sr_kind r = ''tool_result''
               \<or> found (seq [lit_ci ''tool'', at_least 0 dot, any_of [lit_ci ''result'', lit_ci ''output'']]) kind then 1 else 0),
       an_errors = an_errors a + (if isErrorRecord r then 1 else 0)\<rparr>)"

definition nat_json :: "nat \<Rightarrow> json" where
  "nat_json n = JNum (int n)"

definition buildLocalAnalysis :: "'key host \<Rightarrow> provider_session \<Rightarrow> json" where
  "buildLocalAnalysis h session =
     (let a = fold analyse_record (se_records session)
            \<lparr>an_eventKinds = [], an_total = 0, an_maximum = 0, an_calls = 0, an_results = 0, an_errors = 0\<rparr>;
          unmatchedCalls = an_calls a - an_results a; orphanResults = an_results a - an_calls a;
          incomplete = (se_coverage session \<noteq> ''observed'');
          reasonCodes = (if 0 < an_errors a then [''runtime_failure_signal''] else [])
            @ (if 0 < unmatchedCalls then [''tool_call_without_result''] else [])
            @ (if 0 < orphanResults then [''tool_result_without_call''] else [])
            @ (if incomplete then [''partial_evidence''] else []) in
      JObj [(''schema'', JStr ''dharma.local-trajectory-analysis/v1''), (''analyzer'', JStr ''deterministic''),
        (''recordCount'', nat_json (length (se_records session))),
        (''recordBytes'', JObj [(''total'', nat_json (an_total a)), (''maximum'', nat_json (an_maximum a))]),
        (''eventKinds'', JObj (map (\<lambda>(k, n). (k, nat_json n)) (an_eventKinds a))),
        (''toolDiscipline'', JObj [(''calls'', nat_json (an_calls a)), (''results'', nat_json (an_results a)),
           (''unmatchedCalls'', nat_json unmatchedCalls), (''orphanResults'', nat_json orphanResults)]),
        (''outcomeSignals'', JObj [(''errorRecords'', nat_json (an_errors a)), (''incomplete'', JBool incomplete),
           (''coverage'', JStr (se_coverage session))]),
        (''durationMs'', (case num_sub (dateParse h (se_endedAt session)) (dateParse h (se_startedAt session)) of
           None \<Rightarrow> JNull | Some d \<Rightarrow> JNum (max 0 d))),
        (''semanticReviewRecommended'', JBool (reasonCodes \<noteq> [])),
        (''reasonCodes'', str_array reasonCodes)])"

subsection \<open>The request\<close>

record provenance =
  pv_sourceClass :: string
  pv_collectedAt :: string
  pv_taskReceiptHash :: "string option"

record capsule_request =
  cr_organizationId :: string
  cr_deviceId :: string
  cr_workspaceId :: string
  cr_session :: provider_session
  cr_policy :: nat
  cr_rawContentId :: string
  cr_rawBytes :: int
  cr_rawKind :: "string option"
  cr_createdAt :: "string option"
  cr_revision :: "int option"
  cr_previousRevisionHash :: "string option"
  cr_activeSkillBundleId :: "string option"
  cr_activatedAt :: "string option"
  cr_expiresAt :: "string option"
  cr_verifiedAt :: "string option"
  cr_taskId :: "string option"
  cr_captureProvenance :: "provenance option"

definition given :: "'a \<Rightarrow> 'a option \<Rightarrow> 'a" where
  "given d v = (case v of None \<Rightarrow> d | Some x \<Rightarrow> x)"

definition createdAt_of :: "capsule_request \<Rightarrow> string" where
  "createdAt_of i = given (se_endedAt (cr_session i)) (cr_createdAt i)"

definition provenance_of :: "capsule_request \<Rightarrow> provenance" where
  "provenance_of i = given \<lparr>pv_sourceClass = ''provider_discovery'', pv_collectedAt = createdAt_of i, pv_taskReceiptHash = None\<rparr>
     (cr_captureProvenance i)"

definition signed_capture :: "capsule_request \<Rightarrow> bool" where
  "signed_capture i = (pv_sourceClass (provenance_of i) = ''signed_task_execution'')"

definition provenance_ok :: "capsule_request \<Rightarrow> bool" where
  "provenance_ok i =
     (let s = signed_capture i; receipt = pv_taskReceiptHash (provenance_of i) in
      s = (cr_taskId i \<notin> {None, Some []})
      \<and> (s \<longrightarrow> is_uuid_text (given [] (cr_taskId i)) \<and> is_digest (map lower_ascii (given [] receipt)))
      \<and> (\<not> s \<longrightarrow> receipt = None))"

text \<open>A UUID of version 1 to 5.\<close>

definition skill_bundle_id :: "string \<Rightarrow> bool" where
  "skill_bundle_id s = (provider_offer_id s \<and> s ! 14 \<in> set ''12345'')"

definition skill_error :: "'key host \<Rightarrow> capsule_request \<Rightarrow> reduction_error option" where
  "skill_error h i =
     (case cr_activeSkillBundleId i of None \<Rightarrow> None | Some bundle \<Rightarrow>
        let at = (\<lambda>v. case v of None \<Rightarrow> None | Some t \<Rightarrow> dateParse h t);
            activatedAt = at (cr_activatedAt i); expiresAt = at (cr_expiresAt i); verifiedAt = at (cr_verifiedAt i) in
        if \<not> signed_capture i then Some SkillNotAllowed
        else if \<not> skill_bundle_id bundle then Some SkillIdInvalid
        else if \<not> is_finite activatedAt \<or> cr_expiresAt i \<noteq> None \<and> \<not> is_finite expiresAt then Some SkillWindowInvalid
        else if \<not> is_finite verifiedAt \<or> num_lt verifiedAt activatedAt
          \<or> cr_expiresAt i \<noteq> None \<and> num_le expiresAt verifiedAt then Some SkillNotVerified
        else None)"

definition disclosureMode :: "org_policy \<Rightarrow> disclosure_mode" where
  "disclosureMode p = (case ev_automaticDisclosure (op_evidence p) of None \<Rightarrow> LocalAnalysis | Some d \<Rightarrow> ad_mode d)"

subsection \<open>Events\<close>

definition hex_value :: "char \<Rightarrow> nat" where
  "hex_value c = (if is_digit c then of_char c - 48 else of_char c - 87)"

text \<open>The first sixteen bytes of the digest, as a UUID of version 5.\<close>

definition deterministicUuid :: "'key host \<Rightarrow> string \<Rightarrow> string" where
  "deterministicUuid h v =
     (let d = sha256Hex h v;
          hx = take 12 d @ ''5'' @ take 3 (drop 13 d) @ map (\<lambda>c. hex_char (hex_value c mod 4 + 8)) (take 1 (drop 16 d))
            @ take 15 (drop 17 d) in
      take 8 hx @ ''-'' @ take 4 (drop 8 hx) @ ''-'' @ take 4 (drop 12 hx) @ ''-'' @ take 4 (drop 16 hx) @ ''-'' @ drop 20 hx)"

record agent_event =
  ae_eventId :: string
  ae_sequence :: nat
  ae_occurredAt :: string
  ae_kind :: string
  ae_payload :: "(string \<times> json) list"
  ae_sourceKind :: string
  ae_localLocatorId :: "string option"
  ae_skillBundleId :: "string option"

record reduction =
  rn_stats :: redaction_stats
  rn_seen :: "string set"
  rn_events :: "agent_event list"
  rn_classes :: "string set"
  rn_inputBytes :: nat
  rn_outputBytes :: nat

definition basename :: "string \<Rightarrow> string" where
  "basename path = last (split_on (CHR ''/'') (rev (dropWhile (\<lambda>c. c = CHR ''/'') (rev path))))"

definition trajectory_id :: "'key host \<Rightarrow> capsule_request \<Rightarrow> string" where
  "trajectory_id h i = deterministicUuid h (join_with '':'' [cr_organizationId i, cr_deviceId i, cr_workspaceId i,
     se_provider (cr_session i), se_sessionId (cr_session i)])"

definition session_pseudonym :: "'key host \<Rightarrow> capsule_request \<Rightarrow> string" where
  "session_pseudonym h i = sha256 h (join_with '':'' [cr_organizationId i, cr_workspaceId i,
     se_provider (cr_session i), se_sessionId (cr_session i)])"

text \<open>The payload of an event; without the customer's authorization it has a kind and a size only.\<close>

definition event_payload :: "'key host \<Rightarrow> org_policy \<Rightarrow> source_record \<Rightarrow> json \<Rightarrow> (string \<times> json) list" where
  "event_payload h p r redactedNative =
     (if disclosureMode p \<noteq> CustomerAuthorizedContent
      then [(''nativeKind'', JStr (normalizedReducedEventKind (sr_kind r))), (''recordBytes'', nat_json (nativeRecordBytes r)),
        (''contentOmitted'', JBool True)]
      else let serializedNative = canonicalize (collation h) redactedNative in
        [(''nativeKind'', JStr (safeSourceKind r)), (''recordBytes'', nat_json (nativeRecordBytes r)), (''contentOmitted'', JBool False),
         (''nativeProviderPayload'',
           if ev_maximumCapsuleBytes (op_evidence p) div 2 < int (utf8_length serializedNative)
           then JObj [(''contentOmitted'', JBool True), (''omissionReason'', JStr ''record_exceeds_capsule_limit''),
             (''redactedPayloadHash'', JStr (sha256 h serializedNative))]
           else redactedNative)])"

definition occurred_at :: "'key host \<Rightarrow> capsule_request \<Rightarrow> source_record \<Rightarrow> string option" where
  "occurred_at h i r = (case sr_timestamp r of None \<Rightarrow> Some (se_startedAt (cr_session i)) | Some t \<Rightarrow>
     if t = [] then Some (se_startedAt (cr_session i)) else map_option (isoString h) (dateParse h t))"

definition native_redaction ::
  "'key host \<Rightarrow> (string \<Rightarrow> json option) \<Rightarrow> bool \<Rightarrow> source_record \<Rightarrow> redaction_stats \<Rightarrow> json \<times> redaction_stats" where
  "native_redaction h parse excluded r st =
     (if excluded then (JObj [(''contentOmitted'', JBool True), (''omissionReason'', JStr ''configured_excluded_path'')],
         st\<lparr>rd_classes := insert ''configured_excluded_path'' (rd_classes st), rd_excludedPaths := Suc (rd_excludedPaths st)\<rparr>)
      else redactValue h parse (JObj (sr_native r)) [] 0 st)"

definition event_fingerprint :: "'key host \<Rightarrow> source_record \<Rightarrow> (string \<times> json) list \<Rightarrow> string" where
  "event_fingerprint h r payload = objectDigest h (JObj [(''kind'', JStr (sr_kind r)), (''payload'', JObj payload)])"

definition reduce_record ::
  "'key host \<Rightarrow> (string \<Rightarrow> json option) \<Rightarrow> org_policy \<Rightarrow> capsule_request \<Rightarrow> nat \<times> source_record \<Rightarrow> reduction
     \<Rightarrow> (reduction_error, unit) result \<times> reduction" where
  "reduce_record h parse p i = (\<lambda>(index, r) n.
     (case referencesExcludedPath parse (ev_excludePaths (op_evidence p)) (JObj (sr_native r)) [] 0 of
        Inl e \<Rightarrow> (Inl e, n)
      | Inr excluded \<Rightarrow>
          let (redactedNative, st) = native_redaction h parse excluded r (rn_stats n);
              payload = event_payload h p r redactedNative;
              fingerprint = event_fingerprint h r payload;
              n1 = n\<lparr>rn_stats := st, rn_inputBytes := rn_inputBytes n + nativeRecordBytes r,
                 rn_outputBytes := rn_outputBytes n + utf8_length (canonicalize (collation h) (JObj payload)),
                 rn_classes := rn_classes n \<union> excludedContentClasses r\<rparr> in
          if fingerprint \<in> rn_seen n then (Inr (), n1)
          else (case occurred_at h i r of None \<Rightarrow> (Inl TimestampInvalid, n1)
            | Some occurredAt \<Rightarrow>
                let content = (disclosureMode p = CustomerAuthorizedContent);
                    event = \<lparr>ae_eventId = deterministicUuid h (trajectory_id h i @ '':'' @ nat_string index @ '':'' @ fingerprint),
                      ae_sequence = length (rn_events n), ae_occurredAt = occurredAt,
                      ae_kind = normalizedReducedEventKind (sr_kind r), ae_payload = payload,
                      ae_sourceKind = (if content then safeSourceKind r else normalizedReducedEventKind (sr_kind r)),
                      ae_localLocatorId = (if content then Some (sha256 h (basename (sr_sourcePath r) @ '':'' @ int_string (sr_line r))) else None),
                      ae_skillBundleId = (if signed_capture i \<and> cr_verifiedAt i \<noteq> None then cr_activeSkillBundleId i else None)\<rparr>
                in (Inr (), n1\<lparr>rn_seen := insert fingerprint (rn_seen n), rn_events := rn_events n @ [event]\<rparr>))))"

fun reduce_records ::
  "'key host \<Rightarrow> (string \<Rightarrow> json option) \<Rightarrow> org_policy \<Rightarrow> capsule_request \<Rightarrow> (nat \<times> source_record) list \<Rightarrow> reduction
     \<Rightarrow> (reduction_error, unit) result \<times> reduction" where
  "reduce_records h parse p i [] n = (Inr (), n)"
| "reduce_records h parse p i (ir # rest) n = and_then (reduce_record h parse p i ir) (\<lambda>_. reduce_records h parse p i rest) n"

subsection \<open>The capsule\<close>

definition AUTOMATIC_DISCLOSED_CLASSES :: "string list" where
  "AUTOMATIC_DISCLOSED_CLASSES = [''tenant_identifier'', ''device_identifier'', ''workspace_identifier'', ''pseudonymous_session_identifier'',
     ''provider_name'', ''event_kind'', ''event_timestamp'', ''event_coverage'', ''source_kind'', ''record_size'', ''local_evidence_descriptor'']"

definition AUTOMATIC_CONTENT_CLASSES :: "string list" where
  "AUTOMATIC_CONTENT_CLASSES = [''encrypted_reasoning'', ''execution_configuration'', ''instruction_text'', ''local_path'',
     ''native_provider_payload'', ''prompt_text'', ''rate_limit_metadata'', ''response_text'', ''token_metadata'', ''tool_schema'',
     ''tool_input'', ''tool_output'']"

text \<open>The parts of a capsule that the reduction to the size limit changes.\<close>

record capsule_base =
  cb_status :: string
  cb_state :: string
  cb_missingFields :: "string list"
  cb_events :: "agent_event list"

definition opt_text :: "string option \<Rightarrow> json" where
  "opt_text v = (case v of None \<Rightarrow> JNull | Some s \<Rightarrow> JStr s)"

definition event_json :: "'key host \<Rightarrow> capsule_request \<Rightarrow> agent_event \<Rightarrow> json" where
  "event_json h i e = JObj
     [(''schema'', JStr ''dharma.agent-event/v1''), (''eventId'', JStr (ae_eventId e)), (''organizationId'', JStr (cr_organizationId i)),
      (''deviceId'', JStr (cr_deviceId i)), (''workspaceId'', JStr (cr_workspaceId i)), (''provider'', JStr (se_provider (cr_session i))),
      (''sessionId'', JStr (session_pseudonym h i)), (''sequence'', nat_json (ae_sequence e)), (''occurredAt'', JStr (ae_occurredAt e)),
      (''kind'', JStr (ae_kind e)), (''coverage'', JStr (se_coverage (cr_session i))), (''contentRefs'', JArr []),
      (''payload'', JObj (ae_payload e)),
      (''source'', JObj [(''nativeEventId'', JNull), (''sourceKind'', JStr (ae_sourceKind e)), (''localLocatorId'', opt_text (ae_localLocatorId e))]),
      (''skillBundleId'', opt_text (ae_skillBundleId e)), (''providerModel'', JNull)]"

definition sorted_classes :: "string set \<Rightarrow> json" where
  "sorted_classes cs = str_array (sorted_list_of_set cs)"

definition redaction_receipt :: "org_policy \<Rightarrow> reduction \<Rightarrow> json" where
  "redaction_receipt p n =
     (let mode = disclosureMode p; content = (mode = CustomerAuthorizedContent); st = rn_stats n in
      JObj [(''policyRevision'', JStr (op_revision p)), (''disclosureClass'', JStr ''automatic_capsule''),
        (''disclosureMode'', JStr (mode_name mode)),
        (''consentReceiptId'', opt_text (case ev_automaticDisclosure (op_evidence p) of None \<Rightarrow> None | Some d \<Rightarrow> ad_consentReceiptId d)),
        (''disclosedClasses'', str_array (sort_by code_unit_le (AUTOMATIC_DISCLOSED_CLASSES
           @ (if mode = MetadataOnly then [] else [''local_deterministic_analysis'']) @ (if content then [''native_provider_payload''] else [])))),
        (''excludedClasses'', if content then str_array [''detected_secret_values'', ''configured_excluded_paths'']
           else sorted_classes (set AUTOMATIC_CONTENT_CLASSES \<union> rn_classes n)),
        (''classes'', sorted_classes (insert (if content then ''customer_authorized_content'' else ''automatic_content_omission'') (rd_classes st))),
        (''redactedValues'', nat_json (rd_redactedValues st)), (''excludedPaths'', nat_json (rd_excludedPaths st)),
        (''inputBytes'', nat_json (rn_inputBytes n)), (''outputBytes'', nat_json (rn_outputBytes n))])"

definition base_fields ::
  "'key host \<Rightarrow> org_policy \<Rightarrow> capsule_request \<Rightarrow> int \<Rightarrow> reduction \<Rightarrow> capsule_base \<Rightarrow> (string \<times> json) list" where
  "base_fields h p i revision n b =
     (let session = cr_session i; pv = provenance_of i; rawKind = given ''raw-provider-session''
            (if cr_rawKind i = Some [] then None else cr_rawKind i) in
      [(''schema'', JStr (if signed_capture i then ''dharma.trajectory-capsule/v3'' else ''dharma.trajectory-capsule/v2'')),
       (''trajectoryId'', JStr (trajectory_id h i)), (''revision'', JNum revision),
       (''previousRevisionHash'', opt_text (cr_previousRevisionHash i)), (''organizationId'', JStr (cr_organizationId i)),
       (''deviceId'', JStr (cr_deviceId i)), (''workspaceId'', JStr (cr_workspaceId i)), (''provider'', JStr (se_provider session)),
       (''sessionId'', JStr (session_pseudonym h i)), (''taskId'', opt_text (cr_taskId i)),
       (''captureProvenance'', JObj [(''sourceClass'', JStr (pv_sourceClass pv)), (''collectedAt'', JStr (pv_collectedAt pv)),
          (''taskReceiptHash'', opt_text (pv_taskReceiptHash pv))]),
       (''timeRange'', JObj [(''start'', JStr (se_startedAt session)), (''end'', JStr (se_endedAt session))]),
       (''status'', JStr (cb_status b)), (''evidenceMode'', JStr (ev_defaultMode (op_evidence p))),
       (''automaticDisclosureMode'', JStr (mode_name (disclosureMode p))),
       (''coverage'', JObj [(''state'', JStr (cb_state b)), (''admittedSessions'', JNum 1), (''excludedSessions'', JNum 0),
          (''missingFields'', str_array (cb_missingFields b))]),
       (''repoState'', JObj []), (''skillState'', JObj []), (''events'', JArr (map (event_json h i) (cb_events b))),
       (''contentIndex'', JArr [JObj [(''contentId'', JStr (cr_rawContentId i)), (''kind'', JStr rawKind), (''bytes'', JNum (cr_rawBytes i)),
          (''uploaded'', JBool False), (''availableLocally'', JBool True), (''mimeType'', JStr ''application/x-ndjson''),
          (''normalizedPath'', JNull)]]),
       (''validationResults'', JArr []),
       (''localAnalysis'', if disclosureMode p = MetadataOnly then JNull else buildLocalAnalysis h session),
       (''redactionReceipt'', redaction_receipt p n),
       (''localEvidenceAvailable'', JArr [JObj [(''contentId'', JStr (cr_rawContentId i)), (''kind'', JStr rawKind),
          (''bytes'', JNum (cr_rawBytes i))]]),
       (''createdAt'', JStr (createdAt_of i))])"

definition serialized_bytes :: "'key host \<Rightarrow> (string \<times> json) list \<Rightarrow> nat" where
  "serialized_bytes h kvs =
     utf8_length (canonicalize (collation h) (JObj (kvs @ [(''capsuleHash'', JStr (''sha256:'' @ replicate 64 (CHR ''0'')))])))"

definition mark_partial :: "capsule_base \<Rightarrow> capsule_base" where
  "mark_partial b = b\<lparr>cb_state := ''partial'', cb_status := ''partial''\<rparr>"

text \<open>The oldest events go first, until the capsule fits or one event is left.\<close>

function collapse_events :: "(capsule_base \<Rightarrow> nat) \<Rightarrow> int \<Rightarrow> capsule_base \<Rightarrow> capsule_base" where
  "collapse_events bytes limit b =
     (if limit < int (bytes b) \<and> 1 < length (cb_events b)
      then collapse_events bytes limit ((mark_partial b)\<lparr>
        cb_events := map (\<lambda>(n, e). e\<lparr>ae_sequence := n\<rparr>) (enumerate 0 (tl (cb_events b))),
        cb_missingFields := (if ''events_collapsed_for_size'' \<in> set (cb_missingFields b) then cb_missingFields b
           else cb_missingFields b @ [''events_collapsed_for_size''])\<rparr>)
      else b)"
  by pat_completeness auto
termination by (relation "measure (\<lambda>(bytes, limit, b). length (cb_events b))") auto

declare collapse_events.simps [simp del]

definition collapse_payload :: "capsule_base \<Rightarrow> capsule_base" where
  "collapse_payload b = (case cb_events b of
     [e] \<Rightarrow> (mark_partial b)\<lparr>
       cb_events := [e\<lparr>ae_payload := filter (\<lambda>(k, _). k = ''nativeKind'' \<or> k = ''recordBytes'') (ae_payload e)
           @ [(''contentOmitted'', JBool True), (''omissionReason'', JStr ''capsule_size_limit'')]\<rparr>],
       cb_missingFields := cb_missingFields b @ [''native_payload_collapsed_for_size'']\<rparr>
   | _ \<Rightarrow> b)"

definition trajectoryCapsuleHash :: "'key host \<Rightarrow> (string \<times> json) list \<Rightarrow> string" where
  "trajectoryCapsuleHash h kvs =
     (let unsigned = AList.delete ''capsuleHash'' kvs in
      if map_of unsigned ''schema'' \<noteq> Some (JStr ''dharma.trajectory-capsule/v3'')
      then objectDigest h (JObj unsigned)
      else let pv = (case map_of unsigned ''captureProvenance'' of Some (JObj p) \<Rightarrow> p | _ \<Rightarrow> []) in
        objectDigest h (JObj (AList.update ''captureProvenance'' (JObj (AList.update ''taskReceiptHash'' JNull pv)) unsigned)))"

definition revision_error :: "int \<Rightarrow> string option \<Rightarrow> reduction_error option" where
  "revision_error revision previous =
     (if revision < 1 \<or> 2 ^ 53 - 1 < revision then Some CapsuleRevisionInvalid
      else if revision = 1 \<and> previous \<notin> {None, Some []} then Some FirstRevisionHasPrevious
      else if 1 < revision \<and> \<not> is_digest (given [] previous) then Some PreviousHashRequired
      else None)"

definition initial_base :: "provider_session \<Rightarrow> agent_event list \<Rightarrow> capsule_base" where
  "initial_base session events =
     (if se_coverage session = ''observed''
      then \<lparr>cb_status = ''completed'', cb_state = ''observed'', cb_missingFields = [], cb_events = events\<rparr>
      else \<lparr>cb_status = ''partial'', cb_state = ''partial'', cb_missingFields = [''workspace_on_some_events''], cb_events = events\<rparr>)"

definition fit_capsule ::
  "'key host \<Rightarrow> org_policy \<Rightarrow> capsule_request \<Rightarrow> int \<Rightarrow> reduction \<Rightarrow> (reduction_error, (string \<times> json) list) result" where
  "fit_capsule h p i revision n =
     (let limit = ev_maximumCapsuleBytes (op_evidence p); bytes = (\<lambda>b. serialized_bytes h (base_fields h p i revision n b));
          b1 = collapse_events bytes limit (initial_base (cr_session i) (rn_events n));
          b2 = (if limit < int (bytes b1) then collapse_payload b1 else b1);
          kvs = base_fields h p i revision n b2 in
      if limit < int (bytes b2) then Inl CapsuleTooLarge
      else Inr (kvs @ [(''capsuleHash'', JStr (trajectoryCapsuleHash h kvs))]))"

definition buildTrajectoryCapsule ::
  "'key host \<Rightarrow> (string \<Rightarrow> json option) \<Rightarrow> policy_state \<Rightarrow> jsnum \<Rightarrow> capsule_request \<Rightarrow> (reduction_error, (string \<times> json) list) result" where
  "buildTrajectoryCapsule h parse s now i =
     (case assertPolicy h s (cr_policy i) False now of Inl e \<Rightarrow> Inl (PolicyFailed e) | Inr _ \<Rightarrow>
      case ps_heap s (cr_policy i) of None \<Rightarrow> Inl (PolicyFailed NoSuchPolicy) | Some p \<Rightarrow>
      if \<not> is_finite (dateParse h (pv_collectedAt (provenance_of i))) then Inl ProvenanceTimeInvalid
      else if \<not> provenance_ok i then Inl ProvenanceInvalid
      else case skill_error h i of Some e \<Rightarrow> Inl e | None \<Rightarrow>
      (case reduce_records h parse p i (enumerate 0 (se_records (cr_session i)))
          \<lparr>rn_stats = no_stats, rn_seen = {}, rn_events = [], rn_classes = {}, rn_inputBytes = 0, rn_outputBytes = 0\<rparr> of
        (Inl e, _) \<Rightarrow> Inl e
      | (Inr _, n) \<Rightarrow>
          let revision = given 1 (cr_revision i) in
          case revision_error revision (cr_previousRevisionHash i) of Some e \<Rightarrow> Inl e
          | None \<Rightarrow> fit_capsule h p i revision n))"

subsection \<open>The size limit\<close>

lemma digest_bytes: "is_digest s \<Longrightarrow> utf8_length (quote_json s) = 73"
proof -
  assume s: "is_digest s"
  have plain: "escape_char c = [c] \<and> of_char c < (128 :: nat)" if "is_lower_hex c \<or> c \<in> set ''sha256:''" for c
  proof -
    from that have "48 \<le> (of_char c :: nat) \<and> (of_char c :: nat) < 123 \<and> (of_char c :: nat) \<noteq> 92"
      by (auto simp: is_lower_hex_def is_digit_def)
    then show ?thesis by (auto simp: escape_char_def short_escape_def Let_def)
  qed
  from s have "take 7 s = ''sha256:''" by (simp add: is_digest_def starts_with_def eval_nat_numeral)
  then have split: "s = ''sha256:'' @ drop 7 s" by (metis append_take_drop_id)
  from s have "length s = 71" "list_all is_lower_hex (drop 7 s)" by (simp_all add: is_digest_def)
  from this(2) have "\<forall>c \<in> set (''sha256:'' @ drop 7 s). is_lower_hex c \<or> c \<in> set ''sha256:''"
    by (simp add: list_all_iff)
  then have "\<forall>c \<in> set s. is_lower_hex c \<or> c \<in> set ''sha256:''" unfolding split [symmetric] .
  with plain have all: "\<forall>c \<in> set s. escape_char c = [c] \<and> of_char c < (128 :: nat)" by blast
  then have "concat (map escape_char s) = s" "utf8_length s = length s" by (induction s) auto
  with \<open>length s = 71\<close> show ?thesis by (simp add: quote_json_def)
qed

lemma serialized_with_hash:
  assumes "is_digest s"
  shows "utf8_length (canonicalize (collation h) (JObj (kvs @ [(''capsuleHash'', JStr s)]))) = serialized_bytes h kvs"
proof -
  have "is_digest (''sha256:'' @ replicate 64 (CHR ''0''))"
    by (simp add: is_digest_def starts_with_def is_lower_hex_def is_digit_def list_all_iff)
  from digest_bytes [OF this] digest_bytes [OF assms] show ?thesis
    unfolding serialized_bytes_def canonicalize_bytes by simp
qed

text \<open>
  C27. A capsule fits the limit of its policy.  The canonical text of every capsule that is built,
  its hash included, has at most the bytes that the organization's policy allows, and never more
  than the limit of the protocol.
\<close>

theorem capsule_fits:
  assumes "\<And>t. is_digest (sha256 h t)" and "buildTrajectoryCapsule h parse s now i = Inr kvs"
  shows "\<exists>p. ps_heap s (cr_policy i) = Some p
    \<and> int (utf8_length (canonicalize (collation h) (JObj kvs))) \<le> ev_maximumCapsuleBytes (op_evidence p)
    \<and> ev_maximumCapsuleBytes (op_evidence p) \<le> MAXIMUM_TRAJECTORY_CAPSULE_BYTES"
proof -
  from assms(2) obtain p revision n where p: "ps_heap s (cr_policy i) = Some p" "assertPolicy h s (cr_policy i) False now = Inr ()"
      and fit: "fit_capsule h p i revision n = Inr kvs"
    by (auto simp: buildTrajectoryCapsule_def Let_def split: sum.splits option.splits if_splits prod.splits)
  from fit obtain base where kvs: "kvs = base @ [(''capsuleHash'', JStr (trajectoryCapsuleHash h base))]"
      and le: "int (serialized_bytes h base) \<le> ev_maximumCapsuleBytes (op_evidence p)"
    by (auto simp: fit_capsule_def Let_def split: if_splits)
  have "is_digest (trajectoryCapsuleHash h base)"
    using assms(1) by (simp add: trajectoryCapsuleHash_def Let_def objectDigest_def)
  from serialized_with_hash [OF this, of h base] le have
    "int (utf8_length (canonicalize (collation h) (JObj kvs))) \<le> ev_maximumCapsuleBytes (op_evidence p)" by (simp add: kvs)
  moreover from p have "ev_maximumCapsuleBytes (op_evidence p) \<le> MAXIMUM_TRAJECTORY_CAPSULE_BYTES"
    by (auto simp: assertPolicy_def Let_def split: if_splits)
  ultimately show ?thesis using p(1) by blast
qed

subsection \<open>What a capsule reveals of its records\<close>

text \<open>A redaction whose result does not depend on the counters and which only adds to them.\<close>

definition steady :: "(redaction_stats \<Rightarrow> 'v \<times> redaction_stats) \<Rightarrow> bool" where
  "steady m = (\<exists>v C N. \<forall>st. fst (m st) = v \<and> rd_classes (snd (m st)) = rd_classes st \<union> C
     \<and> rd_redactedValues (snd (m st)) = rd_redactedValues st + N \<and> rd_excludedPaths (snd (m st)) = rd_excludedPaths st)"

lemma steady_then:
  assumes "steady m" "\<And>v. steady (k v)"
  shows "steady (\<lambda>st. case m st of (v, st1) \<Rightarrow> k v st1)"
proof -
  from assms(1) obtain v C N where m: "\<And>st. fst (m st) = v" "\<And>st. rd_classes (snd (m st)) = rd_classes st \<union> C"
      "\<And>st. rd_redactedValues (snd (m st)) = rd_redactedValues st + N" "\<And>st. rd_excludedPaths (snd (m st)) = rd_excludedPaths st"
    unfolding steady_def by blast
  from assms(2) [of v] obtain w C' N' where k: "\<And>st. fst (k v st) = w" "\<And>st. rd_classes (snd (k v st)) = rd_classes st \<union> C'"
      "\<And>st. rd_redactedValues (snd (k v st)) = rd_redactedValues st + N'" "\<And>st. rd_excludedPaths (snd (k v st)) = rd_excludedPaths st"
    unfolding steady_def by blast
  show ?thesis unfolding steady_def
    by (intro exI [of _ w] exI [of _ "C \<union> C'"] exI [of _ "N + N'"]) (simp add: case_prod_beta m k Un_assoc)
qed

lemma steady_note: "steady (\<lambda>st. (v, note_class name n st))"
  unfolding steady_def
  by (cases "n = 0") (auto simp: note_class_def intro: exI [of _ "{}"] exI [of _ "{name}"] exI [of _ n])

lemma steady_return: "steady (\<lambda>st. (v, st))"
  unfolding steady_def by (auto intro: exI [of _ "{}"] exI [of _ 0])

lemma steady_apfst: "steady m \<Longrightarrow> steady (\<lambda>st. apfst f (m st))"
  unfolding steady_def by (elim exE) (auto simp: fst_apfst intro!: exI)

lemma steady_bytes: "steady m \<Longrightarrow> steady (\<lambda>st. m (st\<lparr>rd_inputBytes := f st\<rparr>))"
  unfolding steady_def by (elim exE) (auto intro!: exI)

lemma steady_eq: "(\<And>st. m st = m' st) \<Longrightarrow> steady m' \<Longrightarrow> steady m"
  unfolding steady_def by simp

lemma steady_redactString: "steady (redactString s)"
proof -
  have rules: "steady (\<lambda>st. fold apply_rule rules (s, st))" for rules s
  proof (induction rules arbitrary: s)
    case (Cons rule rules)
    obtain name r R where rule: "rule = (name, r, R)" by (rule prod_cases3)
    from steady_then [OF steady_note [of "replace_all r R s" name "count_matches r s"], of "\<lambda>t st. fold apply_rule rules (t, st)"] Cons
    show ?case by (simp add: rule)
  qed (simp add: steady_return)
  from steady_bytes [OF rules [of redaction_rules s], of "\<lambda>st. rd_inputBytes st + utf8_length s"]
  show ?thesis unfolding steady_def redactString_def by (simp add: case_prod_beta)
qed

lemma steady_thread: "(\<And>x. x \<in> set xs \<Longrightarrow> steady (f x)) \<Longrightarrow> steady (thread f xs)"
proof (induction xs)
  case (Cons x xs)
  then have x: "steady (f x)" and xs: "steady (thread f xs)" by simp_all
  have rest: "steady (\<lambda>s1. case thread f xs s1 of (vs, s2) \<Rightarrow> (v # vs, s2))" for v
    using steady_then [OF xs steady_return] .
  show ?case by (rule steady_eq [OF _ steady_then [OF x rest]]) simp
next
  case Nil
  show ?case by (rule steady_eq [OF _ steady_return [of "[]"]]) simp
qed

lemma steady_note_bytes: "steady (\<lambda>st. (v, note_class name n (st\<lparr>rd_inputBytes := f st, rd_outputBytes := g st\<rparr>)))"
  unfolding steady_def
  by (cases "n = 0") (auto simp: note_class_def intro: exI [of _ "{}"] exI [of _ "{name}"] exI [of _ n])

lemma steady_redactValue:
  fixes st :: redaction_stats
  shows "steady (redactValue h parse u key depth)"
proof (induction h parse u key depth st rule: redactValue.induct)
  case (1 h parse u key depth st)
  let ?k = "normalizedFieldName key"
  note run = redactValue.simps [of h parse _ key depth, unfolded Let_def]
  consider "64 < depth" | "\<not> 64 < depth" "sensitive_field ?k" | "\<not> 64 < depth" "\<not> sensitive_field ?k" by blast
  then show ?case
  proof cases
    case 1
    then show ?thesis by (intro steady_eq [OF _ steady_note]) (simp add: run)
  next
    case 2
    then have "redactValue h parse u key depth st = (JStr ''[REDACTED:sensitive_field]'',
        note_class ''sensitive_field'' (if u \<noteq> JNull then 1 else 0) st)" for st
      by (simp add: run note_class_def)
    then show ?thesis by (rule steady_eq [OF _ steady_note])
  next
    case 3
    show ?thesis
    proof (cases u)
      case (JStr s)
      let ?parsed = "if looks_like_json s then parse s else None"
      show ?thesis
      proof (cases "local_path_field ?k")
        case True
        with 3 have "redactValue h parse u key depth st = (JStr ''[REDACTED:local_path]'', note_class ''local_path'' 1
            (st\<lparr>rd_inputBytes := rd_inputBytes st + utf8_length s,
               rd_outputBytes := rd_outputBytes st + utf8_length ''[REDACTED:local_path]''\<rparr>))" for st
          by (simp add: run JStr)
        then show ?thesis by (rule steady_eq [OF _ steady_note_bytes])
      next
        case False
        show ?thesis
        proof (cases ?parsed)
          case None
          with 3 False have "redactValue h parse u key depth st = apfst JStr (redactString s st)" for st
            by (simp add: run JStr del: if_split_eq1)
          then show ?thesis by (rule steady_eq [OF _ steady_apfst [OF steady_redactString]])
        next
          case (Some v)
          with 3 False have "redactValue h parse u key depth st = apfst (JStr \<circ> stringify) (redactValue h parse v ?k (Suc depth) st)" for st
            by (subst run) (simp add: JStr)
          then show ?thesis by (rule steady_eq [OF _ steady_apfst [OF "1.IH"(1) [OF 3(1) refl 3(2) JStr False Some]]])
        qed
      qed
    next
      case (JArr xs)
      with 3 have "redactValue h parse u key depth st = apfst JArr (thread (\<lambda>item. redactValue h parse item [] (Suc depth)) xs st)" for st
        by (subst run) simp
      then show ?thesis by (rule steady_eq [OF _ steady_apfst [OF steady_thread [OF "1.IH"(2) [OF 3(1) refl 3(2) JArr]]]])
    next
      case (JObj kvs)
      let ?f = "\<lambda>(childKey, child) st1. case redactString childKey st1 of (redactedKey, st2) \<Rightarrow>
          apfst (Pair (safe_key h childKey redactedKey)) (redactValue h parse child childKey (Suc depth) st2)"
      have "steady (?f (c, w))" if "(c, w) \<in> set (own_order kvs)" for c w
      proof -
        have "steady (\<lambda>st2. apfst (Pair (safe_key h c rk)) (redactValue h parse w c (Suc depth) st2))" for rk
          by (rule steady_apfst [OF "1.IH"(3) [OF 3(1) refl 3(2) JObj that refl prod.collapse]])
        with steady_redactString have "steady (\<lambda>st1. case redactString c st1 of (rk, st2) \<Rightarrow>
            apfst (Pair (safe_key h c rk)) (redactValue h parse w c (Suc depth) st2))" by (rule steady_then)
        then show ?thesis by simp
      qed
      then have steps: "steady (?f x)" if "x \<in> set (own_order kvs)" for x
        using that by (cases x) blast
      from 3 have "redactValue h parse u key depth st =
          apfst (\<lambda>members. JObj (own_order (fold (\<lambda>(k, v). set_member k v) members []))) (thread ?f (own_order kvs) st)" for st
        by (subst run) (simp add: JObj)
      then show ?thesis by (rule steady_eq [OF _ steady_apfst [OF steady_thread [OF steps]]])
    qed (use 3 in \<open>auto intro!: steady_eq [OF _ steady_return [of u]] simp: run\<close>)
  qed
qed

lemma steady_counts:
  "rd_classes (snd (redactValue h parse u key depth st))
     = rd_classes st \<union> rd_classes (snd (redactValue h parse u key depth no_stats))"
  "rd_redactedValues (snd (redactValue h parse u key depth st))
     = rd_redactedValues st + rd_redactedValues (snd (redactValue h parse u key depth no_stats))"
  "rd_excludedPaths (snd (redactValue h parse u key depth st)) = rd_excludedPaths st"
  using steady_redactValue [of h parse u key depth] unfolding steady_def by (auto simp: no_stats_def)

text \<open>What may be learnt of a record without the customer's authorization: its kind, time and size, and which
  classes of content were found in it.\<close>

record record_view =
  vw_kind :: string
  vw_timestamp :: "string option"
  vw_bytes :: nat
  vw_excluded :: "(reduction_error, bool) result"
  vw_redactedClasses :: "string set"
  vw_redactedValues :: nat
  vw_contentClasses :: "string set"
  vw_error :: bool

definition view_of :: "'key host \<Rightarrow> (string \<Rightarrow> json option) \<Rightarrow> org_policy \<Rightarrow> source_record \<Rightarrow> record_view" where
  "view_of h parse p r =
     (let st = snd (redactValue h parse (JObj (sr_native r)) [] 0 no_stats) in
      \<lparr>vw_kind = sr_kind r, vw_timestamp = sr_timestamp r, vw_bytes = nativeRecordBytes r,
       vw_excluded = referencesExcludedPath parse (ev_excludePaths (op_evidence p)) (JObj (sr_native r)) [] 0,
       vw_redactedClasses = rd_classes st, vw_redactedValues = rd_redactedValues st,
       vw_contentClasses = excludedContentClasses r, vw_error = isErrorRecord r\<rparr>)"

definition with_records :: "capsule_request \<Rightarrow> source_record list \<Rightarrow> capsule_request" where
  "with_records i rs = i\<lparr>cr_session := (cr_session i)\<lparr>se_records := rs\<rparr>\<rparr>"

text \<open>Reductions that differ only in the counts of bytes that the receipt does not use.\<close>

definition alike :: "reduction \<Rightarrow> reduction \<Rightarrow> bool" where
  "alike n m = (rd_classes (rn_stats n) = rd_classes (rn_stats m)
     \<and> rd_redactedValues (rn_stats n) = rd_redactedValues (rn_stats m)
     \<and> rd_excludedPaths (rn_stats n) = rd_excludedPaths (rn_stats m)
     \<and> rn_seen n = rn_seen m \<and> rn_events n = rn_events m \<and> rn_classes n = rn_classes m
     \<and> rn_inputBytes n = rn_inputBytes m \<and> rn_outputBytes n = rn_outputBytes m)"

lemma with_records_fields [simp]:
  "se_records (cr_session (with_records i rs)) = rs" "se_provider (cr_session (with_records i rs)) = se_provider (cr_session i)"
  "se_sessionId (cr_session (with_records i rs)) = se_sessionId (cr_session i)"
  "se_coverage (cr_session (with_records i rs)) = se_coverage (cr_session i)"
  "se_startedAt (cr_session (with_records i rs)) = se_startedAt (cr_session i)"
  "se_endedAt (cr_session (with_records i rs)) = se_endedAt (cr_session i)"
  "cr_organizationId (with_records i rs) = cr_organizationId i" "cr_deviceId (with_records i rs) = cr_deviceId i"
  "cr_workspaceId (with_records i rs) = cr_workspaceId i" "cr_policy (with_records i rs) = cr_policy i"
  "cr_rawContentId (with_records i rs) = cr_rawContentId i" "cr_rawBytes (with_records i rs) = cr_rawBytes i"
  "cr_rawKind (with_records i rs) = cr_rawKind i" "cr_createdAt (with_records i rs) = cr_createdAt i"
  "cr_revision (with_records i rs) = cr_revision i" "cr_previousRevisionHash (with_records i rs) = cr_previousRevisionHash i"
  "cr_activeSkillBundleId (with_records i rs) = cr_activeSkillBundleId i" "cr_activatedAt (with_records i rs) = cr_activatedAt i"
  "cr_expiresAt (with_records i rs) = cr_expiresAt i" "cr_verifiedAt (with_records i rs) = cr_verifiedAt i"
  "cr_taskId (with_records i rs) = cr_taskId i" "cr_captureProvenance (with_records i rs) = cr_captureProvenance i"
  by (simp_all add: with_records_def)

lemma with_records_same [simp]:
  "trajectory_id h (with_records i rs) = trajectory_id h i" "session_pseudonym h (with_records i rs) = session_pseudonym h i"
  "createdAt_of (with_records i rs) = createdAt_of i"
  unfolding trajectory_id_def session_pseudonym_def createdAt_of_def by simp_all

lemma with_records_provenance [simp]:
  "provenance_of (with_records i rs) = provenance_of i" "signed_capture (with_records i rs) = signed_capture i"
  "provenance_ok (with_records i rs) = provenance_ok i" "skill_error h (with_records i rs) = skill_error h i"
  "occurred_at h (with_records i rs) = occurred_at h i" "event_json h (with_records i rs) = event_json h i"
  unfolding provenance_of_def signed_capture_def provenance_ok_def skill_error_def occurred_at_def event_json_def
    with_records_fields with_records_same by (rule refl)+

lemma native_redaction_view:
  assumes "view_of h parse p r = view_of h parse p r'" "alike n m"
  shows "alike (n\<lparr>rn_stats := snd (native_redaction h parse x r (rn_stats n))\<rparr>)
    (m\<lparr>rn_stats := snd (native_redaction h parse x r' (rn_stats m))\<rparr>)"
  using assms steady_counts [of h parse "JObj (sr_native r)" "[]" 0 "rn_stats n"]
    steady_counts [of h parse "JObj (sr_native r')" "[]" 0 "rn_stats m"]
  by (auto simp: native_redaction_def alike_def view_of_def Let_def)

lemma reduce_record_view:
  assumes view: "view_of h parse p r = view_of h parse p r'" and nm: "alike n m"
    and mode: "disclosureMode p \<noteq> CustomerAuthorizedContent"
  shows "fst (reduce_record h parse p (with_records i rs) (index, r) n) = fst (reduce_record h parse p (with_records i rs') (index, r') m)
    \<and> alike (snd (reduce_record h parse p (with_records i rs) (index, r) n)) (snd (reduce_record h parse p (with_records i rs') (index, r') m))"
proof -
  from view have kind: "sr_kind r = sr_kind r'" "sr_timestamp r = sr_timestamp r'" "nativeRecordBytes r = nativeRecordBytes r'"
      "excludedContentClasses r = excludedContentClasses r'"
      "referencesExcludedPath parse (ev_excludePaths (op_evidence p)) (JObj (sr_native r)) [] 0
        = referencesExcludedPath parse (ev_excludePaths (op_evidence p)) (JObj (sr_native r')) [] 0"
    by (simp_all add: view_of_def Let_def)
  from kind mode have payload: "event_payload h p r v = event_payload h p r' w" for v w by (simp add: event_payload_def)
  from kind have fingerprint: "event_fingerprint h r x = event_fingerprint h r' x" for x by (simp add: event_fingerprint_def)
  from kind have occurred: "occurred_at h (with_records i rs) r = occurred_at h (with_records i rs') r'"
    by (simp add: occurred_at_def)
  show ?thesis
  proof (cases "referencesExcludedPath parse (ev_excludePaths (op_evidence p)) (JObj (sr_native r')) [] 0")
    case (Inl e)
    with kind nm show ?thesis by (simp add: reduce_record_def)
  next
    case (Inr x)
    obtain v st where v: "native_redaction h parse x r (rn_stats n) = (v, st)" by (rule prod.exhaust)
    obtain w st' where w: "native_redaction h parse x r' (rn_stats m) = (w, st')" by (rule prod.exhaust)
    have stats: "alike (n\<lparr>rn_stats := st\<rparr>) (m\<lparr>rn_stats := st'\<rparr>)"
      using native_redaction_view [OF view nm, of x] by (simp add: v w)
    show ?thesis
      using stats kind mode occurred payload [of v w] fingerprint [of "event_payload h p r' w"]
      by (simp add: reduce_record_def Inr v w alike_def Let_def split: option.split) fastforce
  qed
qed

lemma reduce_records_view:
  assumes mode: "disclosureMode p \<noteq> CustomerAuthorizedContent" and "map (view_of h parse p) rs = map (view_of h parse p) rs'"
    and "alike n m"
  shows "fst (reduce_records h parse p (with_records i qs) (enumerate k rs) n)
      = fst (reduce_records h parse p (with_records i qs') (enumerate k rs') m)
    \<and> alike (snd (reduce_records h parse p (with_records i qs) (enumerate k rs) n))
        (snd (reduce_records h parse p (with_records i qs') (enumerate k rs') m))"
  using assms(2,3)
proof (induction rs arbitrary: rs' k n m)
  case (Cons r rs)
  then obtain r' rest where rs': "rs' = r' # rest" and v: "view_of h parse p r = view_of h parse p r'"
      "map (view_of h parse p) rs = map (view_of h parse p) rest" by (cases rs') auto
  obtain a n1 where a: "reduce_record h parse p (with_records i qs) (k, r) n = (a, n1)" by (rule prod.exhaust)
  obtain b m1 where b: "reduce_record h parse p (with_records i qs') (k, r') m = (b, m1)" by (rule prod.exhaust)
  from reduce_record_view [OF v(1) Cons.prems(2) mode, of i qs k qs'] have "a = b" "alike n1 m1" by (simp_all add: a b)
  with Cons.IH [OF v(2) this(2), of "Suc k"] show ?case by (cases b) (simp_all add: rs' a b and_then_def)
qed simp

lemma analyse_view: "view_of h parse p r = view_of h parse p r' \<Longrightarrow> analyse_record r = analyse_record r'"
  by (intro ext) (simp add: view_of_def Let_def analyse_record_def)

lemma analysis_view:
  assumes "map (view_of h parse p) (se_records se) = map (view_of h parse p) (se_records se')"
    and "se_coverage se = se_coverage se'" "se_startedAt se = se_startedAt se'" "se_endedAt se = se_endedAt se'"
  shows "buildLocalAnalysis h se = buildLocalAnalysis h se'"
proof -
  have same: "fold analyse_record rs a = fold analyse_record rs' a" if "map (view_of h parse p) rs = map (view_of h parse p) rs'" for rs rs' a
    using that
  proof (induction rs arbitrary: rs' a)
    case (Cons r rs)
    then obtain r' rest where "rs' = r' # rest" "view_of h parse p r = view_of h parse p r'"
        "map (view_of h parse p) rs = map (view_of h parse p) rest" by (cases rs') auto
    with Cons.IH [of rest] analyse_view [of h parse p r r'] show ?case by simp
  qed simp
  show ?thesis
    unfolding buildLocalAnalysis_def same [OF assms(1)] map_eq_imp_length_eq [OF assms(1)] assms(2-4) ..
qed

lemma fit_capsule_view:
  assumes "alike n m" and "map (view_of h parse p) rs = map (view_of h parse p) rs'"
  shows "fit_capsule h p (with_records i rs) revision n = fit_capsule h p (with_records i rs') revision m"
proof -
  have "redaction_receipt p n = redaction_receipt p m"
    using assms(1) unfolding redaction_receipt_def alike_def by (simp add: Let_def)
  moreover from analysis_view [of h parse p "cr_session (with_records i rs)" "cr_session (with_records i rs')"] assms(2)
  have "buildLocalAnalysis h (cr_session (with_records i rs)) = buildLocalAnalysis h (cr_session (with_records i rs'))" by simp
  ultimately have "base_fields h p (with_records i rs) revision n b = base_fields h p (with_records i rs') revision m b" for b
    by (simp add: base_fields_def Let_def)
  moreover from assms(1) have "initial_base (cr_session (with_records i rs)) (rn_events n)
      = initial_base (cr_session (with_records i rs')) (rn_events m)"
    by (simp add: initial_base_def alike_def)
  ultimately show ?thesis by (simp only: fit_capsule_def)
qed


subsection \<open>What a capsule holds of its records\<close>

text \<open>The provider's payload as it may leave the device.\<close>

definition releasable :: "'key host \<Rightarrow> json \<Rightarrow> bool" where
  "releasable h v = (redacted h v \<or> (\<exists>reason rest. v = JObj ((''contentOmitted'', JBool True) # (''omissionReason'', JStr reason) # rest)
     \<and> (reason, map fst rest) \<in> {(''configured_excluded_path'', []), (''record_exceeds_capsule_limit'', [''redactedPayloadHash''])}))"

definition releasable_event :: "'key host \<Rightarrow> agent_event \<Rightarrow> bool" where
  "releasable_event h e = (\<forall>v. map_of (ae_payload e) ''nativeProviderPayload'' = Some v \<longrightarrow> releasable h v)"

lemma releasable_payload:
  assumes "ae_payload e = event_payload h p r (fst (native_redaction h parse x r st))"
  shows "releasable_event h e"
  using assms redact_value_covers [of h parse "JObj (sr_native r)" "[]" 0 st]
  by (auto simp: releasable_event_def event_payload_def native_redaction_def releasable_def Let_def split: if_splits)

lemma releasable_records:
  assumes "list_all (releasable_event h) (rn_events n)"
  shows "list_all (releasable_event h) (rn_events (snd (reduce_records h parse p i irs n)))"
  using assms
proof (induction irs arbitrary: n)
  case (Cons ir irs)
  obtain index r where ir: "ir = (index, r)" by (rule prod.exhaust)
  obtain a n1 where a: "reduce_record h parse p i ir n = (a, n1)" by (rule prod.exhaust)
  have "list_all (releasable_event h) (rn_events n1)"
    using a Cons.prems
    by (auto simp: reduce_record_def ir Let_def case_prod_beta split: sum.splits option.splits if_splits intro!: releasable_payload)
  with Cons.IH [of n1] show ?case by (cases a) (simp_all add: a and_then_def)
qed simp

lemma in_set_enumerateD: "(n, e) \<in> set (enumerate k xs) \<Longrightarrow> e \<in> set xs"
  by (auto simp: enumerate_eq_zip dest: set_zip_rightD)

lemma releasable_sequence [simp]: "releasable_event h (e\<lparr>ae_sequence := n\<rparr>) = releasable_event h e"
  by (simp add: releasable_event_def)

lemma collapse_keeps:
  assumes "list_all (releasable_event h) (cb_events b)"
  shows "list_all (releasable_event h) (cb_events (collapse_events bytes limit b))"
  using assms
proof (induction bytes limit b rule: collapse_events.induct)
  case (1 bytes limit b)
  have "list_all (releasable_event h) (map (\<lambda>(n, e). e\<lparr>ae_sequence := n\<rparr>) (enumerate 0 (tl (cb_events b))))"
    using "1.prems" list.set_sel(2) [of "cb_events b"]
    by (cases "cb_events b") (auto simp: list_all_iff dest!: in_set_enumerateD)
  with 1 show ?case by (subst collapse_events.simps) (simp add: mark_partial_def)
qed

lemma fit_releasable:
  assumes "fit_capsule h p i revision n = Inr kvs" "list_all (releasable_event h) (rn_events n)"
  shows "\<exists>es. map_of kvs ''events'' = Some (JArr (map (event_json h i) es)) \<and> list_all (releasable_event h) es"
proof -
  have init: "list_all (releasable_event h) (cb_events (initial_base (cr_session i) (rn_events n)))"
    using assms(2) by (simp add: initial_base_def)
  have payload: "list_all (releasable_event h) (cb_events (collapse_payload b))" if "list_all (releasable_event h) (cb_events b)" for b
  proof (cases "\<exists>e. cb_events b = [e]")
    case True
    then show ?thesis by (auto simp: collapse_payload_def releasable_event_def dest!: map_of_SomeD)
  qed (use that in \<open>auto simp: collapse_payload_def split: list.split\<close>)
  from assms(1) obtain b where "kvs = base_fields h p i revision n b @ [(''capsuleHash'', JStr (trajectoryCapsuleHash h (base_fields h p i revision n b)))]"
      and "list_all (releasable_event h) (cb_events b)"
    using collapse_keeps [OF init] payload by (auto simp: fit_capsule_def Let_def split: if_splits)
  then show ?thesis by (auto simp: base_fields_def Let_def)
qed

text \<open>
  C29. Only redacted content leaves the device.  Every event of a capsule carries as the provider's
  payload, if any, a value that redaction has been through, or a note that the record was left out;
  the collapse of events to the size limit keeps this so.
\<close>

theorem capsule_payloads_redacted:
  assumes "buildTrajectoryCapsule h parse s now i = Inr kvs"
  shows "\<exists>es. map_of kvs ''events'' = Some (JArr (map (event_json h i) es)) \<and> list_all (releasable_event h) es"
proof -
  let ?n = "\<lparr>rn_stats = no_stats, rn_seen = {}, rn_events = [], rn_classes = {}, rn_inputBytes = 0, rn_outputBytes = 0\<rparr>"
  from assms obtain p revision n where
      records: "reduce_records h parse p i (enumerate 0 (se_records (cr_session i))) ?n = (Inr (), n)"
      and fit: "fit_capsule h p i revision n = Inr kvs"
    by (auto simp: buildTrajectoryCapsule_def Let_def split: sum.splits option.splits if_splits prod.splits)
  from releasable_records [of h ?n parse p i "enumerate 0 (se_records (cr_session i))"] have "list_all (releasable_event h) (rn_events n)"
    by (simp add: records)
  with fit show ?thesis by (rule fit_releasable)
qed

subsection \<open>A capsule\<close>

definition demo_capsule_host :: "string host" where
  "demo_capsule_host = demo_host\<lparr>sha256Hex := \<lambda>_. replicate 64 (CHR ''a'')\<rparr>"

definition demo_capsule_policy :: org_policy where
  "demo_capsule_policy = demo_policy\<lparr>op_evidence := (op_evidence demo_policy)\<lparr>ev_maximumCapsuleBytes := 40000\<rparr>\<rparr>"

definition demo_capsule_policies :: policy_state where
  "demo_capsule_policies = \<lparr>ps_heap = [0 \<mapsto> demo_capsule_policy, 1 \<mapsto> demo_capsule_policy\<lparr>op_evidence :=
        (op_evidence demo_capsule_policy)\<lparr>ev_automaticDisclosure := None\<rparr>\<rparr>],
     ps_verified = [0 \<mapsto> (Some 9000, contentAuthorizationFingerprint demo_capsule_host demo_capsule_policy)]\<rparr>"

definition demo_record :: "(string \<times> json) list \<Rightarrow> source_record" where
  "demo_record native = \<lparr>sr_native = native, sr_sourcePath = ''/p/s.jsonl'', sr_line = 1, sr_timestamp = None, sr_kind = ''user turn''\<rparr>"

definition demo_provider_session :: "source_record list \<Rightarrow> provider_session" where
  "demo_provider_session rs = \<lparr>se_provider = ''codex'', se_sessionId = ''s'', se_records = rs, se_coverage = ''observed'',
     se_startedAt = ''1000'', se_endedAt = ''2000''\<rparr>"

definition demo_capsule_request :: "nat \<Rightarrow> source_record list \<Rightarrow> capsule_request" where
  "demo_capsule_request p rs = \<lparr>cr_organizationId = ''o'', cr_deviceId = ''d'', cr_workspaceId = ''w'', cr_session = demo_provider_session rs,
     cr_policy = p, cr_rawContentId = ''c'', cr_rawBytes = 10, cr_rawKind = None, cr_createdAt = None, cr_revision = None,
     cr_previousRevisionHash = None, cr_activeSkillBundleId = None, cr_activatedAt = None, cr_expiresAt = None, cr_verifiedAt = None,
     cr_taskId = None, cr_captureProvenance = None\<rparr>"

definition demo_capsule :: "(reduction_error, (string \<times> json) list) result" where
  "demo_capsule = buildTrajectoryCapsule demo_capsule_host (\<lambda>_. None) demo_capsule_policies (Some 2000)
     (demo_capsule_request 0 [demo_record []])"

text \<open>A bound of the size that only counts characters.\<close>

fun rough_bytes :: "json \<Rightarrow> nat" where
  "rough_bytes (JStr s) = 2 + 6 * length s"
| "rough_bytes (JNum i) = 2 * length (int_string i)"
| "rough_bytes (JArr xs) = 2 + length xs + sum_list (map rough_bytes xs)"
| "rough_bytes (JObj kvs) = 2 + length kvs + sum_list (map (\<lambda>(k, v). 3 + 6 * length k + rough_bytes v) kvs)"
| "rough_bytes _ = 5"

lemma quote_bytes_le: "utf8_length (quote_json s) \<le> 2 + 6 * length s"
proof -
  have "utf8_length (escape_char c) \<le> 6" for c
    by (auto simp: escape_char_def Let_def hex_char_def short_escape_def split: option.split)
  then have "utf8_length (concat (map escape_char s)) \<le> 6 * length s"
    by (induction s) (auto intro: add_mono)
  then show ?thesis by (simp add: quote_json_def)
qed

lemma utf8_length_le: "utf8_length s \<le> 2 * length s"
  by (induction s) auto

lemma json_bytes_le: "json_bytes v \<le> rough_bytes v"
proof (induction v)
  case (JStr s)
  then show ?case using quote_bytes_le [of s] by simp
next
  case (JArr xs)
  then have "sum_list (map json_bytes xs) \<le> sum_list (map rough_bytes xs)" by (rule sum_list_mono)
  then show ?case by simp
next
  case (JObj kvs)
  have "(\<lambda>(k, v). utf8_length (quote_json k) + 1 + json_bytes v) kv \<le> (\<lambda>(k, v). 3 + 6 * length k + rough_bytes v) kv"
    if "kv \<in> set kvs" for kv
  proof -
    obtain k v where kv: "kv = (k, v)" by (rule prod.exhaust)
    with JObj [OF that, of v] quote_bytes_le [of k] show ?thesis by (simp add: snds.simps)
  qed
  then have "sum_list (map (\<lambda>(k, v). utf8_length (quote_json k) + 1 + json_bytes v) kvs)
      \<le> sum_list (map (\<lambda>(k, v). 3 + 6 * length k + rough_bytes v) kvs)" by (rule sum_list_mono)
  then show ?case by simp
qed (use utf8_length_le in auto)

lemma demo_capsule_record [simp]:
  "isErrorRecord (demo_record []) = False" "nativeRecordBytes (demo_record []) = 2"
  "normalizedReducedEventKind (sr_kind (demo_record [])) = ''metadata''"
  "excludedContentClasses (demo_record []) = {''native_provider_payload''}" "safeSourceKind (demo_record []) = ''unknown''"
proof -
  show "safeSourceKind (demo_record []) = ''unknown''" by (simp add: safeSourceKind_def demo_record_def first_given_def safeKind_def)
qed code_simp+

lemma demo_record_fields [simp]:
  "sr_native (demo_record kvs) = kvs" "sr_timestamp (demo_record kvs) = None" "sr_sourcePath (demo_record kvs) = ''/p/s.jsonl''"
  "sr_line (demo_record kvs) = 1"
  by (simp_all add: demo_record_def)

lemma demo_request_fields [simp]:
  "cr_session (demo_capsule_request p rs) = demo_provider_session rs" "cr_policy (demo_capsule_request p rs) = p"
  "se_records (demo_provider_session rs) = rs" "se_startedAt (demo_provider_session rs) = ''1000''" "se_endedAt (demo_provider_session rs) = ''2000''"
  "se_provider (demo_provider_session rs) = ''codex''" "se_coverage (demo_provider_session rs) = ''observed''"
  "cr_verifiedAt (demo_capsule_request p rs) = None" "createdAt_of (demo_capsule_request p rs) = ''2000''"
  "provenance_of (demo_capsule_request p rs)
     = \<lparr>pv_sourceClass = ''provider_discovery'', pv_collectedAt = ''2000'', pv_taskReceiptHash = None\<rparr>"
  "signed_capture (demo_capsule_request p rs) = False" "cr_revision (demo_capsule_request p rs) = None"
  "skill_error demo_capsule_host (demo_capsule_request p rs) = None" "cr_previousRevisionHash (demo_capsule_request p rs) = None"
  "provenance_ok (demo_capsule_request p rs)"
  by (simp_all add: demo_capsule_request_def demo_provider_session_def createdAt_of_def given_def provenance_of_def signed_capture_def
      skill_error_def provenance_ok_def)

lemma demo_policy_fields [simp]:
  "ev_excludePaths (op_evidence demo_capsule_policy) = []" "disclosureMode demo_capsule_policy = CustomerAuthorizedContent"
  "ev_maximumCapsuleBytes (op_evidence demo_capsule_policy) = 40000" "ev_defaultMode (op_evidence demo_capsule_policy) = ''deep''"
  by (simp_all add: demo_capsule_policy_def demo_policy_def disclosureMode_def demo_disclosure_def)

lemma demo_event:
  "event_payload demo_capsule_host demo_capsule_policy (demo_record []) (JObj [])
     = [(''nativeKind'', JStr ''unknown''), (''recordBytes'', JNum 2), (''contentOmitted'', JBool False), (''nativeProviderPayload'', JObj [])]"
  by (simp add: event_payload_def nat_json_def Let_def canonicalize_bytes)

lemma demo_plain [simp]:
  "own_order [] = []" "sensitive_field (normalizedFieldName []) = False" "int_string 1 = ''1''" "int_string 2 = ''2''" "int_string 0 = ''0''"
  by code_simp+

lemma demo_hex_host [simp]: "sha256Hex demo_capsule_host t = replicate 64 (CHR ''a'')"
  by (simp add: demo_capsule_host_def)

lemma demo_request_names [simp]:
  "cr_organizationId (demo_capsule_request p rs) = ''o''" "cr_deviceId (demo_capsule_request p rs) = ''d''"
  "cr_workspaceId (demo_capsule_request p rs) = ''w''" "cr_taskId (demo_capsule_request p rs) = None"
  "cr_rawKind (demo_capsule_request p rs) = None" "cr_rawContentId (demo_capsule_request p rs) = ''c''"
  "cr_rawBytes (demo_capsule_request p rs) = 10"
  "session_pseudonym demo_capsule_host (demo_capsule_request p rs) = ''sha256:'' @ replicate 64 (CHR ''a'')"
  by (simp_all add: demo_capsule_request_def session_pseudonym_def sha256_def)

lemma demo_payload_bytes:
  "json_bytes (JObj [(''nativeKind'', JStr ''unknown''), (''recordBytes'', JNum 2), (''contentOmitted'', JBool False),
     (''nativeProviderPayload'', JObj [])]) = 90"
  by (simp add: quote_json_def escape_char_def short_escape_def)

lemma demo_capsule_records:
  "\<exists>n. reduce_records demo_capsule_host (\<lambda>_. None) demo_capsule_policy (demo_capsule_request 0 [demo_record []])
      (enumerate 0 [demo_record []])
      \<lparr>rn_stats = no_stats, rn_seen = {}, rn_events = [], rn_classes = {}, rn_inputBytes = 0, rn_outputBytes = 0\<rparr> = (Inr (), n)
    \<and> map (rough_bytes \<circ> event_json demo_capsule_host (demo_capsule_request 0 [demo_record []])) (rn_events n) = [3014]
    \<and> rn_stats n = no_stats \<and> rn_inputBytes n = 2 \<and> rn_outputBytes n = 90"
  by (simp add: reduce_record_def Let_def referencesExcludedPath.simps native_redaction_def demo_event occurred_at_def
      redactValue.simps and_then_def event_json_def opt_text_def sha256_def deterministicUuid_def nat_json_def canonicalize_bytes
      demo_payload_bytes del: json_bytes.simps)

lemma demo_sorted_classes: "sort_by code_unit_le (AUTOMATIC_DISCLOSED_CLASSES @ ''local_deterministic_analysis'' # [''native_provider_payload''])
   = [''device_identifier'', ''event_coverage'', ''event_kind'', ''event_timestamp'', ''local_deterministic_analysis'',
      ''local_evidence_descriptor'', ''native_provider_payload'', ''provider_name'', ''pseudonymous_session_identifier'',
      ''record_size'', ''source_kind'', ''tenant_identifier'', ''workspace_identifier'']"
  by code_simp

lemma demo_numbers [simp]:
  "int_string 10 = ''10''" "int_string 90 = ''90''" "int_string 1000 = ''1000''"
  "dateParse demo_capsule_host ''1000'' = Some 1000" "dateParse demo_capsule_host ''2000'' = Some 2000"
  "collation demo_capsule_host = code_unit_le"
proof -
  have "demo_parse ''2000'' = Some 2000" by code_simp
  then show "dateParse demo_capsule_host ''2000'' = Some 2000" by (simp add: demo_capsule_host_def)
  show "dateParse demo_capsule_host ''1000'' = Some 1000" "collation demo_capsule_host = code_unit_le"
    by (simp_all add: demo_capsule_host_def)
qed code_simp+

lemma demo_metadata [simp]:
  "found (seq [lit_ci ''tool'', at_least 0 dot, lit_ci ''call'']) ''metadata'' = False"
  "found (seq [lit_ci ''tool'', at_least 0 dot, any_of [lit_ci ''result'', lit_ci ''output'']]) ''metadata'' = False"
  "sr_kind (demo_record kvs) = ''user turn''"
proof -
  show "sr_kind (demo_record kvs) = ''user turn''" by (simp add: demo_record_def)
qed code_simp+

lemma demo_analysis: "rough_bytes (buildLocalAnalysis demo_capsule_host (demo_provider_session [demo_record []])) = 1724"
  using demo_capsule_record(3) demo_metadata(2)
  by (simp add: buildLocalAnalysis_def analyse_record_def Let_def nat_json_def num_sub_def str_array_def)

lemma demo_receipt: "rn_stats n = no_stats \<Longrightarrow> rn_inputBytes n = 2 \<Longrightarrow> rn_outputBytes n = 90
    \<Longrightarrow> rough_bytes (redaction_receipt demo_capsule_policy n) \<le> 5000"
  using demo_sorted_classes
  by (simp add: redaction_receipt_def Let_def str_array_def sorted_classes_def no_stats_def nat_json_def opt_text_def
     demo_capsule_policy_def demo_policy_def disclosureMode_def demo_disclosure_def)

lemma demo_capsule_allowed: "assertPolicy demo_capsule_host demo_capsule_policies 0 False (Some 2000) = Inr ()"
  by (simp add: assertPolicy_def demo_capsule_policies_def demo_capsule_policy_def demo_policy_def demo_disclosure_def Let_def
      MAXIMUM_TRAJECTORY_CAPSULE_BYTES_def content_grant_error_def blank_def demo_authorization_def)

lemma demo_capsule_built: "\<exists>kvs. demo_capsule = Inr kvs"
proof -
  obtain n where n: "reduce_records demo_capsule_host (\<lambda>_. None) demo_capsule_policy (demo_capsule_request 0 [demo_record []])
        (enumerate 0 [demo_record []])
        \<lparr>rn_stats = no_stats, rn_seen = {}, rn_events = [], rn_classes = {}, rn_inputBytes = 0, rn_outputBytes = 0\<rparr> = (Inr (), n)"
      "map (rough_bytes \<circ> event_json demo_capsule_host (demo_capsule_request 0 [demo_record []])) (rn_events n) = [3014]"
      "rn_stats n = no_stats" "rn_inputBytes n = 2" "rn_outputBytes n = 90"
    using demo_capsule_records by (elim exE conjE) (rule that)
  let ?base = "base_fields demo_capsule_host demo_capsule_policy (demo_capsule_request 0 [demo_record []]) 1 n
    (initial_base (demo_provider_session [demo_record []]) (rn_events n))"
  from n(2) obtain e where e: "rn_events n = [e]"
      "rough_bytes (event_json demo_capsule_host (demo_capsule_request 0 [demo_record []]) e) = 3014" by auto
  have "rough_bytes (JObj (?base @ [(''capsuleHash'', JStr (''sha256:'' @ replicate 64 (CHR ''0'')))])) \<le> 40000"
    using demo_receipt [OF n(3-5)]
    by (simp add: base_fields_def initial_base_def e demo_analysis Let_def opt_text_def str_array_def given_def trajectory_id_def
        deterministicUuid_def)
  with json_bytes_le have "serialized_bytes demo_capsule_host ?base \<le> 40000"
    unfolding serialized_bytes_def canonicalize_bytes by (rule le_trans)
  then have "\<exists>kvs. fit_capsule demo_capsule_host demo_capsule_policy (demo_capsule_request 0 [demo_record []]) 1 n = Inr kvs"
    by (simp add: fit_capsule_def Let_def collapse_events.simps del: of_nat_le_iff)
  with n(1) demo_capsule_allowed show ?thesis
    by (simp add: demo_capsule_def buildTrajectoryCapsule_def demo_capsule_policies_def given_def revision_error_def)
qed

theorem capsule_fits_witness:
  "\<exists>kvs. demo_capsule = Inr kvs \<and> int (utf8_length (canonicalize code_unit_le (JObj kvs))) \<le> 40000"
proof -
  have digest: "is_digest (sha256 demo_capsule_host t)" for t
    by (simp add: is_digest_def sha256_def starts_with_def list_all_iff is_lower_hex_def)
  obtain kvs where kvs: "demo_capsule = Inr kvs" using demo_capsule_built by blast
  from capsule_fits [OF digest this [unfolded demo_capsule_def]] have
    "int (utf8_length (canonicalize code_unit_le (JObj kvs))) \<le> 40000"
    by (auto simp: demo_capsule_policies_def)
  with kvs show ?thesis by blast
qed

theorem capsule_payloads_redacted_witness:
  "\<exists>kvs es. demo_capsule = Inr kvs \<and> map_of kvs ''events'' = Some (JArr (map (event_json demo_capsule_host
     (demo_capsule_request 0 [demo_record []])) es)) \<and> list_all (releasable_event demo_capsule_host) es"
proof -
  obtain kvs where kvs: "demo_capsule = Inr kvs" using demo_capsule_built by blast
  from capsule_payloads_redacted [OF this [unfolded demo_capsule_def]] kvs show ?thesis by blast
qed

text \<open>Two sessions that differ in a password.\<close>

definition password_record :: "string \<Rightarrow> source_record" where
  "password_record s = demo_record [(''password'', JStr s)]"

lemma nothing_excluded: "string_excluded [] k s = Inr False"
proof -
  have "any_true (\<lambda>c. Inr False) xs = (Inr False :: (reduction_error, bool) result)" for xs :: "string list" by (induction xs) simp_all
  then show ?thesis by (simp add: string_excluded_def excluded_by_def Let_def)
qed

lemma password_view:
  "referencesExcludedPath (\<lambda>_. None) [] (JObj [(''password'', JStr s)]) [] 0 = Inr False"
  "snd (redactValue demo_capsule_host (\<lambda>_. None) (JObj [(''password'', JStr s)]) [] 0 st)
     = note_class ''sensitive_field'' 1 (snd (redactString ''password'' st))"
  "excludedContentClasses (password_record s) = {''native_provider_payload''} \<union> content_classes (JObj [(''password'', JNull)]) [] 0"
  "isErrorRecord (password_record s) = isErrorRecord (demo_record [])"
proof -
  have own: "own_order [(''password'', v)] = [(''password'', v)]" for v :: json by code_simp
  have field: "sensitive_field (normalizedFieldName ''password'')" by code_simp
  show "referencesExcludedPath (\<lambda>_. None) [] (JObj [(''password'', JStr s)]) [] 0 = Inr False"
    by (simp add: referencesExcludedPath.simps own nothing_excluded excluded_by_def)
  show "snd (redactValue demo_capsule_host (\<lambda>_. None) (JObj [(''password'', JStr s)]) [] 0 st)
     = note_class ''sensitive_field'' 1 (snd (redactString ''password'' st))"
    by (simp add: redactValue.simps own field case_prod_beta)
  show "excludedContentClasses (password_record s) = {''native_provider_payload''} \<union> content_classes (JObj [(''password'', JNull)]) [] 0"
    by (simp add: excludedContentClasses_def password_record_def content_classes.simps)
  show "isErrorRecord (password_record s) = isErrorRecord (demo_record [])"
    by (simp add: isErrorRecord_def password_record_def first_given_def Let_def del: demo_capsule_record)
qed


end
