(* ===== verification/Vault_Retention.thy ===== *)
theory Vault_Retention
  imports Vault_Capsules Capsule_Build
begin

text \<open>
  The retention of raw evidence in packages/local-vault/src/index.ts: expired raw blobs are set
  aside, the latest revision of every capsule that refers to them is replaced by one that does not,
  and their rows are deleted, all in one transaction per batch; the loop goes on until no expired row
  is left.  A \<open>retention_world\<close> answers the \<open>n\<close>-th step; \<open>rw_mw w n k\<close> is what everything else does at
  the \<open>k\<close>-th \<open>await\<close> of that step.
\<close>

subsection \<open>Revised capsules\<close>

definition refers_to :: "string \<Rightarrow> json \<Rightarrow> bool" where
  "refers_to c item = (content_of item = Some c)"

text \<open>\<open>{...v, k: x}\<close> keeps the place of a member that is there.\<close>

definition unavailable :: "json \<Rightarrow> json" where
  "unavailable item = (case item of JObj kvs \<Rightarrow> JObj (AList.update ''availableLocally'' (JBool False) kvs) | _ \<Rightarrow> item)"

definition revised_base :: "string \<Rightarrow> int \<Rightarrow> string \<Rightarrow> string \<Rightarrow> (string \<times> json) list \<Rightarrow> (string \<times> json) list" where
  "revised_base c revision capsuleHash createdAt kvs =
     (let current = JObj kvs in
      AList.delete ''capsuleHash''
        (AList.update ''createdAt'' (JStr createdAt)
        (AList.update ''localEvidenceAvailable''
           (JArr (filter (\<lambda>item. \<not> refers_to c item) (array_member current ''localEvidenceAvailable'')))
        (AList.update ''contentIndex''
           (JArr (map (\<lambda>item. if refers_to c item then unavailable item else item) (array_member current ''contentIndex'')))
        (AList.update ''previousRevisionHash'' (JStr capsuleHash)
        (AList.update ''revision'' (JNum (revision + 1)) kvs))))))"

definition revised_capsule :: "'key vault_context \<Rightarrow> string \<Rightarrow> int \<Rightarrow> string \<Rightarrow> string \<Rightarrow> (string \<times> json) list \<Rightarrow> (string \<times> json) list" where
  "revised_capsule x c revision capsuleHash createdAt kvs =
     (let base = revised_base c revision capsuleHash createdAt kvs in
      base @ [(''capsuleHash'', JStr (trajectoryCapsuleHash (vc_host x) base))])"

subsection \<open>One batch\<close>

record 't retention_world =
  rw_io :: "nat \<Rightarrow> put_io"
  rw_mw :: "nat \<Rightarrow> nat \<Rightarrow> 't vault \<Rightarrow> 't vault"
  rw_renames :: "nat \<Rightarrow> bool"
  rw_suffix :: "nat \<Rightarrow> string"
  rw_open :: "nat \<Rightarrow> bool"
  rw_commits :: "nat \<Rightarrow> bool"
  rw_now :: "nat \<Rightarrow> int"

text \<open>A batch so far: the vault, the steps taken, the files set aside, the capsules stored and the
  number of rows deleted.\<close>

record 't batch =
  ba_vault :: "'t vault"
  ba_step :: nat
  ba_aside :: "(string \<times> blob_name) list"
  ba_made :: "string list"
  ba_deleted :: nat

definition raw_kind :: "string \<Rightarrow> bool" where
  "raw_kind kind = (kind = ''raw-provider-turn'' \<or> kind = ''raw-provider-session'')"

definition offer_pins :: "(string \<times> string) list \<Rightarrow> string \<Rightarrow> 'a session_tables_scheme \<Rightarrow> bool" where
  "offer_pins ks c ts = list_ex (\<lambda>k. case sx_offers ts k of None \<Rightarrow> False
     | Some r \<Rightarrow> of_hash r = c \<or> of_settled r = Some c) ks"

definition capsule_holds :: "string \<Rightarrow> 'a capsule_tables_scheme \<Rightarrow> bool" where
  "capsule_holds c ts = list_ex (\<lambda>(_, row). cp_blob row = c) (ct_capsules ts)"

definition quarantine_name :: "'key vault_context \<Rightarrow> string \<Rightarrow> string \<Rightarrow> blob_name" where
  "quarantine_name x ending c =
     (take 2 (drop 7 c), drop 7 c @ ''.blob.expired-'' @ int_string (vc_pid x) @ ''-'' @ ending)"

text \<open>The latest revisions that have the content at hand, by trajectory.\<close>

definition latest_revision :: "capsule_key \<Rightarrow> 'a capsule_tables_scheme \<Rightarrow> bool" where
  "latest_revision k ts = list_all (\<lambda>((t, r), _). t = fst k \<longrightarrow> r \<le> snd k) (ct_capsules ts)"

definition affected_capsules :: "string \<Rightarrow> 'a capsule_tables_scheme \<Rightarrow> (capsule_key \<times> capsule_row) list" where
  "affected_capsules c ts = sort_by (\<lambda>((t, _), _) ((t', _), _). \<not> sql_less t' t)
     (filter (\<lambda>(k, _). latest_revision k ts \<and> map_of (ct_refs ts) (k, c) = Some True) (ct_capsules ts))"

definition record_revision ::
  "'key vault_context \<Rightarrow> int \<Rightarrow> string \<Rightarrow> capsule_key \<Rightarrow> (string \<times> json) list \<Rightarrow> string \<Rightarrow> 'a capsule_tables_scheme
     \<Rightarrow> (capsule_error, unit) result \<times> 'a capsule_tables_scheme" where
  "record_revision x now createdAt k kvs blob ts =
     (let hash = (case map_of kvs ''capsuleHash'' of Some (JStr s) \<Rightarrow> s | _ \<Rightarrow> []) in
      case recordCapsule (vc_host x) now (fst k) (snd k + 1) hash blob ts of
        (Inl e, ts1) \<Rightarrow> (Inl e, ts1)
      | (Inr _, ts1) \<Rightarrow>
          let ts2 = recordCapsuleContentRefs (fst k) (snd k + 1) (JObj kvs) ts1 in
          (Inr (), ts2\<lparr>ct_queue := insert_ignore (fst k, snd k + 1) \<lparr>qu_blob = blob, qu_createdAt = createdAt\<rparr> (ct_queue ts2)\<rparr>))"

definition in_batch :: "('t vault \<Rightarrow> 't vault) \<Rightarrow> 't batch \<Rightarrow> 't batch" where
  "in_batch f b = b\<lparr>ba_vault := f (ba_vault b)\<rparr>"

definition next_step :: "'t batch \<Rightarrow> 't batch" where
  "next_step b = b\<lparr>ba_step := Suc (ba_step b)\<rparr>"

text \<open>Only an object has an index that can name the content.\<close>

definition revise_one ::
  "'key vault_context \<Rightarrow> ('a capsule_tables_scheme) retention_world \<Rightarrow> string \<Rightarrow> string \<Rightarrow> capsule_key \<times> capsule_row
     \<Rightarrow> ('a capsule_tables_scheme) batch \<Rightarrow> (capsule_error, unit) result \<times> ('a capsule_tables_scheme) batch" where
  "revise_one x w createdAt c kr b =
     (let n = ba_step b; row = snd kr; b1 = next_step (in_batch (rw_mw w n 0) b) in
      case read_json x (cp_blob row) (ba_vault b) of
        Inl e \<Rightarrow> (Inl e, b1)
      | Inr JNull \<Rightarrow> (Inl CapsuleUndecodable, b1)
      | Inr (JObj kvs) \<Rightarrow>
          if \<not> list_ex (\<lambda>item. refers_to c item \<and> available_locally item) (array_member (JObj kvs) ''contentIndex'') then (Inr (), b1)
          else let revised = revised_capsule x c (snd (fst kr)) (cp_hash row) createdAt kvs in
          (case putBlob x (rw_io w n) (\<lambda>k. rw_mw w n (Suc k)) (stringify (JObj revised)) ''trajectory-capsule'' (ba_vault b1) of
             (Inl e, v) \<Rightarrow> (Inl (CapsuleBlobFailed e), b1\<lparr>ba_vault := v\<rparr>)
           | (Inr (blob, new), v) \<Rightarrow>
               (case record_revision x (rw_now w n) createdAt (fst kr) revised blob (va_tables v) of (r, ts) \<Rightarrow>
                  (r, b1\<lparr>ba_vault := v\<lparr>va_tables := ts\<rparr>, ba_made := ba_made b1 @ (if new then [blob] else [])\<rparr>)))
      | Inr _ \<Rightarrow> (Inr (), b1))"

fun each_in :: "('i \<Rightarrow> 's \<Rightarrow> ('e, unit) result \<times> 's) \<Rightarrow> 'i list \<Rightarrow> 's \<Rightarrow> ('e, unit) result \<times> 's" where
  "each_in f [] s = (Inr (), s)"
| "each_in f (i # rest) s = and_then (f i) (\<lambda>_. each_in f rest) s"

definition delete_raw ::
  "(string \<times> string) list \<Rightarrow> string \<Rightarrow> 'a capsule_tables_scheme \<Rightarrow> (capsule_error, unit) result \<times> 'a capsule_tables_scheme" where
  "delete_raw ks c ts =
     (if capsule_holds c ts \<or> offer_pins ks c ts then (Inl RawEvidenceChanged, ts)
      else case delete_blob ks raw_kind c ts of
        (Inl e, ts1) \<Rightarrow> (Inl e, ts1)
      | (Inr gone, ts1) \<Rightarrow> (if gone then Inr () else Inl RawEvidenceChanged, ts1))"

text \<open>The file is set aside first: a row is never deleted before its file has another name.\<close>

definition set_aside ::
  "'key vault_context \<Rightarrow> ('a capsule_tables_scheme) retention_world \<Rightarrow> string
     \<Rightarrow> ('a capsule_tables_scheme) batch \<Rightarrow> (capsule_error, unit) result \<times> ('a capsule_tables_scheme) batch" where
  "set_aside x w c b =
     (let n = ba_step b; q = quarantine_name x (rw_suffix w n) c in
      case blobPath c of None \<Rightarrow> (Inl (CapsuleBlobFailed InvalidContentId), b)
      | Some path \<Rightarrow>
          if \<not> rw_renames w n \<or> va_files (ba_vault b) path = None then (Inl QuarantineFailed, next_step (in_batch (rw_mw w n 0) b))
          else (Inr (), next_step (in_batch (\<lambda>v. rw_mw w n 0 (move_file path q v)) (b\<lparr>ba_aside := ba_aside b @ [(c, q)]\<rparr>))))"

definition delete_step ::
  "(string \<times> string) list \<Rightarrow> string \<Rightarrow> ('a capsule_tables_scheme) batch \<Rightarrow> (capsule_error, unit) result \<times> ('a capsule_tables_scheme) batch" where
  "delete_step ks c b2 = (case delete_raw ks c (va_tables (ba_vault b2)) of (r, ts) \<Rightarrow>
     (r, b2\<lparr>ba_vault := (ba_vault b2)\<lparr>va_tables := ts\<rparr>,
            ba_deleted := (if r = Inr () then Suc (ba_deleted b2) else ba_deleted b2)\<rparr>))"

definition expire_one ::
  "'key vault_context \<Rightarrow> ('a capsule_tables_scheme) retention_world \<Rightarrow> (string \<times> string) list \<Rightarrow> string \<Rightarrow> string
     \<Rightarrow> ('a capsule_tables_scheme) batch \<Rightarrow> (capsule_error, unit) result \<times> ('a capsule_tables_scheme) batch" where
  "expire_one x w ks createdAt c b =
     (if offer_pins ks c (va_tables (ba_vault b)) then (Inr (), b)
      else and_then (set_aside x w c)
        (\<lambda>_ b1. and_then (each_in (revise_one x w createdAt c) (affected_capsules c (va_tables (ba_vault b1))))
          (\<lambda>_. delete_step ks c) b1) b)"

text \<open>A failed batch is rolled back: its capsule files are removed and the files set aside are renamed
  back where that works.\<close>

definition put_back :: "string \<times> blob_name \<Rightarrow> 't vault \<Rightarrow> 't vault" where
  "put_back cq v = (case blobPath (fst cq) of None \<Rightarrow> v
     | Some path \<Rightarrow> if va_files v (snd cq) = None then v else move_file (snd cq) path v)"

definition undo_batch :: "'t \<Rightarrow> 't batch \<Rightarrow> 't vault" where
  "undo_batch ts b = fold put_back (ba_aside b) (fold remove_blob_file (ba_made b) ((ba_vault b)\<lparr>va_tables := ts\<rparr>))"

definition drop_aside :: "'t retention_world \<Rightarrow> nat \<Rightarrow> (string \<times> blob_name) list \<Rightarrow> 't vault \<Rightarrow> 't vault" where
  "drop_aside w n aside v = fold (\<lambda>cq v. rw_mw w n 0 (write_file (snd cq) None v)) aside v"

definition expireRawEvidenceBatch ::
  "'key vault_context \<Rightarrow> ('a capsule_tables_scheme) retention_world \<Rightarrow> (string \<times> string) list \<Rightarrow> string list \<Rightarrow> string
     \<Rightarrow> nat \<Rightarrow> 'a capsule_tables_scheme vault \<Rightarrow> (capsule_error, nat) result \<times> nat \<times> 'a capsule_tables_scheme vault" where
  "expireRawEvidenceBatch x w ks contentIds createdAt n v =
     (if rw_open w n then (Inl CapsuleTransactionOpen, Suc n, v)
      else case each_in (expire_one x w ks createdAt) contentIds
          \<lparr>ba_vault = v, ba_step = Suc n, ba_aside = [], ba_made = [], ba_deleted = 0\<rparr> of
        (Inl e, b) \<Rightarrow> (Inl e, Suc (ba_step b), rw_mw w (ba_step b) 0 (undo_batch (va_tables v) b))
      | (Inr _, b) \<Rightarrow>
          if \<not> rw_commits w n then (Inl CommitFailed, Suc (ba_step b), rw_mw w (ba_step b) 0 (undo_batch (va_tables v) b))
          else (Inr (ba_deleted b), Suc (ba_step b), drop_aside w (ba_step b) (ba_aside b) (ba_vault b)))"

subsection \<open>The loop\<close>

definition expired :: "(string \<times> string) list \<Rightarrow> string \<Rightarrow> 'a capsule_tables_scheme \<Rightarrow> string \<Rightarrow> bool" where
  "expired ks cutoff ts c = (case bt_blobs ts c of None \<Rightarrow> False | Some row \<Rightarrow>
     raw_kind (br_kind row) \<and> sql_less (br_createdAt row) cutoff \<and> \<not> capsule_holds c ts \<and> \<not> offer_pins ks c ts)"

text \<open>\<open>ids\<close> lists the content identifiers of the table.\<close>

definition created_of :: "'a blob_tables_scheme \<Rightarrow> string \<Rightarrow> string" where
  "created_of ts c = (case bt_blobs ts c of None \<Rightarrow> [] | Some row \<Rightarrow> br_createdAt row)"

definition expired_rows :: "(string \<times> string) list \<Rightarrow> string list \<Rightarrow> string \<Rightarrow> nat \<Rightarrow> 'a capsule_tables_scheme \<Rightarrow> string list" where
  "expired_rows ks ids cutoff limit ts = take limit
     (sort_by (\<lambda>c d. sql_less (created_of ts c) (created_of ts d)
          \<or> created_of ts c = created_of ts d \<and> \<not> sql_less d c) (filter (expired ks cutoff ts) ids))"

partial_function (option) retention_loop ::
  "'key vault_context \<Rightarrow> ('a capsule_tables_scheme) retention_world \<Rightarrow> (string \<times> string) list \<Rightarrow> string list \<Rightarrow> string
     \<Rightarrow> nat \<Rightarrow> string \<Rightarrow> nat \<Rightarrow> nat \<Rightarrow> nat \<Rightarrow> 'a capsule_tables_scheme vault
     \<Rightarrow> ((capsule_error, nat \<times> nat) result \<times> 'a capsule_tables_scheme vault) option" where
  "retention_loop x w ks ids cutoff limit createdAt examined deleted n v =
     (let batch = expired_rows ks ids cutoff limit (va_tables v) in
      if batch = [] then Some (Inr (examined, deleted), v)
      else case expireRawEvidenceBatch x w ks batch createdAt n v of
        (Inl e, _, v1) \<Rightarrow> Some (Inl e, v1)
      | (Inr d, m, v1) \<Rightarrow> retention_loop x w ks ids cutoff limit createdAt (examined + length batch) (deleted + d) m v1)"

text \<open>\<open>None\<close> is a run that never returns; \<open>entries\<close> are the directory entries that the recovery walks
  over, and \<open>now\<close> the finite time of the run.\<close>

definition enforceRawEvidenceRetention ::
  "'key vault_context \<Rightarrow> ('a capsule_tables_scheme) retention_world \<Rightarrow> (string \<times> string) list \<Rightarrow> string list \<Rightarrow> (string \<Rightarrow> bool)
     \<Rightarrow> blob_name list \<Rightarrow> int option \<Rightarrow> int option \<Rightarrow> int \<Rightarrow> 'a capsule_tables_scheme vault
     \<Rightarrow> ((capsule_error, nat \<times> nat \<times> string) result \<times> 'a capsule_tables_scheme vault) option" where
  "enforceRawEvidenceRetention x w ks ids alive entries retentionDays limit now v =
     (let days = (case retentionDays of None \<Rightarrow> 30 | Some d \<Rightarrow> d); most = (case limit of None \<Rightarrow> 10000 | Some l \<Rightarrow> l) in
      if days < 1 \<or> 3650 < days \<or> most < 1 \<or> 10000 < most then Some (Inl RetentionInvalid, v)
      else let cutoff = isoString (vc_host x) (now - days * 86400000);
               v1 = rw_mw w 0 0 (recoverUnindexedBlobs alive entries v) in
      case backfillCapsuleContentRefs x (\<lambda>k. rw_mw w 0 (Suc k)) v1 of
        (Inl e, v2) \<Rightarrow> Some (Inl e, v2)
      | (Inr _, v2) \<Rightarrow> map_option (\<lambda>(r, v3). (map_sum id (\<lambda>(examined, deleted). (examined, deleted, cutoff)) r, v3))
          (retention_loop x w ks ids cutoff (nat most) (isoString (vc_host x) now) 0 0 1 v2))"


subsection \<open>Nothing expires again\<close>

text \<open>While a run waits, the rest of the program makes no row expire: the rows it adds are new, and it
  removes no capsule or offer that holds an expired row.\<close>

definition settled_world :: "(string \<times> string) list \<Rightarrow> ('a capsule_tables_scheme) retention_world \<Rightarrow> bool" where
  "settled_world ks w = (\<forall>n k v cutoff c.
     expired ks cutoff (va_tables (rw_mw w n k v)) c \<longrightarrow> expired ks cutoff (va_tables v) c)"

definition fresh_of :: "(string \<times> string) list \<Rightarrow> string \<Rightarrow> string \<Rightarrow> ('a capsule_tables_scheme) batch \<Rightarrow> bool" where
  "fresh_of ks cutoff c b = (\<not> expired ks cutoff (va_tables (ba_vault b)) c)"

lemma settled_mw: "settled_world ks w \<Longrightarrow> \<not> expired ks cutoff (va_tables v) c \<Longrightarrow> \<not> expired ks cutoff (va_tables (rw_mw w n k v)) c"
  unfolding settled_world_def by blast

lemma expired_index:
  fixes v :: "'a capsule_tables_scheme vault"
  assumes "expired ks cutoff (va_tables (index_blob d row v)) c" "\<not> raw_kind (br_kind row)"
  shows "expired ks cutoff (va_tables v) c"
  using assms by (auto simp: expired_def index_blob_def capsule_holds_def offer_pins_def split: option.splits if_splits)

lemma expired_publish:
  assumes "publish x io d path t n ''trajectory-capsule'' v = (r, v')" "expired ks cutoff (va_tables v') c"
  shows "expired ks cutoff (va_tables v) c"
  using assms expired_index [of ks cutoff d "blob_row_of x io n ''trajectory-capsule''" v c]
  by (auto simp: publish_def blob_row_of_def raw_kind_def split: if_splits)

lemma expired_put:
  assumes "settled_world ks w" "putBlob x io (\<lambda>k. rw_mw w n (f k)) t ''trajectory-capsule'' v = (r, v')"
    and "expired ks cutoff (va_tables v') c"
  shows "expired ks cutoff (va_tables v) c"
  using assms(2)
proof (cases rule: putBlob_cases)
  case (written path v1 r1 v2)
  then show ?thesis using assms(1,3) expired_publish [OF written(3)] settled_mw by (metis write_file_simps(1))
qed (use assms(3) in auto)

lemma expired_record:
  assumes "record_revision x now createdAt k kvs blob ts = (r, ts')" "expired ks cutoff ts' c"
  shows "expired ks cutoff ts c"
  using assms by (auto simp: record_revision_def recordCapsule_def recordCapsuleContentRefs_def expired_def capsule_holds_def
      offer_pins_def Let_def split: option.splits if_splits json.splits)

lemma each_in_fun: "each_in f [] = lift_result (Inr ())" "each_in f (i # xs) = and_then (f i) (\<lambda>_. each_in f xs)"
  by (simp_all add: fun_eq_iff lift_result_def)

lemma keeps_each_in: "(\<And>i. keeps I (f i)) \<Longrightarrow> keeps I (each_in f xs)"
  by (induction xs) (simp_all add: each_in_fun keeps_and_then keeps_lift)

lemma batch_simps [simp]: "ba_vault (in_batch f b) = f (ba_vault b)" "ba_vault (next_step b) = ba_vault b"
  "ba_aside (in_batch f b) = ba_aside b" "ba_made (in_batch f b) = ba_made b"
  "ba_aside (next_step b) = ba_aside b" "ba_made (next_step b) = ba_made b"
  by (simp_all add: in_batch_def next_step_def)

lemma revise_one_cases:
  assumes "revise_one x w createdAt c kr b = (r, b')"
  obtains (seen) "b' = next_step (in_batch (rw_mw w (ba_step b) 0) b)"
  | (unstored) t e v where "putBlob x (rw_io w (ba_step b)) (\<lambda>k. rw_mw w (ba_step b) (Suc k)) t ''trajectory-capsule''
        (rw_mw w (ba_step b) 0 (ba_vault b)) = (Inl e, v)"
      "b' = (next_step (in_batch (rw_mw w (ba_step b) 0) b))\<lparr>ba_vault := v\<rparr>"
  | (stored) t blob new v kvs ts where "putBlob x (rw_io w (ba_step b)) (\<lambda>k. rw_mw w (ba_step b) (Suc k)) t ''trajectory-capsule''
        (rw_mw w (ba_step b) 0 (ba_vault b)) = (Inr (blob, new), v)"
      "record_revision x (rw_now w (ba_step b)) createdAt (fst kr) kvs blob (va_tables v) = (r, ts)"
      "b' = (next_step (in_batch (rw_mw w (ba_step b) 0) b))\<lparr>ba_vault := v\<lparr>va_tables := ts\<rparr>,
         ba_made := ba_made b @ (if new then [blob] else [])\<rparr>"
proof (cases "read_json x (cp_blob (snd kr)) (ba_vault b)")
  case (Inl e)
  with assms show ?thesis by (intro seen) (simp add: revise_one_def Let_def)
next
  case (Inr j)
  show ?thesis
  proof (cases j)
    case (JObj kvs)
    note run = assms [unfolded revise_one_def Let_def Inr JObj sum.case json.case]
    show ?thesis
    proof (cases "list_ex (\<lambda>item. refers_to c item \<and> available_locally item) (array_member (JObj kvs) ''contentIndex'')")
      case False
      with run show ?thesis by (intro seen) simp
    next
      case True
      let ?t = "stringify (JObj (revised_capsule x c (snd (fst kr)) (cp_hash (snd kr)) createdAt kvs))"
      obtain r1 v where put: "putBlob x (rw_io w (ba_step b)) (\<lambda>k. rw_mw w (ba_step b) (Suc k)) ?t ''trajectory-capsule''
        (rw_mw w (ba_step b) 0 (ba_vault b)) = (r1, v)" by fastforce
      show ?thesis
      proof (cases r1)
        case (Inl e)
        with run True put show ?thesis by (intro unstored [of ?t e v]) simp_all
      next
        case (Inr p)
        obtain blob new where p: "p = (blob, new)" by fastforce
        obtain r2 ts where rec: "record_revision x (rw_now w (ba_step b)) createdAt (fst kr)
            (revised_capsule x c (snd (fst kr)) (cp_hash (snd kr)) createdAt kvs) blob (va_tables v) = (r2, ts)" by fastforce
        with run True put Inr p have "r2 = r" "b' = (next_step (in_batch (rw_mw w (ba_step b) 0) b))\<lparr>ba_vault := v\<lparr>va_tables := ts\<rparr>,
         ba_made := ba_made b @ (if new then [blob] else [])\<rparr>" by simp_all
        with put rec Inr p show ?thesis by (intro stored) simp_all
      qed
    qed
  qed (use assms Inr in \<open>intro seen, simp add: revise_one_def Let_def\<close>)+
qed

lemma keepsI: "(\<And>s r s'. m s = (r, s') \<Longrightarrow> I s \<Longrightarrow> I s') \<Longrightarrow> keeps I m"
  unfolding keeps_def by (metis prod.collapse)

lemma fresh_revise_one:
  assumes w: "settled_world ks w"
  shows "keeps (fresh_of ks cutoff c) (revise_one x w createdAt d kr)"
proof (rule keepsI)
  fix b r b' assume run: "revise_one x w createdAt d kr b = (r, b')" and fresh: "fresh_of ks cutoff c b"
  note before = settled_mw [OF w fresh [unfolded fresh_of_def]]
  from run show "fresh_of ks cutoff c b'"
  proof (cases rule: revise_one_cases)
    case (unstored t e v)
    with before expired_put [OF w unstored(1), of cutoff c] show ?thesis by (auto simp: fresh_of_def)
  next
    case (stored t blob new v kvs ts)
    with before expired_put [OF w stored(1), of cutoff c] expired_record [OF stored(2), of ks cutoff c] show ?thesis
      by (auto simp: fresh_of_def)
  qed (use before in \<open>simp add: fresh_of_def\<close>)
qed

lemma expired_delete:
  assumes "delete_raw ks d ts = (r, ts')"
  shows "expired ks cutoff ts' c \<Longrightarrow> expired ks cutoff ts c" and "r = Inr () \<Longrightarrow> \<not> expired ks cutoff ts' d"
  using assms
  by (auto simp: delete_raw_def delete_blob_def expired_def capsule_holds_def offer_pins_def split: option.splits if_splits)

lemma fresh_set_aside: "settled_world ks w \<Longrightarrow> keeps (fresh_of ks cutoff c) (set_aside x w d)"
  unfolding keeps_def fresh_of_def set_aside_def Let_def using settled_mw [of ks w cutoff]
  by (auto split: option.split)

lemma fresh_delete_step: "keeps (fresh_of ks cutoff c) (delete_step ks d)"
  by (rule keepsI) (auto simp: delete_step_def fresh_of_def dest: expired_delete(1) split: prod.splits)

lemma fresh_expire_one:
  assumes w: "settled_world ks w"
  shows "keeps (fresh_of ks cutoff c) (expire_one x w ks createdAt d)"
proof -
  have "keeps (fresh_of ks cutoff c) (\<lambda>b1. and_then (each_in (revise_one x w createdAt d) (kr b1)) (\<lambda>_. delete_step ks d) b1)" for kr
    unfolding keeps_def
    by (intro allI impI, rule keepsD [OF keeps_and_then [OF keeps_each_in]]) (rule fresh_revise_one [OF w] fresh_delete_step, assumption?)+
  then have "keeps (fresh_of ks cutoff c) (and_then (set_aside x w d)
      (\<lambda>_ b1. and_then (each_in (revise_one x w createdAt d) (kr b1)) (\<lambda>_. delete_step ks d) b1))" for kr
    by (intro keeps_and_then fresh_set_aside [OF w])
  then show ?thesis by (auto simp: keeps_def expire_one_def)
qed

text \<open>A batch that succeeds has nothing left of what it was given.\<close>

lemma expire_one_done:
  assumes "expire_one x w ks createdAt c b = (Inr (), b')"
  shows "fresh_of ks cutoff c b'"
proof (cases "offer_pins ks c (va_tables (ba_vault b))")
  case True
  with assms have "b' = b" by (simp add: expire_one_def)
  with True show ?thesis by (auto simp: fresh_of_def expired_def split: option.split)
next
  case False
  with assms obtain b2 where "delete_step ks c b2 = (Inr (), b')" by (auto simp: expire_one_def and_then_ok)
  then obtain ts where "delete_raw ks c (va_tables (ba_vault b2)) = (Inr (), ts)" "va_tables (ba_vault b') = ts"
    by (auto simp: delete_step_def split: prod.splits)
  with expired_delete(2) [OF this(1) refl] show ?thesis by (simp add: fresh_of_def)
qed

lemma batch_done:
  assumes w: "settled_world ks w" and "each_in (expire_one x w ks createdAt) cs b = (Inr (), b')" "c \<in> set cs"
  shows "fresh_of ks cutoff c b'"
  using assms(2,3)
proof (induction cs arbitrary: b)
  case (Cons d cs)
  then obtain b1 where one: "expire_one x w ks createdAt d b = (Inr (), b1)"
      and rest: "each_in (expire_one x w ks createdAt) cs b1 = (Inr (), b')" by (auto simp: and_then_ok)
  show ?case
  proof (cases "c = d")
    case True
    with expire_one_done [OF one] have "fresh_of ks cutoff c b1" by simp
    from keeps_run [OF keeps_each_in [OF fresh_expire_one [OF w]] this rest] show ?thesis .
  qed (use Cons.IH [OF rest] Cons.prems(2) in simp)
qed simp

lemma drop_aside_fresh:
  assumes "settled_world ks w" "\<not> expired ks cutoff (va_tables v) c"
  shows "\<not> expired ks cutoff (va_tables (drop_aside w n aside v)) c"
  using assms(2) unfolding drop_aside_def by (induction aside arbitrary: v) (simp_all add: settled_mw [OF assms(1)])

lemma expire_batch_fresh:
  assumes w: "settled_world ks w" and run: "expireRawEvidenceBatch x w ks cs createdAt n v = (Inr d, m, v')"
  shows "\<not> expired ks cutoff (va_tables v) c \<Longrightarrow> \<not> expired ks cutoff (va_tables v') c"
    and "c \<in> set cs \<Longrightarrow> \<not> expired ks cutoff (va_tables v') c"
proof -
  let ?b0 = "\<lparr>ba_vault = v, ba_step = Suc n, ba_aside = [], ba_made = [], ba_deleted = 0\<rparr>"
  obtain r b where each: "each_in (expire_one x w ks createdAt) cs ?b0 = (r, b)" by (rule prod.exhaust)
  have "\<not> rw_open w n" using run by (auto simp: expireRawEvidenceBatch_def)
  with run each have b: "each_in (expire_one x w ks createdAt) cs ?b0 = (Inr (), b)"
      and v': "v' = drop_aside w (ba_step b) (ba_aside b) (ba_vault b)"
    by (cases r; simp add: expireRawEvidenceBatch_def split: if_splits)+
  show "\<not> expired ks cutoff (va_tables v') c" if "\<not> expired ks cutoff (va_tables v) c"
    using keeps_run [OF keeps_each_in [OF fresh_expire_one [OF w]] _ b, of cutoff c] that drop_aside_fresh [OF w]
    by (simp add: fresh_of_def v')
  show "\<not> expired ks cutoff (va_tables v') c" if "c \<in> set cs"
    using batch_done [OF w b that, of cutoff] drop_aside_fresh [OF w] by (simp add: fresh_of_def v')
qed

lemma sort_by_Nil [simp]: "sort_by le xs = [] \<longleftrightarrow> xs = []"
  by (metis set_empty set_sort_by)

lemma expired_rows_props:
  "set (expired_rows ks ids cutoff limit ts) \<subseteq> {c \<in> set ids. expired ks cutoff ts c}"
  "0 < limit \<Longrightarrow> expired_rows ks ids cutoff limit ts = [] \<longleftrightarrow> (\<forall>c \<in> set ids. \<not> expired ks cutoff ts c)"
proof -
  let ?s = "sort_by (\<lambda>c d. sql_less (created_of ts c) (created_of ts d)
          \<or> created_of ts c = created_of ts d \<and> \<not> sql_less d c) (filter (expired ks cutoff ts) ids)"
  have set: "set ?s = {c \<in> set ids. expired ks cutoff ts c}" by simp
  then show "set (expired_rows ks ids cutoff limit ts) \<subseteq> {c \<in> set ids. expired ks cutoff ts c}"
    unfolding expired_rows_def using set_take_subset [of limit ?s] by auto
  have "0 < limit \<Longrightarrow> take limit ?s = [] \<longleftrightarrow> set ?s = {}" by (simp del: sort_by_Nil set_sort_by)
  then show "0 < limit \<Longrightarrow> expired_rows ks ids cutoff limit ts = [] \<longleftrightarrow> (\<forall>c \<in> set ids. \<not> expired ks cutoff ts c)"
    unfolding expired_rows_def set by blast
qed

lemma retention_loop_returns:
  assumes w: "settled_world ks w" and "0 < limit"
  shows "\<exists>r v'. retention_loop x w ks ids cutoff limit createdAt examined deleted n v = Some (r, v')
    \<and> (\<forall>p. r = Inr p \<longrightarrow> (\<forall>c \<in> set ids. \<not> expired ks cutoff (va_tables v') c))"
proof (induction "card {c \<in> set ids. expired ks cutoff (va_tables v) c}" arbitrary: examined deleted n v rule: less_induct)
  case less
  let ?rows = "expired_rows ks ids cutoff limit (va_tables v)"
  show ?case
  proof (cases "?rows = []")
    case True
    with expired_rows_props(2) [OF assms(2), of ks ids cutoff "va_tables v"] show ?thesis by (subst retention_loop.simps) auto
  next
    case False
    obtain r m v1 where run: "expireRawEvidenceBatch x w ks ?rows createdAt n v = (r, m, v1)" by (metis prod_cases3)
    show ?thesis
    proof (cases r)
      case (Inl e)
      with False run show ?thesis by (subst retention_loop.simps) simp
    next
      case (Inr d)
      note fresh = expire_batch_fresh [OF w run [unfolded Inr]]
      from False obtain c where c: "c \<in> set ?rows" by (cases ?rows) auto
      have "{c \<in> set ids. expired ks cutoff (va_tables v1) c} \<subset> {c \<in> set ids. expired ks cutoff (va_tables v) c}"
        using fresh c expired_rows_props(1) [of ks ids cutoff limit "va_tables v"] by blast
      then have "card {c \<in> set ids. expired ks cutoff (va_tables v1) c} < card {c \<in> set ids. expired ks cutoff (va_tables v) c}"
        by (rule psubset_card_mono [rotated]) simp
      from less [OF this] False run Inr show ?thesis by (subst retention_loop.simps) simp
    qed
  qed
qed


subsection \<open>Crashes and failures of a batch\<close>

definition named_by_content :: "'key vault_context \<Rightarrow> 't vault \<Rightarrow> bool" where
  "named_by_content x v = (\<forall>c n e. is_digest c \<longrightarrow> stored_at c n \<longrightarrow> va_files v n = Some e \<longrightarrow> holds_content x c e)"

definition has_file :: "'t vault \<Rightarrow> string \<Rightarrow> bool" where
  "has_file v c = (is_digest c \<and> (\<exists>n. stored_at c n \<and> va_files v n \<noteq> None))"

text \<open>Every blob file has the content of its name, and the content of \<open>I\<close> and of every row has a file.\<close>

definition safe :: "'key vault_context \<Rightarrow> string set \<Rightarrow> 'a blob_tables_scheme vault \<Rightarrow> bool" where
  "safe x I v = (named_by_content x v \<and> (\<forall>c. c \<in> I \<or> bt_blobs (va_tables v) c \<noteq> None \<longrightarrow> has_file v c))"

lemma safe_recoverable: "safe x I v \<Longrightarrow> {c. bt_blobs ts c \<noteq> None} \<subseteq> I \<Longrightarrow> recoverable x (v\<lparr>va_tables := ts\<rparr>)"
  unfolding safe_def recoverable_def named_by_content_def has_file_def by auto

lemma int_string_first: "\<exists>d ds. int_string i = d # ds \<and> d \<noteq> CHR ''e''"
proof -
  have "\<exists>d ds. nat_string n = d # ds \<and> is_digit d" for n
    using nat_string_digits [of n] by (cases "nat_string n") auto
  moreover have "\<not> is_digit (CHR ''e'')" by (simp add: is_digit_def)
  ultimately have "\<exists>d ds. nat_string n = d # ds \<and> d \<noteq> CHR ''e''" for n by blast
  then show ?thesis by (simp add: int_string_def)
qed

lemma temporary_not_stored: "\<not> stored_at c (temporary_of x io path)" if "blobPath d = Some path"
proof -
  have "blobPath c \<noteq> Some (temporary_of x io path)" using temporary_not_final [OF _ that] by blast
  moreover have "\<not> quarantine_of c (temporary_of x io path)"
  proof -
    from blobPath_name(1) [OF that] have len: "length (snd path) = 69" "drop 64 (snd path) = ''.blob''"
      using blobPath_length [OF that] by (auto simp: final_digest_def split: if_splits)
    then have "drop 64 (snd (temporary_of x io path)) = ''.blob'' @ ''.'' @ int_string (vc_pid x) @ ''.'' @ io_suffix io @ ''.tmp''"
      by (simp add: temporary_of_def)
    moreover from int_string_first obtain d ds where "int_string (vc_pid x) = d # ds" "d \<noteq> CHR ''e''" by blast
    ultimately have "\<not> starts_with (drop 64 (snd (temporary_of x io path))) ''.blob.expired-''"
      by (auto simp: starts_with_iff)
    then show ?thesis by (auto simp: quarantine_of_def quarantine_digest_def)
  qed
  ultimately show ?thesis by (simp add: stored_at_def)
qed

lemma quarantine_of_name:
  assumes "is_digest c"
  shows "quarantine_of c (quarantine_name x ending c)"
proof -
  note parts = digest_parts [OF assms]
  have "list_all is_lower_hex (take 2 (drop 7 c))" using parts(3) by (metis append_take_drop_id list_all_append)
  moreover from int_string_first obtain d ds where "int_string (vc_pid x) = d # ds" by blast
  ultimately show ?thesis using parts(2,3)
    by (simp add: quarantine_of_def quarantine_name_def is_blob_name_def quarantine_digest_def starts_with_def)
qed

lemma stored_at_quarantine:
  assumes "is_digest c" "is_digest d" "stored_at d (quarantine_name x ending c)"
  shows "d = c"
proof -
  note q = quarantine_of_name [OF assms(1), of x ending]
  then have "quarantine_digest (snd (quarantine_name x ending c)) = Some (drop 7 c)" by (simp add: quarantine_of_def)
  with quarantine_not_final [of "quarantine_name x ending c" d] assms(3)
  have "drop 7 d = drop 7 c" by (auto simp: stored_at_def quarantine_of_def)
  with digest_parts(1) assms(1,2) show ?thesis by metis
qed

lemma stored_at_path:
  assumes "is_digest d" "blobPath c = Some path" "stored_at d path"
  shows "d = c"
proof -
  have "quarantine_digest (snd path) = None"
    using quarantine_not_final [of path c] assms(2) by blast
  with stored_at_final assms(3) have "blobPath d = Some path" by blast
  with assms(2) show ?thesis by (rule blobPath_inj [rotated])
qed

lemma safe_write_other:
  assumes "safe x I v" "\<And>c. is_digest c \<Longrightarrow> \<not> stored_at c n"
  shows "safe x I (write_file n e v)"
proof -
  have same: "va_files (write_file n e v) m = va_files v m" if "is_digest c" "stored_at c m" for c m
    using assms(2) that by (cases "m = n") auto
  have "named_by_content x (write_file n e v)"
    using assms(1) same unfolding safe_def named_by_content_def by metis
  moreover have "has_file v c \<Longrightarrow> has_file (write_file n e v) c" for c
    using same unfolding has_file_def by metis
  ultimately show ?thesis using assms(1) by (auto simp: safe_def)
qed

text \<open>A file of content \<open>c\<close> moves between two names of \<open>c\<close>.\<close>

lemma safe_move:
  assumes safe: "safe x I v" and c: "is_digest c" "stored_at c n" "stored_at c m" "va_files v n \<noteq> None" "n \<noteq> m"
    and only: "\<And>d. is_digest d \<Longrightarrow> stored_at d n \<Longrightarrow> d = c" "\<And>d. is_digest d \<Longrightarrow> stored_at d m \<Longrightarrow> d = c"
  shows "safe x I (move_file n m v)"
proof -
  from safe have named: "named_by_content x v" by (simp add: safe_def)
  have "named_by_content x (move_file n m v)" unfolding named_by_content_def
  proof (intro allI impI)
    fix d k e assume d: "is_digest d" "stored_at d k" "va_files (move_file n m v) k = Some e"
    show "holds_content x d e"
    proof (cases "k = m")
      case True
      with d only(2) have "d = c" "va_files v n = Some e" using c(5) by auto
      with named c(1,2) show ?thesis unfolding named_by_content_def by blast
    next
      case False
      with d(3) have "va_files v k = Some e" by (simp split: if_splits)
      with d(1,2) named show ?thesis unfolding named_by_content_def by blast
    qed
  qed
  moreover have "has_file (move_file n m v) d" if "has_file v d" for d
  proof (cases "d = c")
    case True
    have "va_files (move_file n m v) m \<noteq> None" using c(4,5) by simp
    with True c(1,3) show ?thesis unfolding has_file_def by blast
  next
    case False
    with that only show ?thesis unfolding has_file_def by (metis fun_upd_other move_file_simps(2))
  qed
  ultimately show ?thesis using safe by (auto simp: safe_def)
qed

subsection \<open>What the rest of the program may do meanwhile\<close>

definition careful_world :: "'key vault_context \<Rightarrow> string set \<Rightarrow> ('a capsule_tables_scheme) retention_world \<Rightarrow> bool" where
  "careful_world x I w = (\<forall>n k v.
     (safe x I v \<longrightarrow> safe x I (rw_mw w n k v))
     \<and> (\<forall>path. va_files (rw_mw w n k v) (temporary_of x (rw_io w n) path) = va_files v (temporary_of x (rw_io w n) path))
     \<and> (\<forall>m c. va_files (rw_mw w n k v) (quarantine_name x (rw_suffix w m) c) = va_files v (quarantine_name x (rw_suffix w m) c))
     \<and> (\<forall>c \<in> I. bt_blobs (va_tables v) c \<noteq> None \<longrightarrow> bt_blobs (va_tables (rw_mw w n k v)) c \<noteq> None))"

text \<open>Content of \<open>I\<close> that has lost its row has been set aside, and its file is still there.\<close>

definition aside_ok :: "'key vault_context \<Rightarrow> ('a capsule_tables_scheme) retention_world \<Rightarrow> (string \<times> blob_name) list
    \<Rightarrow> 'a capsule_tables_scheme vault \<Rightarrow> bool" where
  "aside_ok x w aside v = (\<forall>c q. (c, q) \<in> set aside \<longrightarrow>
     is_digest c \<and> (\<exists>m. q = quarantine_name x (rw_suffix w m) c) \<and> va_files v q \<noteq> None)"

lemma aside_ok_same:
  assumes "aside_ok x w aside v"
    and "\<And>c m. is_digest c \<Longrightarrow> va_files v' (quarantine_name x (rw_suffix w m) c) = va_files v (quarantine_name x (rw_suffix w m) c)"
  shows "aside_ok x w aside v'"
  using assms unfolding aside_ok_def by metis

definition undoable :: "'key vault_context \<Rightarrow> string set \<Rightarrow> ('a capsule_tables_scheme) retention_world \<Rightarrow> (string \<times> blob_name) list
    \<Rightarrow> 'a capsule_tables_scheme vault \<Rightarrow> bool" where
  "undoable x I w aside v = (safe x I v \<and> aside_ok x w aside v
     \<and> (\<forall>c \<in> I. bt_blobs (va_tables v) c \<noteq> None \<or> c \<in> fst ` set aside))"

lemma undoable_mw: "careful_world x I w \<Longrightarrow> undoable x I w aside v \<Longrightarrow> undoable x I w aside (rw_mw w n k v)"
  unfolding careful_world_def undoable_def
proof (elim conjE, intro conjI)
  assume world: "\<forall>n k v.
     (safe x I v \<longrightarrow> safe x I (rw_mw w n k v))
     \<and> (\<forall>path. va_files (rw_mw w n k v) (temporary_of x (rw_io w n) path) = va_files v (temporary_of x (rw_io w n) path))
     \<and> (\<forall>m c. va_files (rw_mw w n k v) (quarantine_name x (rw_suffix w m) c) = va_files v (quarantine_name x (rw_suffix w m) c))
     \<and> (\<forall>c \<in> I. bt_blobs (va_tables v) c \<noteq> None \<longrightarrow> bt_blobs (va_tables (rw_mw w n k v)) c \<noteq> None)"
  assume "safe x I v" then show "safe x I (rw_mw w n k v)" using world by blast
  assume "aside_ok x w aside v" then show "aside_ok x w aside (rw_mw w n k v)"
    by (rule aside_ok_same) (use world in blast)
  assume "\<forall>c\<in>I. bt_blobs (va_tables v) c \<noteq> None \<or> c \<in> fst ` set aside"
  then show "\<forall>c\<in>I. bt_blobs (va_tables (rw_mw w n k v)) c \<noteq> None \<or> c \<in> fst ` set aside" using world by blast
qed

lemma undoable_write_temporary:
  assumes "undoable x I w aside v" "blobPath d = Some path"
  shows "undoable x I w aside (write_file (temporary_of x io path) e v)"
proof -
  have no: "\<not> stored_at c (temporary_of x io path)" for c by (rule temporary_not_stored [OF assms(2)])
  have same: "va_files (write_file (temporary_of x io path) e v) (quarantine_name x ending c) = va_files v (quarantine_name x ending c)"
    if "is_digest c" for ending c
    using no [of c] quarantine_of_name [OF that, of x ending] by (auto simp: stored_at_def)
  have "aside_ok x w aside (write_file (temporary_of x io path) e v)"
    by (rule aside_ok_same [of x w aside v]) (use assms(1) same in \<open>auto simp: undoable_def\<close>)
  with assms(1) safe_write_other [of x I v, OF _ no] show ?thesis by (simp add: undoable_def)
qed

lemma quarantine_not_path:
  "is_digest c \<Longrightarrow> blobPath d = Some path \<Longrightarrow> quarantine_name x ending c \<noteq> path"
  "is_digest c \<Longrightarrow> blobPath d = Some path \<Longrightarrow> quarantine_name x ending c \<noteq> temporary_of x' io path"
proof -
  assume c: "is_digest c" and path: "blobPath d = Some path"
  note q = quarantine_of_name [OF c, of x ending]
  show "quarantine_name x ending c \<noteq> path"
    using q path quarantine_not_final [of "quarantine_name x ending c" d] by (auto simp: quarantine_of_def)
  show "quarantine_name x ending c \<noteq> temporary_of x' io path"
    using q temporary_not_stored [OF path, of c x' io] by (auto simp: stored_at_def)
qed

lemma undoable_publish:
  fixes v :: "'a capsule_tables_scheme vault"
  assumes und: "undoable x I w aside v" and path: "blobPath d = Some path"
    and temp: "va_files v (temporary_of x io path) = Some e" and e: "holds_content x d e"
    and run: "publish x io d path (temporary_of x io path) t kind v = (r, v')"
  shows "undoable x I w aside v'" and "r = Inr True \<Longrightarrow> d \<in> I \<Longrightarrow> d \<in> fst ` set aside"
proof -
  let ?n = "temporary_of x io path"
  from path have dd: "is_digest d" by (simp add: blobPath_iff)
  consider "v' = v" "r \<noteq> Inr True" | (new) row where "bt_blobs (va_tables v) d = None" "v' = move_file ?n path (index_blob d row v)"
    using run by (auto simp: publish_def split: if_splits)
  then show "undoable x I w aside v'"
  proof cases
    case new
    have ne: "?n \<noteq> path" using temporary_not_stored [OF path, of d x io] path by (auto simp: stored_at_def)
    have same: "va_files v' m = va_files v m" if "is_digest c" "stored_at c m" "m \<noteq> path" for c m
      using that new(2) temporary_not_stored [OF path, of c x io] by auto
    have at: "va_files v' path = Some e" using new(2) temp ne by simp
    have "named_by_content x v'" unfolding named_by_content_def
    proof (intro allI impI)
      fix c m e' assume c: "is_digest c" "stored_at c m" "va_files v' m = Some e'"
      show "holds_content x c e'"
      proof (cases "m = path")
        case True
        with c at stored_at_path [OF c(1) path] e show ?thesis by auto
      next
        case False
        with same [OF c(1,2)] c(3) have "va_files v m = Some e'" by simp
        with c und show ?thesis unfolding undoable_def safe_def named_by_content_def by blast
      qed
    qed
    moreover have "has_file v' c" if "has_file v c \<or> c = d" for c
    proof (cases "c = d")
      case True
      with dd path at show ?thesis unfolding has_file_def stored_at_def by blast
    next
      case False
      with that obtain m where m: "is_digest c" "stored_at c m" "va_files v m \<noteq> None" unfolding has_file_def by blast
      with False stored_at_path [OF m(1) path] have "m \<noteq> path" by blast
      with same [OF m(1,2)] m show ?thesis unfolding has_file_def by metis
    qed
    moreover have "bt_blobs (va_tables v') = (bt_blobs (va_tables v))(d \<mapsto> row)" using new(2) by simp
    moreover from und have aside: "aside_ok x w aside v" unfolding undoable_def by blast
    have "va_files v' (quarantine_name x (rw_suffix w m) c) = va_files v (quarantine_name x (rw_suffix w m) c)"
      if "is_digest c" for c m
      using quarantine_not_path(1) [OF that path, of x "rw_suffix w m"]
        quarantine_not_path(2) [OF that path, of x "rw_suffix w m" x io] new(2) by simp
    then have "aside_ok x w aside v'" by (rule aside_ok_same [OF aside])
    ultimately show ?thesis using und unfolding undoable_def safe_def by auto
  qed (use und in simp)
  show "d \<in> fst ` set aside" if "r = Inr True" "d \<in> I"
  proof -
    from run that(1) have "bt_blobs (va_tables v) d = None" by (auto simp: publish_def split: if_splits)
    with und that(2) show ?thesis unfolding undoable_def by blast
  qed
qed

lemma undoable_put:
  fixes v :: "'a capsule_tables_scheme vault"
  assumes laws: "vault_laws x" and w: "careful_world x I w" and und: "undoable x I w aside v"
    and run: "putBlob x (rw_io w n) (\<lambda>k. rw_mw w n (Suc k)) t kind v = (r, v')"
  shows "undoable x I w aside v' \<and> (\<forall>c. r = Inr (c, True) \<longrightarrow> c \<in> I \<longrightarrow> c \<in> fst ` set aside)"
  using run
proof (cases rule: putBlob_cases)
  case (failed path e)
  with und undoable_write_temporary [OF und failed(1)] show ?thesis by auto
next
  case (written path v1 r1 v2)
  let ?n = "temporary_of x (rw_io w n) path" and ?e = "envelope (vc_aead x) (random_nonce (rw_io w n)) t"
  have u1: "undoable x I w aside v1" unfolding written(2)
    by (rule undoable_mw [OF w undoable_write_temporary [OF und written(1)]])
  have "va_files (rw_mw w n k u) (temporary_of x (rw_io w n) p) = va_files u (temporary_of x (rw_io w n) p)" for k u p
    using w unfolding careful_world_def by blast
  then have temp: "va_files v1 ?n = Some ?e" by (simp add: written(2))
  have e: "holds_content x (sha256 (vc_host x) t) ?e"
    using laws open_envelope_seal [of "vc_aead x" "random_nonce (rw_io w n)" t] by (simp add: holds_content_def vault_laws_def)
  note publish = undoable_publish [OF u1 written(1) temp e written(3)]
  have "undoable x I w aside v'" unfolding written(4)
    by (rule undoable_mw [OF w undoable_write_temporary [OF publish(1) written(1)]])
  moreover have "r1 = Inr True" if "r = Inr (c, True)" for c using written(5) that by (cases r1) auto
  ultimately show ?thesis using publish(2) written(5) by auto
qed (use und in auto)

definition batch_ok :: "'key vault_context \<Rightarrow> string set \<Rightarrow> ('a capsule_tables_scheme) retention_world \<Rightarrow> ('a capsule_tables_scheme) batch \<Rightarrow> bool" where
  "batch_ok x I w b = (undoable x I w (ba_aside b) (ba_vault b)
     \<and> (\<forall>c \<in> set (ba_made b). c \<in> I \<longrightarrow> c \<in> fst ` set (ba_aside b)))"

lemma undoable_tables:
  fixes v :: "'a capsule_tables_scheme vault"
  assumes "undoable x I w aside v" "bt_blobs ts = bt_blobs (va_tables v)"
  shows "undoable x I w aside (v\<lparr>va_tables := ts\<rparr>)"
  using assms by (simp add: undoable_def safe_def aside_ok_def named_by_content_def has_file_def)

lemma record_revision_blobs:
  assumes "record_revision x now createdAt k kvs blob ts = (r, ts')"
  shows "bt_blobs ts' = bt_blobs ts"
  using assms by (auto simp: record_revision_def recordCapsule_def recordCapsuleContentRefs_def Let_def
      split: option.splits if_splits json.splits)

lemma batch_ok_revise:
  assumes laws: "vault_laws x" and w: "careful_world x I w"
  shows "keeps (batch_ok x I w) (revise_one x w createdAt c kr)"
proof (rule keepsI)
  fix b r b' assume run: "revise_one x w createdAt c kr b = (r, b')" and ok: "batch_ok x I w b"
  have und: "undoable x I w (ba_aside b) (rw_mw w (ba_step b) 0 (ba_vault b))"
    using ok undoable_mw [OF w] by (simp add: batch_ok_def)
  from run show "batch_ok x I w b'"
  proof (cases rule: revise_one_cases)
    case (unstored t e v)
    with undoable_put [OF laws w und unstored(1)] ok show ?thesis by (simp add: batch_ok_def)
  next
    case (stored t blob new v kvs ts)
    note put = undoable_put [OF laws w und stored(1)]
    with undoable_tables [OF _ record_revision_blobs [OF stored(2)]]
    have "undoable x I w (ba_aside b) (v\<lparr>va_tables := ts\<rparr>)" by blast
    with put ok stored(3) show ?thesis by (auto simp: batch_ok_def)
  qed (use und ok in \<open>simp add: batch_ok_def\<close>)
qed

lemma batch_ok_set_aside:
  assumes w: "careful_world x I w"
  shows "keeps (batch_ok x I w) (set_aside x w c)"
proof (rule keepsI)
  fix b r b' assume run: "set_aside x w c b = (r, b')" and ok: "batch_ok x I w b"
  let ?q = "quarantine_name x (rw_suffix w (ba_step b)) c"
  from ok have und: "undoable x I w (ba_aside b) (ba_vault b)" by (simp add: batch_ok_def)
  consider "b' = b" | "b' = next_step (in_batch (rw_mw w (ba_step b) 0) b)"
    | (moved) path where "blobPath c = Some path" "va_files (ba_vault b) path \<noteq> None"
        "b' = next_step (in_batch (\<lambda>v. rw_mw w (ba_step b) 0 (move_file path ?q v)) (b\<lparr>ba_aside := ba_aside b @ [(c, ?q)]\<rparr>))"
    using run by (auto simp: set_aside_def Let_def split: option.splits if_splits)
  then show "batch_ok x I w b'"
  proof cases
    case moved
    from moved(1) have c: "is_digest c" by (simp add: blobPath_iff)
    note names = stored_at_quarantine [OF c] stored_at_path [OF _ moved(1)] quarantine_of_name [OF c, of x]
    let ?v = "move_file path ?q (ba_vault b)"
    have "safe x I ?v"
    proof (rule safe_move [OF _ c])
      show "safe x I (ba_vault b)" using und by (simp add: undoable_def)
      show "stored_at c path" "stored_at c ?q" using moved(1) names(3) by (simp_all add: stored_at_def)
      show "path \<noteq> ?q" using quarantine_not_path(1) [OF c moved(1), of x "rw_suffix w (ba_step b)"] by simp
    qed (use moved(2) names(1,2) in blast)+
    moreover have "aside_ok x w (ba_aside b @ [(c, ?q)]) ?v"
      unfolding aside_ok_def
    proof (intro allI impI)
      fix d q assume "(d, q) \<in> set (ba_aside b @ [(c, ?q)])"
      then consider "(d, q) = (c, ?q)" | "(d, q) \<in> set (ba_aside b)" by auto
      then show "is_digest d \<and> (\<exists>m. q = quarantine_name x (rw_suffix w m) d) \<and> va_files ?v q \<noteq> None"
      proof cases
        case 1
        with c moved(2) quarantine_not_path(1) [OF c moved(1)] show ?thesis by auto
      next
        case 2
        with und obtain m where "is_digest d" "q = quarantine_name x (rw_suffix w m) d" "va_files (ba_vault b) q \<noteq> None"
          unfolding undoable_def aside_ok_def by blast
        moreover from this quarantine_not_path(1) [OF this(1) moved(1), of x "rw_suffix w m"] moved(2)
        have "va_files ?v q \<noteq> None" by simp
        ultimately show ?thesis by blast
      qed
    qed
    ultimately have "undoable x I w (ba_aside b @ [(c, ?q)]) ?v" using und by (auto simp: undoable_def)
    from undoable_mw [OF w this] ok show ?thesis by (auto simp: moved(3) batch_ok_def)
  qed (use ok undoable_mw [OF w und] in \<open>simp_all add: batch_ok_def\<close>)
qed

text \<open>A row goes only after its file has been set aside.\<close>

lemma batch_ok_delete:
  assumes ok: "batch_ok x I w b" and aside: "c \<in> fst ` set (ba_aside b)" and run: "delete_step ks c b = (r, b')"
  shows "batch_ok x I w b'"
proof -
  obtain ts where del: "delete_raw ks c (va_tables (ba_vault b)) = (r, ts)" and b': "ba_vault b' = (ba_vault b)\<lparr>va_tables := ts\<rparr>"
      "ba_aside b' = ba_aside b" "ba_made b' = ba_made b"
    using run by (auto simp: delete_step_def split: prod.splits)
  then have "bt_blobs ts = bt_blobs (va_tables (ba_vault b)) \<or> bt_blobs ts = (bt_blobs (va_tables (ba_vault b)))(c := None)"
    by (auto simp: delete_raw_def delete_blob_def split: option.splits if_splits)
  then have rows: "bt_blobs ts d \<noteq> None \<Longrightarrow> bt_blobs (va_tables (ba_vault b)) d \<noteq> None"
      "d \<noteq> c \<Longrightarrow> bt_blobs ts d = bt_blobs (va_tables (ba_vault b)) d" for d by (auto split: if_splits)
  from ok have und: "safe x I (ba_vault b)" "aside_ok x w (ba_aside b) (ba_vault b)"
      "\<forall>d \<in> I. bt_blobs (va_tables (ba_vault b)) d \<noteq> None \<or> d \<in> fst ` set (ba_aside b)"
    by (simp_all add: batch_ok_def undoable_def)
  have "safe x I (ba_vault b')"
    using und(1) rows(1) by (auto simp: safe_def b' named_by_content_def has_file_def)
  moreover have "aside_ok x w (ba_aside b') (ba_vault b')" using und(2) by (simp add: aside_ok_def b')
  moreover have "bt_blobs (va_tables (ba_vault b')) d \<noteq> None \<or> d \<in> fst ` set (ba_aside b')" if "d \<in> I" for d
  proof (cases "d = c")
    case False
    with und(3) that rows(2) show ?thesis by (simp add: b')
  qed (use aside in \<open>simp add: b'\<close>)
  ultimately show ?thesis using ok by (simp add: batch_ok_def undoable_def b')
qed

lemma frame_revise_one: "frame ba_aside (revise_one x w createdAt c kr)"
  unfolding frame_def
proof
  fix b
  obtain r b' where "revise_one x w createdAt c kr b = (r, b')" by (rule prod.exhaust)
  then show "ba_aside (snd (revise_one x w createdAt c kr b)) = ba_aside b"
    by (cases rule: revise_one_cases) (use \<open>revise_one x w createdAt c kr b = (r, b')\<close> in simp_all)
qed

lemma frame_each_in: "(\<And>i. frame f (m i)) \<Longrightarrow> frame f (each_in m xs)"
  by (induction xs) (simp_all add: each_in_fun frame_and_then frame_lift)

lemma batch_ok_expire:
  assumes laws: "vault_laws x" and w: "careful_world x I w"
  shows "keeps (batch_ok x I w) (expire_one x w ks createdAt c)"
proof (rule keepsI)
  fix b r b' assume run: "expire_one x w ks createdAt c b = (r, b')" and ok: "batch_ok x I w b"
  obtain r1 b1 where one: "set_aside x w c b = (r1, b1)" by (rule prod.exhaust)
  have ok1: "batch_ok x I w b1" by (rule keeps_run [OF batch_ok_set_aside [OF w] ok one])
  obtain r2 b2 where two: "each_in (revise_one x w createdAt c) (affected_capsules c (va_tables (ba_vault b1))) b1 = (r2, b2)"
    by (rule prod.exhaust)
  have ok2: "batch_ok x I w b2" by (rule keeps_run [OF keeps_each_in [OF batch_ok_revise [OF laws w]] ok1 two])
  have same: "ba_aside b2 = ba_aside b1" by (rule frameD [OF frame_each_in [OF frame_revise_one] two])
  show "batch_ok x I w b'"
  proof (cases "offer_pins ks c (va_tables (ba_vault b)) \<or> r1 \<noteq> Inr () \<or> r2 \<noteq> Inr ()")
    case True
    with run one two ok ok1 ok2 show ?thesis
      by (cases r1; cases r2) (auto simp: expire_one_def and_then_def split: if_splits)
  next
    case False
    with one have "c \<in> fst ` set (ba_aside b2)"
      unfolding same by (auto simp: set_aside_def Let_def split: option.splits if_splits)
    moreover from False run one two have "delete_step ks c b2 = (r, b')" by (simp add: expire_one_def and_then_def)
    ultimately show ?thesis using batch_ok_delete [OF ok2] by blast
  qed
qed

subsection \<open>Undoing a batch\<close>

lemma safe_remove_made:
  assumes "safe x I v" "aside_ok x w aside v"
    and "\<And>c. c \<in> set made \<Longrightarrow> c \<in> I \<or> bt_blobs (va_tables v) c \<noteq> None \<Longrightarrow> c \<in> fst ` set aside"
  shows "safe x I (fold remove_blob_file made v) \<and> va_tables (fold remove_blob_file made v) = va_tables v"
  using assms
proof (induction made arbitrary: v)
  case (Cons c made)
  let ?v = "remove_blob_file c v"
  have tables: "va_tables ?v = va_tables v" by (simp add: remove_blob_file_def split: option.split)
  have "safe x I ?v \<and> aside_ok x w aside ?v"
  proof (cases "blobPath c")
    case (Some path)
    then have v: "?v = write_file path None v" by (simp add: remove_blob_file_def)
    have quarantine: "va_files ?v (quarantine_name x ending d) = va_files v (quarantine_name x ending d)" if "is_digest d" for d ending
      using quarantine_not_path(1) [OF that Some, of x ending] v by simp
    have "named_by_content x ?v" using Cons.prems(1) unfolding safe_def named_by_content_def v by (metis fun_upd_apply option.distinct(1) write_file_simps(2))
    moreover have "has_file ?v d" if d: "d \<in> I \<or> bt_blobs (va_tables v) d \<noteq> None" for d
    proof (cases "d = c")
      case True
      with Cons.prems(3) d obtain q where "(d, q) \<in> set aside" by fastforce
      with Cons.prems(2) obtain m where q: "is_digest d" "q = quarantine_name x (rw_suffix w m) d" "va_files v q \<noteq> None"
        unfolding aside_ok_def by blast
      then have "stored_at d q" "va_files ?v q \<noteq> None"
        using quarantine [OF q(1)] quarantine_of_name [OF q(1), of x "rw_suffix w m"] by (simp_all add: stored_at_def)
      with q(1) show ?thesis unfolding has_file_def by blast
    next
      case False
      from Cons.prems(1) d obtain m where m: "is_digest d" "stored_at d m" "va_files v m \<noteq> None"
        unfolding safe_def has_file_def by blast
      with False stored_at_path [OF m(1) Some] have "m \<noteq> path" by blast
      then have "va_files ?v m \<noteq> None" using m(3) v by simp
      with m show ?thesis unfolding has_file_def by blast
    qed
    ultimately show ?thesis using aside_ok_same [OF Cons.prems(2) quarantine] tables by (simp add: safe_def)
  qed (use Cons.prems in \<open>simp add: remove_blob_file_def\<close>)
  then have "safe x I ?v" "aside_ok x w aside ?v" by blast+
  from Cons.IH [OF this] Cons.prems(3) show ?case by (simp add: tables)
qed simp

lemma safe_put_back:
  assumes "safe x I v" and "\<And>c q. (c, q) \<in> set aside \<Longrightarrow> is_digest c \<and> (\<exists>m. q = quarantine_name x (rw_suffix w m) c)"
  shows "safe x I (fold put_back aside v) \<and> va_tables (fold put_back aside v) = va_tables v"
  using assms
proof (induction aside arbitrary: v)
  case (Cons cq aside)
  obtain c q where cq: "cq = (c, q)" by (rule prod.exhaust)
  from Cons.prems(2) [of c q] cq obtain m where c: "is_digest c" and q: "q = quarantine_name x (rw_suffix w m) c" by auto
  then obtain path where path: "blobPath c = Some path" by (auto simp: blobPath_def)
  have "safe x I (put_back cq v)"
  proof (cases "va_files v q = None")
    case False
    have "safe x I (move_file q path v)"
    proof (rule safe_move [OF Cons.prems(1) c])
      show "stored_at c q" "stored_at c path" using quarantine_of_name [OF c, of x "rw_suffix w m"] path by (simp_all add: stored_at_def q)
      show "q \<noteq> path" using quarantine_not_path(1) [OF c path] by (simp add: q)
      show "d = c" if "is_digest d" "stored_at d q" for d using stored_at_quarantine [OF c that(1)] that(2) by (simp add: q)
    qed (use False stored_at_path [OF _ path] in blast)+
    with False show ?thesis by (auto simp: put_back_def cq path)
  qed (use Cons.prems(1) in \<open>simp add: put_back_def cq path\<close>)
  moreover have "va_tables (put_back cq v) = va_tables v" by (simp add: put_back_def split: option.split)
  moreover have "is_digest d \<and> (\<exists>m. p = quarantine_name x (rw_suffix w m) d)" if "(d, p) \<in> set aside" for d p
    using that Cons.prems(2) [of d p] by simp
  ultimately show ?case using Cons.IH [of "put_back cq v"] by simp
qed simp

lemma undo_batch_safe:
  assumes ok: "batch_ok x I w b" and rows: "{c. bt_blobs ts c \<noteq> None} \<subseteq> I"
  shows "safe x I (undo_batch ts b)"
proof -
  let ?v = "(ba_vault b)\<lparr>va_tables := ts\<rparr>"
  from ok have "safe x I (ba_vault b)" "aside_ok x w (ba_aside b) (ba_vault b)" by (simp_all add: batch_ok_def undoable_def)
  then have v: "safe x I ?v" "aside_ok x w (ba_aside b) ?v"
    using rows by (auto simp: safe_def aside_ok_def named_by_content_def has_file_def)
  have "safe x I (fold remove_blob_file (ba_made b) ?v)"
    by (rule conjunct1 [OF safe_remove_made [OF v]]) (use ok rows in \<open>auto simp: batch_ok_def\<close>)
  then show ?thesis unfolding undo_batch_def
    by (rule conjunct1 [OF safe_put_back, where w1 = w]) (use v(2) in \<open>auto simp: aside_ok_def\<close>)
qed

text \<open>A batch whose process stops after some of its rows: the open transaction is gone, the files stay.\<close>

definition stopped_batch ::
  "'key vault_context \<Rightarrow> ('a capsule_tables_scheme) retention_world \<Rightarrow> (string \<times> string) list \<Rightarrow> string list \<Rightarrow> string
     \<Rightarrow> nat \<Rightarrow> 'a capsule_tables_scheme vault \<Rightarrow> 'a capsule_tables_scheme vault" where
  "stopped_batch x w ks cs createdAt n v =
     (ba_vault (snd (each_in (expire_one x w ks createdAt) cs
        \<lparr>ba_vault = v, ba_step = Suc n, ba_aside = [], ba_made = [], ba_deleted = 0\<rparr>)))\<lparr>va_tables := va_tables v\<rparr>"

definition indexed :: "'a blob_tables_scheme vault \<Rightarrow> string set" where
  "indexed v = {c. bt_blobs (va_tables v) c \<noteq> None}"

definition reopens :: "'key vault_context \<Rightarrow> 'a blob_tables_scheme vault \<Rightarrow> bool" where
  "reopens x v = (\<forall>entries. (\<forall>n. va_files v n \<noteq> None \<longrightarrow> n \<in> set entries) \<longrightarrow>
     blobs_ok x (recoverRetentionQuarantine entries v) \<and> va_tables (recoverRetentionQuarantine entries v) = va_tables v)"

lemma safe_reopens: "safe x I v \<Longrightarrow> reopens x v"
proof -
  assume "safe x I v"
  then have "recoverable x v" unfolding safe_def recoverable_def named_by_content_def has_file_def by auto
  from restore_all [OF this] show ?thesis unfolding reopens_def recoverRetentionQuarantine_def by blast
qed

lemma each_in_batch_ok:
  assumes "vault_laws x" and "careful_world x (indexed v) w" and "safe x (indexed v) v"
  shows "batch_ok x (indexed v) w (snd (each_in (expire_one x w ks createdAt) cs
     \<lparr>ba_vault = v, ba_step = n, ba_aside = [], ba_made = [], ba_deleted = 0\<rparr>))"
proof -
  have "batch_ok x (indexed v) w \<lparr>ba_vault = v, ba_step = n, ba_aside = [], ba_made = [], ba_deleted = 0\<rparr>"
    using assms(3) by (simp add: batch_ok_def undoable_def aside_ok_def indexed_def)
  then show ?thesis
    by (rule keepsD [OF keeps_each_in [of "batch_ok x (indexed v) w" "expire_one x w ks createdAt", OF batch_ok_expire [OF assms(1,2)]]])
qed

lemma fold_put_back_tables: "va_tables (fold put_back aside v) = va_tables v"
  by (induction aside arbitrary: v) (simp_all add: put_back_def split: option.split)

lemma undo_batch_tables: "va_tables (undo_batch ts b) = ts"
  by (simp add: undo_batch_def remove_files(1) fold_put_back_tables)

text \<open>
  C23. A retention batch that stops or fails loses nothing.  When the process ends after any number
  of rows of a batch, and when the batch reports an error, opening the vault again makes the content
  of every row readable, and no row that was there before the batch is missing.
\<close>

theorem retention_batch_recoverable:
  assumes "vault_laws x" and "careful_world x (indexed v) w" and "safe x (indexed v) v"
  shows "reopens x (stopped_batch x w ks (take k cs) createdAt n v)
    \<and> (case expireRawEvidenceBatch x w ks cs createdAt n v of
        (Inl e, m, v') \<Rightarrow> reopens x v' \<and> indexed v \<subseteq> indexed v'
      | (Inr deleted, m, v') \<Rightarrow> True)"
proof
  note ok = each_in_batch_ok [OF assms, where ks = ks and createdAt = createdAt and n = "Suc n"]
  have rows: "{c. bt_blobs (va_tables v) c \<noteq> None} \<subseteq> indexed v" by (simp add: indexed_def)
  have "safe x (indexed v) (stopped_batch x w ks (take k cs) createdAt n v)"
    using ok [of "take k cs"] rows
    by (auto simp: batch_ok_def undoable_def safe_def stopped_batch_def named_by_content_def has_file_def)
  then show "reopens x (stopped_batch x w ks (take k cs) createdAt n v)" by (rule safe_reopens)
  obtain r b where each: "each_in (expire_one x w ks createdAt) cs
      \<lparr>ba_vault = v, ba_step = Suc n, ba_aside = [], ba_made = [], ba_deleted = 0\<rparr> = (r, b)" by (rule prod.exhaust)
  with ok [of cs] have b: "batch_ok x (indexed v) w b" by simp
  let ?u = "rw_mw w (ba_step b) 0 (undo_batch (va_tables v) b)"
  have "safe x (indexed v) ?u" "indexed v \<subseteq> indexed ?u"
    using undo_batch_safe [OF b rows] undo_batch_tables [of "va_tables v" b] assms(2)
    unfolding careful_world_def by (blast, simp add: indexed_def subset_iff)
  moreover have "reopens x v" by (rule safe_reopens [OF assms(3)])
  ultimately show "case expireRawEvidenceBatch x w ks cs createdAt n v of
        (Inl e, m, v') \<Rightarrow> reopens x v' \<and> indexed v \<subseteq> indexed v'
      | (Inr deleted, m, v') \<Rightarrow> True"
    using each safe_reopens [of x "indexed v" ?u] by (simp add: expireRawEvidenceBatch_def split: sum.split)
qed

subsection \<open>Instances\<close>

definition demo_expired :: "capsule_tables vault" where
  "demo_expired = \<lparr>va_tables = empty_capsules\<lparr>bt_blobs := [demo_address \<mapsto> blob_row_of demo_vault_context demo_io 2 ''raw-provider-turn'']\<rparr>,
     va_files = [demo_stray \<mapsto> envelope demo_aead (random_nonce demo_io) ''hi'']\<rparr>"

text \<open>Nothing else runs, and the transaction does not commit or does.\<close>

definition demo_world :: "bool \<Rightarrow> capsule_tables retention_world" where
  "demo_world commits = \<lparr>rw_io = \<lambda>_. demo_io, rw_mw = \<lambda>_ _ v. v, rw_renames = \<lambda>_. True, rw_suffix = \<lambda>_. ''0a'',
     rw_open = \<lambda>_. False, rw_commits = \<lambda>_. commits, rw_now = \<lambda>_. 9\<rparr>"

lemma demo_world_laws: "careful_world x I (demo_world commits)" "settled_world ks (demo_world commits)"
  by (simp_all add: careful_world_def settled_world_def demo_world_def)

lemma demo_expired_safe: "safe demo_vault_context (indexed demo_expired) demo_expired"
proof -
  have laws: "aead_law demo_aead" using demo_vault_laws by (simp add: vault_laws_def demo_vault_context_def)
  have content: "holds_content demo_vault_context demo_address (envelope demo_aead (random_nonce demo_io) ''hi'')"
    using open_envelope_seal [OF laws length_random_nonce]
    by (simp add: holds_content_def demo_address_def) (simp add: demo_vault_context_def)
  have "named_by_content demo_vault_context demo_expired" unfolding named_by_content_def
  proof (intro allI impI)
    fix c n e assume c: "is_digest c" "stored_at c n" "va_files demo_expired n = Some e"
    from c(3) have n: "n = demo_stray" and e: "e = envelope demo_aead (random_nonce demo_io) ''hi''"
      by (simp_all add: demo_expired_def split: if_splits)
    from stored_at_path [OF c(1) demo_stray_path] c(2) n have "c = demo_address" by blast
    with e content show "holds_content demo_vault_context c e" by blast
  qed
  moreover have "stored_at demo_address demo_stray" "va_files demo_expired demo_stray \<noteq> None"
    using demo_stray_path by (simp_all add: stored_at_def demo_expired_def)
  then have "has_file demo_expired demo_address" using demo_address_digest unfolding has_file_def by blast
  ultimately show ?thesis by (simp add: safe_def indexed_def demo_expired_def split: if_splits)
qed

theorem retention_batch_recoverable_witness:
  "reopens demo_vault_context (stopped_batch demo_vault_context (demo_world False) [] [demo_address] ''9'' 1 demo_expired)
    \<and> (\<exists>e m v'. expireRawEvidenceBatch demo_vault_context (demo_world False) [] [demo_address] ''9'' 1 demo_expired = (Inl e, m, v')
        \<and> reopens demo_vault_context v' \<and> bt_blobs (va_tables v') demo_address \<noteq> None)"
proof -
  obtain r m v' where run: "expireRawEvidenceBatch demo_vault_context (demo_world False) [] [demo_address] ''9'' 1 demo_expired = (r, m, v')"
    by (metis prod_cases3)
  moreover obtain e where "r = Inl e"
    using run by (cases r) (auto simp: expireRawEvidenceBatch_def demo_world_def split: prod.splits sum.splits)
  moreover have "demo_address \<in> indexed demo_expired" by (simp add: indexed_def demo_expired_def)
  ultimately show ?thesis
    using retention_batch_recoverable [OF demo_vault_laws demo_world_laws(1) demo_expired_safe, of False "[]" 1 "[demo_address]" "''9''" 1]
    by (auto simp: indexed_def)
qed


end
