(* ===== verification/Lifecycle_Event.thy ===== *)
theory Lifecycle_Event
  imports Redaction Task_Scope
begin

text \<open>
  Lifecycle events and handoffs in packages/lifecycle-adapter/src/index.ts: the scope of an adapter,
  the schema of events, their reading, the handoff that is prepared from an event, and the check of
  the response.  The formats of ajv-formats and \<open>JSON.parse\<close> are fields of a record.
\<close>

subsection \<open>Scopes and options\<close>

datatype lifecycle_code =
    ScopeInvalid | SourceInvalid | BatchInvalid | TimeoutInvalid | SequenceInvalid | ProjectionUnavailable | EventTooLarge | LifecycleEventInvalid
  | ScopeMismatch | TimeInvalid | EventFuture | PolicyDenied | PolicyInvalid | HandoffTooLarge | CursorInvalid | ResponseInvalid
  | StateInvalid | StateIsSource | StateNotAdapter | StateScopeConflict | HistoryChanged | AdapterBusy | TransportScopeMismatch
  | ProjectionConflict | PendingExpired | TransportUnavailable | AdapterFailure

record lifecycle_target =
  tg_endpointId :: string
  tg_workspaceId :: string

record lifecycle_scope =
  sp_organizationId :: string
  sp_repositoryBindingId :: string
  sp_workspaceId :: string
  sp_sourceEndpointId :: string
  sp_targets :: "lifecycle_target list"

record lifecycle_options =
  lo_scope :: lifecycle_scope
  lo_now :: "jsnum option"
  lo_batchSize :: "int option"
  lo_requestTimeoutMs :: "int option"

text \<open>The expression \<open>UUID\<close> is the one of provider offers.\<close>

definition UUID :: "string \<Rightarrow> bool" where
  "UUID s = provider_offer_id s"

definition validateScope :: "lifecycle_scope \<Rightarrow> (lifecycle_code, unit) result" where
  "validateScope s =
     (let targets = sp_targets s in
      if \<not> organization_token (sp_organizationId s)
        \<or> \<not> list_all UUID [sp_repositoryBindingId s, sp_workspaceId s, sp_sourceEndpointId s]
        \<or> targets = [] \<or> 20 < length targets
        \<or> list_ex (\<lambda>t. \<not> UUID (tg_endpointId t) \<or> \<not> UUID (tg_workspaceId t) \<or> tg_endpointId t = sp_sourceEndpointId s) targets
        \<or> \<not> distinct (map tg_endpointId targets)
      then Inl ScopeInvalid else Inr ())"

definition batchSize :: "lifecycle_options \<Rightarrow> (lifecycle_code, int) result" where
  "batchSize opts = (let n = (case lo_batchSize opts of None \<Rightarrow> 20 | Some n \<Rightarrow> n) in
     if n < 1 \<or> 100 < n then Inl BatchInvalid else Inr n)"

definition requestTimeout :: "lifecycle_options \<Rightarrow> (lifecycle_code, int) result" where
  "requestTimeout opts = (let n = (case lo_requestTimeoutMs opts of None \<Rightarrow> 15000 | Some n \<Rightarrow> n) in
     if n < 1 \<or> 30000 < n then Inl TimeoutInvalid else Inr n)"

subsection \<open>The schema of events\<close>

record formats =
  fm_uuid :: "string \<Rightarrow> bool"
  fm_dateTime :: "string \<Rightarrow> bool"

definition member_text :: "(string \<times> json) list \<Rightarrow> string \<Rightarrow> (string \<Rightarrow> bool) \<Rightarrow> bool" where
  "member_text kvs k P = (case map_of kvs k of Some (JStr s) \<Rightarrow> P s | _ \<Rightarrow> False)"

definition member_int :: "(string \<times> json) list \<Rightarrow> string \<Rightarrow> (int \<Rightarrow> bool) \<Rightarrow> bool" where
  "member_int kvs k P = (case map_of kvs k of Some (JNum i) \<Rightarrow> P i | _ \<Rightarrow> False)"

definition members_are :: "(string \<times> json) list \<Rightarrow> string list \<Rightarrow> bool" where
  "members_are kvs names = (set (map fst kvs) = set names)"

definition between :: "nat \<Rightarrow> nat \<Rightarrow> string \<Rightarrow> bool" where
  "between lo hi s = (lo \<le> length s \<and> length s \<le> hi)"

definition commit_hash :: "string \<Rightarrow> bool" where
  "commit_hash s = ((length s = 40 \<or> length s = 64) \<and> list_all is_lower_hex s)"

definition event_names :: "string list" where
  "event_names = [''schema'', ''eventId'', ''revision'', ''organizationId'', ''repositoryBindingId'', ''workspaceId'', ''sourceEndpointId'',
     ''targetEndpointId'', ''targetWorkspaceId'', ''sourceTaskId'', ''workflow'', ''boundary'', ''sourceCommit'', ''sourceHash'',
     ''occurredAt'', ''expiresAt'', ''intent'', ''summary'', ''missing'', ''evidenceReferences'']"

definition valid_reference :: "formats \<Rightarrow> json \<Rightarrow> bool" where
  "valid_reference f v = (case v of
     JObj kvs \<Rightarrow> members_are kvs [''trajectoryId'', ''revision'', ''capsuleHash''] \<and> member_text kvs ''trajectoryId'' (fm_uuid f)
       \<and> member_int kvs ''revision'' (\<lambda>i. 1 \<le> i) \<and> member_text kvs ''capsuleHash'' is_digest
   | _ \<Rightarrow> False)"

definition reference_members :: "json \<Rightarrow> json option list" where
  "reference_members v = (case v of JObj kvs \<Rightarrow> map (map_of kvs) [''trajectoryId'', ''revision'', ''capsuleHash''] | _ \<Rightarrow> [])"

definition coding_boundaries :: "string list" where
  "coding_boundaries = [''reviewed_plan_to_implementation'', ''implementation_to_review'']"

definition creative_boundaries :: "string list" where
  "creative_boundaries = [''approved_brief_to_draft'', ''draft_to_review'']"

definition validEvent :: "formats \<Rightarrow> json \<Rightarrow> bool" where
  "validEvent f v = (case v of
     JObj kvs \<Rightarrow>
       members_are kvs event_names
       \<and> map_of kvs ''schema'' = Some (JStr ''dharma.lifecycle-event/v1'')
       \<and> member_int kvs ''revision'' (\<lambda>i. 1 \<le> i \<and> i \<le> 2147483647)
       \<and> member_text kvs ''organizationId'' organization_token
       \<and> list_all (\<lambda>k. member_text kvs k (fm_uuid f)) [''eventId'', ''repositoryBindingId'', ''workspaceId'', ''sourceEndpointId'',
            ''targetEndpointId'', ''targetWorkspaceId'', ''sourceTaskId'']
       \<and> member_text kvs ''workflow'' (\<lambda>w. w \<in> {''coding'', ''creative''})
       \<and> member_text kvs ''boundary'' (\<lambda>b. b \<in> set (if map_of kvs ''workflow'' = Some (JStr ''coding'') then coding_boundaries
            else creative_boundaries))
       \<and> member_text kvs ''sourceCommit'' commit_hash \<and> member_text kvs ''sourceHash'' is_digest
       \<and> list_all (\<lambda>k. member_text kvs k (fm_dateTime f)) [''occurredAt'', ''expiresAt'']
       \<and> member_text kvs ''intent'' (between 1 1000) \<and> member_text kvs ''summary'' (between 1 2000)
       \<and> (case map_of kvs ''missing'' of
            Some (JArr xs) \<Rightarrow> length xs \<le> 10 \<and> list_all (\<lambda>x. case x of JStr s \<Rightarrow> between 1 500 s | _ \<Rightarrow> False) xs
          | _ \<Rightarrow> False)
       \<and> (case map_of kvs ''evidenceReferences'' of
            Some (JArr xs) \<Rightarrow> length xs \<le> 20 \<and> distinct (map reference_members xs) \<and> list_all (valid_reference f) xs
          | _ \<Rightarrow> False)
   | _ \<Rightarrow> False)"

record lifecycle_event =
  le_members :: "(string \<times> json) list"
  le_eventId :: string
  le_revision :: int
  le_organizationId :: string
  le_repositoryBindingId :: string
  le_workspaceId :: string
  le_sourceEndpointId :: string
  le_targetEndpointId :: string
  le_targetWorkspaceId :: string
  le_sourceTaskId :: string
  le_boundary :: string
  le_sourceCommit :: string
  le_sourceHash :: string
  le_occurredAt :: string
  le_expiresAt :: string

definition text_of :: "(string \<times> json) list \<Rightarrow> string \<Rightarrow> string" where
  "text_of kvs k = (case map_of kvs k of Some (JStr s) \<Rightarrow> s | _ \<Rightarrow> [])"

definition event_of :: "(string \<times> json) list \<Rightarrow> lifecycle_event" where
  "event_of kvs = \<lparr>le_members = kvs, le_eventId = text_of kvs ''eventId'',
     le_revision = (case map_of kvs ''revision'' of Some (JNum i) \<Rightarrow> i | _ \<Rightarrow> 0),
     le_organizationId = text_of kvs ''organizationId'', le_repositoryBindingId = text_of kvs ''repositoryBindingId'',
     le_workspaceId = text_of kvs ''workspaceId'', le_sourceEndpointId = text_of kvs ''sourceEndpointId'',
     le_targetEndpointId = text_of kvs ''targetEndpointId'', le_targetWorkspaceId = text_of kvs ''targetWorkspaceId'',
     le_sourceTaskId = text_of kvs ''sourceTaskId'', le_boundary = text_of kvs ''boundary'',
     le_sourceCommit = text_of kvs ''sourceCommit'', le_sourceHash = text_of kvs ''sourceHash'',
     le_occurredAt = text_of kvs ''occurredAt'', le_expiresAt = text_of kvs ''expiresAt''\<rparr>"

record 'key lifecycle_host =
  lh_host :: "'key host"
  lh_parse :: "string \<Rightarrow> json option"
  lh_formats :: formats

definition in_scope :: "lifecycle_scope \<Rightarrow> lifecycle_event \<Rightarrow> bool" where
  "in_scope s e = (le_organizationId e = sp_organizationId s \<and> le_repositoryBindingId e = sp_repositoryBindingId s
     \<and> le_workspaceId e = sp_workspaceId s \<and> le_sourceEndpointId e = sp_sourceEndpointId s
     \<and> list_ex (\<lambda>t. tg_endpointId t = le_targetEndpointId e \<and> tg_workspaceId t = le_targetWorkspaceId e) (sp_targets s))"

definition parseEvent :: "'key lifecycle_host \<Rightarrow> string option \<Rightarrow> lifecycle_scope \<Rightarrow> (lifecycle_code, lifecycle_event) result" where
  "parseEvent x row scope =
     (case row of None \<Rightarrow> Inl EventTooLarge | Some s \<Rightarrow>
      case lh_parse x s of None \<Rightarrow> Inl LifecycleEventInvalid | Some v \<Rightarrow>
      if \<not> validEvent (lh_formats x) v then Inl LifecycleEventInvalid
      else let e = event_of (case v of JObj kvs \<Rightarrow> kvs | _ \<Rightarrow> []);
               occurred = dateParse (lh_host x) (le_occurredAt e); expires = dateParse (lh_host x) (le_expiresAt e) in
      if \<not> in_scope scope e then Inl ScopeMismatch
      else if num_le expires occurred then Inl LifecycleEventInvalid
      else if num_lt (Some 900000) (num_sub expires occurred) then Inl LifecycleEventInvalid
      else Inr e)"

subsection \<open>Handoffs\<close>

record lifecycle_envelope =
  en_intent :: string
  en_evidenceUsed :: "string list"
  en_knownState :: "(string \<times> json) list"
  en_missing :: "string list"
  en_allowed :: "string list"
  en_blocked :: "string list"
  en_authority :: string

record handoff =
  ho_sourceTaskId :: string
  ho_targetEndpointId :: string
  ho_conversationId :: string
  ho_envelope :: lifecycle_envelope
  ho_evidence :: "json option"

definition envelope_members :: "lifecycle_envelope \<Rightarrow> (string \<times> json) list" where
  "envelope_members n = [(''intent'', JStr (en_intent n)), (''evidence_used'', str_array (en_evidenceUsed n)),
     (''known_state'', JObj (en_knownState n)), (''unknown_or_missing_state'', str_array (en_missing n)),
     (''allowed_next_actions'', str_array (en_allowed n)), (''blocked_actions'', str_array (en_blocked n)),
     (''decision_authority'', JStr (en_authority n)), (''tool_results'', JArr [])]"

definition requested_response :: string where
  "requested_response = ''proposal''"

definition handoff_json :: "handoff \<Rightarrow> json" where
  "handoff_json d = JObj ([(''sourceTaskId'', JStr (ho_sourceTaskId d)), (''targetEndpointId'', JStr (ho_targetEndpointId d)),
     (''conversationId'', JStr (ho_conversationId d)), (''requestedResponse'', JStr requested_response),
     (''stateEnvelope'', JObj (envelope_members (ho_envelope d)))]
     @ (case ho_evidence d of None \<Rightarrow> [] | Some v \<Rightarrow> [(''evidenceReferences'', v)]))"

definition ACTIONS :: "string \<Rightarrow> string" where
  "ACTIONS boundary = (case map_of [(''reviewed_plan_to_implementation'', ''propose_implementation_of_reviewed_plan''),
       (''implementation_to_review'', ''review_implementation''), (''approved_brief_to_draft'', ''propose_draft_for_approved_brief''),
       (''draft_to_review'', ''review_creative_draft'')] boundary of None \<Rightarrow> [] | Some a \<Rightarrow> a)"

definition BLOCKED_ACTIONS :: "string list" where
  "BLOCKED_ACTIONS = [''publishing'', ''spending'', ''permission_expansion'', ''scheduler_replacement'']"

definition DECISION_AUTHORITY :: string where
  "DECISION_AUTHORITY = ''Customer scheduler and existing human approvals retain execution, publishing and spending authority.''"

text \<open>The members that the customer's authorization sees.\<close>

definition event_metadata :: "lifecycle_event \<Rightarrow> (string \<times> json) list" where
  "event_metadata e = filter (\<lambda>(k, _). k \<notin> {''intent'', ''summary'', ''missing'', ''evidenceReferences''}) (le_members e)"

text \<open>The answer of \<open>authorize\<close>; \<open>Approved None\<close> has a policy revision that is not a string.\<close>

datatype authorization = AuthorizeThrows | NotApproved | Approved "string option"

definition revision_token :: "string \<Rightarrow> bool" where
  "revision_token s = (s \<noteq> [] \<and> length s \<le> 128 \<and> list_all (\<lambda>c. is_word_char c \<or> c \<in> set ''._-'') s)"

record planned =
  pl_eventHash :: string
  pl_requestHash :: string
  pl_idempotencyKey :: string
  pl_handoff :: handoff

datatype plan = PlanExpired string | Planned planned

definition eventHash :: "'key lifecycle_host \<Rightarrow> lifecycle_event \<Rightarrow> string" where
  "eventHash x e = objectDigest (lh_host x) (JObj (le_members e))"

definition idempotency_key :: "'key lifecycle_host \<Rightarrow> lifecycle_event \<Rightarrow> string" where
  "idempotency_key x e = ''lifecycle-'' @ drop 7 (objectDigest (lh_host x) (JObj [(''organizationId'', JStr (le_organizationId e)),
     (''repositoryBindingId'', JStr (le_repositoryBindingId e)), (''eventId'', JStr (le_eventId e)), (''revision'', JNum (le_revision e))]))"

text \<open>\<open>redactValue\<close> of the three texts; its values are texts again.\<close>

definition safe_texts :: "'key lifecycle_host \<Rightarrow> lifecycle_event \<Rightarrow> (string \<times> json) list" where
  "safe_texts x e = (let pick = (\<lambda>k. (k, case map_of (le_members e) k of Some v \<Rightarrow> v | None \<Rightarrow> JNull)) in
     case fst (redactValue (lh_host x) (lh_parse x) (JObj (map pick [''intent'', ''summary'', ''missing''])) [] 0 no_stats) of
       JObj kvs \<Rightarrow> kvs | _ \<Rightarrow> [])"

definition event_envelope :: "'key lifecycle_host \<Rightarrow> lifecycle_event \<Rightarrow> string \<Rightarrow> lifecycle_envelope" where
  "event_envelope x e revision =
     (let safe = safe_texts x e;
          missing = (case map_of safe ''missing'' of Some (JArr vs) \<Rightarrow> map (\<lambda>v. case v of JStr s \<Rightarrow> s | _ \<Rightarrow> []) vs | _ \<Rightarrow> []) in
      \<lparr>en_intent = trim (text_of safe ''intent''), en_evidenceUsed = [''approved source '' @ le_sourceHash e],
       en_knownState = [(''lifecycle_event'', JObj (AList.update ''policyRevision'' (JStr revision)
            (AList.update ''eventHash'' (JStr (eventHash x e)) (event_metadata e)))),
          (''source_revision'', JObj [(''commit'', JStr (le_sourceCommit e)), (''contentHash'', JStr (le_sourceHash e))]),
          (''summary'', JStr (text_of safe ''summary''))],
       en_missing = unique_list (map trim missing), en_allowed = [ACTIONS (le_boundary e)], en_blocked = BLOCKED_ACTIONS,
       en_authority = DECISION_AUTHORITY\<rparr>)"

definition event_handoff :: "'key lifecycle_host \<Rightarrow> lifecycle_event \<Rightarrow> string \<Rightarrow> handoff" where
  "event_handoff x e revision = \<lparr>ho_sourceTaskId = le_sourceTaskId e, ho_targetEndpointId = le_targetEndpointId e,
     ho_conversationId = le_eventId e, ho_envelope = event_envelope x e revision,
     ho_evidence = map_of (le_members e) ''evidenceReferences''\<rparr>"

text \<open>\<open>prepare\<close>, with the clock before and after the authorization.\<close>

definition prepare ::
  "'key lifecycle_host \<Rightarrow> lifecycle_event \<Rightarrow> jsnum option \<Rightarrow> jsnum \<Rightarrow> authorization \<Rightarrow> jsnum \<Rightarrow> (lifecycle_code, plan) result" where
  "prepare x e fixed clock permission later =
     (let now = (case fixed of None \<Rightarrow> clock | Some t \<Rightarrow> t); now2 = (case fixed of None \<Rightarrow> later | Some t \<Rightarrow> t);
          expires = dateParse (lh_host x) (le_expiresAt e) in
      if \<not> is_finite now then Inl TimeInvalid
      else if num_lt now (dateParse (lh_host x) (le_occurredAt e)) then Inl EventFuture
      else if num_le expires now then Inr (PlanExpired (eventHash x e))
      else case permission of
        AuthorizeThrows \<Rightarrow> Inl AdapterFailure
      | NotApproved \<Rightarrow> Inl PolicyDenied
      | Approved revision \<Rightarrow>
          (case revision of None \<Rightarrow> Inl PolicyInvalid | Some r \<Rightarrow>
           if \<not> revision_token r then Inl PolicyInvalid
           else if num_le expires now2 then Inr (PlanExpired (eventHash x e))
           else let d = event_handoff x e r in
             if 12000 < utf8_length (stringify (JObj (envelope_members (ho_envelope d)))) then Inl HandoffTooLarge
             else Inr (Planned \<lparr>pl_eventHash = eventHash x e, pl_requestHash = objectDigest (lh_host x) (handoff_json d),
               pl_idempotencyKey = idempotency_key x e, pl_handoff = d\<rparr>)))"

subsection \<open>Responses\<close>

text \<open>Members of a value that may be missing.\<close>

definition at_key :: "json option \<Rightarrow> string \<Rightarrow> json option" where
  "at_key v k = (case v of Some (JObj kvs) \<Rightarrow> map_of kvs k | _ \<Rightarrow> None)"

definition texts_of :: "json option \<Rightarrow> json list option" where
  "texts_of v = (case v of Some (JArr xs) \<Rightarrow> Some xs | _ \<Rightarrow> None)"

definition same_value :: "'key host \<Rightarrow> json option \<Rightarrow> json \<Rightarrow> bool" where
  "same_value h a b = (case a of None \<Rightarrow> False | Some v \<Rightarrow> canonicalize (collation h) v = canonicalize (collation h) b)"

text \<open>\<open>key in expected.known_state\<close> is also true of what every object inherits.\<close>

definition OBJECT_PROTOTYPE :: "string list" where
  "OBJECT_PROTOTYPE = [''constructor'', ''__defineGetter__'', ''__defineSetter__'', ''hasOwnProperty'', ''__lookupGetter__'',
     ''__lookupSetter__'', ''isPrototypeOf'', ''propertyIsEnumerable'', ''toString'', ''valueOf'', ''__proto__'', ''toLocaleString'']"

definition source_receipt :: "json \<Rightarrow> bool" where
  "source_receipt v = (let s = js_string v in starts_with s ''source_task_receipt:'' \<and> is_digest (drop 20 s))"

definition without_result :: "json list \<Rightarrow> json list" where
  "without_result = filter (\<lambda>v. v \<noteq> JStr ''source_task_result'')"

definition matchesApprovedState :: "'key host \<Rightarrow> json option \<Rightarrow> lifecycle_envelope \<Rightarrow> bool" where
  "matchesApprovedState h state expected =
     (case at_key state ''known_state'' of
        Some (JObj known) \<Rightarrow>
          list_all (\<lambda>k. same_value h (at_key state k) (the (map_of (envelope_members expected) k)))
            [''intent'', ''allowed_next_actions'', ''blocked_actions'', ''decision_authority'', ''tool_results'']
          \<and> list_all (\<lambda>(k, v). same_value h (map_of known k) v) (en_knownState expected)
          \<and> list_all (\<lambda>(k, _). k \<in> set (map fst (en_knownState expected)) \<or> k \<in> set OBJECT_PROTOTYPE
               \<or> k \<in> {''source_task'', ''source_task_result''}) known
          \<and> (case (texts_of (at_key state ''evidence_used''), texts_of (at_key state ''unknown_or_missing_state'')) of
               (Some used, Some missing) \<Rightarrow>
                 list_all (\<lambda>s. JStr s \<in> set used) (en_evidenceUsed expected)
                 \<and> list_all (\<lambda>v. v \<in> JStr ` set (en_evidenceUsed expected) \<or> source_receipt v) used
                 \<and> same_value h (Some (JArr (without_result missing))) (JArr (without_result (map JStr (en_missing expected))))
             | _ \<Rightarrow> False)
      | _ \<Rightarrow> False)"

text \<open>\<open>===\<close> of two values that were parsed: objects and arrays are never the same.\<close>

definition identical :: "json option \<Rightarrow> json option \<Rightarrow> bool" where
  "identical a b = (a = b \<and> (case a of Some (JArr _) \<Rightarrow> False | Some (JObj _) \<Rightarrow> False | _ \<Rightarrow> True))"

record observation =
  ob_taskId :: string
  ob_messageId :: string
  ob_correlationId :: string
  ob_eventHash :: string
  ob_requestHash :: string
  ob_returnedStateHash :: string

definition observation_json :: "observation \<Rightarrow> json" where
  "observation_json n = JObj [(''taskId'', JStr (ob_taskId n)), (''messageId'', JStr (ob_messageId n)),
     (''correlationId'', JStr (ob_correlationId n)), (''eventHash'', JStr (ob_eventHash n)), (''requestHash'', JStr (ob_requestHash n)),
     (''returnedStateHash'', JStr (ob_returnedStateHash n))]"

definition receipt_ok :: "'key host \<Rightarrow> json \<Rightarrow> lifecycle_event \<Rightarrow> string \<Rightarrow> handoff \<Rightarrow> bool" where
  "receipt_ok h response e hash d =
     (let r = Some response; task = at_key r ''task''; message = at_key r ''message''; state = at_key message ''state_envelope'';
          echoed = at_key (at_key state ''known_state'') ''lifecycle_event''; source = at_key (at_key task ''envelope'') ''source'';
          is_text = (\<lambda>v s. v = Some (JStr s)) in
      at_key r ''ok'' = Some (JBool True) \<and> is_text (at_key r ''organizationId'') (le_organizationId e)
      \<and> UUID (string_or_empty (at_key r ''correlationId''))
      \<and> UUID (string_or_empty (at_key task ''id'')) \<and> UUID (string_or_empty (at_key message ''id''))
      \<and> is_text (at_key task ''org_id'') (le_organizationId e) \<and> is_text (at_key task ''target_endpoint_id'') (le_targetEndpointId e)
      \<and> is_text (at_key task ''source_endpoint_id'') (le_sourceEndpointId e) \<and> is_text (at_key source ''taskId'') (le_sourceTaskId e)
      \<and> is_text (at_key source ''endpointId'') (le_sourceEndpointId e)
      \<and> is_text (at_key task ''workspace_id'') (le_targetWorkspaceId e) \<and> is_text (at_key task ''status'') ''offered''
      \<and> is_text (at_key message ''org_id'') (le_organizationId e) \<and> identical (at_key message ''task_id'') (at_key task ''id'')
      \<and> is_text (at_key message ''conversation_id'') (le_eventId e)
      \<and> is_text (at_key message ''source_endpoint_id'') (le_sourceEndpointId e)
      \<and> is_text (at_key message ''target_endpoint_id'') (le_targetEndpointId e) \<and> is_text (at_key echoed ''eventHash'') hash
      \<and> is_text (at_key message ''requested_response'') requested_response
      \<and> canonicalize (collation h) (case at_key message ''evidence_references'' of None \<Rightarrow> JNull | Some v \<Rightarrow> v)
          = canonicalize (collation h) (case ho_evidence d of None \<Rightarrow> JArr [] | Some v \<Rightarrow> v)
      \<and> matchesApprovedState h state (ho_envelope d))"

definition receipt ::
  "'key host \<Rightarrow> json \<Rightarrow> lifecycle_event \<Rightarrow> string \<Rightarrow> string \<Rightarrow> handoff \<Rightarrow> (lifecycle_code, observation) result" where
  "receipt h response e hash requestHash d =
     (if \<not> receipt_ok h response e hash d then Inl ResponseInvalid
      else let task = at_key (Some response) ''task''; message = at_key (Some response) ''message'' in
        Inr \<lparr>ob_taskId = string_or_empty (at_key task ''id''), ob_messageId = string_or_empty (at_key message ''id''),
          ob_correlationId = string_or_empty (at_key (Some response) ''correlationId''), ob_eventHash = hash, ob_requestHash = requestHash,
          ob_returnedStateHash = objectDigest h (case at_key message ''state_envelope'' of None \<Rightarrow> JNull | Some v \<Rightarrow> v)\<rparr>)"

definition observationHash :: "'key host \<Rightarrow> observation \<Rightarrow> string" where
  "observationHash h n = objectDigest h (observation_json n)"

text \<open>A service that returns what it was sent is believed.\<close>

lemma same_value_refl [simp]: "same_value h (Some v) v"
  by (simp add: same_value_def)

lemma echo_matches:
  assumes "distinct (map fst (en_knownState n))"
  shows "matchesApprovedState h (Some (JObj (envelope_members n))) n"
proof -
  have known: "list_all (\<lambda>(k, v). same_value h (map_of (en_knownState n) k) v) (en_knownState n)"
    using assms by (auto simp: list_all_iff)
  have names: "list_all (\<lambda>(k, _). k \<in> set (map fst (en_knownState n)) \<or> k \<in> set OBJECT_PROTOTYPE
      \<or> k \<in> {''source_task'', ''source_task_result''}) (en_knownState n)"
    by (force simp: list_all_iff)
  show ?thesis
    unfolding matchesApprovedState_def using known names
    by (simp add: envelope_members_def at_key_def str_array_def texts_of_def list_all_iff image_image)
qed

definition echo_response :: "lifecycle_event \<Rightarrow> handoff \<Rightarrow> string \<Rightarrow> string \<Rightarrow> string \<Rightarrow> json" where
  "echo_response e d correlation task message = JObj [(''ok'', JBool True), (''organizationId'', JStr (le_organizationId e)),
     (''correlationId'', JStr correlation),
     (''task'', JObj [(''id'', JStr task), (''org_id'', JStr (le_organizationId e)), (''target_endpoint_id'', JStr (le_targetEndpointId e)),
        (''source_endpoint_id'', JStr (le_sourceEndpointId e)), (''workspace_id'', JStr (le_targetWorkspaceId e)), (''status'', JStr ''offered''),
        (''envelope'', JObj [(''source'', JObj [(''taskId'', JStr (le_sourceTaskId e)), (''endpointId'', JStr (le_sourceEndpointId e))])])]),
     (''message'', JObj [(''id'', JStr message), (''org_id'', JStr (le_organizationId e)), (''task_id'', JStr task),
        (''conversation_id'', JStr (le_eventId e)), (''source_endpoint_id'', JStr (le_sourceEndpointId e)),
        (''target_endpoint_id'', JStr (le_targetEndpointId e)), (''requested_response'', JStr requested_response),
        (''evidence_references'', case ho_evidence d of None \<Rightarrow> JArr [] | Some v \<Rightarrow> v),
        (''state_envelope'', JObj (envelope_members (ho_envelope d)))])]"

lemma echo_receipt:
  assumes "UUID correlation" "UUID task" "UUID message"
  shows "receipt_ok h (echo_response e (event_handoff x e revision) correlation task message) e (eventHash x e) (event_handoff x e revision)"
proof -
  have "matchesApprovedState h (Some (JObj (envelope_members (event_envelope x e revision)))) (event_envelope x e revision)"
    by (rule echo_matches) (simp add: event_envelope_def Let_def)
  moreover have "at_key (at_key (Some (JObj (envelope_members (event_envelope x e revision)))) ''known_state'') ''lifecycle_event''
      = Some (JObj (AList.update ''policyRevision'' (JStr revision) (AList.update ''eventHash'' (JStr (eventHash x e)) (event_metadata e))))"
    by (simp add: at_key_def envelope_members_def event_envelope_def Let_def)
  ultimately show ?thesis
    using assms
    by (simp add: receipt_ok_def echo_response_def at_key_def Let_def event_handoff_def identical_def string_or_empty_def update_conv'
        split: option.split)
qed

end
