(* ===== verification/Lifecycle_Adapter.thy ===== *)
theory Lifecycle_Adapter
  imports Lifecycle_Event Decisions Runs Capsule_Build
begin

text \<open>
  The class \<open>SqliteLifecycleAdapter\<close> of packages/lifecycle-adapter/src/index.ts: its state database,
  the lease of a run, and the run itself as steps between which everything else may happen, the death
  of its process included.  A machine is known by the hash of its name.  The customer's projection and
  the transport are answers that may be different at every step.
\<close>

subsection \<open>The state database\<close>

datatype event_state = PendingEvent | DispatchedEvent | ExpiredEvent

record event_row =
  er_eventHash :: string
  er_requestHash :: "string option"
  er_state :: event_state
  er_observation :: "observation option"

record adapter_lease =
  al_holder :: string
  al_pid :: int
  al_hostHash :: string

type_synonym event_key = "string \<times> int"

record adapter_db =
  db_scope :: "string option"
  db_cursor :: int
  db_cursorHash :: "string option"
  db_events :: "event_key \<Rightarrow> event_row option"
  db_lease :: "adapter_lease option"

definition empty_db :: adapter_db where
  "empty_db = \<lparr>db_scope = None, db_cursor = 0, db_cursorHash = None, db_events = \<lambda>_. None, db_lease = None\<rparr>"

definition event_key :: "lifecycle_event \<Rightarrow> event_key" where
  "event_key e = (le_eventId e, le_revision e)"

subsection \<open>Opening\<close>

definition scope_json :: "'key host \<Rightarrow> lifecycle_scope \<Rightarrow> json" where
  "scope_json h s = JObj [(''organizationId'', JStr (sp_organizationId s)), (''repositoryBindingId'', JStr (sp_repositoryBindingId s)),
     (''workspaceId'', JStr (sp_workspaceId s)), (''sourceEndpointId'', JStr (sp_sourceEndpointId s)),
     (''targets'', JArr (map (\<lambda>t. JObj [(''endpointId'', JStr (tg_endpointId t)), (''workspaceId'', JStr (tg_workspaceId t))])
        (sort_by (\<lambda>a b. collation h (tg_endpointId a) (tg_endpointId b)) (sp_targets s))))]"

definition stream_digest :: "'key host \<Rightarrow> string \<Rightarrow> string \<Rightarrow> lifecycle_scope \<Rightarrow> string" where
  "stream_digest h streamId path s = objectDigest h (JObj [(''streamId'', JStr streamId), (''source'', JStr (sha256 h path)),
     (''scope'', scope_json h s)])"

text \<open>What the file system says of the paths of source and state.\<close>

record existing_state =
  ex_isFile :: bool
  ex_isSymbolicLink :: bool
  ex_samePath :: bool
  ex_sameInode :: bool
  ex_applicationId :: int

record adapter_files =
  af_sourceAbsolute :: bool
  af_sourceIsFile :: bool
  af_sourcePath :: string
  af_stateAbsolute :: bool
  af_existing :: "existing_state option"

definition STATE_APPLICATION_ID :: int where
  "STATE_APPLICATION_ID = 0x44464c41"

definition sourceDatabase :: "adapter_files \<Rightarrow> (lifecycle_code, unit) result" where
  "sourceDatabase f = (if \<not> af_sourceAbsolute f \<or> \<not> af_sourceIsFile f then Inl SourceInvalid else Inr ())"

definition state_error :: "adapter_files \<Rightarrow> lifecycle_code option" where
  "state_error f = (case af_existing f of None \<Rightarrow> None | Some e \<Rightarrow>
     if \<not> ex_isFile e \<or> ex_isSymbolicLink e then Some StateInvalid
     else if ex_samePath e \<or> ex_sameInode e then Some StateIsSource
     else if ex_applicationId e \<noteq> STATE_APPLICATION_ID then Some StateNotAdapter
     else None)"

definition claim_scope :: "string \<Rightarrow> adapter_db \<Rightarrow> (lifecycle_code, adapter_db) result" where
  "claim_scope digest db = (case db_scope db of
     Some d \<Rightarrow> if d \<noteq> digest then Inl StateScopeConflict else Inr db
   | None \<Rightarrow> Inr (db\<lparr>db_scope := Some digest\<rparr>))"

datatype processed_state = WasDispatched | WasDuplicate | WasExpired

record processed =
  pr_sequence :: int
  pr_eventId :: string
  pr_state :: processed_state
  pr_observationHash :: "string option"

datatype run_outcome = Drained | Blocked lifecycle_code

record run_result =
  rr_outcome :: run_outcome
  rr_cursor :: int
  rr_processed :: "processed list"
  rr_sequence :: "int option"

type_synonym source_rows = "(int \<times> string option) list"

datatype run_phase =
    Idle | HeadCheck | Reading | Rows source_rows
  | Prepared int lifecycle_event plan source_rows
  | Repeated int lifecycle_event plan source_rows
  | Unpinned int lifecycle_event plan source_rows
  | Pinned int lifecycle_event plan source_rows
  | Waiting int lifecycle_event planned source_rows
  | Answered int lifecycle_event plan "observation option" source_rows
  | Leaving run_result

record adapter =
  ad_options :: lifecycle_options
  ad_holder :: string
  ad_phase :: run_phase
  ad_processed :: "processed list"
  ad_sequence :: "int option"
  ad_result :: "run_result option"

definition open_adapter ::
  "'key host \<Rightarrow> adapter_files \<Rightarrow> lifecycle_options \<Rightarrow> string \<Rightarrow> adapter_db \<Rightarrow> (lifecycle_code, adapter \<times> adapter_db) result" where
  "open_adapter h f opts streamId db =
     (case validateScope (lo_scope opts) of Inl c \<Rightarrow> Inl c | Inr _ \<Rightarrow>
      case batchSize opts of Inl c \<Rightarrow> Inl c | Inr _ \<Rightarrow>
      case requestTimeout opts of Inl c \<Rightarrow> Inl c | Inr _ \<Rightarrow>
      if \<not> af_stateAbsolute f \<or> \<not> UUID streamId then Inl StateInvalid
      else case sourceDatabase f of Inl c \<Rightarrow> Inl c | Inr _ \<Rightarrow>
      case state_error f of Some c \<Rightarrow> Inl c | None \<Rightarrow>
      case claim_scope (stream_digest h streamId (af_sourcePath f) (lo_scope opts)) db of Inl c \<Rightarrow> Inl c
      | Inr db' \<Rightarrow> Inr (\<lparr>ad_options = opts, ad_holder = [], ad_phase = Idle, ad_processed = [], ad_sequence = None, ad_result = None\<rparr>, db'))"

subsection \<open>Statements of a run\<close>

text \<open>A run takes the lease if there is none, or if its holder was a process of this machine that is gone.\<close>

definition acquire :: "string \<Rightarrow> int \<Rightarrow> string \<Rightarrow> (int \<Rightarrow> bool) \<Rightarrow> adapter_db \<Rightarrow> (lifecycle_code, adapter_db) result" where
  "acquire hostHash pid holder alive db =
     (let busy = (case db_lease db of None \<Rightarrow> False | Some l \<Rightarrow> al_hostHash l \<noteq> hostHash \<or> alive (al_pid l)) in
      if busy then Inl AdapterBusy
      else Inr (db\<lparr>db_lease := Some \<lparr>al_holder = holder, al_pid = pid, al_hostHash = hostHash\<rparr>\<rparr>))"

definition release :: "string \<Rightarrow> adapter_db \<Rightarrow> adapter_db" where
  "release holder db = (case db_lease db of
     Some l \<Rightarrow> if al_holder l = holder then db\<lparr>db_lease := None\<rparr> else db | None \<Rightarrow> db)"

text \<open>An event longer than 16384 bytes is read as null.\<close>

definition capped :: "string option \<Rightarrow> string option" where
  "capped row = (case row of Some s \<Rightarrow> if utf8_length s \<le> 16384 then Some s else None | None \<Rightarrow> None)"

definition verifyConsumedHead ::
  "'key lifecycle_host \<Rightarrow> lifecycle_scope \<Rightarrow> (int \<Rightarrow> string option option) \<Rightarrow> adapter_db \<Rightarrow> (lifecycle_code, unit) result" where
  "verifyConsumedHead x scope source db =
     (if db_cursor db = 0 then Inr ()
      else case source (db_cursor db) of None \<Rightarrow> Inl HistoryChanged
      | Some row \<Rightarrow> (case parseEvent x (capped row) scope of Inl _ \<Rightarrow> Inl HistoryChanged
        | Inr e \<Rightarrow> if Some (eventHash x e) \<noteq> db_cursorHash db then Inl HistoryChanged else Inr ()))"

text \<open>The sequence numbers have to be safe integers and to increase; \<open>None\<close> is a value of another type.\<close>

fun check_rows :: "int \<Rightarrow> (int option \<times> string option) list \<Rightarrow> (lifecycle_code, source_rows) result" where
  "check_rows last_seen [] = Inr []"
| "check_rows last_seen ((n, row) # rest) = (case n of None \<Rightarrow> Inl SequenceInvalid | Some i \<Rightarrow>
     if \<bar>i\<bar> > 2 ^ 53 - 1 \<or> i \<le> last_seen then Inl SequenceInvalid
     else map_sum id (Cons (i, capped row)) (check_rows i rest))"

definition readRows :: "(int option \<times> string option) list option \<Rightarrow> int \<Rightarrow> int \<Rightarrow> (lifecycle_code, source_rows) result" where
  "readRows answer cursor limit = (case answer of None \<Rightarrow> Inl ProjectionUnavailable
     | Some rows \<Rightarrow> check_rows cursor (take (nat limit) rows))"

text \<open>\<open>previewLifecycleSource\<close>: what a run would do with the rows, with one answer of clock and
  authorization for each event.\<close>

type_synonym answers = "jsnum \<times> authorization \<times> jsnum"

fun preview_rows ::
  "'key lifecycle_host \<Rightarrow> lifecycle_options \<Rightarrow> (int \<Rightarrow> answers) \<Rightarrow> source_rows \<Rightarrow> (lifecycle_code, (int \<times> lifecycle_event \<times> plan) list) result" where
  "preview_rows x opts answer [] = Inr []"
| "preview_rows x opts answer ((n, row) # rest) = (case parseEvent x row (lo_scope opts) of Inl c \<Rightarrow> Inl c | Inr e \<Rightarrow>
     case answer n of (clock, permission, later) \<Rightarrow>
     case prepare x e (lo_now opts) clock permission later of Inl c \<Rightarrow> Inl c
     | Inr p \<Rightarrow> map_sum id (Cons (n, e, p)) (preview_rows x opts answer rest))"

definition previewLifecycleSource ::
  "'key lifecycle_host \<Rightarrow> adapter_files \<Rightarrow> lifecycle_options \<Rightarrow> int option \<Rightarrow> (int option \<times> string option) list option \<Rightarrow> (int \<Rightarrow> answers)
     \<Rightarrow> (lifecycle_code, (int \<times> lifecycle_event \<times> plan) list) result" where
  "previewLifecycleSource x f opts after rows answer =
     (case validateScope (lo_scope opts) of Inl c \<Rightarrow> Inl c | Inr _ \<Rightarrow>
      let cursor = (case after of None \<Rightarrow> 0 | Some n \<Rightarrow> n) in
      if cursor < 0 \<or> 2 ^ 53 - 1 < cursor then Inl CursorInvalid
      else case sourceDatabase f of Inl c \<Rightarrow> Inl c | Inr _ \<Rightarrow>
      case batchSize opts of Inl c \<Rightarrow> Inl c | Inr limit \<Rightarrow>
      case readRows rows cursor limit of Inl c \<Rightarrow> Inl c | Inr read \<Rightarrow> preview_rows x opts answer read)"

definition plan_eventHash :: "plan \<Rightarrow> string" where
  "plan_eventHash p = (case p of PlanExpired h \<Rightarrow> h | Planned q \<Rightarrow> pl_eventHash q)"

definition plan_requestHash :: "plan \<Rightarrow> string option" where
  "plan_requestHash p = (case p of PlanExpired _ \<Rightarrow> None | Planned q \<Rightarrow> Some (pl_requestHash q))"

lemma plan_hash_simps [simp]:
  "plan_eventHash (PlanExpired h) = h" "plan_eventHash (Planned q) = pl_eventHash q"
  "plan_requestHash (PlanExpired h) = None" "plan_requestHash (Planned q) = Some (pl_requestHash q)"
  by (simp_all add: plan_eventHash_def plan_requestHash_def)

text \<open>The checks against the row of the event; the value says whether it was handled before.\<close>

definition check_prior :: "event_row option \<Rightarrow> plan \<Rightarrow> (lifecycle_code, bool) result" where
  "check_prior prior p = (case prior of None \<Rightarrow> Inr False | Some row \<Rightarrow>
     if er_eventHash row \<noteq> plan_eventHash p \<or> plan_requestHash p \<noteq> None \<and> er_requestHash row \<noteq> plan_requestHash p
     then Inl ProjectionConflict
     else if er_state row = PendingEvent \<and> plan_requestHash p = None then Inl PendingExpired
     else Inr (er_state row \<noteq> PendingEvent))"

definition advance_cursor :: "int \<Rightarrow> string \<Rightarrow> adapter_db \<Rightarrow> adapter_db" where
  "advance_cursor n hash db = db\<lparr>db_cursor := n, db_cursorHash := Some hash\<rparr>"

definition pin_event :: "lifecycle_event \<Rightarrow> plan \<Rightarrow> adapter_db \<Rightarrow> adapter_db" where
  "pin_event e p db = (if db_events db (event_key e) \<noteq> None then db
     else db\<lparr>db_events := (db_events db)(event_key e \<mapsto>
       \<lparr>er_eventHash = plan_eventHash p, er_requestHash = plan_requestHash p,
        er_state = (if plan_requestHash p = None then ExpiredEvent else PendingEvent), er_observation = None\<rparr>)\<rparr>)"

definition settle_event :: "lifecycle_event \<Rightarrow> observation option \<Rightarrow> adapter_db \<Rightarrow> adapter_db" where
  "settle_event e observed db = (case db_events db (event_key e) of None \<Rightarrow> db | Some row \<Rightarrow>
     db\<lparr>db_events := (db_events db)(event_key e \<mapsto>
       row\<lparr>er_state := (if observed = None then ExpiredEvent else DispatchedEvent), er_observation := observed\<rparr>)\<rparr>)"

subsection \<open>A run\<close>

text \<open>A request that went to the transport, with the scope of its adapter.\<close>

record request =
  rq_scope :: lifecycle_scope
  rq_event :: lifecycle_event
  rq_plan :: planned

definition note_processed :: "int \<Rightarrow> lifecycle_event \<Rightarrow> processed_state \<Rightarrow> string option \<Rightarrow> source_rows \<Rightarrow> adapter \<Rightarrow> adapter" where
  "note_processed n e st hash rest a = a\<lparr>ad_phase := Rows rest, ad_processed := ad_processed a
     @ [\<lparr>pr_sequence = n, pr_eventId = le_eventId e, pr_state = st, pr_observationHash = hash\<rparr>]\<rparr>"

definition finish_run :: "run_outcome \<Rightarrow> adapter_db \<Rightarrow> adapter \<Rightarrow> adapter" where
  "finish_run r db a = a\<lparr>ad_phase := Leaving \<lparr>rr_outcome = r, rr_cursor = db_cursor db, rr_processed = ad_processed a,
     rr_sequence = (if r = Drained then None else case ad_phase a of Rows ((n, _) # _) \<Rightarrow> Some n | _ \<Rightarrow> ad_sequence a)\<rparr>\<rparr>"

definition running :: "adapter \<Rightarrow> bool" where
  "running a = (ad_phase a \<noteq> Idle)"

definition leaving :: "adapter \<Rightarrow> bool" where
  "leaving a = (case ad_phase a of Leaving _ \<Rightarrow> True | _ \<Rightarrow> False)"

text \<open>Why a run is blocked: the function of its step throws, or a statement of SQLite does.\<close>

inductive blocks :: "'key lifecycle_host \<Rightarrow> adapter \<Rightarrow> adapter_db \<Rightarrow> lifecycle_code \<Rightarrow> bool" for x a db where
  head: "ad_phase a = HeadCheck \<Longrightarrow> verifyConsumedHead x (lo_scope (ad_options a)) source db = Inl c \<Longrightarrow> blocks x a db c"
| reading: "ad_phase a = Reading \<Longrightarrow> batchSize (ad_options a) = Inr limit \<Longrightarrow> readRows answer (db_cursor db) limit = Inl c
    \<Longrightarrow> blocks x a db c"
| parsing: "ad_phase a = Rows ((n, row) # rest) \<Longrightarrow> parseEvent x row (lo_scope (ad_options a)) = Inl c \<Longrightarrow> blocks x a db c"
| preparing: "ad_phase a = Rows ((n, row) # rest) \<Longrightarrow> parseEvent x row (lo_scope (ad_options a)) = Inr e
    \<Longrightarrow> prepare x e (lo_now (ad_options a)) clock permission later = Inl c \<Longrightarrow> blocks x a db c"
| prior: "ad_phase a = Prepared n e p rest \<Longrightarrow> check_prior (db_events db (event_key e)) p = Inl c \<Longrightarrow> blocks x a db c"
| transport: "ad_phase a = Waiting n e q rest \<Longrightarrow> blocks x a db TransportUnavailable"
| response: "ad_phase a = Waiting n e q rest
    \<Longrightarrow> receipt (lh_host x) answer e (pl_eventHash q) (pl_requestHash q) (pl_handoff q) = Inl c \<Longrightarrow> blocks x a db c"
| statement: "running a \<Longrightarrow> \<not> leaving a \<Longrightarrow> blocks x a db AdapterFailure"

text \<open>The steps of a run: \<open>me\<close> is the machine and the process, \<open>living\<close> are the processes that exist.\<close>

inductive run_step ::
  "'key lifecycle_host \<Rightarrow> string \<times> int \<Rightarrow> (string \<times> int) set \<Rightarrow> adapter \<times> adapter_db \<Rightarrow> request list \<Rightarrow> adapter \<times> adapter_db \<Rightarrow> bool"
  for x me living where
  begin_run: "ad_phase a = Idle \<Longrightarrow> transportOrganization = sp_organizationId (lo_scope (ad_options a))
    \<Longrightarrow> acquire (fst me) (snd me) holder (\<lambda>p. (fst me, p) \<in> living) db = Inr db'
    \<Longrightarrow> run_step x me living (a, db) []
          (a\<lparr>ad_phase := HeadCheck, ad_holder := holder, ad_processed := [], ad_sequence := None\<rparr>, db')"
| head_same: "ad_phase a = HeadCheck \<Longrightarrow> verifyConsumedHead x (lo_scope (ad_options a)) source db = Inr ()
    \<Longrightarrow> run_step x me living (a, db) [] (a\<lparr>ad_phase := Reading\<rparr>, db)"
| rows_read: "ad_phase a = Reading \<Longrightarrow> batchSize (ad_options a) = Inr limit \<Longrightarrow> readRows answer (db_cursor db) limit = Inr rows
    \<Longrightarrow> run_step x me living (a, db) [] (a\<lparr>ad_phase := Rows rows\<rparr>, db)"
| row_prepared: "ad_phase a = Rows ((n, row) # rest) \<Longrightarrow> parseEvent x row (lo_scope (ad_options a)) = Inr e
    \<Longrightarrow> prepare x e (lo_now (ad_options a)) clock permission later = Inr p
    \<Longrightarrow> run_step x me living (a, db) [] (a\<lparr>ad_phase := Prepared n e p rest, ad_sequence := Some n\<rparr>, db)"
| seen_before: "ad_phase a = Prepared n e p rest \<Longrightarrow> check_prior (db_events db (event_key e)) p = Inr True
    \<Longrightarrow> run_step x me living (a, db) [] (a\<lparr>ad_phase := Repeated n e p rest\<rparr>, db)"
| not_seen: "ad_phase a = Prepared n e p rest \<Longrightarrow> check_prior (db_events db (event_key e)) p = Inr False
    \<Longrightarrow> run_step x me living (a, db) [] (a\<lparr>ad_phase := Unpinned n e p rest\<rparr>, db)"
| skipped: "ad_phase a = Repeated n e p rest
    \<Longrightarrow> run_step x me living (a, db) [] (note_processed n e WasDuplicate None rest a, advance_cursor n (plan_eventHash p) db)"
| pinned: "ad_phase a = Unpinned n e p rest
    \<Longrightarrow> run_step x me living (a, db) [] (a\<lparr>ad_phase := Pinned n e p rest\<rparr>, pin_event e p db)"
| requested: "ad_phase a = Pinned n e (Planned q) rest
    \<Longrightarrow> run_step x me living (a, db) [\<lparr>rq_scope = lo_scope (ad_options a), rq_event = e, rq_plan = q\<rparr>]
          (a\<lparr>ad_phase := Waiting n e q rest\<rparr>, db)"
| outdated: "ad_phase a = Pinned n e (PlanExpired h) rest
    \<Longrightarrow> run_step x me living (a, db) [] (a\<lparr>ad_phase := Answered n e (PlanExpired h) None rest\<rparr>, db)"
| answered: "ad_phase a = Waiting n e q rest
    \<Longrightarrow> receipt (lh_host x) answer e (pl_eventHash q) (pl_requestHash q) (pl_handoff q) = Inr obs
    \<Longrightarrow> run_step x me living (a, db) [] (a\<lparr>ad_phase := Answered n e (Planned q) (Some obs) rest\<rparr>, db)"
| settled: "ad_phase a = Answered n e p obs rest
    \<Longrightarrow> run_step x me living (a, db) [] (note_processed n e (if obs = None then WasExpired else WasDispatched)
          (map_option (observationHash (lh_host x)) obs) rest a, advance_cursor n (plan_eventHash p) (settle_event e obs db))"
| drained: "ad_phase a = Rows [] \<Longrightarrow> run_step x me living (a, db) [] (finish_run Drained db a, db)"
| blocked: "blocks x a db c \<Longrightarrow> run_step x me living (a, db) [] (finish_run (Blocked c) db a, db)"
| left: "ad_phase a = Leaving r
    \<Longrightarrow> run_step x me living (a, db) [] (a\<lparr>ad_phase := Idle, ad_result := Some r\<rparr>, release (ad_holder a) db)"

subsection \<open>All machines and processes\<close>

type_synonym adapter_id = "(string \<times> int) \<times> nat"

record network =
  nw_db :: adapter_db
  nw_living :: "(string \<times> int) set"
  nw_adapters :: "adapter_id \<Rightarrow> adapter option"
  nw_requests :: "request list"

definition start_network :: network where
  "start_network = \<lparr>nw_db = empty_db, nw_living = {}, nw_adapters = \<lambda>_. None, nw_requests = []\<rparr>"

inductive network_step :: "'key lifecycle_host \<Rightarrow> network \<Rightarrow> network \<Rightarrow> bool" for x where
  spawn: "network_step x w (w\<lparr>nw_living := insert q (nw_living w)\<rparr>)"
| die: "network_step x w (w\<lparr>nw_living := nw_living w - {q}, nw_adapters := \<lambda>k. if fst k = q then None else nw_adapters w k\<rparr>)"
| open_one: "fst k \<in> nw_living w \<Longrightarrow> nw_adapters w k = None \<Longrightarrow> open_adapter (lh_host x) f opts streamId (nw_db w) = Inr (a, db)
    \<Longrightarrow> network_step x w (w\<lparr>nw_db := db, nw_adapters := (nw_adapters w)(k \<mapsto> a)\<rparr>)"
| close_one: "nw_adapters w k = Some a \<Longrightarrow> \<not> running a \<Longrightarrow> network_step x w (w\<lparr>nw_adapters := (nw_adapters w)(k := None)\<rparr>)"
| act: "nw_adapters w k = Some a \<Longrightarrow> run_step x (fst k) (nw_living w) (a, nw_db w) rs (a', db)
    \<Longrightarrow> network_step x w (w\<lparr>nw_db := db, nw_adapters := (nw_adapters w)(k \<mapsto> a'), nw_requests := nw_requests w @ rs\<rparr>)"

abbreviation network_run :: "'key lifecycle_host \<Rightarrow> network \<Rightarrow> network \<Rightarrow> bool" where
  "network_run x \<equiv> (network_step x)\<^sup>*\<^sup>*"

subsection \<open>Invariants\<close>

text \<open>What a plan says of its event.\<close>

definition plan_for :: "'key lifecycle_host \<Rightarrow> lifecycle_scope \<Rightarrow> lifecycle_event \<Rightarrow> plan \<Rightarrow> bool" where
  "plan_for x scope e p = (in_scope scope e
     \<and> (\<exists>fixed clock permission later. prepare x e fixed clock permission later = Inr p))"

definition pinned_row :: "plan \<Rightarrow> event_row option \<Rightarrow> bool" where
  "pinned_row p row = (row = Some \<lparr>er_eventHash = plan_eventHash p, er_requestHash = plan_requestHash p,
     er_state = (if plan_requestHash p = None then ExpiredEvent else PendingEvent), er_observation = None\<rparr>)"

fun ascending :: "int \<Rightarrow> source_rows \<Rightarrow> bool" where
  "ascending n [] = True"
| "ascending n ((i, _) # rest) = (n < i \<and> ascending i rest)"

definition answer_of :: "'key lifecycle_host \<Rightarrow> lifecycle_event \<Rightarrow> planned \<Rightarrow> observation \<Rightarrow> bool" where
  "answer_of x e q ob = (\<exists>answer. receipt (lh_host x) answer e (pl_eventHash q) (pl_requestHash q) (pl_handoff q) = Inr ob)"

text \<open>What the position of a run says of the database; \<open>Q\<close> are the requests so far.\<close>

definition coming :: "'key lifecycle_host \<Rightarrow> lifecycle_scope \<Rightarrow> adapter_db \<Rightarrow> int \<Rightarrow> lifecycle_event \<Rightarrow> plan \<Rightarrow> source_rows \<Rightarrow> bool" where
  "coming x s db n e p rest = (plan_for x s e p \<and> db_cursor db < n \<and> ascending n rest)"

definition sent :: "request list \<Rightarrow> lifecycle_scope \<Rightarrow> lifecycle_event \<Rightarrow> planned \<Rightarrow> bool" where
  "sent Q s e q = (\<lparr>rq_scope = s, rq_event = e, rq_plan = q\<rparr> \<in> set Q)"

fun phase_ok :: "'key lifecycle_host \<Rightarrow> lifecycle_scope \<Rightarrow> request list \<Rightarrow> adapter_db \<Rightarrow> run_phase \<Rightarrow> bool" where
  "phase_ok x s Q db (Rows rows) = ascending (db_cursor db) rows"
| "phase_ok x s Q db (Prepared n e p rest) = coming x s db n e p rest"
| "phase_ok x s Q db (Repeated n e p rest) = coming x s db n e p rest"
| "phase_ok x s Q db (Unpinned n e p rest) = (coming x s db n e p rest \<and> check_prior (db_events db (event_key e)) p = Inr False)"
| "phase_ok x s Q db (Pinned n e p rest) = (coming x s db n e p rest \<and> pinned_row p (db_events db (event_key e)))"
| "phase_ok x s Q db (Waiting n e q rest) = (coming x s db n e (Planned q) rest \<and> pinned_row (Planned q) (db_events db (event_key e))
     \<and> sent Q s e q)"
| "phase_ok x s Q db (Answered n e p obs rest) = (coming x s db n e p rest \<and> pinned_row p (db_events db (event_key e))
     \<and> (case obs of None \<Rightarrow> plan_requestHash p = None | Some ob \<Rightarrow> \<exists>q. p = Planned q \<and> sent Q s e q \<and> answer_of x e q ob))"
| "phase_ok x s Q db _ = True"

definition rows_ok :: "'key lifecycle_host \<Rightarrow> request list \<Rightarrow> adapter_db \<Rightarrow> bool" where
  "rows_ok x Q db = (\<forall>k row. db_events db k = Some row \<longrightarrow>
     (er_state row = DispatchedEvent) = (er_observation row \<noteq> None)
     \<and> (er_state row = ExpiredEvent \<longrightarrow> er_requestHash row = None)
     \<and> (\<forall>ob. er_observation row = Some ob \<longrightarrow> (\<exists>r \<in> set Q. event_key (rq_event r) = k \<and> answer_of x (rq_event r) (rq_plan r) ob)))"

definition requests_ok :: "'key lifecycle_host \<Rightarrow> request list \<Rightarrow> adapter_db \<Rightarrow> bool" where
  "requests_ok x Q db = (\<forall>r \<in> set Q. plan_for x (rq_scope r) (rq_event r) (Planned (rq_plan r))
     \<and> (\<exists>row. db_events db (event_key (rq_event r)) = Some row \<and> er_eventHash row = pl_eventHash (rq_plan r)
          \<and> er_requestHash row = Some (pl_requestHash (rq_plan r))))"

text \<open>Rows keep their hashes, rows that are not pending stay as they are, and the cursor does not go back.\<close>

definition rows_advance :: "adapter_db \<Rightarrow> adapter_db \<Rightarrow> bool" where
  "rows_advance db db' = (db_cursor db \<le> db_cursor db' \<and> (\<forall>k row. db_events db k = Some row \<longrightarrow>
     (\<exists>row'. db_events db' k = Some row' \<and> er_eventHash row' = er_eventHash row \<and> er_requestHash row' = er_requestHash row
        \<and> (er_state row \<noteq> PendingEvent \<longrightarrow> row' = row))))"

lemma rows_advance_refl [simp]: "rows_advance db db"
  by (simp add: rows_advance_def)

lemma rows_advance_trans: "rows_advance a b \<Longrightarrow> rows_advance b c \<Longrightarrow> rows_advance a c"
  unfolding rows_advance_def
proof (intro conjI allI impI, goal_cases)
  case (2 k row)
  then obtain row1 where "db_events b k = Some row1" "er_eventHash row1 = er_eventHash row" "er_requestHash row1 = er_requestHash row"
      "er_state row \<noteq> PendingEvent \<longrightarrow> row1 = row" by blast
  moreover with 2(2) obtain row2 where "db_events c k = Some row2" "er_eventHash row2 = er_eventHash row1"
      "er_requestHash row2 = er_requestHash row1" "er_state row1 \<noteq> PendingEvent \<longrightarrow> row2 = row1" by blast
  ultimately show ?case by auto
qed linarith

lemma map_sum_Inr: "map_sum f g r = Inr y \<longleftrightarrow> (\<exists>z. r = Inr z \<and> y = g z)"
  by (cases r) auto

lemma check_rows_ascending: "check_rows n raw = Inr rows \<Longrightarrow> ascending n rows"
  by (induction n raw arbitrary: rows rule: check_rows.induct) (auto split: option.splits if_splits sum.splits simp: map_sum_Inr)

lemma parse_in_scope: "parseEvent x row s = Inr e \<Longrightarrow> in_scope s e"
  by (auto simp: parseEvent_def Let_def split: option.splits if_splits)

text \<open>A statement of a run whose position is right advances the rows.\<close>

lemma prior_pinned:
  assumes "check_prior (db_events db (event_key e)) p = Inr False" "rows_ok x Q db"
  shows "pinned_row p (db_events (pin_event e p db) (event_key e))"
proof (cases "db_events db (event_key e)")
  case None
  then show ?thesis by (simp add: pinned_row_def pin_event_def)
next
  case (Some row)
  with assms(1) have "er_eventHash row = plan_eventHash p" "er_state row = PendingEvent" "plan_requestHash p \<noteq> None"
      "er_requestHash row = plan_requestHash p"
    by (auto simp: check_prior_def split: if_splits)
  moreover from assms(2) Some have "(er_state row = DispatchedEvent) = (er_observation row \<noteq> None)"
    unfolding rows_ok_def by blast
  ultimately show ?thesis using Some by (cases row) (simp add: pinned_row_def pin_event_def)
qed

lemma run_step_advances:
  assumes "run_step x me living (a, db) rs (a', db')" "phase_ok x (lo_scope (ad_options a)) Q db (ad_phase a)" "rows_ok x Q db"
  shows "rows_advance db db'"
  using assms
proof (cases rule: run_step.cases)
  case (settled n e p obs rest)
  then show ?thesis using assms(2)
    by (auto simp: rows_advance_def coming_def pinned_row_def settle_event_def advance_cursor_def split: option.splits if_splits)
qed (auto simp: rows_advance_def coming_def acquire_def release_def pin_event_def advance_cursor_def Let_def split: option.splits if_splits)

lemma run_step_options: "run_step x me living (a, db) rs (a', db') \<Longrightarrow> ad_options a' = ad_options a"
  by (cases rule: run_step.cases) (auto simp: note_processed_def finish_run_def)

lemma sent_append [simp]: "sent Q s e q \<Longrightarrow> sent (Q @ rs) s e q"
  by (simp add: sent_def)

lemma run_step_phase:
  assumes "run_step x me living (a, db) rs (a', db')" "phase_ok x (lo_scope (ad_options a)) Q db (ad_phase a)" "rows_ok x Q db"
  shows "phase_ok x (lo_scope (ad_options a)) (Q @ rs) db' (ad_phase a')"
  using assms
proof (cases rule: run_step.cases)
  case (rows_read limit answer rows)
  then show ?thesis using check_rows_ascending by (auto simp: readRows_def split: option.splits)
next
  case (row_prepared n row rest e clock permission later p)
  then show ?thesis using assms(2) parse_in_scope by (fastforce simp: coming_def plan_for_def)
next
  case (pinned n e p rest)
  then show ?thesis using assms(2,3) prior_pinned [of db e p x Q]
    by (simp add: coming_def) (simp add: pin_event_def)
next
  case (outdated n e h rest)
  then show ?thesis using assms(2) by simp
next
  case (answered n e q rest answer obs)
  then show ?thesis using assms(2) by (auto simp: answer_of_def)
next
  case (requested n e q rest)
  then show ?thesis using assms(2) by (simp add: sent_def)
qed (auto simp: note_processed_def finish_run_def coming_def advance_cursor_def settle_event_def split: option.splits)

lemma run_step_requests:
  assumes "run_step x me living (a, db) rs (a', db')" "phase_ok x (lo_scope (ad_options a)) Q db (ad_phase a)" "requests_ok x Q db"
    and "rows_advance db db'"
  shows "requests_ok x (Q @ rs) db'"
proof -
  have old: "requests_ok x Q db'"
    unfolding requests_ok_def
  proof
    fix r assume r: "r \<in> set Q"
    with assms(3) obtain row where row: "plan_for x (rq_scope r) (rq_event r) (Planned (rq_plan r))"
        "db_events db (event_key (rq_event r)) = Some row" "er_eventHash row = pl_eventHash (rq_plan r)"
        "er_requestHash row = Some (pl_requestHash (rq_plan r))" unfolding requests_ok_def by blast
    with assms(4) obtain row' where "db_events db' (event_key (rq_event r)) = Some row'" "er_eventHash row' = er_eventHash row"
        "er_requestHash row' = er_requestHash row" unfolding rows_advance_def by blast
    with row show "plan_for x (rq_scope r) (rq_event r) (Planned (rq_plan r)) \<and> (\<exists>row. db_events db' (event_key (rq_event r)) = Some row
        \<and> er_eventHash row = pl_eventHash (rq_plan r) \<and> er_requestHash row = Some (pl_requestHash (rq_plan r)))" by simp
  qed
  from assms(1) show ?thesis
  proof (cases rule: run_step.cases)
    case (requested n e q rest)
    with old assms(2) show ?thesis by (auto simp: requests_ok_def coming_def pinned_row_def)
  qed (use old in \<open>auto\<close>)
qed

lemma run_step_rows:
  assumes "run_step x me living (a, db) rs (a', db')" "phase_ok x (lo_scope (ad_options a)) Q db (ad_phase a)" "rows_ok x Q db"
  shows "rows_ok x (Q @ rs) db'"
proof -
  from assms(3) have more: "rows_ok x (Q @ rs) db" unfolding rows_ok_def by fastforce
  from assms(1) show ?thesis
  proof (cases rule: run_step.cases)
    case (settled n e p obs rest)
    with assms(2) have row: "pinned_row p (db_events db (event_key e))"
        "case obs of None \<Rightarrow> plan_requestHash p = None | Some ob \<Rightarrow> \<exists>q. p = Planned q \<and> sent Q (lo_scope (ad_options a)) e q \<and> answer_of x e q ob"
      by simp_all
    then have "\<exists>r \<in> set Q. event_key (rq_event r) = event_key e \<and> answer_of x (rq_event r) (rq_plan r) ob" if "obs = Some ob" for ob
      using that by (force simp: sent_def)
    with settled row more show ?thesis
      by (auto simp: rows_ok_def pinned_row_def settle_event_def advance_cursor_def)
  next
    case (pinned n e p rest)
    with more show ?thesis by (auto simp: rows_ok_def pin_event_def)
  qed (use more in \<open>auto simp: rows_ok_def acquire_def release_def advance_cursor_def Let_def split: option.splits if_splits\<close>)
qed

lemma run_step_lease:
  assumes "run_step x me living (a, db) rs (a', db')"
  shows "\<not> running a \<and> rs = [] \<and> db' = db\<lparr>db_lease := Some \<lparr>al_holder = ad_holder a', al_pid = snd me, al_hostHash = fst me\<rparr>\<rparr>
      \<and> (\<forall>l. db_lease db = Some l \<longrightarrow> al_hostHash l = fst me \<and> (fst me, al_pid l) \<notin> living)
    \<or> running a \<and> running a' \<and> db_lease db' = db_lease db \<and> ad_holder a' = ad_holder a
    \<or> running a \<and> \<not> running a' \<and> db' = release (ad_holder a) db"
  using assms
proof (cases rule: run_step.cases)
  case (blocked c)
  from blocked(4) have "running a" by (cases rule: blocks.cases) (auto simp: running_def)
  with blocked show ?thesis by (simp add: running_def finish_run_def)
qed (auto simp: running_def note_processed_def finish_run_def acquire_def pin_event_def advance_cursor_def settle_event_def Let_def
    split: option.splits if_splits)

definition holds_lease :: "adapter_id \<Rightarrow> adapter \<Rightarrow> adapter_db \<Rightarrow> bool" where
  "holds_lease k a db = (db_lease db = Some \<lparr>al_holder = ad_holder a, al_pid = snd (fst k), al_hostHash = fst (fst k)\<rparr>)"

definition consistent :: "'key lifecycle_host \<Rightarrow> network \<Rightarrow> bool" where
  "consistent x w = (rows_ok x (nw_requests w) (nw_db w) \<and> requests_ok x (nw_requests w) (nw_db w)
     \<and> (\<forall>k a. nw_adapters w k = Some a \<longrightarrow> fst k \<in> nw_living w
          \<and> phase_ok x (lo_scope (ad_options a)) (nw_requests w) (nw_db w) (ad_phase a)
          \<and> (running a \<longrightarrow> holds_lease k a (nw_db w) \<and> (\<forall>k' a'. nw_adapters w k' = Some a' \<longrightarrow> running a' \<longrightarrow> k' = k))))"

lemma consistentD:
  assumes "consistent x w" "nw_adapters w k = Some a"
  shows "fst k \<in> nw_living w" "phase_ok x (lo_scope (ad_options a)) (nw_requests w) (nw_db w) (ad_phase a)"
    "running a \<Longrightarrow> holds_lease k a (nw_db w)" "running a \<Longrightarrow> nw_adapters w k' = Some a' \<Longrightarrow> running a' \<Longrightarrow> k' = k"
  using assms unfolding consistent_def by blast+

lemma idle_ok [simp]: "\<not> running a \<Longrightarrow> phase_ok x s Q db (ad_phase a)"
  by (simp add: running_def)

text \<open>When a run begins, no other adapter runs.\<close>

lemma none_running:
  assumes "consistent x w" and "\<And>l. db_lease (nw_db w) = Some l \<Longrightarrow> al_hostHash l = h \<and> (h, al_pid l) \<notin> nw_living w"
    and "nw_adapters w k = Some a"
  shows "\<not> running a"
proof
  assume "running a"
  with consistentD [OF assms(1,3)] have "holds_lease k a (nw_db w)" "fst k \<in> nw_living w" by blast+
  with assms(2) show False by (cases k) (auto simp: holds_lease_def)
qed

lemma act_consistent:
  assumes w: "consistent x w" and k: "nw_adapters w k = Some a" and run: "run_step x (fst k) (nw_living w) (a, nw_db w) rs (a', db)"
  shows "consistent x (w\<lparr>nw_db := db, nw_adapters := (nw_adapters w)(k \<mapsto> a'), nw_requests := nw_requests w @ rs\<rparr>)"
    and "rows_advance (nw_db w) db"
proof -
  let ?s = "lo_scope (ad_options a)"
  from w have ok: "rows_ok x (nw_requests w) (nw_db w)" "requests_ok x (nw_requests w) (nw_db w)" by (auto simp: consistent_def)
  note run_phase = consistentD(2) [OF w k]
  from run_step_advances [OF run run_phase ok(1)] show adv: "rows_advance (nw_db w) db" .
  have a': "phase_ok x (lo_scope (ad_options a')) (nw_requests w @ rs) db (ad_phase a')"
    using run_step_phase [OF run run_phase ok(1)] run_step_options [OF run] by simp
  have others: "\<not> running b" if "nw_adapters w k' = Some b" "k' \<noteq> k" for k' b
    using run_step_lease [OF run] consistentD(4) [OF w k _ that(1)] none_running [OF w _ that(1), of "fst (fst k)"] that(2) by blast
  have mine: "running a' \<Longrightarrow> holds_lease k a' db"
    using run_step_lease [OF run] consistentD(3) [OF w k] by (auto simp: holds_lease_def)
  show "consistent x (w\<lparr>nw_db := db, nw_adapters := (nw_adapters w)(k \<mapsto> a'), nw_requests := nw_requests w @ rs\<rparr>)"
    unfolding consistent_def
    using run_step_rows [OF run run_phase ok(1)] run_step_requests [OF run run_phase ok(2) adv] a' mine others consistentD(1) [OF w] k
    by auto
qed

lemma phase_ok_scope: "phase_ok x s Q (db\<lparr>db_scope := d\<rparr>) p = phase_ok x s Q db p"
  by (cases p) (simp_all add: coming_def)

lemma claim_scope_only: "claim_scope digest db = Inr db' \<Longrightarrow> \<exists>d. db' = db\<lparr>db_scope := d\<rparr>"
proof -
  have "db = db\<lparr>db_scope := db_scope db\<rparr>" by simp
  then have "\<exists>d. db = db\<lparr>db_scope := d\<rparr>" by (rule exI)
  then show "claim_scope digest db = Inr db' \<Longrightarrow> ?thesis"
    by (auto simp: claim_scope_def split: option.splits if_splits)
qed

lemma step_consistent:
  assumes "network_step x w w'" "consistent x w"
  shows "consistent x w' \<and> rows_advance (nw_db w) (nw_db w')"
  using assms
proof (cases rule: network_step.cases)
  case (open_one k f opts streamId a db)
  then obtain d where d: "db = (nw_db w)\<lparr>db_scope := d\<rparr>" "\<not> running a"
    using claim_scope_only by (fastforce simp: open_adapter_def running_def split: sum.splits option.splits if_splits)
  have "rows_ok x Q db = rows_ok x Q (nw_db w)" "requests_ok x Q db = requests_ok x Q (nw_db w)"
      "holds_lease k' b db = holds_lease k' b (nw_db w)" for Q k' b
    by (simp_all add: d(1) rows_ok_def requests_ok_def holds_lease_def)
  with assms(2) open_one d show ?thesis
    by (auto simp: consistent_def phase_ok_scope rows_advance_def)
next
  case (act k a rs a' db)
  with act_consistent [OF assms(2) act(2,3)] show ?thesis by simp
next
  case (die q)
  with assms(2) show ?thesis by (auto simp: consistent_def)
next
  case (close_one k a)
  with assms(2) show ?thesis by (auto simp: consistent_def)
next
  case (spawn q)
  with assms(2) show ?thesis by (auto simp: consistent_def)
qed

lemma start_consistent: "consistent x start_network"
  by (simp add: consistent_def start_network_def empty_db_def rows_ok_def requests_ok_def)

lemma run_consistent:
  assumes "network_run x w w'" "consistent x w"
  shows "consistent x w' \<and> rows_advance (nw_db w) (nw_db w')"
  using assms
proof (induction rule: rtranclp_induct)
  case (step v w')
  with step_consistent [of x v w'] show ?case using rows_advance_trans by blast
qed simp

lemmas reached_consistent = run_consistent [OF _ start_consistent, THEN conjunct1]

subsection \<open>What the adapter promises\<close>

text \<open>
  C30. Runs exclude each other.  Whatever processes start, crash and restart on any machines, at
  most one adapter of a state database is inside a run at any time.
\<close>

theorem lifecycle_runs_exclusive:
  assumes "network_run x start_network w" "nw_adapters w k = Some a" "running a" "nw_adapters w k' = Some a'" "running a'"
  shows "k = k' \<and> fst k \<in> nw_living w"
  using consistentD(1,4) [OF reached_consistent [OF assms(1)]] assms(2-5) by blast

lemma prepare_planned:
  assumes "prepare x e fixed clock permission later = Inr (Planned q)"
  shows "\<exists>revision. permission = Approved (Some revision) \<and> revision_token revision \<and> pl_handoff q = event_handoff x e revision
    \<and> pl_eventHash q = eventHash x e \<and> pl_requestHash q = objectDigest (lh_host x) (handoff_json (event_handoff x e revision))
    \<and> pl_idempotencyKey q = idempotency_key x e
    \<and> utf8_length (stringify (JObj (envelope_members (event_envelope x e revision)))) \<le> 12000
    \<and> \<not> num_le (dateParse (lh_host x) (le_expiresAt e)) (case fixed of None \<Rightarrow> later | Some t \<Rightarrow> t)"
  using assms by (auto simp: prepare_def Let_def event_handoff_def split: if_splits authorization.splits option.splits)

lemma request_planned:
  assumes "network_run x start_network w" "r \<in> set (nw_requests w)"
  obtains row fixed clock permission later where "in_scope (rq_scope r) (rq_event r)"
    "prepare x (rq_event r) fixed clock permission later = Inr (Planned (rq_plan r))"
    "db_events (nw_db w) (event_key (rq_event r)) = Some row" "er_eventHash row = pl_eventHash (rq_plan r)"
    "er_requestHash row = Some (pl_requestHash (rq_plan r))"
proof -
  from reached_consistent [OF assms(1)] have "requests_ok x (nw_requests w) (nw_db w)" by (simp add: consistent_def)
  with assms(2) show ?thesis using that unfolding requests_ok_def plan_for_def by blast
qed

text \<open>
  C31. A lost response is replayed with the same request.  All requests that ever go to the transport
  for one event and revision, by any run of any process, are made from the same event bytes and have
  the same request hash, and inside one scope the same idempotency key.
\<close>

theorem lifecycle_requests_stable:
  assumes "network_run x start_network w" "r \<in> set (nw_requests w)" "r' \<in> set (nw_requests w)"
    and "event_key (rq_event r) = event_key (rq_event r')"
  shows "pl_eventHash (rq_plan r) = pl_eventHash (rq_plan r') \<and> pl_requestHash (rq_plan r) = pl_requestHash (rq_plan r')
    \<and> (rq_scope r = rq_scope r' \<longrightarrow> pl_idempotencyKey (rq_plan r) = pl_idempotencyKey (rq_plan r'))"
proof -
  obtain row fixed clock permission later where r: "in_scope (rq_scope r) (rq_event r)"
      "prepare x (rq_event r) fixed clock permission later = Inr (Planned (rq_plan r))"
      "db_events (nw_db w) (event_key (rq_event r)) = Some row" "er_eventHash row = pl_eventHash (rq_plan r)"
      "er_requestHash row = Some (pl_requestHash (rq_plan r))"
    using request_planned [OF assms(1,2)] .
  obtain row' fixed' clock' permission' later' where r': "in_scope (rq_scope r') (rq_event r')"
      "prepare x (rq_event r') fixed' clock' permission' later' = Inr (Planned (rq_plan r'))"
      "db_events (nw_db w) (event_key (rq_event r')) = Some row'" "er_eventHash row' = pl_eventHash (rq_plan r')"
      "er_requestHash row' = Some (pl_requestHash (rq_plan r'))"
    using request_planned [OF assms(1,3)] .
  from r(3) r'(3) assms(4) have "row = row'" by simp
  moreover have "pl_idempotencyKey (rq_plan r) = pl_idempotencyKey (rq_plan r')" if "rq_scope r = rq_scope r'"
    using prepare_planned [OF r(2)] prepare_planned [OF r'(2)] r(1) r'(1) assms(4) that
    by (auto simp: in_scope_def idempotency_key_def event_key_def)
  ultimately show ?thesis using r(4,5) r'(4,5) by simp
qed


lemma step_rows_final:
  assumes "network_step x w w'" "consistent x w" "db_events (nw_db w) k = Some row" "er_state row \<noteq> PendingEvent"
  shows "filter (\<lambda>r. event_key (rq_event r) = k) (nw_requests w') = filter (\<lambda>r. event_key (rq_event r) = k) (nw_requests w)"
  using assms(1)
proof (cases rule: network_step.cases)
  case (act k1 a rs a' db)
  from act(3) show ?thesis
  proof (cases rule: run_step.cases)
    case (requested n e q rest)
    with consistentD(2) [OF assms(2) act(2)] have "pinned_row (Planned q) (db_events (nw_db w) (event_key e))" by simp
    with assms(3,4) have "event_key e \<noteq> k" by (auto simp: pinned_row_def)
    with requested act show ?thesis by simp
  qed (use act in \<open>simp_all\<close>)
qed auto



subsection \<open>What the checks let through, and what they stop\<close>

text \<open>
  A member of \<open>known_state\<close> that no approved state has passes the check when every JavaScript object
  inherits its name.
\<close>

lemma inherited_names_accepted:
  assumes "distinct (map fst (en_knownState n))" "name \<in> set OBJECT_PROTOTYPE" "name \<notin> set (map fst (en_knownState n))"
  shows "matchesApprovedState h (Some (JObj (envelope_members (n\<lparr>en_knownState := en_knownState n @ [(name, v)]\<rparr>)))) n"
proof -
  have known: "list_all (\<lambda>(k, w). same_value h (map_of (en_knownState n @ [(name, v)]) k) w) (en_knownState n)"
    using assms(1) by (auto simp: list_all_iff map_add_def)
  have names: "list_all (\<lambda>(k, _). k \<in> set (map fst (en_knownState n)) \<or> k \<in> set OBJECT_PROTOTYPE
      \<or> k \<in> {''source_task'', ''source_task_result''}) (en_knownState n @ [(name, v)])"
    using assms(2) by (force simp: list_all_iff)
  show ?thesis
    unfolding matchesApprovedState_def using known names
    by (simp add: envelope_members_def at_key_def str_array_def texts_of_def list_all_iff image_image)
qed

lemma meaning_at:
  assumes "map_option meaning v = map_option meaning w"
  shows "map_option meaning (at_key v k) = map_option meaning (at_key w k)"
proof -
  have member: "map_of (map (\<lambda>(k, v). (k, meaning v)) kvs) k = map_option meaning (map_of kvs k)" for kvs
    by (induction kvs) auto
  have step: "meaning a = meaning b \<Longrightarrow> map_option meaning (at_key (Some a) k) = map_option meaning (at_key (Some b) k)" for a b
    by (cases a; cases b) (simp_all add: at_key_def flip: member)
  show ?thesis
  proof (cases v)
    case None
    with assms show ?thesis by (simp add: at_key_def)
  next
    case (Some a)
    with assms obtain b where "w = Some b" "meaning a = meaning b" by (cases w) auto
    with Some step [of a b] show ?thesis by simp
  qed
qed

lemma handoff_revision:
  assumes "meaning (handoff_json (event_handoff x e r)) = meaning (handoff_json (event_handoff x e r'))"
  shows "r = r'"
proof -
  define at where "at s = at_key (at_key (at_key (at_key (Some (handoff_json (event_handoff x e s))) ''stateEnvelope'') ''known_state'')
    ''lifecycle_event'') ''policyRevision''" for s
  have "at s = Some (JStr s)" for s
    by (simp add: at_def handoff_json_def event_handoff_def event_envelope_def Let_def at_key_def envelope_members_def update_conv')
  moreover from assms have "map_option meaning (at r) = map_option meaning (at r')"
    unfolding at_def by (intro meaning_at) simp
  ultimately show ?thesis by simp
qed

text \<open>
  A change of the policy revision blocks the retry of an event that is pending, unchanged as it is:
  the revision is part of the request, and the request was pinned.
\<close>

lemma policy_change_conflicts:
  assumes "prepare x e fixed clock (Approved (Some r)) later = Inr (Planned q)" "er_requestHash row = Some (pl_requestHash q)"
    and "prepare x e fixed' clock' (Approved (Some r')) later' = Inr (Planned q')" "r \<noteq> r'"
    and "key_order (collation (lh_host x))" "wf_json (handoff_json (pl_handoff q))" "wf_json (handoff_json (pl_handoff q'))"
  shows "check_prior (Some row) (Planned q') = Inl ProjectionConflict
    \<or> sha256_collision (lh_host x) (handoff_json (pl_handoff q)) (handoff_json (pl_handoff q'))"
  using prepare_planned [OF assms(1)] prepare_planned [OF assms(3)] assms objectDigest_eq [OF assms(5-7)]
    handoff_revision [of x e r r']
  by (auto simp: check_prior_def)

subsection \<open>An execution\<close>

definition demo_id8 :: "string \<Rightarrow> string" where
  "demo_id8 tail = ''00000000-0000-4000-8000-0000000000'' @ tail"

definition demo_members :: "(string \<times> json) list" where
  "demo_members = [(''schema'', JStr ''dharma.lifecycle-event/v1''), (''eventId'', JStr (demo_id8 ''01'')), (''revision'', JNum 1),
     (''organizationId'', JStr ''o''), (''repositoryBindingId'', JStr (demo_id8 ''02'')), (''workspaceId'', JStr (demo_id8 ''03'')),
     (''sourceEndpointId'', JStr (demo_id8 ''04'')), (''targetEndpointId'', JStr (demo_id8 ''05'')),
     (''targetWorkspaceId'', JStr (demo_id8 ''06'')), (''sourceTaskId'', JStr (demo_id8 ''07'')), (''workflow'', JStr ''coding''),
     (''boundary'', JStr ''implementation_to_review''), (''sourceCommit'', JStr (replicate 40 (CHR ''a''))),
     (''sourceHash'', JStr (''sha256:'' @ replicate 64 (CHR ''a''))), (''occurredAt'', JStr ''1000''), (''expiresAt'', JStr ''9000''),
     (''intent'', JStr ''try it again''), (''summary'', JStr ''it is true''), (''missing'', JArr []), (''evidenceReferences'', JArr [])]"

definition demo_lifecycle :: "string lifecycle_host" where
  "demo_lifecycle = \<lparr>lh_host = demo_capsule_host, lh_parse = \<lambda>_. Some (JObj demo_members),
     lh_formats = \<lparr>fm_uuid = UUID, fm_dateTime = \<lambda>t. demo_parse t \<noteq> None\<rparr>\<rparr>"

definition demo_scope :: lifecycle_scope where
  "demo_scope = \<lparr>sp_organizationId = ''o'', sp_repositoryBindingId = demo_id8 ''02'', sp_workspaceId = demo_id8 ''03'',
     sp_sourceEndpointId = demo_id8 ''04'', sp_targets = [\<lparr>tg_endpointId = demo_id8 ''05'', tg_workspaceId = demo_id8 ''06''\<rparr>]\<rparr>"

definition demo_lifecycle_event :: lifecycle_event where
  "demo_lifecycle_event = event_of demo_members"

lemma demo_event_parsed: "parseEvent demo_lifecycle (Some t) demo_scope = Inr demo_lifecycle_event"
proof -
  have "validEvent (lh_formats demo_lifecycle) (JObj demo_members)" "in_scope demo_scope demo_lifecycle_event" by code_simp+
  moreover have "le_occurredAt demo_lifecycle_event = ''1000''" "le_expiresAt demo_lifecycle_event = ''9000''" by code_simp+
  ultimately show ?thesis
    by (simp add: parseEvent_def demo_lifecycle_def demo_lifecycle_event_def demo_capsule_host_def num_le_def num_lt_def num_sub_def Let_def)
qed

lemma demo_texts: "safe_texts demo_lifecycle demo_lifecycle_event
    = [(''intent'', JStr ''try it again''), (''summary'', JStr ''it is true''), (''missing'', JArr [])]"
proof -
  have own: "own_order [(''intent'', a), (''summary'', b), (''missing'', c)] = [(''intent'', a), (''summary'', b), (''missing'', c)]"
    for a b c :: json by code_simp
  have fields: "sensitive_field (normalizedFieldName ''intent'') = False" "local_path_field (normalizedFieldName ''intent'') = False"
      "sensitive_field (normalizedFieldName ''summary'') = False" "local_path_field (normalizedFieldName ''summary'') = False"
      "sensitive_field (normalizedFieldName ''missing'') = False" "sensitive_field (normalizedFieldName []) = False"
      "looks_like_json ''try it again'' = False" "looks_like_json ''it is true'' = False"
    by code_simp+
  have plain: "fst (redactString ''intent'' st) = ''intent''" "fst (redactString ''summary'' st) = ''summary''"
      "fst (redactString ''missing'' st) = ''missing''" "fst (redactString ''try it again'' st) = ''try it again''"
      "fst (redactString ''it is true'' st) = ''it is true''" for st
    by (simp_all add: plain_text plain_letters_def)
  have members: "map (\<lambda>k. (k, case map_of (le_members demo_lifecycle_event) k of Some v \<Rightarrow> v | None \<Rightarrow> JNull)) [''intent'', ''summary'', ''missing'']
      = [(''intent'', JStr ''try it again''), (''summary'', JStr ''it is true''), (''missing'', JArr [])]" by code_simp
  show ?thesis
    unfolding safe_texts_def Let_def members
    by (simp add: redactValue.simps own fields plain safe_key_def set_member_def case_prod_beta)
qed

lemma demo_event_fields:
  "le_occurredAt demo_lifecycle_event = ''1000''" "le_expiresAt demo_lifecycle_event = ''9000''"
  "le_sourceHash demo_lifecycle_event = ''sha256:'' @ replicate 64 (CHR ''a'')"
  "le_sourceCommit demo_lifecycle_event = replicate 40 (CHR ''a'')" "le_boundary demo_lifecycle_event = ''implementation_to_review''"
  by code_simp+

lemma demo_event_times:
  "dateParse (lh_host demo_lifecycle) ''1000'' = Some 1000" "dateParse (lh_host demo_lifecycle) ''9000'' = Some 9000"
  by (simp_all add: demo_lifecycle_def demo_capsule_host_def)

lemma demo_lh_hex [simp]: "sha256Hex (lh_host demo_lifecycle) t = replicate 64 (CHR ''a'')"
  by (simp add: demo_lifecycle_def)

lemma demo_event_metadata: "event_metadata demo_lifecycle_event = take 16 demo_members"
  by code_simp

lemma demo_trim: "trim ''try it again'' = ''try it again''"
  by code_simp

lemma demo_planned:
  obtains q where "prepare demo_lifecycle demo_lifecycle_event None (Some 2000) (Approved (Some ''r'')) (Some 2000) = Inr (Planned q)"
    "pl_handoff q = event_handoff demo_lifecycle demo_lifecycle_event ''r''"
    "pl_eventHash q = eventHash demo_lifecycle demo_lifecycle_event"
proof -
  have "rough_bytes (JObj (envelope_members (event_envelope demo_lifecycle demo_lifecycle_event ''r''))) \<le> 12000"
    by (simp add: event_envelope_def demo_texts Let_def envelope_members_def demo_event_metadata demo_members_def demo_id8_def demo_event_fields str_array_def
        eventHash_def objectDigest_def sha256_def demo_lh_hex ACTIONS_def BLOCKED_ACTIONS_def DECISION_AUTHORITY_def demo_trim
        text_of_def unique_list_def)
  with json_bytes_le have "utf8_length (stringify (JObj (envelope_members (event_envelope demo_lifecycle demo_lifecycle_event ''r'')))) \<le> 12000"
    unfolding stringify_bytes by (rule le_trans)
  then have "\<exists>q. prepare demo_lifecycle demo_lifecycle_event None (Some 2000) (Approved (Some ''r'')) (Some 2000) = Inr (Planned q)"
    by (simp add: prepare_def Let_def demo_event_fields demo_event_times revision_token_def event_handoff_def num_le_def num_lt_def
        is_finite_def is_word_char_def is_letter_def)
  then show ?thesis using prepare_planned that by blast
qed

definition demo_options :: lifecycle_options where
  "demo_options = \<lparr>lo_scope = demo_scope, lo_now = None, lo_batchSize = None, lo_requestTimeoutMs = None\<rparr>"

definition demo_adapter :: "run_phase \<Rightarrow> int option \<Rightarrow> adapter" where
  "demo_adapter p n = \<lparr>ad_options = demo_options, ad_holder = ''h'', ad_phase = p, ad_processed = [], ad_sequence = n, ad_result = None\<rparr>"

abbreviation demo_network :: "adapter_db \<Rightarrow> adapter \<Rightarrow> request list \<Rightarrow> network" where
  "demo_network db a Q \<equiv> \<lparr>nw_db = db, nw_living = {(''m'', 7)}, nw_adapters = [((''m'', 7), 0) \<mapsto> a], nw_requests = Q\<rparr>"

lemma demo_act:
  assumes "network_run demo_lifecycle start_network (demo_network db a Q)"
    and "run_step demo_lifecycle (''m'', 7) {(''m'', 7)} (a, db) rs (a', db')"
  shows "network_run demo_lifecycle start_network (demo_network db' a' (Q @ rs))"
  using assms(1) network_step.act [of "demo_network db a Q" "((''m'', 7), 0)" a demo_lifecycle rs a' db'] assms(2) by (simp add: rtranclp.rtrancl_into_rtrancl)

definition demo_opened :: adapter_db where
  "demo_opened = empty_db\<lparr>db_scope := Some (stream_digest demo_capsule_host (demo_id8 ''08'') ''/s'' demo_scope)\<rparr>"

lemma demo_open:
  "network_run demo_lifecycle start_network (demo_network demo_opened ((demo_adapter Idle None)\<lparr>ad_holder := []\<rparr>) [])"
proof -
  let ?f = "\<lparr>af_sourceAbsolute = True, af_sourceIsFile = True, af_sourcePath = ''/s'', af_stateAbsolute = True, af_existing = None\<rparr>"
  have "validateScope demo_scope = Inr ()" "UUID (demo_id8 ''08'')" by code_simp+
  then have "open_adapter (lh_host demo_lifecycle) ?f demo_options (demo_id8 ''08'') empty_db
      = Inr ((demo_adapter Idle None)\<lparr>ad_holder := []\<rparr>, demo_opened)"
    by (simp add: open_adapter_def demo_options_def batchSize_def requestTimeout_def sourceDatabase_def state_error_def claim_scope_def
        demo_opened_def demo_lifecycle_def demo_adapter_def empty_db_def)
  with network_step.open_one [of "((''m'', 7), 0)" "start_network\<lparr>nw_living := {(''m'', 7)}\<rparr>" demo_lifecycle ?f demo_options "demo_id8 ''08''"]
  have "network_step demo_lifecycle (start_network\<lparr>nw_living := {(''m'', 7)}\<rparr>)
      (demo_network demo_opened ((demo_adapter Idle None)\<lparr>ad_holder := []\<rparr>) [])"
    by (simp add: start_network_def fun_upd_def)
  moreover have "network_step demo_lifecycle start_network (start_network\<lparr>nw_living := {(''m'', 7)}\<rparr>)"
    using network_step.spawn [of demo_lifecycle start_network "(''m'', 7)"] by (simp add: start_network_def)
  ultimately show ?thesis by (meson r_into_rtranclp rtranclp.rtrancl_into_rtrancl)
qed

definition demo_leased :: adapter_db where
  "demo_leased = demo_opened\<lparr>db_lease := Some \<lparr>al_holder = ''h'', al_pid = 7, al_hostHash = ''m''\<rparr>\<rparr>"

lemma demo_cursor: "db_cursor demo_leased = 0" "db_events demo_leased k = None"
  by (simp_all add: demo_leased_def demo_opened_def empty_db_def)

lemma demo_phases:
  "ad_phase (demo_adapter p n) = p" "lo_scope (ad_options (demo_adapter p n)) = demo_scope" "lo_now (ad_options (demo_adapter p n)) = None"
  "(demo_adapter p n)\<lparr>ad_phase := p'\<rparr> = demo_adapter p' n" "(demo_adapter p n)\<lparr>ad_sequence := n'\<rparr> = demo_adapter p n'"
  "ad_processed (demo_adapter p n) = []" "ad_holder (demo_adapter p n) = ''h''" "batchSize (ad_options (demo_adapter p n)) = Inr 20"
  by (simp_all add: demo_adapter_def demo_options_def batchSize_def)

lemma demo_prepared:
  assumes "prepare demo_lifecycle demo_lifecycle_event None (Some 2000) (Approved (Some ''r'')) (Some 2000) = Inr (Planned q)"
  shows "network_run demo_lifecycle start_network (demo_network demo_leased (demo_adapter (Unpinned 1 demo_lifecycle_event (Planned q) []) (Some 1)) [])"
proof -
  let ?run = "\<lambda>a db. network_run demo_lifecycle start_network (demo_network db a [])"
  let ?step = "run_step demo_lifecycle (''m'', 7) {(''m'', 7)}"
  have go: "?run a db \<Longrightarrow> ?step (a, db) [] (a', db') \<Longrightarrow> ?run a' db'" for a db a' db'
    using demo_act [of db a "[]" "[]"] by simp
  have a1: "((demo_adapter Idle None)\<lparr>ad_holder := []\<rparr>)\<lparr>ad_phase := HeadCheck, ad_holder := ''h'', ad_processed := [], ad_sequence := None\<rparr>
      = demo_adapter HeadCheck None" by (simp add: demo_adapter_def)
  have "acquire ''m'' 7 ''h'' alive demo_opened = Inr demo_leased" for alive
    by (simp add: acquire_def demo_leased_def demo_opened_def empty_db_def)
  then have "?step ((demo_adapter Idle None)\<lparr>ad_holder := []\<rparr>, demo_opened) [] (demo_adapter HeadCheck None, demo_leased)"
    unfolding a1 [symmetric] by (intro run_step.begin_run [OF _ refl]) (simp_all add: demo_adapter_def)
  from go [OF demo_open this] have "?run (demo_adapter HeadCheck None) demo_leased" .
  moreover have "?step (demo_adapter HeadCheck None, demo_leased) [] (demo_adapter Reading None, demo_leased)"
    using run_step.head_same [of "demo_adapter HeadCheck None" demo_lifecycle "\<lambda>_. None" demo_leased "(''m'', 7)" "{(''m'', 7)}"]
    by (simp add: demo_phases demo_cursor verifyConsumedHead_def)
  ultimately have "?run (demo_adapter Reading None) demo_leased" by (rule go)
  moreover have "?step (demo_adapter Reading None, demo_leased) [] (demo_adapter (Rows [(1, Some [])]) None, demo_leased)"
    using run_step.rows_read [of "demo_adapter Reading None" 20 "Some [(Some 1, Some [])]" demo_leased "[(1, Some [])]" demo_lifecycle]
    by (simp add: demo_phases demo_cursor readRows_def capped_def)
  ultimately have "?run (demo_adapter (Rows [(1, Some [])]) None) demo_leased" by (rule go)
  moreover have "?step (demo_adapter (Rows [(1, Some [])]) None, demo_leased) []
      (demo_adapter (Prepared 1 demo_lifecycle_event (Planned q) []) (Some 1), demo_leased)"
    using run_step.row_prepared [of "demo_adapter (Rows [(1, Some [])]) None" 1 "Some []" "[]" demo_lifecycle demo_lifecycle_event
      "Some 2000" "Approved (Some ''r'')" "Some 2000" "Planned q" "(''m'', 7)" "{(''m'', 7)}" demo_leased] assms
    by (simp add: demo_phases demo_event_parsed)
  ultimately have "?run (demo_adapter (Prepared 1 demo_lifecycle_event (Planned q) []) (Some 1)) demo_leased" by (rule go)
  moreover have "?step (demo_adapter (Prepared 1 demo_lifecycle_event (Planned q) []) (Some 1), demo_leased) []
      (demo_adapter (Unpinned 1 demo_lifecycle_event (Planned q) []) (Some 1), demo_leased)"
    using run_step.not_seen [of "demo_adapter (Prepared 1 demo_lifecycle_event (Planned q) []) (Some 1)" 1 demo_lifecycle_event "Planned q" "[]" demo_leased]
    by (simp add: demo_phases demo_cursor check_prior_def)
  ultimately show ?thesis by (rule go)
qed

definition demo_sent :: "planned \<Rightarrow> request" where
  "demo_sent q = \<lparr>rq_scope = demo_scope, rq_event = demo_lifecycle_event, rq_plan = q\<rparr>"

definition demo_pinned :: "planned \<Rightarrow> adapter_db" where
  "demo_pinned q = pin_event demo_lifecycle_event (Planned q) demo_leased"

lemma demo_waiting:
  assumes "prepare demo_lifecycle demo_lifecycle_event None (Some 2000) (Approved (Some ''r'')) (Some 2000) = Inr (Planned q)"
  shows "network_run demo_lifecycle start_network
    (demo_network (demo_pinned q) (demo_adapter (Waiting 1 demo_lifecycle_event q []) (Some 1)) [demo_sent q])"
proof -
  let ?step = "run_step demo_lifecycle (''m'', 7) {(''m'', 7)}"
  have "?step (demo_adapter (Unpinned 1 demo_lifecycle_event (Planned q) []) (Some 1), demo_leased) []
      (demo_adapter (Pinned 1 demo_lifecycle_event (Planned q) []) (Some 1), demo_pinned q)"
    using run_step.pinned [of "demo_adapter (Unpinned 1 demo_lifecycle_event (Planned q) []) (Some 1)" 1 demo_lifecycle_event "Planned q" "[]"]
    by (simp add: demo_phases demo_pinned_def)
  from demo_act [OF demo_prepared [OF assms] this] have "network_run demo_lifecycle start_network
      (demo_network (demo_pinned q) (demo_adapter (Pinned 1 demo_lifecycle_event (Planned q) []) (Some 1)) [])" by simp
  moreover have "?step (demo_adapter (Pinned 1 demo_lifecycle_event (Planned q) []) (Some 1), demo_pinned q) [demo_sent q]
      (demo_adapter (Waiting 1 demo_lifecycle_event q []) (Some 1), demo_pinned q)"
    using run_step.requested [of "demo_adapter (Pinned 1 demo_lifecycle_event (Planned q) []) (Some 1)" 1 demo_lifecycle_event q "[]"]
    by (simp add: demo_phases demo_sent_def)
  ultimately show ?thesis using demo_act by fastforce
qed

lemma demo_settled:
  "\<exists>w a row r. network_run demo_lifecycle start_network w \<and> nw_adapters w ((''m'', 7), 0) = Some a \<and> running a
     \<and> db_events (nw_db w) (event_key demo_lifecycle_event) = Some row \<and> er_state row = DispatchedEvent
     \<and> nw_requests w = [r] \<and> rq_event r = demo_lifecycle_event"
proof -
  obtain q where q: "prepare demo_lifecycle demo_lifecycle_event None (Some 2000) (Approved (Some ''r'')) (Some 2000) = Inr (Planned q)"
      "pl_handoff q = event_handoff demo_lifecycle demo_lifecycle_event ''r''" "pl_eventHash q = eventHash demo_lifecycle demo_lifecycle_event"
    by (rule demo_planned)
  let ?step = "run_step demo_lifecycle (''m'', 7) {(''m'', 7)}"
  let ?e = demo_lifecycle_event
  have "UUID (demo_id8 ''09'')" by code_simp
  from echo_receipt [OF this this this, of "lh_host demo_lifecycle" ?e demo_lifecycle "''r''"] obtain ob where
    ob: "receipt (lh_host demo_lifecycle) (echo_response ?e (event_handoff demo_lifecycle ?e ''r'') (demo_id8 ''09'') (demo_id8 ''09'') (demo_id8 ''09''))
      ?e (pl_eventHash q) (pl_requestHash q) (pl_handoff q) = Inr ob"
    by (simp add: receipt_def q(2,3) Let_def)
  have "?step (demo_adapter (Waiting 1 ?e q []) (Some 1), demo_pinned q) [] (demo_adapter (Answered 1 ?e (Planned q) (Some ob) []) (Some 1), demo_pinned q)"
    using run_step.answered [OF _ ob, of "demo_adapter (Waiting 1 ?e q []) (Some 1)" 1 "[]"] by (simp add: demo_phases)
  from demo_act [OF demo_waiting [OF q(1)] this] have run: "network_run demo_lifecycle start_network
      (demo_network (demo_pinned q) (demo_adapter (Answered 1 ?e (Planned q) (Some ob) []) (Some 1)) [demo_sent q])" by simp
  let ?a = "note_processed 1 ?e WasDispatched (Some (observationHash (lh_host demo_lifecycle) ob)) []
      (demo_adapter (Answered 1 ?e (Planned q) (Some ob) []) (Some 1))"
  let ?db = "advance_cursor 1 (pl_eventHash q) (settle_event ?e (Some ob) (demo_pinned q))"
  have "?step (demo_adapter (Answered 1 ?e (Planned q) (Some ob) []) (Some 1), demo_pinned q) [] (?a, ?db)"
    using run_step.settled [of "demo_adapter (Answered 1 ?e (Planned q) (Some ob) []) (Some 1)" 1 ?e "Planned q" "Some ob" "[]" demo_lifecycle "(''m'', 7)"
      "{(''m'', 7)}" "demo_pinned q"] by (simp add: demo_phases)
  from demo_act [OF run this] have final: "network_run demo_lifecycle start_network (demo_network ?db ?a [demo_sent q])" by simp
  let ?row = "\<lparr>er_eventHash = pl_eventHash q, er_requestHash = Some (pl_requestHash q), er_state = DispatchedEvent, er_observation = Some ob\<rparr>"
  have "db_events ?db (event_key ?e) = Some ?row"
    by (simp add: advance_cursor_def settle_event_def demo_pinned_def pin_event_def demo_cursor)
  moreover have "running ?a" by (simp add: running_def note_processed_def)
  ultimately show ?thesis
    using final by (intro exI [of _ "demo_network ?db ?a [demo_sent q]"] exI [of _ ?a] exI [of _ ?row] exI [of _ "demo_sent q"])
      (simp add: demo_sent_def)
qed

theorem lifecycle_runs_exclusive_witness:
  "\<exists>w. network_run demo_lifecycle start_network w \<and> (\<exists>a. nw_adapters w ((''m'', 7), 0) = Some a \<and> running a) \<and> (''m'', 7) \<in> nw_living w"
  using demo_settled lifecycle_runs_exclusive [of demo_lifecycle _ "((''m'', 7), 0)"] by (metis fst_conv)

theorem lifecycle_requests_stable_witness:
  "\<exists>w r. network_run demo_lifecycle start_network w \<and> r \<in> set (nw_requests w)
     \<and> (rq_scope r = rq_scope r \<longrightarrow> pl_idempotencyKey (rq_plan r) = pl_idempotencyKey (rq_plan r))"
proof -
  from demo_settled obtain w r where w: "network_run demo_lifecycle start_network w" "nw_requests w = [r]" by blast
  with lifecycle_requests_stable [OF w(1), of r r] show ?thesis by auto
qed




end
