(* ===== verification/Skill_Bundles.thy ===== *)
theory Skill_Bundles
  imports Parsed_Json Decisions Org_Policy
begin

text \<open>
  Skill bundles in packages/skill-manager/src/index.ts: the hash of a directory, the verification of
  a signed bundle and of the receipt of its installation, and the authorization that the two give.
  Bundles and receipts are objects that \<open>JSON.parse\<close> returned, so nothing is known of their members.
\<close>

subsection \<open>Directories\<close>

text \<open>A symbolic link has what it leads to, if anything.\<close>

datatype tree = File string | Link "tree option" | Special | Dir "(string \<times> tree) list"

datatype bundle_error =
    UnknownBundleSchema | BundleExpiryInvalid | BundleExpired | BundleSignatureInvalid | BundleHashInvalid | SelectorsInvalid
  | NotAuthorizedFor string | ReceiptSignatureInvalid | ReceiptHashInvalid | ReceiptNotActive | ReceiptMismatch | ActivationWindowInvalid
  | PointerMismatch | ReceiptNotCurrent | NotExpired | SymbolicLinks | NotFileOrDirectory | WorkspaceIdInvalid | UnmanagedSkill string
  | InvalidBootstrap string | OtherWorkspace string | ManifestMissing | ManifestMismatch | RecoveryInvalid | OrganizationMismatch
  | ClearWithSkills | InstallWithoutSkills | ApprovalRequired | InstallDisabled | SmokeWithoutPolicy | InvalidSkillId | ContentMismatch string
  | RecoveryIncomplete | NotTheActiveBundle | NoEntry | EntryExists | StorageError | TypeMismatch | SkillPathEscapes

subsection \<open>The hash of a directory\<close>

fun in_order :: "(bundle_error, string) result list \<Rightarrow> (bundle_error, string) result" where
  "in_order [] = Inr []"
| "in_order (r # rs) = (case r of Inl c \<Rightarrow> Inl c | Inr s \<Rightarrow> map_sum id ((@) s) (in_order rs))"

text \<open>What goes into the hash: for every file its path, NUL, its bytes, NUL; names in the order of their code units.\<close>

function tree_text :: "string \<Rightarrow> tree \<Rightarrow> (bundle_error, string) result" where
  "tree_text path (Link target) = Inl SymbolicLinks"
| "tree_text path Special = Inl NotFileOrDirectory"
| "tree_text path (Dir es) = in_order (map (\<lambda>(name, t). tree_text (path @ name @ ''/'') t)
     (sort_by (\<lambda>a b. code_unit_le (fst a) (fst b)) es))"
| "tree_text path (File s) = Inr (butlast path @ [CHR 0x00] @ s @ [CHR 0x00])"
  by pat_completeness auto
termination
proof (relation "measure (\<lambda>(_, t). size t)", goal_cases)
  case (2 path es e name t)
  then have "(name, t) \<in> set es" by simp
  then have "size t < Suc (size_list (size_prod (\<lambda>_. 0) size) es)"
    by (induction es) auto
  then show ?case by simp
qed simp

definition contentHash :: "'key host \<Rightarrow> string \<Rightarrow> tree \<Rightarrow> (bundle_error, string) result" where
  "contentHash h name t = map_sum id (sha256 h) (tree_text (name @ ''/'') t)"

text \<open>The files of a directory with their paths, in the same order.\<close>

function tree_files :: "string \<Rightarrow> tree \<Rightarrow> (string \<times> string) list" where
  "tree_files path (File s) = [(butlast path, s)]"
| "tree_files path (Dir es) = concat (map (\<lambda>(name, t). tree_files (path @ name @ ''/'') t)
     (sort_by (\<lambda>a b. code_unit_le (fst a) (fst b)) es))"
| "tree_files path (Link target) = []"
| "tree_files path Special = []"
  by pat_completeness auto
termination
proof (relation "measure (\<lambda>(_, t). size t)", goal_cases)
  case (2 path es e name t)
  then have "(name, t) \<in> set es" by simp
  then have "size t < Suc (size_list (size_prod (\<lambda>_. 0) size) es)"
    by (induction es) auto
  then show ?case by simp
qed simp


lemma in_order_ok: "in_order rs = Inr s \<longleftrightarrow> (\<exists>ss. rs = map Inr ss \<and> s = concat ss)"
proof (induction rs arbitrary: s)
  case (Cons r rs)
  show ?case
  proof (cases r)
    case (Inr a)
    then have "in_order (r # rs) = Inr s \<longleftrightarrow> (\<exists>t. in_order rs = Inr t \<and> s = a @ t)"
      by (cases "in_order rs") auto
    with Cons.IH Inr show ?thesis by (auto simp: Cons_eq_map_conv)
  qed auto
qed auto

definition frames :: "(string \<times> string) list \<Rightarrow> string" where
  "frames fs = concat (map (\<lambda>(p, c). p @ [CHR 0x00] @ c @ [CHR 0x00]) fs)"

lemma frames_simps [simp]:
  "frames [] = []" "frames ((p, c) # fs) = p @ CHR 0x00 # c @ CHR 0x00 # frames fs" "frames (fs @ gs) = frames fs @ frames gs"
  by (simp_all add: frames_def)

lemma frames_concat: "frames (concat fss) = concat (map frames fss)"
  by (induction fss) simp_all

lemma tree_text_files: "tree_text path t = Inr s \<Longrightarrow> s = frames (tree_files path t)"
proof (induction path t arbitrary: s rule: tree_text.induct)
  case (3 path es)
  let ?sorted = "sort_by (\<lambda>a b. code_unit_le (fst a) (fst b)) es"
  from 3(2) obtain ss where ss: "map (\<lambda>(name, t). tree_text (path @ name @ ''/'') t) ?sorted = map Inr ss" "s = concat ss"
    by (auto simp: in_order_ok)
  have "ss = map (\<lambda>(name, t). frames (tree_files (path @ name @ ''/'') t)) ?sorted"
  proof (rule nth_equalityI)
    from ss(1) show len: "length ss = length (map (\<lambda>(name, t). frames (tree_files (path @ name @ ''/'') t)) ?sorted)"
      by (metis length_map)
    fix i assume i: "i < length ss"
    obtain name t where nt: "?sorted ! i = (name, t)" by fastforce
    with i len have "(name, t) \<in> set ?sorted" by (metis length_map nth_mem)
    moreover from ss(1) i len nt have "tree_text (path @ name @ ''/'') t = Inr (ss ! i)"
      by (metis (no_types, lifting) case_prod_conv length_map nth_map)
    ultimately have "ss ! i = frames (tree_files (path @ name @ ''/'') t)" using 3(1) by simp
    with i len nt show "ss ! i = map (\<lambda>(name, t). frames (tree_files (path @ name @ ''/'') t)) ?sorted ! i" by simp
  qed
  with ss(2) show ?case by (simp add: frames_concat comp_def split_def)
qed simp_all

text \<open>Nothing in a directory has a NUL.\<close>

fun nul_free :: "tree \<Rightarrow> bool" where
  "nul_free (File s) = (CHR 0x00 \<notin> set s)"
| "nul_free (Dir es) = list_all (\<lambda>(name, t). CHR 0x00 \<notin> set name \<and> nul_free t) es"
| "nul_free _ = True"

definition clean :: "string \<times> string \<Rightarrow> bool" where
  "clean = (\<lambda>(p, c). CHR 0x00 \<notin> set p \<and> CHR 0x00 \<notin> set c)"

lemma nul_free_files: "nul_free t \<Longrightarrow> CHR 0x00 \<notin> set path \<Longrightarrow> list_all clean (tree_files path t)"
proof (induction path t rule: tree_files.induct)
  case (2 path es)
  have "list_all clean (tree_files (path @ name @ ''/'') t)" if "(name, t) \<in> set es" for name t
    using 2(1) [of "(name, t)" name t] that 2(2,3) by (auto simp: list_all_iff)
  then show ?case by (auto simp: list_all_iff)
qed (auto simp: clean_def dest: in_set_butlastD)

lemma frames_inj: "list_all clean fs \<Longrightarrow> list_all clean gs \<Longrightarrow> frames fs = frames gs \<Longrightarrow> fs = gs"
proof (induction fs arbitrary: gs)
  case Nil
  then show ?case by (cases gs) auto
next
  case (Cons f fs)
  obtain p c where f: "f = (p, c)" by fastforce
  with Cons.prems obtain q d gs' where gs: "gs = (q, d) # gs'" by (cases gs) auto
  from Cons.prems(3) have "split_on (CHR 0x00) (frames (f # fs)) = split_on (CHR 0x00) (frames gs)" by simp
  with Cons.prems(1,2) f gs have eq: "p = q" "c = d" by (simp_all add: split_on_append clean_def)
  with Cons.prems(3) f gs have "frames fs = frames gs'" by simp
  with Cons.IH [of gs'] Cons.prems(1,2) f gs eq show ?case by simp
qed

text \<open>
  C40. The hash of a skill names its files.  Two directories without NUL in names and contents that
  have the same content hash under the same name have the same files with the same contents at the
  same paths, or two texts with one SHA-256 digest were found.
\<close>

theorem content_hash_names_files:
  assumes "contentHash h name t = Inr digest" "contentHash h name u = Inr digest"
    and "nul_free t" "nul_free u" "CHR 0x00 \<notin> set name"
  shows "tree_files (name @ ''/'') t = tree_files (name @ ''/'') u
    \<or> (\<exists>a b. tree_text (name @ ''/'') t = Inr a \<and> tree_text (name @ ''/'') u = Inr b \<and> a \<noteq> b \<and> sha256Hex h a = sha256Hex h b)"
proof -
  from assms(1) obtain a where a: "tree_text (name @ ''/'') t = Inr a" "sha256 h a = digest"
    unfolding contentHash_def by (cases "tree_text (name @ ''/'') t") simp_all
  from assms(2) obtain b where b: "tree_text (name @ ''/'') u = Inr b" "sha256 h b = digest"
    unfolding contentHash_def by (cases "tree_text (name @ ''/'') u") simp_all
  from a(2) b(2) have "sha256Hex h a = sha256Hex h b" using sha256_eq_iff by metis
  note ab = a(1) b(1) this
  show ?thesis
  proof (cases "a = b")
    case True
    with ab have "frames (tree_files (name @ ''/'') t) = frames (tree_files (name @ ''/'') u)"
      using tree_text_files by metis
    moreover from assms(3-5) have "list_all clean (tree_files (name @ ''/'') t)" "list_all clean (tree_files (name @ ''/'') u)"
      by (auto intro!: nul_free_files)
    ultimately show ?thesis using frames_inj by blast
  qed (use ab in blast)
qed

theorem content_hash_names_files_witness:
  "tree_files ''s/'' (Dir [(''b'', File ''2''), (''a'', File ''1'')]) = tree_files ''s/'' (Dir [(''a'', File ''1''), (''b'', File ''2'')])"
proof -
  have same: "tree_text ''s/'' (Dir [(''b'', File ''2''), (''a'', File ''1'')]) = tree_text ''s/'' (Dir [(''a'', File ''1''), (''b'', File ''2'')])"
    "is_ok (tree_text ''s/'' (Dir [(''a'', File ''1''), (''b'', File ''2'')]))" by code_simp+
  then obtain d where "contentHash demo_host ''s'' (Dir [(''b'', File ''2''), (''a'', File ''1'')]) = Inr d"
      "contentHash demo_host ''s'' (Dir [(''a'', File ''1''), (''b'', File ''2'')]) = Inr d"
    by (auto simp: contentHash_def is_ok_iff)
  from content_hash_names_files [OF this] same show ?thesis by auto
qed

text \<open>A NUL in a file can stand for the end of the file: one file has the hash of two.\<close>

lemma content_hash_ambiguous:
  "contentHash h ''s'' (Dir [(''a'', File (''1'' @ [CHR 0x00] @ ''s/b'' @ [CHR 0x00] @ ''2''))])
     = contentHash h ''s'' (Dir [(''a'', File ''1''), (''b'', File ''2'')])"
proof -
  have "tree_text ''s/'' (Dir [(''a'', File (''1'' @ [CHR 0x00] @ ''s/b'' @ [CHR 0x00] @ ''2''))])
     = tree_text ''s/'' (Dir [(''a'', File ''1''), (''b'', File ''2'')])" by code_simp
  then show ?thesis by (simp add: contentHash_def)
qed

subsection \<open>Signed bundles\<close>

type_synonym members = "(string \<times> json) list"

definition except_members :: "string list \<Rightarrow> members \<Rightarrow> members" where
  "except_members names kvs = filter (\<lambda>(k, _). k \<notin> set names) kvs"

definition truthy :: "json option \<Rightarrow> bool" where
  "truthy v = (v \<notin> {None, Some JNull, Some (JBool False), Some (JNum 0), Some (JStr [])})"

definition calculateBundleHash :: "'key host \<Rightarrow> members \<Rightarrow> string" where
  "calculateBundleHash h kvs = objectDigest h (JObj kvs)"

definition signed_by :: "'key host \<Rightarrow> 'key \<Rightarrow> members \<Rightarrow> bool" where
  "signed_by h key kvs = (case map_of kvs ''signature'' of
     Some (JStr s) \<Rightarrow> verifyCanonicalObject h (JObj (except_members [''signature''] kvs)) s key
   | _ \<Rightarrow> False)"

definition expiry_error :: "'key host \<Rightarrow> json option \<Rightarrow> jsnum \<Rightarrow> bundle_error option" where
  "expiry_error h v now = (if \<not> truthy v then None else
     let expires = dateParse h (js_string (the v)) in
     if \<not> is_finite expires then Some BundleExpiryInvalid
     else if num_le expires now then Some BundleExpired else None)"

definition selector :: "json option \<Rightarrow> string \<Rightarrow> json list option" where
  "selector v k = (case v of
     Some (JObj kvs) \<Rightarrow> (case map_of kvs k of Some (JArr xs) \<Rightarrow> Some xs | _ \<Rightarrow> None)
   | _ \<Rightarrow> None)"

definition nonempty_text :: "json \<Rightarrow> bool" where
  "nonempty_text v = (case v of JStr s \<Rightarrow> s \<noteq> [] | _ \<Rightarrow> False)"

definition selectors_ok :: "json option \<Rightarrow> bool" where
  "selectors_ok v = (list_all (\<lambda>k. case selector v k of None \<Rightarrow> False | Some xs \<Rightarrow> list_all nonempty_text xs)
        [''organizationAgentIds'', ''deviceIds'', ''workspaceIds'']
     \<and> (case selector v ''providers'' of None \<Rightarrow> False
        | Some xs \<Rightarrow> list_all (\<lambda>x. x \<in> JStr ` {''codex'', ''claude'', ''agy'', ''hermes''}) xs))"

definition verifySkillBundle :: "'key host \<Rightarrow> members \<Rightarrow> 'key \<Rightarrow> jsnum \<Rightarrow> (bundle_error, unit) result" where
  "verifySkillBundle h bundle key now =
     (if map_of bundle ''schema'' \<noteq> Some (JStr ''dharma.skill-bundle/v2'') then Inl UnknownBundleSchema
      else case expiry_error h (map_of bundle ''expiresAt'') now of Some c \<Rightarrow> Inl c | None \<Rightarrow>
      if \<not> signed_by h key bundle then Inl BundleSignatureInvalid
      else if map_of bundle ''bundleHash'' \<noteq> Some (JStr (calculateBundleHash h (except_members [''signature'', ''bundleHash''] bundle)))
        then Inl BundleHashInvalid
      else if \<not> selectors_ok (map_of bundle ''targetSelectors'') then Inl SelectorsInvalid
      else Inr ())"

record skill_endpoint =
  sk_organizationId :: string
  sk_organizationAgentId :: string
  sk_deviceId :: string
  sk_workspaceId :: string
  sk_provider :: provider_id

definition assertTargetSelector :: "members \<Rightarrow> string \<Rightarrow> string \<Rightarrow> string \<Rightarrow> (bundle_error, unit) result" where
  "assertTargetSelector bundle k v label = (case selector (map_of bundle ''targetSelectors'') k of
     None \<Rightarrow> Inl TypeMismatch
   | Some xs \<Rightarrow> if xs \<noteq> [] \<and> JStr v \<notin> set xs then Inl (NotAuthorizedFor label) else Inr ())"

definition assertBundleTargetsEndpoint :: "members \<Rightarrow> skill_endpoint \<Rightarrow> (bundle_error, unit) result" where
  "assertBundleTargetsEndpoint bundle ep = check_all (\<lambda>(k, v, label). assertTargetSelector bundle k v label)
     [(''organizationAgentIds'', sk_organizationAgentId ep, ''repository agent''), (''deviceIds'', sk_deviceId ep, ''device''),
      (''workspaceIds'', sk_workspaceId ep, ''workspace''), (''providers'', provider_name (sk_provider ep), ''provider'')]"

subsection \<open>Receipts of installations\<close>

definition endpoint_members :: "string \<Rightarrow> skill_endpoint \<Rightarrow> members" where
  "endpoint_members bundleId ep = [(''bundleId'', JStr bundleId), (''organizationId'', JStr (sk_organizationId ep)),
     (''deviceId'', JStr (sk_deviceId ep)), (''workspaceId'', JStr (sk_workspaceId ep)), (''provider'', JStr (provider_name (sk_provider ep)))]"

definition parsed_time :: "'key host \<Rightarrow> json option \<Rightarrow> jsnum" where
  "parsed_time h v = (case v of None \<Rightarrow> None | Some x \<Rightarrow> dateParse h (js_string x))"

definition verifyInstallReceipt ::
  "'key host \<Rightarrow> members \<Rightarrow> 'key \<Rightarrow> string \<Rightarrow> skill_endpoint \<Rightarrow> jsnum \<Rightarrow> (bundle_error, unit) result" where
  "verifyInstallReceipt h rcpt key bundleId ep now =
     (let started = parsed_time h (map_of rcpt ''startedAt''); completed = parsed_time h (map_of rcpt ''completedAt'') in
      if \<not> signed_by h key rcpt then Inl ReceiptSignatureInvalid
      else if map_of rcpt ''receiptHash'' \<noteq> Some (JStr (objectDigest h (JObj (except_members [''signature'', ''receiptHash''] rcpt))))
        then Inl ReceiptHashInvalid
      else if map_of rcpt ''status'' \<noteq> Some (JStr ''active'') then Inl ReceiptNotActive
      else if \<not> list_all (\<lambda>(k, v). map_of rcpt k = Some v) (endpoint_members bundleId ep) then Inl ReceiptMismatch
      else if \<not> is_finite started \<or> \<not> is_finite completed \<or> num_lt completed started \<or> num_lt (num_add now (Some 5000)) completed
        then Inl ActivationWindowInvalid
      else Inr ())"

subsection \<open>The authorization of the active bundle\<close>

record active_authorization =
  aa_bundleId :: string
  aa_bundleHash :: "json option"
  aa_activatedAt :: "json option"
  aa_expiresAt :: json

definition authorization_of :: "string \<Rightarrow> members \<Rightarrow> members \<Rightarrow> active_authorization" where
  "authorization_of bundleId bundle rcpt = \<lparr>aa_bundleId = bundleId, aa_bundleHash = map_of bundle ''bundleHash'',
     aa_activatedAt = map_of rcpt ''completedAt'', aa_expiresAt = (case map_of bundle ''expiresAt'' of None \<Rightarrow> JNull | Some v \<Rightarrow> v)\<rparr>"

text \<open>The checks that \<open>getActiveSkillBundleAuthorization\<close> and its variant for expired bundles share, after their own.\<close>

definition check_authorization ::
  "'key host \<Rightarrow> 'key \<times> 'key \<Rightarrow> skill_endpoint \<Rightarrow> string \<Rightarrow> string \<Rightarrow> members \<Rightarrow> members \<Rightarrow> jsnum \<Rightarrow> jsnum
     \<Rightarrow> (bundle_error, active_authorization) result" where
  "check_authorization h keys ep expected bundleId bundle rcpt at now =
     (if map_of bundle ''bundleId'' \<noteq> Some (JStr bundleId) then Inl PointerMismatch
      else case verifySkillBundle h bundle (fst keys) at of Inl c \<Rightarrow> Inl c | Inr _ \<Rightarrow>
      case assertBundleTargetsEndpoint bundle ep of Inl c \<Rightarrow> Inl c | Inr _ \<Rightarrow>
      case verifyInstallReceipt h rcpt (snd keys) bundleId ep now of Inl c \<Rightarrow> Inl c | Inr _ \<Rightarrow>
      if map_of rcpt ''receiptHash'' \<noteq> Some (JStr expected) then Inl ReceiptNotCurrent
      else Inr (authorization_of bundleId bundle rcpt))"

text \<open>What an authorization rests on.\<close>

definition backed ::
  "'key host \<Rightarrow> 'key \<times> 'key \<Rightarrow> skill_endpoint \<Rightarrow> string \<Rightarrow> string \<Rightarrow> members \<Rightarrow> members \<Rightarrow> jsnum \<Rightarrow> jsnum \<Rightarrow> bool" where
  "backed h keys ep expected bundleId bundle rcpt at now =
     (signed_by h (fst keys) bundle \<and> signed_by h (snd keys) rcpt
      \<and> map_of bundle ''bundleHash'' = Some (JStr (objectDigest h (JObj (except_members [''signature'', ''bundleHash''] bundle))))
      \<and> expected = objectDigest h (JObj (except_members [''signature'', ''receiptHash''] rcpt))
      \<and> map_of bundle ''bundleId'' = Some (JStr bundleId) \<and> map_of rcpt ''bundleId'' = Some (JStr bundleId)
      \<and> expiry_error h (map_of bundle ''expiresAt'') at = None
      \<and> list_all (\<lambda>(k, v). \<exists>xs. selector (map_of bundle ''targetSelectors'') k = Some xs \<and> (xs = [] \<or> JStr v \<in> set xs))
          [(''organizationAgentIds'', sk_organizationAgentId ep), (''deviceIds'', sk_deviceId ep), (''workspaceIds'', sk_workspaceId ep),
           (''providers'', provider_name (sk_provider ep))]
      \<and> list_all (\<lambda>(k, v). map_of rcpt k = Some v) (endpoint_members bundleId ep) \<and> map_of rcpt ''status'' = Some (JStr ''active''))"

lemma assertTargetSelector_ok:
  "assertTargetSelector bundle k v label = Inr () \<longleftrightarrow>
     (\<exists>xs. selector (map_of bundle ''targetSelectors'') k = Some xs \<and> (xs = [] \<or> JStr v \<in> set xs))"
  by (auto simp: assertTargetSelector_def split: option.splits)

lemma verifySkillBundle_ok:
  assumes "verifySkillBundle h bundle key now = Inr ()"
  shows "signed_by h key bundle" "expiry_error h (map_of bundle ''expiresAt'') now = None"
    "map_of bundle ''bundleHash'' = Some (JStr (objectDigest h (JObj (except_members [''signature'', ''bundleHash''] bundle))))"
  using assms unfolding verifySkillBundle_def calculateBundleHash_def by (simp_all split: if_splits option.splits)

lemma verifyInstallReceipt_ok:
  assumes "verifyInstallReceipt h rcpt key bundleId ep now = Inr ()"
  shows "signed_by h key rcpt" "map_of rcpt ''status'' = Some (JStr ''active'')"
    "map_of rcpt ''receiptHash'' = Some (JStr (objectDigest h (JObj (except_members [''signature'', ''receiptHash''] rcpt))))"
    "list_all (\<lambda>(k, v). map_of rcpt k = Some v) (endpoint_members bundleId ep)"
  using assms unfolding verifyInstallReceipt_def Let_def by (simp_all split: if_splits)

lemma targets_ok:
  assumes "assertBundleTargetsEndpoint bundle ep = Inr ()"
  shows "list_all (\<lambda>(k, v). \<exists>xs. selector (map_of bundle ''targetSelectors'') k = Some xs \<and> (xs = [] \<or> JStr v \<in> set xs))
          [(''organizationAgentIds'', sk_organizationAgentId ep), (''deviceIds'', sk_deviceId ep), (''workspaceIds'', sk_workspaceId ep),
           (''providers'', provider_name (sk_provider ep))]"
  using assms unfolding assertBundleTargetsEndpoint_def check_all_ok_iff by (simp add: assertTargetSelector_ok)

lemma check_authorization_ok:
  assumes "check_authorization h keys ep expected bundleId bundle rcpt at now = Inr a"
  shows "map_of bundle ''bundleId'' = Some (JStr bundleId)" "verifySkillBundle h bundle (fst keys) at = Inr ()"
    "assertBundleTargetsEndpoint bundle ep = Inr ()" "verifyInstallReceipt h rcpt (snd keys) bundleId ep now = Inr ()"
    "map_of rcpt ''receiptHash'' = Some (JStr expected)" "a = authorization_of bundleId bundle rcpt"
  using assms unfolding check_authorization_def by (simp_all split: if_splits sum.splits)

lemma check_authorization_backed:
  assumes "check_authorization h keys ep expected bundleId bundle rcpt at now = Inr a"
  shows "backed h keys ep expected bundleId bundle rcpt at now"
proof -
  note ok = check_authorization_ok [OF assms]
  note rcpt = verifyInstallReceipt_ok [OF ok(4)]
  from rcpt(4) have "map_of rcpt ''bundleId'' = Some (JStr bundleId)" by (simp add: endpoint_members_def)
  with ok(1,5) verifySkillBundle_ok [OF ok(2)] rcpt targets_ok [OF ok(3)] show ?thesis
    unfolding backed_def by simp
qed

end
