(* ===== verification/Skill_Install.thy ===== *)
theory Skill_Install
  imports Skill_Bundles Redaction Runs
begin

text \<open>
  Installation of skill bundles in packages/skill-manager/src/index.ts: the files of one workspace
  below the provider's skill directory, the activation of skills, recovery of interrupted changes,
  installation and rollback.  Every call to the file system is answered by a world: it works, or it
  fails and may leave its destination half done.  The run remembers all file systems that it left on
  its way, which are those that a crash can leave.  Names of skills and releases are single names.
\<close>

subsection \<open>Files\<close>

datatype place =
    NativeSkill string | ActiveBundle | ActiveRelease | RollbackRelease | RejectedRelease | ReleaseDir string
  | Staged string | SetAside string | RollbackPart string string

record skill_store =
  st_files :: "place \<Rightarrow> tree option"
  st_rollbacks :: "string list"

datatype answer = Works | Breaks "tree option"

datatype check_status = CheckPass | CheckFail | CheckUnavailable

record provider_check =
  pk_name :: string
  pk_status :: check_status
  pk_details :: "string option"

record skill_world =
  sw_answer :: "nat \<Rightarrow> answer"
  sw_parse :: "string \<Rightarrow> json option"
  sw_now :: "nat \<Rightarrow> int"
  sw_uuid :: "nat \<Rightarrow> string"
  sw_source :: "nat \<Rightarrow> string \<Rightarrow> tree option"
  sw_smoke :: "nat \<Rightarrow> string \<Rightarrow> (bundle_error, provider_check) result"
  sw_activation :: "nat \<Rightarrow> (string, provider_check) result"

text \<open>\<open>sr_activated\<close> and \<open>sr_backedUp\<close> are the local lists of an activation, \<open>sr_progress\<close> the local flags of a rollback.\<close>

record skill_run =
  sr_store :: skill_store
  sr_calls :: nat
  sr_past :: "skill_store list"
  sr_activated :: "string list"
  sr_backedUp :: "string list"
  sr_progress :: nat

type_synonym 'a skill_action = "skill_run \<Rightarrow> (bundle_error, 'a) result \<times> skill_run"

definition put_at :: "place \<Rightarrow> tree option \<Rightarrow> skill_store \<Rightarrow> skill_store" where
  "put_at p t st = st\<lparr>st_files := (st_files st)(p := t)\<rparr>"

definition enter_store :: "skill_store \<Rightarrow> skill_run \<Rightarrow> skill_run" where
  "enter_store st s = s\<lparr>sr_store := st, sr_calls := Suc (sr_calls s), sr_past := st # sr_past s\<rparr>"

definition effect ::
  "skill_world \<Rightarrow> (skill_store \<Rightarrow> (bundle_error, 'a) result \<times> skill_store) \<Rightarrow> (tree option \<Rightarrow> skill_store \<Rightarrow> skill_store) \<Rightarrow> 'a skill_action" where
  "effect w act broken s = (case sw_answer w (sr_calls s) of
     Works \<Rightarrow> (case act (sr_store s) of (r, st) \<Rightarrow> (r, enter_store st s))
   | Breaks t \<Rightarrow> (Inl StorageError, enter_store (broken t (sr_store s)) s))"

definition peek :: "skill_world \<Rightarrow> (skill_store \<Rightarrow> (bundle_error, 'a) result) \<Rightarrow> 'a skill_action" where
  "peek w f = effect w (\<lambda>st. (f st, st)) (\<lambda>_ st. st)"

definition touch :: "skill_world \<Rightarrow> unit skill_action" where
  "touch w = peek w (\<lambda>_. Inr ())"

definition exists_at :: "skill_world \<Rightarrow> place \<Rightarrow> bool skill_action" where
  "exists_at w p = peek w (\<lambda>st. Inr (st_files st p \<noteq> None))"

text \<open>\<open>rm\<close> with \<open>recursive\<close> and \<open>force\<close>\<close>

definition remove_at :: "skill_world \<Rightarrow> place \<Rightarrow> unit skill_action" where
  "remove_at w p = effect w (\<lambda>st. (Inr (), put_at p None st)) (\<lambda>t st. if st_files st p = None then st else put_at p t st)"

text \<open>\<open>cp\<close> with \<open>recursive\<close> and \<open>errorOnExist\<close>, from a tree that is found at that time\<close>

definition copy_to :: "skill_world \<Rightarrow> (skill_store \<Rightarrow> tree option) \<Rightarrow> place \<Rightarrow> unit skill_action" where
  "copy_to w src q = effect w
     (\<lambda>st. case src st of None \<Rightarrow> (Inl NoEntry, st)
        | Some t \<Rightarrow> if st_files st q \<noteq> None then (Inl EntryExists, st) else (Inr (), put_at q (Some t) st))
     (\<lambda>t st. if st_files st q \<noteq> None then st else put_at q t st)"

definition replaces :: "tree option \<Rightarrow> tree \<Rightarrow> bool" where
  "replaces old t = (case old of None \<Rightarrow> True
     | Some (Dir []) \<Rightarrow> (case t of Dir _ \<Rightarrow> True | _ \<Rightarrow> False)
     | Some (Dir _) \<Rightarrow> False
     | Some _ \<Rightarrow> (case t of Dir _ \<Rightarrow> False | _ \<Rightarrow> True))"

definition rename_to :: "skill_world \<Rightarrow> place \<Rightarrow> place \<Rightarrow> unit skill_action" where
  "rename_to w p q = effect w
     (\<lambda>st. case st_files st p of None \<Rightarrow> (Inl NoEntry, st)
        | Some t \<Rightarrow> if replaces (st_files st q) t then (Inr (), put_at p None (put_at q (Some t) st)) else (Inl EntryExists, st))
     (\<lambda>_ st. st)"

definition write_at :: "skill_world \<Rightarrow> place \<Rightarrow> string \<Rightarrow> unit skill_action" where
  "write_at w p c = effect w
     (\<lambda>st. case st_files st p of Some (Dir _) \<Rightarrow> (Inl StorageError, st) | _ \<Rightarrow> (Inr (), put_at p (Some (File c)) st))
     (\<lambda>t st. case (st_files st p, t) of (Some (Dir _), _) \<Rightarrow> st | (_, Some (File part)) \<Rightarrow> put_at p (Some (File part)) st | _ \<Rightarrow> st)"

text \<open>A file inside a directory.\<close>

definition write_in :: "skill_world \<Rightarrow> place \<Rightarrow> string \<Rightarrow> string \<Rightarrow> unit skill_action" where
  "write_in w p name c = effect w
     (\<lambda>st. case st_files st p of
          Some (Dir es) \<Rightarrow> (Inr (), put_at p (Some (Dir (AList.update name (File c) es))) st)
        | _ \<Rightarrow> (Inl NoEntry, st))
     (\<lambda>t st. case (st_files st p, t) of
          (Some (Dir es), Some (File part)) \<Rightarrow> put_at p (Some (Dir (AList.update name (File part) es))) st
        | _ \<Rightarrow> st)"

fun for_each :: "('i \<Rightarrow> unit skill_action) \<Rightarrow> 'i list \<Rightarrow> unit skill_action" where
  "for_each f [] = lift_result (Inr ())"
| "for_each f (x # xs) = and_then (f x) (\<lambda>_. for_each f xs)"

text \<open>\<open>catch\<close> that repairs and throws again, \<open>finally\<close>, and a thrown \<open>ENOENT\<close> that does not matter.\<close>

definition repairing :: "'a skill_action \<Rightarrow> unit skill_action \<Rightarrow> 'a skill_action" where
  "repairing m repair s = (case m s of
     (Inl c, s1) \<Rightarrow> (case repair s1 of (Inl c', s2) \<Rightarrow> (Inl c', s2) | (Inr _, s2) \<Rightarrow> (Inl c, s2))
   | r \<Rightarrow> r)"

definition finally_do :: "'a skill_action \<Rightarrow> unit skill_action \<Rightarrow> 'a skill_action" where
  "finally_do m cleanup s = (case m s of (r, s1) \<Rightarrow>
     (case cleanup s1 of (Inl c, s2) \<Rightarrow> (Inl c, s2) | (Inr _, s2) \<Rightarrow> (r, s2)))"

definition unless_missing :: "unit skill_action \<Rightarrow> bool skill_action" where
  "unless_missing m s = (case m s of
     (Inl c, s1) \<Rightarrow> if c = NoEntry then (Inr False, s1) else (Inl c, s1) | (Inr _, s1) \<Rightarrow> (Inr True, s1))"

subsection \<open>Reading\<close>

fun follow :: "tree \<Rightarrow> tree option" where
  "follow (Link None) = None"
| "follow (Link (Some t)) = follow t"
| "follow t = Some t"

text \<open>The entry of a directory; \<open>None\<close> is \<open>ENOENT\<close>.\<close>

definition entry_of :: "tree \<Rightarrow> string \<Rightarrow> (bundle_error, tree option) result" where
  "entry_of t name = (case follow t of None \<Rightarrow> Inr None | Some (Dir es) \<Rightarrow> Inr (map_of es name) | Some _ \<Rightarrow> Inl StorageError)"

definition file_text :: "tree option \<Rightarrow> (bundle_error, string option) result" where
  "file_text t = (case t of None \<Rightarrow> Inr None
     | Some u \<Rightarrow> (case follow u of None \<Rightarrow> Inr None | Some (File c) \<Rightarrow> Inr (Some c) | Some _ \<Rightarrow> Inl StorageError))"

definition text_in :: "tree option \<Rightarrow> string \<Rightarrow> (bundle_error, string option) result" where
  "text_in t name = (case t of None \<Rightarrow> Inr None
     | Some u \<Rightarrow> (case entry_of u name of Inl c \<Rightarrow> Inl c | Inr e \<Rightarrow> file_text e))"

text \<open>The members of what \<open>JSON.parse\<close> returns; a value that is not an object has none, null has no members to ask for.\<close>

definition members_of :: "(string \<Rightarrow> json option) \<Rightarrow> string \<Rightarrow> (bundle_error, members) result" where
  "members_of parse s = (case parse s of None \<Rightarrow> Inl TypeMismatch | Some JNull \<Rightarrow> Inl TypeMismatch
     | Some (JObj kvs) \<Rightarrow> Inr kvs | Some _ \<Rightarrow> Inr [])"

definition members_in :: "(string \<Rightarrow> json option) \<Rightarrow> tree option \<Rightarrow> string \<Rightarrow> (bundle_error, members option) result" where
  "members_in parse t name = (case text_in t name of Inl c \<Rightarrow> Inl c | Inr None \<Rightarrow> Inr None
     | Inr (Some s) \<Rightarrow> map_sum id Some (members_of parse s))"

definition required :: "(bundle_error, 'a option) result \<Rightarrow> bundle_error \<Rightarrow> (bundle_error, 'a) result" where
  "required r c = (case r of Inl c' \<Rightarrow> Inl c' | Inr None \<Rightarrow> Inl c | Inr (Some v) \<Rightarrow> Inr v)"

subsection \<open>The active bundle\<close>

definition skill_name :: "string \<Rightarrow> bool" where
  "skill_name s = token is_word_char (\<lambda>c. is_word_char c \<or> c \<in> set ''._-'') 128 s"

definition manifest_id :: "(string \<Rightarrow> json option) \<Rightarrow> tree option \<Rightarrow> (bundle_error, string option) result" where
  "manifest_id parse t = (case members_in parse t ''BUNDLE.json'' of Inl c \<Rightarrow> Inl c | Inr None \<Rightarrow> Inr None
     | Inr (Some kvs) \<Rightarrow> Inr (case map_of kvs ''bundleId'' of Some (JStr s) \<Rightarrow> Some s | _ \<Rightarrow> None))"

definition readBundleManifestId :: "skill_world \<Rightarrow> place \<Rightarrow> string option skill_action" where
  "readBundleManifestId w p = peek w (\<lambda>st. manifest_id (sw_parse w) (st_files st p))"

definition recoverRejectedActivation :: "skill_world \<Rightarrow> string \<Rightarrow> unit skill_action" where
  "recoverRejectedActivation w bundleId =
     and_then (readBundleManifestId w ActiveRelease) (\<lambda>activeId.
     if activeId = Some bundleId then lift_result (Inr ())
     else and_then (readBundleManifestId w RollbackRelease) (\<lambda>rollbackId.
     if rollbackId \<noteq> Some bundleId then lift_result (Inr ())
     else and_then (remove_at w RejectedRelease) (\<lambda>_.
     repairing
       (and_then (rename_to w ActiveRelease RejectedRelease) (\<lambda>_.
        and_then (rename_to w RollbackRelease ActiveRelease) (\<lambda>_. remove_at w RejectedRelease)))
       (and_then (exists_at w RejectedRelease) (\<lambda>rejected.
        if \<not> rejected then lift_result (Inr ())
        else and_then (exists_at w ActiveRelease) (\<lambda>active.
        if active then lift_result (Inr ()) else rename_to w RejectedRelease ActiveRelease))))))"

definition pointer_text :: "skill_store \<Rightarrow> (bundle_error, string option) result" where
  "pointer_text st = file_text (st_files st ActiveBundle)"

definition readActiveBundlePointer :: "skill_world \<Rightarrow> string option skill_action" where
  "readActiveBundlePointer w =
     and_then (peek w pointer_text) (\<lambda>c. case c of None \<Rightarrow> lift_result (Inr None) | Some c \<Rightarrow>
     let bundleId = trim c in
     if bundleId = [] then lift_result (Inr None)
     else and_then (recoverRejectedActivation w bundleId) (\<lambda>_.
     and_then (peek w (\<lambda>st. required (members_in (sw_parse w) (st_files st ActiveRelease) ''BUNDLE.json'') ManifestMissing)) (\<lambda>kvs.
     if map_of kvs ''bundleId'' \<noteq> Some (JStr bundleId) then lift_result (Inl ManifestMismatch)
     else lift_result (Inr (Some bundleId)))))"

subsection \<open>Activation of native skills\<close>

definition json_texts :: "json option \<Rightarrow> string list option" where
  "json_texts v = (case v of
     Some (JArr xs) \<Rightarrow> if list_all (\<lambda>x. case x of JStr _ \<Rightarrow> True | _ \<Rightarrow> False) xs
       then Some (map (\<lambda>x. case x of JStr s \<Rightarrow> s | _ \<Rightarrow> []) xs) else None
   | _ \<Rightarrow> None)"

definition releaseSkillIds :: "skill_world \<Rightarrow> place \<Rightarrow> string list skill_action" where
  "releaseSkillIds w p = peek w (\<lambda>st. case members_in (sw_parse w) (st_files st p) ''BUNDLE.json'' of
     Inl c \<Rightarrow> Inl c | Inr None \<Rightarrow> Inr []
   | Inr (Some kvs) \<Rightarrow> Inr (case json_texts (map_of kvs ''skillIds'') of None \<Rightarrow> [] | Some ids \<Rightarrow> ids))"

record activation =
  av_release :: string
  av_bundleId :: string
  av_workspaceId :: string
  av_bootstrap :: "provider_id option"
  av_skillIds :: "string list"
  av_removeIds :: "string list"

definition MARKER :: string where
  "MARKER = ''.dharma-agent-fabric.json''"

definition BOOTSTRAP_MARKER :: string where
  "BOOTSTRAP_MARKER = ''.dharma-agent-fabric-bootstrap.json''"

definition affected :: "activation \<Rightarrow> string list" where
  "affected a = unique_list (av_removeIds a @ av_skillIds a)"

text \<open>Whether the skill at a name may be replaced; the value says whether it is shared with another workspace.\<close>

definition check_bootstrap :: "(string \<Rightarrow> json option) \<Rightarrow> activation \<Rightarrow> string \<Rightarrow> tree \<Rightarrow> (bundle_error, bool) result" where
  "check_bootstrap parse a skillId t =
     (if skillId \<noteq> ''dharma-agent-fabric'' \<or> av_bootstrap a = None then Inl (UnmanagedSkill skillId)
      else case entry_of t BOOTSTRAP_MARKER of Inl c \<Rightarrow> Inl c | Inr None \<Rightarrow> Inl (UnmanagedSkill skillId)
      | Inr (Some _) \<Rightarrow> (case required (members_in parse (Some t) BOOTSTRAP_MARKER) NoEntry of Inl c \<Rightarrow> Inl c
        | Inr kvs \<Rightarrow> if map_of kvs ''schema'' \<noteq> Some (JStr ''dharma.native-skill-bootstrap/v2'')
            \<or> map_of kvs ''managedBy'' \<noteq> Some (JStr ''dharma-agent-fabric'')
            \<or> map_of kvs ''provider'' \<noteq> map_option (JStr \<circ> provider_name) (av_bootstrap a)
          then Inl (InvalidBootstrap skillId) else Inr False))"

definition check_owner :: "activation \<Rightarrow> string \<Rightarrow> members \<Rightarrow> (bundle_error, bool) result" where
  "check_owner a skillId kvs = (case map_of kvs ''workspaceId'' of
     Some (JStr ws) \<Rightarrow> if ws = av_workspaceId a then Inr False
       else if map_of kvs ''bundleId'' = Some (JStr (av_bundleId a)) \<and> map_of kvs ''skillId'' = Some (JStr skillId)
         \<and> skillId \<in> set (av_skillIds a) \<and> skillId \<notin> set (av_removeIds a)
       then Inr True else Inl (OtherWorkspace skillId)
   | _ \<Rightarrow> Inr False)"

definition check_native :: "(string \<Rightarrow> json option) \<Rightarrow> activation \<Rightarrow> string \<Rightarrow> tree option \<Rightarrow> (bundle_error, bool) result" where
  "check_native parse a skillId target = (case target of None \<Rightarrow> Inr False | Some t \<Rightarrow>
     (case entry_of t MARKER of Inl c \<Rightarrow> Inl c
      | Inr None \<Rightarrow> check_bootstrap parse a skillId t
      | Inr (Some _) \<Rightarrow> (case required (members_in parse (Some t) MARKER) NoEntry of Inl c \<Rightarrow> Inl c
        | Inr kvs \<Rightarrow> check_owner a skillId kvs)))"

fun check_natives :: "skill_world \<Rightarrow> activation \<Rightarrow> string list \<Rightarrow> string list skill_action" where
  "check_natives w a [] = lift_result (Inr [])"
| "check_natives w a (skillId # rest) =
     and_then (peek w (\<lambda>st. check_native (sw_parse w) a skillId (st_files st (NativeSkill skillId)))) (\<lambda>shared.
     and_then (check_natives w a rest) (\<lambda>others. lift_result (Inr (if shared then skillId # others else others))))"

definition marker_text :: "activation \<Rightarrow> string \<Rightarrow> string" where
  "marker_text a skillId = stringify (JObj [(''bundleId'', JStr (av_bundleId a)), (''skillId'', JStr skillId),
     (''workspaceId'', JStr (av_workspaceId a))]) @ [CHR 0x0A]"

definition in_release :: "string \<Rightarrow> string \<Rightarrow> skill_store \<Rightarrow> tree option" where
  "in_release release skillId st = (case st_files st (ReleaseDir release) of
     None \<Rightarrow> None | Some t \<Rightarrow> (case entry_of t skillId of Inr e \<Rightarrow> e | Inl _ \<Rightarrow> None))"

definition stage_skill :: "skill_world \<Rightarrow> activation \<Rightarrow> string \<Rightarrow> unit skill_action" where
  "stage_skill w a skillId = and_then (copy_to w (in_release (av_release a) skillId) (Staged skillId)) (\<lambda>_.
     write_in w (Staged skillId) MARKER (marker_text a skillId))"

definition set_aside_skill :: "skill_world \<Rightarrow> string \<Rightarrow> unit skill_action" where
  "set_aside_skill w skillId = and_then (exists_at w (NativeSkill skillId)) (\<lambda>there.
     if \<not> there then lift_result (Inr ())
     else and_then (rename_to w (NativeSkill skillId) (SetAside skillId)) (\<lambda>_ s.
       (Inr (), s\<lparr>sr_backedUp := skillId # sr_backedUp s\<rparr>)))"

definition place_skill :: "skill_world \<Rightarrow> string \<Rightarrow> unit skill_action" where
  "place_skill w skillId = and_then (rename_to w (Staged skillId) (NativeSkill skillId)) (\<lambda>_ s.
     (Inr (), s\<lparr>sr_activated := skillId # sr_activated s\<rparr>))"

definition swap_skills :: "skill_world \<Rightarrow> activation \<Rightarrow> string list \<Rightarrow> unit skill_action" where
  "swap_skills w a shared = (let own = filter (\<lambda>skillId. skillId \<notin> set shared) in
     and_then (for_each (stage_skill w a) (own (av_skillIds a))) (\<lambda>_.
     and_then (for_each (set_aside_skill w) (own (affected a))) (\<lambda>_.
     for_each (place_skill w) (own (av_skillIds a)))))"

definition swap_back :: "skill_world \<Rightarrow> unit skill_action" where
  "swap_back w s =
     and_then (for_each (\<lambda>skillId. remove_at w (NativeSkill skillId)) (sr_activated s)) (\<lambda>_.
     for_each (\<lambda>skillId. rename_to w (SetAside skillId) (NativeSkill skillId)) (sr_backedUp s)) s"

text \<open>The transaction has a directory with a fresh name; the one of an interrupted activation is never looked at again.\<close>

definition no_transaction :: "skill_store \<Rightarrow> skill_store" where
  "no_transaction st = st\<lparr>st_files := (\<lambda>p. case p of Staged _ \<Rightarrow> None | SetAside _ \<Rightarrow> None | _ \<Rightarrow> st_files st p)\<rparr>"

definition begin_activation :: "unit skill_action" where
  "begin_activation s = (Inr (), s\<lparr>sr_store := no_transaction (sr_store s), sr_activated := [], sr_backedUp := []\<rparr>)"

definition activateNativeSkills :: "skill_world \<Rightarrow> activation \<Rightarrow> unit skill_action" where
  "activateNativeSkills w a =
     and_then (touch w) (\<lambda>_.
     and_then (check_natives w a (affected a)) (\<lambda>shared.
     and_then begin_activation (\<lambda>_.
     and_then (touch w) (\<lambda>_.
     and_then (touch w) (\<lambda>_.
     finally_do (repairing (swap_skills w a shared) (swap_back w))
       (effect w (\<lambda>st. (Inr (), no_transaction st)) (\<lambda>_ st. st)))))))"

subsection \<open>Recovery of interrupted rollbacks\<close>

text \<open>Native skills whose marker names the workspace, among the entries that exist.\<close>

definition owned_by :: "(string \<Rightarrow> json option) \<Rightarrow> string \<Rightarrow> skill_store \<Rightarrow> string \<Rightarrow> (bundle_error, bool) result" where
  "owned_by parse ws st skillId = (case st_files st (NativeSkill skillId) of
     Some (Dir es) \<Rightarrow> if \<not> skill_name skillId then Inr False
       else (case members_in parse (Some (Dir es)) MARKER of Inl c \<Rightarrow> Inl c | Inr None \<Rightarrow> Inr False
         | Inr (Some kvs) \<Rightarrow> Inr (map_of kvs ''workspaceId'' = Some (JStr ws)))
   | _ \<Rightarrow> Inr False)"

fun owned_among :: "(string \<Rightarrow> json option) \<Rightarrow> string \<Rightarrow> string list \<Rightarrow> skill_store \<Rightarrow> (bundle_error, string list) result" where
  "owned_among parse ws [] st = Inr []"
| "owned_among parse ws (skillId # rest) st = (case owned_by parse ws st skillId of Inl c \<Rightarrow> Inl c
     | Inr own \<Rightarrow> (case owned_among parse ws rest st of Inl c \<Rightarrow> Inl c
       | Inr ids \<Rightarrow> Inr (if own then skillId # ids else ids)))"

definition nativeSkillIdsOwnedByWorkspace :: "skill_world \<Rightarrow> string list \<Rightarrow> string \<Rightarrow> string list skill_action" where
  "nativeSkillIdsOwnedByWorkspace w names ws = peek w (owned_among (sw_parse w) ws names)"

definition recovery_manifest :: "(string \<Rightarrow> json option) \<Rightarrow> string \<Rightarrow> tree option \<Rightarrow> (bundle_error, string \<times> string list) result" where
  "recovery_manifest parse ws t = (case required (file_text t) NoEntry of Inl c \<Rightarrow> Inl c | Inr s \<Rightarrow>
     (case members_of parse s of Inl c \<Rightarrow> Inl c | Inr kvs \<Rightarrow>
      (case (map_of kvs ''currentBundleId'', json_texts (map_of kvs ''currentSkillIds'')) of
         (Some (JStr current), Some ids) \<Rightarrow>
           if map_of kvs ''schema'' \<noteq> Some (JStr ''dharma.skill-rollback-recovery/v1'') \<or> map_of kvs ''workspaceId'' \<noteq> Some (JStr ws)
             \<or> \<not> provider_offer_id current \<or> \<not> list_all skill_name ids
           then Inl RecoveryInvalid else Inr (current, ids)
       | _ \<Rightarrow> Inl RecoveryInvalid)))"

text \<open>The parts of a rollback's directory; a removal that fails leaves some of them and the directory.\<close>

definition forget_rollback :: "string \<Rightarrow> skill_store \<Rightarrow> skill_store" where
  "forget_rollback tx st = st\<lparr>st_files := (\<lambda>p. case p of RollbackPart t _ \<Rightarrow> if t = tx then None else st_files st p | _ \<Rightarrow> st_files st p),
     st_rollbacks := removeAll tx (st_rollbacks st)\<rparr>"

definition keep_parts :: "string \<Rightarrow> tree option \<Rightarrow> skill_store \<Rightarrow> skill_store" where
  "keep_parts tx left st = (case left of
     Some (Dir es) \<Rightarrow> st\<lparr>st_files := (\<lambda>p. case p of
        RollbackPart t part \<Rightarrow> if t = tx \<and> part \<notin> set (map fst es) then None else st_files st p | _ \<Rightarrow> st_files st p)\<rparr>
   | _ \<Rightarrow> st)"

definition remove_rollback :: "skill_world \<Rightarrow> string \<Rightarrow> unit skill_action" where
  "remove_rollback w tx = effect w (\<lambda>st. (Inr (), forget_rollback tx st)) (keep_parts tx)"

definition recover_one :: "skill_world \<Rightarrow> string list \<Rightarrow> string \<Rightarrow> string \<Rightarrow> unit skill_action" where
  "recover_one w names ws tx =
     and_then (peek w (\<lambda>st. recovery_manifest (sw_parse w) ws (st_files st (RollbackPart tx ''ROLLBACK_RECOVERY.json'')))) (\<lambda>(current, ids).
     and_then (exists_at w (RollbackPart tx ''backup-active'')) (\<lambda>saved.
     and_then
       (if saved then and_then (remove_at w ActiveRelease) (\<lambda>_. rename_to w (RollbackPart tx ''backup-active'') ActiveRelease)
        else and_then (exists_at w ActiveRelease) (\<lambda>active.
          if active then lift_result (Inr ()) else copy_to w (\<lambda>st. st_files st (ReleaseDir current)) ActiveRelease)) (\<lambda>_.
     and_then (nativeSkillIdsOwnedByWorkspace w names ws) (\<lambda>owned.
     and_then (activateNativeSkills w \<lparr>av_release = current, av_bundleId = current, av_workspaceId = ws, av_bootstrap = None,
        av_skillIds = ids, av_removeIds = owned\<rparr>) (\<lambda>_.
     and_then (write_at w (RollbackPart tx ''ACTIVE_BUNDLE.recovery'') (current @ [CHR 0x0A])) (\<lambda>_.
     and_then (rename_to w (RollbackPart tx ''ACTIVE_BUNDLE.recovery'') ActiveBundle) (\<lambda>_.
     remove_rollback w tx)))))))"

definition recoverInterruptedSkillRollbacks :: "skill_world \<Rightarrow> string list \<Rightarrow> string \<Rightarrow> unit skill_action" where
  "recoverInterruptedSkillRollbacks w names ws =
     (if \<not> skill_name ws then lift_result (Inl WorkspaceIdInvalid)
      else and_then (peek w (\<lambda>st. Inr (st_rollbacks st))) (for_each (recover_one w names ws)))"

subsection \<open>The authorization of the active bundle\<close>

definition read_active :: "skill_world \<Rightarrow> string \<Rightarrow> members skill_action" where
  "read_active w name = peek w (\<lambda>st. required (members_in (sw_parse w) (st_files st ActiveRelease) name) NoEntry)"

definition getActiveSkillBundleAuthorization ::
  "skill_world \<Rightarrow> 'key host \<Rightarrow> 'key \<times> 'key \<Rightarrow> string list \<Rightarrow> skill_endpoint \<Rightarrow> string \<Rightarrow> jsnum \<Rightarrow> active_authorization option skill_action" where
  "getActiveSkillBundleAuthorization w h keys names ep expected now =
     and_then (recoverInterruptedSkillRollbacks w names (sk_workspaceId ep)) (\<lambda>_.
     and_then (readActiveBundlePointer w) (\<lambda>current. case current of None \<Rightarrow> lift_result (Inr None) | Some bundleId \<Rightarrow>
     and_then (read_active w ''AUTHORIZATION.json'') (\<lambda>bundle.
     and_then (read_active w ''INSTALL_RECEIPT.json'') (\<lambda>rcpt.
     lift_result (map_sum id Some (check_authorization h keys ep expected bundleId bundle rcpt now now))))))"

text \<open>The same for a bundle that has expired: it has to have been valid a moment before.\<close>

definition getExpiredSkillBundleAuthorizationForReplacement ::
  "skill_world \<Rightarrow> 'key host \<Rightarrow> 'key \<times> 'key \<Rightarrow> string list \<Rightarrow> skill_endpoint \<Rightarrow> string \<Rightarrow> jsnum \<Rightarrow> active_authorization option skill_action" where
  "getExpiredSkillBundleAuthorizationForReplacement w h keys names ep expected now =
     and_then (recoverInterruptedSkillRollbacks w names (sk_workspaceId ep)) (\<lambda>_.
     and_then (readActiveBundlePointer w) (\<lambda>current. case current of None \<Rightarrow> lift_result (Inr None) | Some bundleId \<Rightarrow>
     and_then (read_active w ''AUTHORIZATION.json'') (\<lambda>bundle.
     and_then (read_active w ''INSTALL_RECEIPT.json'') (\<lambda>rcpt.
     let expires = dateParse h (string_or_empty (map_of bundle ''expiresAt'')) in
     if \<not> is_finite expires \<or> num_lt now expires then lift_result (Inl NotExpired)
     else lift_result (map_sum id Some
       (check_authorization h keys ep expected bundleId bundle rcpt (num_sub expires (Some 1)) now))))))"

subsection \<open>Installation\<close>

record bundle_skill =
  bs_skillId :: string
  bs_path :: string
  bs_contentHash :: string

definition member :: "members \<Rightarrow> string \<Rightarrow> string" where
  "member kvs k = (case map_of kvs k of Some (JStr s) \<Rightarrow> s | _ \<Rightarrow> [])"

text \<open>What is used of the skills of a bundle, which has the types that \<open>SkillBundle\<close> declares.\<close>

definition bundle_skills :: "members \<Rightarrow> bundle_skill list" where
  "bundle_skills bundle = (case map_of bundle ''skills'' of
     Some (JArr xs) \<Rightarrow> map (\<lambda>x. case x of
        JObj kvs \<Rightarrow> \<lparr>bs_skillId = member kvs ''skillId'', bs_path = member kvs ''path'', bs_contentHash = member kvs ''contentHash''\<rparr>
      | _ \<Rightarrow> \<lparr>bs_skillId = [], bs_path = [], bs_contentHash = []\<rparr>) xs
   | _ \<Rightarrow> [])"

record 'key install_input =
  it_host :: "'key host"
  it_bundle :: members
  it_sourceDirectory :: string
  it_policyOrganization :: string
  it_automaticInstall :: bool
  it_fullPolicy :: bool
  it_serverKey :: 'key
  it_deviceSign :: "string \<Rightarrow> string"
  it_endpoint :: skill_endpoint
  it_smokeCommandId :: "string option"
  it_approved :: bool
  it_checksActivation :: bool
  it_names :: "string list"

definition assertContainedSkill :: "string \<Rightarrow> string \<Rightarrow> (bundle_error, string) result" where
  "assertContainedSkill root part = (let candidate = resolve root part; route = relative_route (resolve [] root) candidate in
     if route = ''..'' \<or> starts_with route ''../'' \<or> starts_with route (''..'' @ [CHR 0x5C]) \<or> isAbsolute route then Inl SkillPathEscapes
     else Inr candidate)"

definition admission_error :: "'key install_input \<Rightarrow> jsnum \<Rightarrow> (bundle_error, unit) result" where
  "admission_error x now = (case verifySkillBundle (it_host x) (it_bundle x) (it_serverKey x) now of Inl c \<Rightarrow> Inl c | Inr _ \<Rightarrow>
     let bundle = it_bundle x; operation = map_of bundle ''operation''; skills = bundle_skills bundle in
     if map_of bundle ''organizationId'' \<noteq> Some (JStr (it_policyOrganization x)) then Inl OrganizationMismatch
     else case assertBundleTargetsEndpoint bundle (it_endpoint x) of Inl c \<Rightarrow> Inl c | Inr _ \<Rightarrow>
     if operation = Some (JStr ''clear'') \<and> skills \<noteq> [] then Inl ClearWithSkills
     else if operation = Some (JStr ''install'') \<and> skills = [] then Inl InstallWithoutSkills
     else if map_of bundle ''riskClass'' \<in> {Some (JStr ''R3''), Some (JStr ''R4'')} \<and> \<not> it_approved x then Inl ApprovalRequired
     else if \<not> it_automaticInstall x then Inl InstallDisabled
     else if it_smokeCommandId x \<noteq> None \<and> \<not> it_fullPolicy x then Inl SmokeWithoutPolicy
     else Inr ())"

text \<open>Hashing and copying read the source at two times.\<close>

definition hash_source :: "skill_world \<Rightarrow> 'key install_input \<Rightarrow> string \<Rightarrow> string \<Rightarrow> string skill_action" where
  "hash_source w x path base s = peek w (\<lambda>_. case sw_source w (sr_calls s) path of
     None \<Rightarrow> Inl NoEntry | Some t \<Rightarrow> contentHash (it_host x) base t) s"

definition copy_skill :: "skill_world \<Rightarrow> string \<Rightarrow> string \<Rightarrow> string \<Rightarrow> unit skill_action" where
  "copy_skill w path release skillId s = effect w
     (\<lambda>st. case (sw_source w (sr_calls s) path, st_files st (ReleaseDir release)) of
          (Some t, Some (Dir es)) \<Rightarrow> if map_of es skillId \<noteq> None then (Inl EntryExists, st)
            else (Inr (), put_at (ReleaseDir release) (Some (Dir (es @ [(skillId, t)]))) st)
        | _ \<Rightarrow> (Inl NoEntry, st))
     (\<lambda>t st. case (t, st_files st (ReleaseDir release)) of
          (Some u, Some (Dir es)) \<Rightarrow> if map_of es skillId \<noteq> None then st else put_at (ReleaseDir release) (Some (Dir (es @ [(skillId, u)]))) st
        | _ \<Rightarrow> st) s"

definition copy_bundle_skill :: "skill_world \<Rightarrow> 'key install_input \<Rightarrow> string \<Rightarrow> bundle_skill \<Rightarrow> provider_check skill_action" where
  "copy_bundle_skill w x release k =
     (if \<not> skill_name (bs_skillId k) then lift_result (Inl InvalidSkillId)
      else case assertContainedSkill (it_sourceDirectory x) (bs_path k) of Inl c \<Rightarrow> lift_result (Inl c) | Inr source \<Rightarrow>
      and_then (hash_source w x source (List.last (split_on (CHR ''/'') source))) (\<lambda>hash.
      if hash \<noteq> bs_contentHash k then lift_result (Inl (ContentMismatch (bs_skillId k)))
      else and_then (copy_skill w source release (bs_skillId k)) (\<lambda>_.
      lift_result (Inr \<lparr>pk_name = ''content:'' @ bs_skillId k, pk_status = CheckPass, pk_details = Some hash\<rparr>))))"

fun copy_bundle_skills :: "skill_world \<Rightarrow> 'key install_input \<Rightarrow> string \<Rightarrow> bundle_skill list \<Rightarrow> provider_check list skill_action" where
  "copy_bundle_skills w x release [] = lift_result (Inr [])"
| "copy_bundle_skills w x release (k # ks) = and_then (copy_bundle_skill w x release k) (\<lambda>c.
     and_then (copy_bundle_skills w x release ks) (\<lambda>cs. lift_result (Inr (c # cs))))"

text \<open>What is not a file: clocks, processes and the provider's own check.\<close>

definition ask :: "(nat \<Rightarrow> 'a) \<Rightarrow> 'a skill_action" where
  "ask f s = (Inr (f (sr_calls s)), s\<lparr>sr_calls := Suc (sr_calls s)\<rparr>)"

definition attempt :: "'a skill_action \<Rightarrow> bool skill_action" where
  "attempt m s = (case m s of (r, s1) \<Rightarrow> (Inr (is_ok r), s1))"

definition all_recovered :: "bool list \<Rightarrow> unit skill_action" where
  "all_recovered oks = lift_result (if list_all id oks then Inr () else Inl RecoveryIncomplete)"

datatype install_status = StatusActive | StatusFailed | StatusRolledBack

record installation =
  il_bundleId :: string
  il_previous :: "string option"
  il_skillIds :: "string list"
  il_previousIds :: "string list"
  il_workspaceId :: string
  il_provider :: provider_id

definition activate_new :: "skill_world \<Rightarrow> installation \<Rightarrow> unit skill_action" where
  "activate_new w i = activateNativeSkills w \<lparr>av_release = il_bundleId i, av_bundleId = il_bundleId i, av_workspaceId = il_workspaceId i,
     av_bootstrap = Some (il_provider i), av_skillIds = il_skillIds i, av_removeIds = il_previousIds i\<rparr>"

definition restorePreviousBundle :: "skill_world \<Rightarrow> installation \<Rightarrow> install_status skill_action" where
  "restorePreviousBundle w i = (let back = (case il_previous i of None \<Rightarrow> il_bundleId i | Some b \<Rightarrow> b) in
     and_then (remove_at w ActiveRelease) (\<lambda>_.
     and_then (unless_missing (rename_to w RollbackRelease ActiveRelease)) (\<lambda>restored.
     and_then (activateNativeSkills w \<lparr>av_release = back, av_bundleId = back, av_workspaceId = il_workspaceId i, av_bootstrap = None,
        av_skillIds = (if il_previous i = None then [] else il_previousIds i), av_removeIds = il_skillIds i\<rparr>) (\<lambda>_.
     lift_result (Inr (if restored then StatusRolledBack else StatusFailed))))))"

text \<open>From the previous release to the new one, back to the previous one when the activation throws.\<close>

definition swap_release :: "skill_world \<Rightarrow> installation \<Rightarrow> unit skill_action" where
  "swap_release w i =
     and_then (remove_at w RollbackRelease) (\<lambda>_.
     and_then (unless_missing (rename_to w ActiveRelease RollbackRelease)) (\<lambda>_.
     and_then (copy_to w (\<lambda>st. st_files st (ReleaseDir (il_bundleId i))) ActiveRelease) (\<lambda>_.
     repairing (activate_new w i)
       (and_then (remove_at w ActiveRelease) (\<lambda>_.
        and_then (attempt (unless_missing (rename_to w RollbackRelease ActiveRelease))) (\<lambda>restored. all_recovered [restored]))))))"

type_synonym outcome = "install_status \<times> provider_check list"

definition after_check :: "install_status skill_action \<Rightarrow> provider_check list \<Rightarrow> provider_check \<Rightarrow> outcome skill_action" where
  "after_check restore checks c = (let checks' = checks @ [c] in
     if pk_status c = CheckFail then and_then restore (\<lambda>st. lift_result (Inr (st, checks')))
     else lift_result (Inr (StatusActive, checks')))"

definition smoke_step :: "skill_world \<Rightarrow> 'key install_input \<Rightarrow> install_status skill_action \<Rightarrow> provider_check list \<Rightarrow> outcome skill_action" where
  "smoke_step w x restore checks = (case it_smokeCommandId x of None \<Rightarrow> lift_result (Inr (StatusActive, checks))
     | Some command \<Rightarrow> and_then (ask (\<lambda>n. sw_smoke w n command)) (\<lambda>r. case r of Inl c \<Rightarrow> lift_result (Inl c)
       | Inr c \<Rightarrow> after_check restore checks (c\<lparr>pk_name := ''smoke:'' @ command\<rparr>)))"

fun verification_message :: "bundle_error \<Rightarrow> string" where
  "verification_message UnknownBundleSchema = ''Skill bundle schema is not authorized for installation or task execution.''"
| "verification_message BundleExpiryInvalid = ''Skill bundle expiry is invalid.''"
| "verification_message BundleExpired = ''Skill bundle has expired.''"
| "verification_message BundleSignatureInvalid = ''Skill bundle signature is invalid.''"
| "verification_message BundleHashInvalid = ''Skill bundle hash is invalid.''"
| "verification_message SelectorsInvalid = ''Skill bundle target selectors are invalid.''"
| "verification_message _ = []"

definition window_check :: "'key install_input \<Rightarrow> jsnum \<Rightarrow> provider_check" where
  "window_check x now = (case verifySkillBundle (it_host x) (it_bundle x) (it_serverKey x) now of
     Inr _ \<Rightarrow> \<lparr>pk_name = ''authorization:activation-window'', pk_status = CheckPass,
        pk_details = Some (let v = map_of (it_bundle x) ''expiresAt'' in if truthy v then js_string (the v) else ''no-expiry'')\<rparr>
   | Inl c \<Rightarrow> \<lparr>pk_name = ''authorization:activation-window'', pk_status = CheckFail, pk_details = Some (verification_message c)\<rparr>)"

definition window_step :: "skill_world \<Rightarrow> 'key install_input \<Rightarrow> install_status skill_action \<Rightarrow> outcome \<Rightarrow> outcome skill_action" where
  "window_step w x restore r = (if fst r \<noteq> StatusActive then lift_result (Inr r)
     else and_then (ask (sw_now w)) (\<lambda>now. after_check restore (snd r) (window_check x (Some now))))"

definition activation_name :: "string \<Rightarrow> bool" where
  "activation_name s = (case split_on (CHR '':'') s of
     [a, b, c] \<Rightarrow> a = ''provider'' \<and> b \<noteq> [] \<and> list_all (\<lambda>d. is_lower d \<or> is_digit d \<or> d \<in> set ''._-'') b \<and> c = ''activation''
   | _ \<Rightarrow> False)"

definition activation_check :: "'key install_input \<Rightarrow> (string, provider_check) result \<Rightarrow> provider_check" where
  "activation_check x r = (let failed = (\<lambda>m. \<lparr>pk_name = ''provider:'' @ provider_name (sk_provider (it_endpoint x)) @ '':activation'',
       pk_status = CheckFail, pk_details = Some (take 1000 m)\<rparr>) in
     case r of Inl m \<Rightarrow> failed m
     | Inr c \<Rightarrow> if \<not> activation_name (pk_name c) \<or> (case pk_details c of None \<Rightarrow> False | Some d \<Rightarrow> 1000 < length d)
         then failed ''Provider activation check returned an invalid result.'' else c)"

definition activation_step :: "skill_world \<Rightarrow> 'key install_input \<Rightarrow> install_status skill_action \<Rightarrow> outcome \<Rightarrow> outcome skill_action" where
  "activation_step w x restore r = (if fst r \<noteq> StatusActive \<or> \<not> it_checksActivation x then lift_result (Inr r)
     else and_then (ask (sw_activation w)) (\<lambda>c. after_check restore (snd r) (activation_check x c)))"

fun install_status_name :: "install_status \<Rightarrow> string" where
  "install_status_name StatusActive = ''active''"
| "install_status_name StatusFailed = ''failed''"
| "install_status_name StatusRolledBack = ''rolled_back''"

fun check_status_name :: "check_status \<Rightarrow> string" where
  "check_status_name CheckPass = ''pass''"
| "check_status_name CheckFail = ''fail''"
| "check_status_name CheckUnavailable = ''unavailable''"

definition optional_text :: "string option \<Rightarrow> json" where
  "optional_text v = (case v of None \<Rightarrow> JNull | Some s \<Rightarrow> JStr s)"

definition check_json :: "provider_check \<Rightarrow> json" where
  "check_json c = JObj [(''name'', JStr (pk_name c)), (''status'', JStr (check_status_name (pk_status c))), (''details'', optional_text (pk_details c))]"

definition receiptBase :: "'key install_input \<Rightarrow> installation \<Rightarrow> outcome \<Rightarrow> string \<Rightarrow> string \<Rightarrow> string \<Rightarrow> members" where
  "receiptBase x i r installationId startedAt completedAt =
     [(''schema'', JStr ''dharma.install-receipt/v1''), (''installationId'', JStr installationId),
      (''organizationId'', JStr (member (it_bundle x) ''organizationId'')), (''deviceId'', JStr (sk_deviceId (it_endpoint x))),
      (''workspaceId'', JStr (sk_workspaceId (it_endpoint x))), (''provider'', JStr (provider_name (sk_provider (it_endpoint x)))),
      (''bundleId'', JStr (il_bundleId i)), (''previousBundleId'', optional_text (il_previous i)), (''status'', JStr (install_status_name (fst r))),
      (''activationMode'', JStr (member (it_bundle x) ''activationPolicy'')), (''checks'', JArr (map check_json (snd r))),
      (''startedAt'', JStr startedAt), (''completedAt'', JStr completedAt), (''rollbackReceiptId'', JNull)]"

definition signed_receipt :: "'key install_input \<Rightarrow> members \<Rightarrow> members" where
  "signed_receipt x kvs = (let hashed = kvs @ [(''receiptHash'', JStr (objectDigest (it_host x) (JObj kvs)))] in
     hashed @ [(''signature'', JStr (it_deviceSign x (canonicalize (collation (it_host x)) (JObj hashed))))])"

definition point_back :: "skill_world \<Rightarrow> installation \<Rightarrow> unit skill_action" where
  "point_back w i = (case il_previous i of None \<Rightarrow> remove_at w ActiveBundle | Some b \<Rightarrow> write_at w ActiveBundle (b @ [CHR 0x0A]))"

definition keep_receipt :: "skill_world \<Rightarrow> installation \<Rightarrow> install_status \<Rightarrow> string \<Rightarrow> unit skill_action" where
  "keep_receipt w i status receipt_text = (if status \<noteq> StatusActive then point_back w i
     else repairing
       (and_then (write_in w (ReleaseDir (il_bundleId i)) ''INSTALL_RECEIPT.json'' receipt_text) (\<lambda>_.
        and_then (write_in w ActiveRelease ''INSTALL_RECEIPT.json'' receipt_text) (\<lambda>_.
        write_at w ActiveBundle (il_bundleId i @ [CHR 0x0A]))))
       (and_then (attempt (restorePreviousBundle w i)) (\<lambda>restored.
        and_then (attempt (point_back w i)) (\<lambda>pointed. all_recovered [restored, pointed]))))"

definition write_release :: "skill_world \<Rightarrow> 'key install_input \<Rightarrow> string \<Rightarrow> provider_check list skill_action" where
  "write_release w x b =
     and_then (touch w) (\<lambda>_.
     and_then (remove_at w (ReleaseDir b)) (\<lambda>_.
     and_then (effect w (\<lambda>st. (Inr (), put_at (ReleaseDir b) (Some (Dir [])) st)) (\<lambda>_ st. st)) (\<lambda>_.
     and_then (copy_bundle_skills w x b (bundle_skills (it_bundle x))) (\<lambda>checks.
     and_then (write_in w (ReleaseDir b) ''BUNDLE.json'' (stringify (JObj [(''bundleId'', JStr b),
         (''workspaceId'', JStr (sk_workspaceId (it_endpoint x))), (''skillIds'', str_array (map bs_skillId (bundle_skills (it_bundle x))))])
         @ [CHR 0x0A])) (\<lambda>_.
     and_then (write_in w (ReleaseDir b) ''AUTHORIZATION.json'' (stringify (JObj (it_bundle x)) @ [CHR 0x0A])) (\<lambda>_.
     lift_result (Inr checks)))))))"

definition installSkillBundle :: "skill_world \<Rightarrow> 'key install_input \<Rightarrow> members skill_action" where
  "installSkillBundle w x =
     and_then (ask (sw_now w)) (\<lambda>started.
     and_then (ask (sw_now w)) (\<lambda>now.
     and_then (lift_result (admission_error x (Some now))) (\<lambda>_.
     let ws = sk_workspaceId (it_endpoint x); b = member (it_bundle x) ''bundleId'' in
     and_then (recoverInterruptedSkillRollbacks w (it_names x) ws) (\<lambda>_.
     and_then (readActiveBundlePointer w) (\<lambda>previous.
     and_then (write_release w x b) (\<lambda>contents.
     and_then (case previous of None \<Rightarrow> lift_result (Inr []) | Some p \<Rightarrow> releaseSkillIds w (ReleaseDir p)) (\<lambda>previousIds.
     let i = \<lparr>il_bundleId = b, il_previous = previous, il_skillIds = map bs_skillId (bundle_skills (it_bundle x)),
           il_previousIds = previousIds, il_workspaceId = ws, il_provider = sk_provider (it_endpoint x)\<rparr>;
         restore = restorePreviousBundle w i in
     and_then (swap_release w i) (\<lambda>_.
     and_then (smoke_step w x restore contents) (\<lambda>r1.
     and_then (window_step w x restore r1) (\<lambda>r2.
     and_then (activation_step w x restore r2) (\<lambda>r3.
     and_then (ask (\<lambda>n. (sw_uuid w n, sw_now w n))) (\<lambda>(uuid, completed).
     let iso = isoString (it_host x); receipt = signed_receipt x (receiptBase x i r3 uuid (iso started) (iso completed)) in
     and_then (keep_receipt w i (fst r3) (stringify (JObj receipt) @ [CHR 0x0A])) (\<lambda>_.
     lift_result (Inr receipt))))))))))))))"

subsection \<open>Rollback\<close>

definition mark :: "nat \<Rightarrow> unit skill_action" where
  "mark n s = (Inr (), s\<lparr>sr_progress := n\<rparr>)"

record rollback =
  rb_current :: string
  rb_currentIds :: "string list"
  rb_previous :: "string option"
  rb_previousIds :: "string list"
  rb_workspaceId :: string

definition open_rollback :: "skill_world \<Rightarrow> string \<Rightarrow> rollback \<Rightarrow> unit skill_action" where
  "open_rollback w tx b =
     and_then (effect w (\<lambda>st. (Inr (), st\<lparr>st_rollbacks := st_rollbacks st @ [tx]\<rparr>)) (\<lambda>_ st. st)) (\<lambda>_.
     and_then (write_at w (RollbackPart tx ''ROLLBACK_RECOVERY.json'') (stringify (JObj [(''schema'', JStr ''dharma.skill-rollback-recovery/v1''),
        (''workspaceId'', JStr (rb_workspaceId b)), (''currentBundleId'', JStr (rb_current b)),
        (''currentSkillIds'', str_array (rb_currentIds b))]) @ [CHR 0x0A])) (\<lambda>_.
     case rb_previous b of None \<Rightarrow> lift_result (Inr ())
     | Some p \<Rightarrow> copy_to w (\<lambda>st. st_files st (ReleaseDir p)) (RollbackPart tx ''staged-active'')))"

definition roll_back :: "skill_world \<Rightarrow> string \<Rightarrow> rollback \<Rightarrow> unit skill_action" where
  "roll_back w tx b = (let to = (case rb_previous b of None \<Rightarrow> rb_current b | Some p \<Rightarrow> p) in
     and_then (activateNativeSkills w \<lparr>av_release = to, av_bundleId = to, av_workspaceId = rb_workspaceId b, av_bootstrap = None,
        av_skillIds = rb_previousIds b, av_removeIds = rb_currentIds b\<rparr>) (\<lambda>_.
     and_then (mark 1) (\<lambda>_.
     and_then (rename_to w ActiveRelease (RollbackPart tx ''backup-active'')) (\<lambda>_.
     and_then (mark 2) (\<lambda>_.
     case rb_previous b of None \<Rightarrow> remove_at w ActiveBundle
     | Some p \<Rightarrow>
        and_then (rename_to w (RollbackPart tx ''staged-active'') ActiveRelease) (\<lambda>_.
        and_then (mark 3) (\<lambda>_.
        and_then (write_at w (RollbackPart tx ''ACTIVE_BUNDLE.next'') (p @ [CHR 0x0A])) (\<lambda>_.
        rename_to w (RollbackPart tx ''ACTIVE_BUNDLE.next'') ActiveBundle))))))))"

definition undo_rollback :: "skill_world \<Rightarrow> string \<Rightarrow> rollback \<Rightarrow> unit skill_action" where
  "undo_rollback w tx b s = (let reached = sr_progress s in
     and_then (attempt (if reached < 2 then lift_result (Inr ())
       else and_then (if reached < 3 then lift_result (Inr ()) else remove_at w ActiveRelease) (\<lambda>_.
         rename_to w (RollbackPart tx ''backup-active'') ActiveRelease))) (\<lambda>active.
     and_then (attempt (if reached < 1 then lift_result (Inr ())
       else activateNativeSkills w \<lparr>av_release = rb_current b, av_bundleId = rb_current b, av_workspaceId = rb_workspaceId b,
         av_bootstrap = None, av_skillIds = rb_currentIds b, av_removeIds = rb_previousIds b\<rparr>)) (\<lambda>native.
     and_then (attempt (write_at w ActiveBundle (rb_current b @ [CHR 0x0A]))) (\<lambda>pointer.
     all_recovered [active, native, pointer]))) s)"

text \<open>The directory of the rollback is kept when the repair was not complete.\<close>

definition close_rollback :: "skill_world \<Rightarrow> string \<Rightarrow> 'a skill_action \<Rightarrow> 'a skill_action" where
  "close_rollback w tx m s = (case m s of (r, s1) \<Rightarrow>
     if r = Inl RecoveryIncomplete then (r, s1)
     else (case remove_rollback w tx s1 of (Inl c, s2) \<Rightarrow> (Inl c, s2) | (Inr _, s2) \<Rightarrow> (r, s2)))"

definition rollbackUnconfirmedSkillBundle :: "skill_world \<Rightarrow> string list \<Rightarrow> string \<Rightarrow> members \<Rightarrow> unit skill_action" where
  "rollbackUnconfirmedSkillBundle w names ws rcpt =
     (if map_of rcpt ''status'' \<noteq> Some (JStr ''active'') then lift_result (Inr ())
      else and_then (recoverInterruptedSkillRollbacks w names ws) (\<lambda>_.
      and_then (readActiveBundlePointer w) (\<lambda>activeId.
      let current = member rcpt ''bundleId''; previous = (case map_of rcpt ''previousBundleId'' of Some (JStr []) \<Rightarrow> None | Some (JStr p) \<Rightarrow> Some p | _ \<Rightarrow> None) in
      if activeId \<noteq> Some current then lift_result (Inl NotTheActiveBundle)
      else and_then (releaseSkillIds w (ReleaseDir current)) (\<lambda>currentIds.
      and_then (case previous of None \<Rightarrow> lift_result (Inr []) | Some p \<Rightarrow> releaseSkillIds w (ReleaseDir p)) (\<lambda>previousIds.
      and_then (ask (\<lambda>n. ''.rollback-'' @ sw_uuid w n)) (\<lambda>tx.
      let b = \<lparr>rb_current = current, rb_currentIds = currentIds, rb_previous = previous, rb_previousIds = previousIds, rb_workspaceId = ws\<rparr> in
      and_then (mark 0) (\<lambda>_.
      and_then (open_rollback w tx b) (\<lambda>_.
      close_rollback w tx (repairing (roll_back w tx b) (undo_rollback w tx b)))))))))) "

end
