(* ===== verification/Skill_Runs.thy ===== *)
theory Skill_Runs
  imports Skill_Install
begin

text \<open>
  How runs of the skill manager are reasoned about: what an action leads to, invariants that hold after
  every call, the skills of others, and where the previous release is during an installation.
\<close>

subsection \<open>Reasoning about runs\<close>

text \<open>From a run with \<open>P\<close>, the action ends in a result and a run with \<open>R\<close>.\<close>

definition leads :: "(skill_run \<Rightarrow> bool) \<Rightarrow> 'a skill_action \<Rightarrow> ((bundle_error, 'a) result \<Rightarrow> skill_run \<Rightarrow> bool) \<Rightarrow> bool" where
  "leads P m R = (\<forall>s. P s \<longrightarrow> (case m s of (r, s') \<Rightarrow> R r s'))"

lemma leadsD: "leads P m R \<Longrightarrow> P s \<Longrightarrow> m s = (r, s') \<Longrightarrow> R r s'"
  by (auto simp: leads_def)

lemma leads_and_then:
  assumes "leads P m (\<lambda>r s. case r of Inl c \<Rightarrow> R (Inl c) s | Inr x \<Rightarrow> M x s)" "\<And>x. leads (M x) (f x) R"
  shows "leads P (and_then m f) R"
  unfolding leads_def
proof (intro allI impI)
  fix s assume "P s"
  obtain r s1 where m: "m s = (r, s1)" by fastforce
  from leadsD [OF assms(1) \<open>P s\<close> m] assms(2) show "case and_then m f s of (r, s') \<Rightarrow> R r s'"
    unfolding leads_def by (cases r) (auto simp: and_then_def m)
qed

lemma leads_lift: "(\<And>s. P s \<Longrightarrow> R r s) \<Longrightarrow> leads P (lift_result r) R"
  by (simp add: leads_def lift_result_def)

lemma leads_weaken: "leads P m R \<Longrightarrow> (\<And>s. P' s \<Longrightarrow> P s) \<Longrightarrow> (\<And>r s. R r s \<Longrightarrow> R' r s) \<Longrightarrow> leads P' m R'"
  unfolding leads_def by fastforce

lemma leads_case: "(b \<Longrightarrow> leads P m R) \<Longrightarrow> (\<not> b \<Longrightarrow> leads P m' R) \<Longrightarrow> leads P (if b then m else m') R"
  by simp

lemma leads_fact: "(\<And>s. P s \<Longrightarrow> b) \<Longrightarrow> (b \<Longrightarrow> leads P m R) \<Longrightarrow> leads P m R"
  by (cases b) (auto simp: leads_def)

lemma leads_repairing:
  assumes "leads P m (\<lambda>r s. case r of Inl c \<Rightarrow> E s | Inr x \<Rightarrow> R (Inr x) s)" "leads E repair (\<lambda>r s. \<forall>c. R (Inl c) s)"
  shows "leads P (repairing m repair) R"
  unfolding leads_def
proof (intro allI impI)
  fix s assume "P s"
  obtain r s1 where m: "m s = (r, s1)" by fastforce
  show "case repairing m repair s of (r, s') \<Rightarrow> R r s'"
  proof (cases r)
    case (Inl c)
    with leadsD [OF assms(1) \<open>P s\<close> m] have "E s1" by simp
    obtain r2 s2 where r2: "repair s1 = (r2, s2)" by fastforce
    from leadsD [OF assms(2) \<open>E s1\<close> r2] show ?thesis by (cases r2) (auto simp: repairing_def m Inl r2)
  next
    case (Inr x)
    with leadsD [OF assms(1) \<open>P s\<close> m] show ?thesis by (simp add: repairing_def m)
  qed
qed

lemma leads_finally:
  assumes "leads P m Q" "\<And>r. leads (Q r) cleanup (\<lambda>r' s. case r' of Inl c \<Rightarrow> R (Inl c) s | Inr _ \<Rightarrow> R r s)"
  shows "leads P (finally_do m cleanup) R"
  unfolding leads_def
proof (intro allI impI)
  fix s assume "P s"
  obtain r s1 where m: "m s = (r, s1)" by fastforce
  obtain r2 s2 where r2: "cleanup s1 = (r2, s2)" by fastforce
  from leadsD [OF assms(2) leadsD [OF assms(1) \<open>P s\<close> m] r2] show "case finally_do m cleanup s of (r, s') \<Rightarrow> R r s'"
    by (cases r2) (auto simp: finally_do_def m r2)
qed

text \<open>\<open>I\<close> holds of the files now, and \<open>K\<close>, which follows from it, held after every call.\<close>

definition always :: "(skill_store \<Rightarrow> bool) \<Rightarrow> (skill_store \<Rightarrow> bool) \<Rightarrow> skill_run \<Rightarrow> bool" where
  "always K I s = (I (sr_store s) \<and> (\<forall>st. I st \<longrightarrow> K st) \<and> list_all K (sr_past s))"

lemma always_enter [simp]: "always K I (enter_store st s) \<longleftrightarrow> I st \<and> (\<forall>st. I st \<longrightarrow> K st) \<and> list_all K (sr_past s)"
  by (auto simp: always_def enter_store_def)

lemma enter_simps [simp]:
  "sr_store (enter_store st s) = st" "sr_activated (enter_store st s) = sr_activated s" "sr_backedUp (enter_store st s) = sr_backedUp s"
  "sr_calls (enter_store st s) = Suc (sr_calls s)" "sr_progress (enter_store st s) = sr_progress s"
  by (simp_all add: enter_store_def)

definition maintains :: "(skill_store \<Rightarrow> bool) \<Rightarrow> (skill_store \<Rightarrow> bool) \<Rightarrow> 'a skill_action \<Rightarrow> bool" where
  "maintains K I m = keeps (always K I) m"

lemma maintains_effect:
  assumes "\<And>st. I st \<Longrightarrow> I (snd (act st))" "\<And>t st. I st \<Longrightarrow> I (broken t st)"
  shows "maintains K I (effect w act broken)"
  unfolding maintains_def keeps_def effect_def
proof (intro allI impI)
  fix s assume s: "always K I s"
  then have "I (sr_store s)" "list_all K (sr_past s)" "\<forall>st. I st \<longrightarrow> K st" by (simp_all add: always_def)
  with assms show "always K I (snd (case sw_answer w (sr_calls s) of
      Works \<Rightarrow> (case act (sr_store s) of (r, st) \<Rightarrow> (r, enter_store st s))
    | Breaks t \<Rightarrow> (Inl StorageError, enter_store (broken t (sr_store s)) s)))"
    by (auto split: answer.splits prod.splits) (metis snd_conv)
qed

lemma maintains_and_then [inv_intros]: "maintains K I m \<Longrightarrow> (\<And>x. maintains K I (f x)) \<Longrightarrow> maintains K I (and_then m f)"
  unfolding maintains_def by (rule keeps_and_then)

lemma maintains_lift [inv_intros]: "maintains K I (lift_result r)"
  unfolding maintains_def by (rule keeps_lift)

lemma maintains_if [inv_intros]: "(b \<Longrightarrow> maintains K I m) \<Longrightarrow> (\<not> b \<Longrightarrow> maintains K I m') \<Longrightarrow> maintains K I (if b then m else m')"
  by simp

lemma maintains_peek [inv_intros]: "maintains K I (peek w f)"
  unfolding peek_def by (rule maintains_effect) auto

lemma maintains_reads [inv_intros]: "maintains K I (touch w)" "maintains K I (exists_at w p)" "maintains K I (readBundleManifestId w p)"
    "maintains K I (releaseSkillIds w p)" "maintains K I (read_active w n)" "maintains K I (nativeSkillIdsOwnedByWorkspace w names ws)"
  by (simp_all add: touch_def exists_at_def readBundleManifestId_def releaseSkillIds_def read_active_def nativeSkillIdsOwnedByWorkspace_def maintains_peek)

lemma maintains_ask [inv_intros]: "maintains K I (ask f)"
  by (simp add: maintains_def keeps_def ask_def always_def)

lemma maintains_mark [inv_intros]: "maintains K I (mark n)"
  by (simp add: maintains_def keeps_def mark_def always_def)

lemma maintains_attempt [inv_intros]: "maintains K I m \<Longrightarrow> maintains K I (attempt m)"
  unfolding maintains_def keeps_def attempt_def by (auto split: prod.splits)

lemma maintains_unless_missing [inv_intros]: "maintains K I m \<Longrightarrow> maintains K I (unless_missing m)"
  unfolding maintains_def keeps_def unless_missing_def by (auto split: prod.splits sum.splits)

lemma maintains_repairing [inv_intros]: "maintains K I m \<Longrightarrow> maintains K I r \<Longrightarrow> maintains K I (repairing m r)"
  unfolding maintains_def keeps_def repairing_def by (auto split: prod.splits sum.splits)

lemma maintains_for_each [inv_intros]: "(\<And>x. x \<in> set xs \<Longrightarrow> maintains K I (f x)) \<Longrightarrow> maintains K I (for_each f xs)"
  by (induction xs) (auto intro!: maintains_and_then maintains_lift)

text \<open>Predicates that do not look at a place.\<close>

definition blind :: "(skill_store \<Rightarrow> bool) \<Rightarrow> place \<Rightarrow> bool" where
  "blind I p = (\<forall>t st. I st \<longrightarrow> I (put_at p t st))"

lemma blindD: "blind I p \<Longrightarrow> I st \<Longrightarrow> I (put_at p t st)"
  by (simp add: blind_def)

lemma maintains_changes [inv_intros]:
  "blind I p \<Longrightarrow> maintains K I (remove_at w p)"
  "blind I q \<Longrightarrow> maintains K I (copy_to w src q)"
  "blind I p \<Longrightarrow> blind I q \<Longrightarrow> maintains K I (rename_to w p q)"
  "blind I p \<Longrightarrow> maintains K I (write_at w p c)"
  "blind I p \<Longrightarrow> maintains K I (write_in w p n c)"
  unfolding remove_at_def copy_to_def rename_to_def write_at_def write_in_def
  by (rule maintains_effect; auto simp: blindD split: option.splits tree.splits)+

subsection \<open>Skills of others\<close>

text \<open>A skill that the fabric did not install, or that it installed for another workspace.\<close>

definition foreign_skill :: "(string \<Rightarrow> json option) \<Rightarrow> string \<Rightarrow> string \<Rightarrow> tree \<Rightarrow> bool" where
  "foreign_skill parse ws skillId t = (case entry_of t MARKER of Inl _ \<Rightarrow> True
     | Inr None \<Rightarrow> skillId \<noteq> ''dharma-agent-fabric'' \<or> entry_of t BOOTSTRAP_MARKER = Inr None
     | Inr (Some _) \<Rightarrow> (case members_in parse (Some t) MARKER of
         Inr (Some kvs) \<Rightarrow> (case map_of kvs ''workspaceId'' of Some (JStr other) \<Rightarrow> other \<noteq> ws | _ \<Rightarrow> False)
       | _ \<Rightarrow> True))"

lemma check_native_foreign:
  assumes "foreign_skill parse (av_workspaceId a) skillId t" "check_native parse a skillId (Some t) = Inr shared"
  shows "shared"
proof (cases "entry_of t MARKER")
  case (Inr e)
  show ?thesis
  proof (cases e)
    case None
    with Inr assms show ?thesis
      by (auto simp: foreign_skill_def check_native_def check_bootstrap_def split: if_splits)
  next
    case (Some u)
    with Inr assms(2) obtain kvs where kvs: "members_in parse (Some t) MARKER = Inr (Some kvs)" "check_owner a skillId kvs = Inr shared"
      by (auto simp: check_native_def required_def split: sum.splits option.splits)
    with Inr Some assms(1) obtain other where "map_of kvs ''workspaceId'' = Some (JStr other)" "other \<noteq> av_workspaceId a"
      by (auto simp: foreign_skill_def split: option.splits json.splits)
    with kvs(2) show ?thesis by (auto simp: check_owner_def split: if_splits)
  qed
qed (use assms in \<open>simp add: check_native_def\<close>)

definition has_skill :: "string \<Rightarrow> tree \<Rightarrow> skill_store \<Rightarrow> bool" where
  "has_skill skillId t st = (st_files st (NativeSkill skillId) = Some t)"

lemma has_skill_blind [simp]: "p \<noteq> NativeSkill skillId \<Longrightarrow> blind (has_skill skillId t) p"
  by (simp add: blind_def has_skill_def put_at_def)

lemma has_skill_put [simp]: "p \<noteq> NativeSkill skillId \<Longrightarrow> has_skill skillId t (put_at p u st) = has_skill skillId t st"
  by (simp add: has_skill_def put_at_def)

lemma effect_store: "effect w act broken s = (Inr x, s') \<Longrightarrow> act (sr_store s) = (Inr x, sr_store s')"
  by (auto simp: effect_def split: answer.splits prod.splits)

lemma peek_ok: "peek w f s = (Inr x, s') \<Longrightarrow> f (sr_store s) = Inr x \<and> sr_store s' = sr_store s"
  unfolding peek_def by (drule effect_store) auto

lemma check_natives_store: "check_natives w a ids s = (Inr shared, s') \<Longrightarrow> sr_store s' = sr_store s"
  by (induction ids arbitrary: s shared) (auto simp: and_then_ok dest!: peek_ok)

lemma check_natives_foreign:
  assumes "check_natives w a ids s = (Inr shared, s')" "has_skill skillId t (sr_store s)"
    and "foreign_skill (sw_parse w) (av_workspaceId a) skillId t" "skillId \<in> set ids"
  shows "skillId \<in> set shared"
  using assms
proof (induction ids arbitrary: s shared)
  case (Cons k ids)
  from Cons.prems(1) obtain b s1 others where step: "peek w (\<lambda>st. check_native (sw_parse w) a k (st_files st (NativeSkill k))) s = (Inr b, s1)"
      "check_natives w a ids s1 = (Inr others, s')" "shared = (if b then k # others else others)"
    by (auto simp: and_then_ok)
  note one = peek_ok [OF step(1)]
  show ?case
  proof (cases "k = skillId")
    case True
    with one Cons.prems(2,3) check_native_foreign have b by (auto simp: has_skill_def)
    with True step(3) show ?thesis by simp
  next
    case False
    with Cons.IH [OF step(2)] Cons.prems one step(3) show ?thesis by auto
  qed
qed simp

lemma frame_skill_effect [inv_intros]: "frame sr_activated (effect w act broken)" "frame sr_backedUp (effect w act broken)"
  by (simp_all add: frame_def effect_def split: answer.split prod.split)

lemma frame_skill_calls [inv_intros]:
  "frame sr_activated (peek w f)" "frame sr_backedUp (peek w f)" "frame sr_activated (exists_at w p)" "frame sr_backedUp (exists_at w p)"
  "frame sr_activated (remove_at w p)" "frame sr_backedUp (remove_at w p)" "frame sr_activated (copy_to w src p)" "frame sr_backedUp (copy_to w src p)"
  "frame sr_activated (rename_to w p q)" "frame sr_backedUp (rename_to w p q)" "frame sr_activated (write_in w p n c)" "frame sr_backedUp (write_in w p n c)"
  by (simp_all add: peek_def exists_at_def remove_at_def copy_to_def rename_to_def write_in_def frame_skill_effect)

text \<open>While a skill is left alone, the lists of the activation do not have it.\<close>

definition left_alone :: "(skill_store \<Rightarrow> bool) \<Rightarrow> string \<Rightarrow> tree \<Rightarrow> skill_run \<Rightarrow> bool" where
  "left_alone K skillId t s = (always K (has_skill skillId t) s \<and> skillId \<notin> set (sr_activated s) \<and> skillId \<notin> set (sr_backedUp s))"

lemma left_alone_calls: "maintains K (has_skill k t) m \<Longrightarrow> frame sr_activated m \<Longrightarrow> frame sr_backedUp m \<Longrightarrow> keeps (left_alone K k t) m"
  unfolding maintains_def keeps_def left_alone_def by (simp add: frame_apply)

lemma left_alone_each: "(\<And>x. x \<in> set xs \<Longrightarrow> keeps J (f x)) \<Longrightarrow> keeps J (for_each f xs)"
  by (induction xs) (auto intro!: keeps_and_then keeps_lift)

lemma left_alone_parts:
  assumes "skillId \<noteq> k"
  shows "keeps (left_alone K k t) (stage_skill w a skillId)" "keeps (left_alone K k t) (set_aside_skill w skillId)"
    "keeps (left_alone K k t) (place_skill w skillId)"
proof -
  show "keeps (left_alone K k t) (stage_skill w a skillId)"
    unfolding stage_skill_def by (intro left_alone_calls inv_intros) simp_all
  have listed: "keeps (left_alone K k t) (\<lambda>s. (Inr (), s\<lparr>sr_backedUp := skillId # sr_backedUp s\<rparr>))"
      "keeps (left_alone K k t) (\<lambda>s. (Inr (), s\<lparr>sr_activated := skillId # sr_activated s\<rparr>))"
    using assms by (auto simp: keeps_def left_alone_def always_def)
  show "keeps (left_alone K k t) (set_aside_skill w skillId)"
    unfolding set_aside_skill_def by (intro keeps_and_then keeps_if keeps_lift left_alone_calls inv_intros listed) (use assms in auto)
  show "keeps (left_alone K k t) (place_skill w skillId)"
    unfolding place_skill_def by (intro keeps_and_then left_alone_calls inv_intros listed) (use assms in auto)
qed

lemma maintains_and_then_value:
  assumes "maintains K I m" "\<And>s x s'. always K I s \<Longrightarrow> m s = (Inr x, s') \<Longrightarrow> maintains K I (f x)"
  shows "maintains K I (and_then m f)"
  unfolding maintains_def keeps_def
proof (intro allI impI)
  fix s assume s: "always K I s"
  obtain r s1 where m: "m s = (r, s1)" by fastforce
  with assms(1) s have "always K I s1" unfolding maintains_def by (rule keeps_run)
  then show "always K I (snd (and_then m f s))"
    using assms(2) [OF s] m unfolding maintains_def by (cases r) (auto simp: and_then_def dest: keepsD)
qed

lemma maintains_check_natives [inv_intros]: "maintains K I (check_natives w a ids)"
  by (induction ids) (auto intro!: inv_intros)

lemma affected_all: "set (affected a) = set (av_removeIds a) \<union> set (av_skillIds a)"
  by (simp add: affected_def unique_list_set)

lemma swap_skills_left_alone:
  assumes "k \<in> set (affected a) \<Longrightarrow> k \<in> set shared"
  shows "keeps (left_alone K k t) (swap_skills w a shared)"
  unfolding swap_skills_def Let_def
  by (intro keeps_and_then left_alone_each left_alone_parts) (use assms in \<open>auto simp: affected_all\<close>)

lemma swap_back_left_alone: "keeps (left_alone K k t) (swap_back w)"
  unfolding keeps_def
proof (intro allI impI)
  fix s assume s: "left_alone K k t s"
  have "keeps (left_alone K k t) (and_then (for_each (\<lambda>skillId. remove_at w (NativeSkill skillId)) (sr_activated s))
      (\<lambda>_. for_each (\<lambda>skillId. rename_to w (SetAside skillId) (NativeSkill skillId)) (sr_backedUp s)))"
    using s by (intro keeps_and_then left_alone_each left_alone_calls inv_intros) (auto simp: left_alone_def intro!: has_skill_blind)
  with s show "left_alone K k t (snd (swap_back w s))" unfolding swap_back_def by (rule keepsD [rotated])
qed

lemma keeps_repairing: "keeps J m \<Longrightarrow> keeps J r \<Longrightarrow> keeps J (repairing m r)"
  unfolding keeps_def repairing_def by (auto split: prod.splits sum.splits)

lemma keeps_finally: "keeps J m \<Longrightarrow> keeps J r \<Longrightarrow> keeps J (finally_do m r)"
  unfolding keeps_def finally_do_def by (auto split: prod.splits sum.splits)

lemma has_skill_no_transaction [simp]: "has_skill k t (no_transaction st) = has_skill k t st"
  by (simp add: has_skill_def no_transaction_def)

lemma activation_left_alone:
  assumes "foreign_skill (sw_parse w) (av_workspaceId a) k t"
  shows "maintains K (has_skill k t) (activateNativeSkills w a)"
  unfolding activateNativeSkills_def
proof (rule maintains_and_then [OF maintains_reads(1)], rule maintains_and_then_value)
  show "maintains K (has_skill k t) (check_natives w a (affected a))" by (rule maintains_check_natives)
next
  fix s shared s' assume "always K (has_skill k t) s" "check_natives w a (affected a) s = (Inr shared, s')"
  then have own: "k \<in> set (affected a) \<Longrightarrow> k \<in> set shared"
    using check_natives_foreign assms by (auto simp: always_def)
  let ?rest = "and_then (touch w) (\<lambda>_. and_then (touch w) (\<lambda>_. finally_do (repairing (swap_skills w a shared) (swap_back w))
      (effect w (\<lambda>st. (Inr (), no_transaction st)) (\<lambda>_ st. st))))"
  have "keeps (left_alone K k t) ?rest"
    by (intro keeps_and_then keeps_finally keeps_repairing swap_back_left_alone swap_skills_left_alone [OF own] left_alone_calls
        maintains_reads maintains_effect) (auto simp: touch_def intro!: inv_intros frame_skill_effect)
  then show "maintains K (has_skill k t) (and_then begin_activation (\<lambda>_. ?rest))"
    unfolding maintains_def keeps_def by (simp add: and_then_def begin_activation_def left_alone_def always_def)
qed

lemma maintains_cases [inv_intros]:
  "(v = None \<Longrightarrow> maintains K I m) \<Longrightarrow> (\<And>x. v = Some x \<Longrightarrow> maintains K I (f x)) \<Longrightarrow> maintains K I (case v of None \<Rightarrow> m | Some x \<Rightarrow> f x)"
  "(\<And>c. r = Inl c \<Longrightarrow> maintains K I (g c)) \<Longrightarrow> (\<And>y. r = Inr y \<Longrightarrow> maintains K I (h y)) \<Longrightarrow> maintains K I (case r of Inl c \<Rightarrow> g c | Inr y \<Rightarrow> h y)"
  "(\<And>a b. z = (a, b) \<Longrightarrow> maintains K I (p a b)) \<Longrightarrow> maintains K I (case z of (a, b) \<Rightarrow> p a b)"
  by (auto split: option.split sum.split prod.split)

lemma maintains_all_recovered [inv_intros]: "maintains K I (all_recovered oks)"
  by (simp add: all_recovered_def maintains_lift)

lemma has_skill_rollbacks [simp]:
  "has_skill k t (forget_rollback tx st) = has_skill k t st" "has_skill k t (keep_parts tx left st) = has_skill k t st"
  "has_skill k t (st\<lparr>st_rollbacks := txs\<rparr>) = has_skill k t st"
  by (auto simp: has_skill_def forget_rollback_def keep_parts_def split: option.split tree.split)

lemma others_kept [inv_intros]: "maintains K (has_skill k t) (remove_rollback w tx)"
  unfolding remove_rollback_def by (rule maintains_effect) auto

lemma maintains_source [inv_intros]:
  "maintains K I (hash_source w x path base)" "blind I (ReleaseDir release) \<Longrightarrow> maintains K I (copy_skill w path release skillId)"
proof -
  show "maintains K I (hash_source w x path base)"
    using maintains_peek unfolding maintains_def keeps_def hash_source_def by blast
  assume I: "blind I (ReleaseDir release)"
  have "always K I s \<Longrightarrow> always K I (snd (copy_skill w path release skillId s))" for s
    unfolding copy_skill_def
    by (rule maintains_effect [unfolded maintains_def keeps_def, rule_format]) (auto split: option.splits tree.splits simp: blindD [OF I])
  then show "maintains K I (copy_skill w path release skillId)" by (simp add: maintains_def keeps_def)
qed

lemma maintains_copies [inv_intros]: "blind I (ReleaseDir release) \<Longrightarrow> maintains K I (copy_bundle_skills w x release ks)"
proof (induction ks)
  case (Cons b ks)
  then have "maintains K I (copy_bundle_skill w x release b)"
    unfolding copy_bundle_skill_def by (intro inv_intros)
  with Cons show ?case by (simp, intro inv_intros) auto
qed (simp add: maintains_lift)

lemma maintains_write_release [inv_intros]: "blind I (ReleaseDir b) \<Longrightarrow> maintains K I (write_release w x b)"
  unfolding write_release_def by (intro inv_intros maintains_effect) (simp_all add: blindD)

text \<open>All operations of one workspace.\<close>

lemma others_kept_reading [inv_intros]: "maintains K (has_skill k t) (readActiveBundlePointer w)"
  unfolding readActiveBundlePointer_def recoverRejectedActivation_def Let_def by (intro inv_intros) simp_all

lemma others_kept_recovery [inv_intros]:
  assumes "foreign_skill (sw_parse w) ws k t"
  shows "maintains K (has_skill k t) (recoverInterruptedSkillRollbacks w names ws)"
  unfolding recoverInterruptedSkillRollbacks_def recover_one_def
  by (intro inv_intros activation_left_alone) (use assms in simp_all)

lemma others_kept_restore [inv_intros]:
  assumes "foreign_skill (sw_parse w) (il_workspaceId i) k t"
  shows "maintains K (has_skill k t) (restorePreviousBundle w i)" "maintains K (has_skill k t) (swap_release w i)"
    "maintains K (has_skill k t) (keep_receipt w i status c)"
  using assms unfolding restorePreviousBundle_def swap_release_def keep_receipt_def point_back_def activate_new_def Let_def
  by (intro inv_intros activation_left_alone; simp)+

lemma others_kept_install:
  assumes "foreign_skill (sw_parse w) (sk_workspaceId (it_endpoint x)) k t"
  shows "maintains K (has_skill k t) (installSkillBundle w x)"
  unfolding installSkillBundle_def smoke_step_def window_step_def activation_step_def after_check_def Let_def
  by (intro inv_intros maintains_effect) (use assms in simp_all)

lemma maintains_state: "(\<And>s. maintains K I (f s)) \<Longrightarrow> maintains K I (\<lambda>s. f s s)"
  by (simp add: maintains_def keeps_def)

lemma others_kept_undo [inv_intros]:
  assumes "foreign_skill (sw_parse w) (rb_workspaceId b) k t"
  shows "maintains K (has_skill k t) (undo_rollback w tx b)" "maintains K (has_skill k t) (roll_back w tx b)"
    "maintains K (has_skill k t) (open_rollback w tx b)"
proof -
  show "maintains K (has_skill k t) (undo_rollback w tx b)"
    unfolding undo_rollback_def [abs_def] Let_def
    by (rule maintains_state, intro inv_intros activation_left_alone) (use assms in simp_all)
  show "maintains K (has_skill k t) (roll_back w tx b)" "maintains K (has_skill k t) (open_rollback w tx b)"
    unfolding roll_back_def open_rollback_def Let_def
    by (intro inv_intros activation_left_alone maintains_effect; use assms in simp)+
qed

lemma maintains_close [inv_intros]: "maintains K I m \<Longrightarrow> maintains K I (remove_rollback w tx) \<Longrightarrow> maintains K I (close_rollback w tx m)"
  unfolding maintains_def keeps_def close_rollback_def by (auto split: prod.splits sum.splits)

lemma others_kept_rollback:
  assumes "foreign_skill (sw_parse w) ws k t"
  shows "maintains K (has_skill k t) (rollbackUnconfirmedSkillBundle w names ws rcpt)"
  unfolding rollbackUnconfirmedSkillBundle_def Let_def
  by (intro inv_intros) (use assms in simp_all)

text \<open>The operations that other programs call, with the workspace each works for.\<close>

datatype 'key skill_operation =
    InstallBundle "'key install_input"
  | RollBackBundle "string list" string members
  | AuthorizeBundle "'key host" "'key \<times> 'key" "string list" skill_endpoint string jsnum

fun operation_workspace :: "'key skill_operation \<Rightarrow> string" where
  "operation_workspace (InstallBundle x) = sk_workspaceId (it_endpoint x)"
| "operation_workspace (RollBackBundle names ws rcpt) = ws"
| "operation_workspace (AuthorizeBundle h keys names ep expected now) = sk_workspaceId ep"

fun perform_operation :: "skill_world \<Rightarrow> 'key skill_operation \<Rightarrow> skill_run \<Rightarrow> skill_run" where
  "perform_operation w (InstallBundle x) s = snd (installSkillBundle w x s)"
| "perform_operation w (RollBackBundle names ws rcpt) s = snd (rollbackUnconfirmedSkillBundle w names ws rcpt s)"
| "perform_operation w (AuthorizeBundle h keys names ep expected now) s =
     snd (getActiveSkillBundleAuthorization w h keys names ep expected now s)"

definition begin_run :: "skill_store \<Rightarrow> skill_run" where
  "begin_run st = \<lparr>sr_store = st, sr_calls = 0, sr_past = [], sr_activated = [], sr_backedUp = [], sr_progress = 0\<rparr>"

lemma always_begin [simp]: "always K I (begin_run st) \<longleftrightarrow> I st \<and> (\<forall>st. I st \<longrightarrow> K st)"
  by (auto simp: always_def begin_run_def)

lemma others_kept_operation:
  assumes "foreign_skill (sw_parse w) (operation_workspace op) k t" "always K (has_skill k t) s"
  shows "always K (has_skill k t) (perform_operation w op s)"
proof (cases op)
  case (AuthorizeBundle h keys names ep expected now)
  have "maintains K (has_skill k t) (getActiveSkillBundleAuthorization w h keys names ep expected now)"
    unfolding getActiveSkillBundleAuthorization_def by (intro inv_intros) (use assms AuthorizeBundle in simp_all)
  with assms(2) AuthorizeBundle show ?thesis by (simp add: maintains_def keepsD)
next
  case (InstallBundle x)
  then show ?thesis using others_kept_install [of w x k t K] assms by (simp add: maintains_def keepsD)
next
  case (RollBackBundle names ws rcpt)
  then show ?thesis using others_kept_rollback [of w ws k t K names rcpt] assms by (simp add: maintains_def keepsD)
qed

subsection \<open>The previous release\<close>

definition kept_release :: "tree \<Rightarrow> skill_store \<Rightarrow> bool" where
  "kept_release old st = (st_files st ActiveRelease = Some old \<or> st_files st RollbackRelease = Some old)"

definition in_rollback :: "tree \<Rightarrow> skill_store \<Rightarrow> bool" where
  "in_rollback old st = (st_files st RollbackRelease = Some old)"

definition installed :: "tree \<Rightarrow> string \<Rightarrow> skill_store \<Rightarrow> bool" where
  "installed old c st = (st_files st ActiveRelease = Some old \<and> st_rollbacks st = [] \<and> pointer_text st = Inr (Some c))"

lemma release_blind [simp]:
  "p \<notin> {ActiveRelease, RollbackRelease} \<Longrightarrow> blind (kept_release old) p" "p \<noteq> RollbackRelease \<Longrightarrow> blind (in_rollback old) p"
  "p \<notin> {ActiveRelease, ActiveBundle} \<Longrightarrow> blind (installed old c) p"
  by (auto simp: blind_def kept_release_def in_rollback_def installed_def pointer_text_def put_at_def)

lemma release_no_transaction [simp]:
  "kept_release old (no_transaction st) = kept_release old st" "in_rollback old (no_transaction st) = in_rollback old st"
  "installed old c (no_transaction st) = installed old c st"
  by (simp_all add: kept_release_def in_rollback_def installed_def pointer_text_def no_transaction_def)

lemma release_places [simp]: "in_rollback old st \<Longrightarrow> kept_release old st" "installed old c st \<Longrightarrow> kept_release old st"
  by (simp_all add: in_rollback_def kept_release_def installed_def)

lemma activation_maintains:
  assumes "\<And>k. blind I (NativeSkill k)" "\<And>k. blind I (Staged k)" "\<And>k. blind I (SetAside k)" "\<And>st. I st \<Longrightarrow> I (no_transaction st)"
  shows "maintains K I (activateNativeSkills w a)"
proof -
  have undone: "maintains K I (swap_back w)"
    unfolding swap_back_def [abs_def] by (rule maintains_state, intro inv_intros assms)
  have noted: "maintains K I (\<lambda>s. (Inr (), s\<lparr>sr_backedUp := k # sr_backedUp s\<rparr>))" "maintains K I (\<lambda>s. (Inr (), s\<lparr>sr_activated := k # sr_activated s\<rparr>))" for k
    by (simp_all add: maintains_def keeps_def always_def)
  have started: "maintains K I begin_activation"
    using assms(4) by (auto simp: maintains_def keeps_def always_def begin_activation_def)
  have ended: "maintains K I m \<Longrightarrow> maintains K I m' \<Longrightarrow> maintains K I (finally_do m m')" for m m' :: "unit skill_action"
    unfolding maintains_def by (rule keeps_finally)
  have swap: "maintains K I (swap_skills w a shared)" for shared
    unfolding swap_skills_def stage_skill_def set_aside_skill_def place_skill_def Let_def by (intro inv_intros noted assms)
  show ?thesis
    unfolding activateNativeSkills_def
    by (intro inv_intros started ended swap undone maintains_effect) (simp_all add: assms(4))
qed

lemma leads_maintains: "maintains K I m \<Longrightarrow> leads (always K I) m (\<lambda>_. always K I)"
  unfolding maintains_def leads_def by (auto dest: keeps_run)

lemma leads_effect:
  assumes "\<And>st r st'. I st \<Longrightarrow> act st = (r, st') \<Longrightarrow> J r st'" "\<And>t st. I st \<Longrightarrow> J (Inl StorageError) (broken t st)" "\<And>r st. J r st \<Longrightarrow> K st"
  shows "leads (always K I) (effect w act broken) (\<lambda>r. always K (J r))"
  unfolding leads_def
proof (intro allI impI)
  fix s assume s: "always K I s"
  then have "I (sr_store s)" "list_all K (sr_past s)" by (simp_all add: always_def)
  moreover obtain r st where "act (sr_store s) = (r, st)" by fastforce
  ultimately show "case effect w act broken s of (r, s') \<Rightarrow> always K (J r) s'"
    using assms by (auto simp: effect_def split: answer.split)
qed

lemma leads_unless_missing:
  assumes "leads P m (\<lambda>r s. case r of Inl c \<Rightarrow> R (if c = NoEntry then Inr False else Inl c) s | Inr _ \<Rightarrow> R (Inr True) s)"
  shows "leads P (unless_missing m) R"
  using assms unfolding leads_def unless_missing_def by (fastforce split: prod.splits sum.splits if_splits)

lemma leads_attempt: "leads P m (\<lambda>r. R (Inr (is_ok r))) \<Longrightarrow> leads P (attempt m) R"
  unfolding leads_def attempt_def by (fastforce split: prod.splits)

lemma always_weaken: "always K I s \<Longrightarrow> (\<And>st. I st \<Longrightarrow> J st) \<Longrightarrow> (\<And>st. J st \<Longrightarrow> K st) \<Longrightarrow> always K J s"
  by (simp add: always_def)

lemma always_kept: "always (kept_release old) (in_rollback old) s \<Longrightarrow> always (kept_release old) (kept_release old) s"
  "always (kept_release old) (installed old c) s \<Longrightarrow> always (kept_release old) (kept_release old) s"
  by (auto elim: always_weaken)

lemma leads_peek: "leads (always K I) (peek w f) (\<lambda>r s. always K I s \<and> (r = Inl StorageError \<or> r = f (sr_store s)))"
  unfolding leads_def peek_def effect_def by (auto simp: always_def enter_store_def split: answer.split)

text \<open>\<open>K\<close> for the following lemmas is that the previous release is kept.\<close>

lemma rename_back:
  "leads (always (kept_release old) (in_rollback old)) (rename_to w RollbackRelease ActiveRelease) (\<lambda>_. always (kept_release old) (kept_release old))"
  unfolding rename_to_def
  by (rule leads_effect) (auto simp: in_rollback_def kept_release_def put_at_def split: option.splits if_splits)

lemma restore_keeps:
  "leads (always (kept_release old) (in_rollback old)) (restorePreviousBundle w i) (\<lambda>_. always (kept_release old) (kept_release old))"
  unfolding restorePreviousBundle_def Let_def
proof (rule leads_and_then [where M = "\<lambda>_. always (kept_release old) (in_rollback old)"], goal_cases)
  case 1
  show ?case by (rule leads_weaken, rule leads_maintains, intro inv_intros) (auto split: sum.split dest: always_kept)
next
  case (2 u)
  show ?case
  proof (rule leads_and_then [where M = "\<lambda>_. always (kept_release old) (kept_release old)"], goal_cases)
    case 1
    show ?case by (rule leads_unless_missing, rule leads_weaken, rule rename_back) (auto split: sum.split)
  next
    case (2 restored)
    show ?case by (rule leads_maintains, intro inv_intros activation_maintains) simp_all
  qed
qed

lemma rename_aside:
  "leads (always (kept_release old) (installed old c)) (unless_missing (rename_to w ActiveRelease RollbackRelease))
     (\<lambda>r. case r of Inr _ \<Rightarrow> always (kept_release old) (in_rollback old) | Inl _ \<Rightarrow> always (kept_release old) (kept_release old))"
proof (rule leads_unless_missing)
  have "leads (always (kept_release old) (installed old c)) (rename_to w ActiveRelease RollbackRelease)
      (\<lambda>r. always (kept_release old) (case r of Inr _ \<Rightarrow> in_rollback old | Inl c' \<Rightarrow> (\<lambda>st. installed old c st \<and> c' \<noteq> NoEntry)))"
    unfolding rename_to_def
    by (rule leads_effect) (auto simp: installed_def in_rollback_def kept_release_def put_at_def split: option.splits if_splits sum.splits)
  then show "leads (always (kept_release old) (installed old c)) (rename_to w ActiveRelease RollbackRelease)
     (\<lambda>r s. case r of
        Inl c \<Rightarrow> (case (if c = NoEntry then Inr False else Inl c) of Inr _ \<Rightarrow> always (kept_release old) (in_rollback old)
          | Inl _ \<Rightarrow> always (kept_release old) (kept_release old)) s
      | Inr _ \<Rightarrow> (case Inr True of Inr _ \<Rightarrow> always (kept_release old) (in_rollback old) | Inl _ \<Rightarrow> always (kept_release old) (kept_release old)) s)"
    by (rule leads_weaken) (auto simp: always_def split: sum.splits)
qed

lemma repair_swap:
  "leads (always (kept_release old) (in_rollback old))
     (and_then (remove_at w ActiveRelease) (\<lambda>_. and_then (attempt (unless_missing (rename_to w RollbackRelease ActiveRelease)))
        (\<lambda>restored. all_recovered [restored])))
     (\<lambda>_. always (kept_release old) (kept_release old))"
proof (rule leads_and_then [where M = "\<lambda>_. always (kept_release old) (in_rollback old)"], goal_cases)
  case 1
  show ?case by (rule leads_weaken, rule leads_maintains, intro inv_intros) (auto split: sum.split dest: always_kept)
next
  case (2 u)
  show ?case
  proof (rule leads_and_then [where M = "\<lambda>_. always (kept_release old) (kept_release old)"], goal_cases)
    case 1
    show ?case by (rule leads_attempt, rule leads_unless_missing, rule leads_weaken, rule rename_back) (auto split: sum.split)
  next
    case (2 restored)
    show ?case by (rule leads_maintains, intro inv_intros)
  qed
qed

text \<open>Where the previous release is after a step of the installation.\<close>

definition settled :: "tree \<Rightarrow> (bundle_error, outcome) result \<Rightarrow> skill_run \<Rightarrow> bool" where
  "settled old r s = (always (kept_release old) (kept_release old) s
     \<and> (case r of Inr (StatusActive, _) \<Rightarrow> always (kept_release old) (in_rollback old) s | _ \<Rightarrow> True))"

lemma swap_release_keeps:
  "leads (always (kept_release old) (installed old c)) (swap_release w i)
     (\<lambda>r s. always (kept_release old) (kept_release old) s \<and> (is_ok r \<longrightarrow> always (kept_release old) (in_rollback old) s))"
  unfolding swap_release_def activate_new_def
proof (rule leads_and_then [where M = "\<lambda>_. always (kept_release old) (installed old c)"], goal_cases)
  case 1
  have "maintains (kept_release old) (installed old c) (remove_at w RollbackRelease)" by (intro inv_intros) simp
  then show ?case by (rule leads_weaken [OF leads_maintains]) (auto split: sum.split dest: always_kept)
next
  case (2 u)
  show ?case
  proof (rule leads_and_then [where M = "\<lambda>_. always (kept_release old) (in_rollback old)"], goal_cases)
    case 1
    show ?case by (rule leads_weaken, rule rename_aside) (auto split: sum.splits)
  next
    case (2 moved)
    show ?case
    proof (rule leads_and_then [where M = "\<lambda>_. always (kept_release old) (in_rollback old)"], goal_cases)
      case 1
      show ?case by (rule leads_weaken, rule leads_maintains, intro inv_intros) (auto split: sum.split dest: always_kept)
    next
      case (2 u)
      show ?case
        by (rule leads_repairing [where E = "always (kept_release old) (in_rollback old)"], rule leads_weaken, rule leads_maintains,
          intro inv_intros activation_maintains) (auto split: sum.split dest: always_kept intro!: leads_weaken [OF repair_swap])
    qed
  qed
qed

lemma after_check_settled: "leads (always (kept_release old) (in_rollback old)) (after_check (restorePreviousBundle w i) checks c) (settled old)"
  unfolding after_check_def Let_def
proof (rule leads_case, goal_cases)
  case 1
  show ?case
  proof (rule leads_and_then [where M = "\<lambda>st. if st = StatusActive then (\<lambda>_. False) else always (kept_release old) (kept_release old)"], goal_cases)
    case 1
    have "st \<noteq> StatusActive" if "restorePreviousBundle w i s = (Inr st, s')" for st s s'
      using that by (auto simp: restorePreviousBundle_def Let_def and_then_ok split: if_splits)
    then show ?case using restore_keeps [of old w i] unfolding leads_def
      by (fastforce simp: settled_def split: sum.splits prod.splits)
  next
    case (2 st)
    show ?case by (rule leads_lift) (auto simp: settled_def split: install_status.splits if_splits)
  qed
qed (auto intro!: leads_lift simp: settled_def dest: always_kept)

lemma step_settled:
  assumes "\<And>s. P s \<Longrightarrow> always (kept_release old) (in_rollback old) s"
  shows "leads P (and_then (ask f) (\<lambda>v. after_check (restorePreviousBundle w i) checks (g v))) (settled old)"
proof -
  have "leads (always (kept_release old) (in_rollback old)) (and_then (ask f) (\<lambda>v. after_check (restorePreviousBundle w i) checks (g v))) (settled old)"
  proof (rule leads_and_then [where M = "\<lambda>_. always (kept_release old) (in_rollback old)"], goal_cases)
    case 1
    show ?case by (rule leads_weaken, rule leads_maintains, intro inv_intros) (auto simp: settled_def split: sum.split dest: always_kept)
  next
    case (2 v)
    show ?case by (rule after_check_settled)
  qed
  then show ?thesis by (rule leads_weaken) (use assms in auto)
qed

lemma smoke_settled: "leads (always (kept_release old) (in_rollback old)) (smoke_step w x (restorePreviousBundle w i) checks) (settled old)"
proof (cases "it_smokeCommandId x")
  case None
  then show ?thesis by (auto simp: smoke_step_def intro!: leads_lift simp: settled_def dest: always_kept)
next
  case (Some command)
  have "leads (always (kept_release old) (in_rollback old)) (and_then (ask (\<lambda>n. sw_smoke w n command)) (\<lambda>r. case r of Inl c \<Rightarrow> lift_result (Inl c)
       | Inr c \<Rightarrow> after_check (restorePreviousBundle w i) checks (c\<lparr>pk_name := ''smoke:'' @ command\<rparr>))) (settled old)"
  proof (rule leads_and_then [where M = "\<lambda>_. always (kept_release old) (in_rollback old)"], goal_cases)
    case 1
    show ?case by (rule leads_weaken, rule leads_maintains, intro inv_intros) (auto simp: settled_def split: sum.split dest: always_kept)
  next
    case (2 r)
    show ?case by (cases r) (auto intro!: leads_lift after_check_settled simp: settled_def dest: always_kept)
  qed
  then show ?thesis unfolding smoke_step_def Some option.case .
qed

lemma later_settled:
  "leads (settled old (Inr r)) (window_step w x (restorePreviousBundle w i) r) (settled old)"
  "leads (settled old (Inr r)) (activation_step w x (restorePreviousBundle w i) r) (settled old)"
proof -
  show "leads (settled old (Inr r)) (window_step w x (restorePreviousBundle w i) r) (settled old)"
    unfolding window_step_def by (rule leads_case, rule leads_lift, simp, rule step_settled) (auto simp: settled_def split: prod.splits)
  show "leads (settled old (Inr r)) (activation_step w x (restorePreviousBundle w i) r) (settled old)"
    unfolding activation_step_def by (rule leads_case, rule leads_lift, simp, rule step_settled) (auto simp: settled_def split: prod.splits)
qed

lemma point_back_keeps: "maintains K (kept_release old) (point_back w i)"
  unfolding point_back_def by (intro inv_intros) simp_all

lemma keep_receipt_keeps:
  "leads (settled old (Inr r)) (keep_receipt w i (fst r) c) (\<lambda>_. always (kept_release old) (kept_release old))"
  unfolding keep_receipt_def
proof (rule leads_case, goal_cases)
  case 1
  show ?case by (rule leads_weaken, rule leads_maintains, rule point_back_keeps [of _ old]) (auto simp: settled_def)
next
  case 2
  have repair: "leads (always (kept_release old) (in_rollback old))
      (and_then (attempt (restorePreviousBundle w i)) (\<lambda>restored. and_then (attempt (point_back w i)) (\<lambda>pointed. all_recovered [restored, pointed])))
      (\<lambda>_. always (kept_release old) (kept_release old))"
  proof (rule leads_and_then [where M = "\<lambda>_. always (kept_release old) (kept_release old)"], goal_cases)
    case 1
    show ?case by (rule leads_attempt, rule leads_weaken, rule restore_keeps) auto
  next
    case (2 ok)
    show ?case by (rule leads_maintains, intro inv_intros point_back_keeps)
  qed
  show ?case
    by (rule leads_repairing [where E = "always (kept_release old) (in_rollback old)"],
        rule leads_weaken [where P = "always (kept_release old) (in_rollback old)"], rule leads_maintains, intro inv_intros)
      (use 2 in \<open>auto simp: settled_def split: sum.split prod.splits install_status.splits dest: always_kept intro!: leads_weaken [OF repair]\<close>)
qed

lemma leads_read_then:
  assumes "\<And>st. I st \<Longrightarrow> f st = Inr v" "leads (always K I) (g v) R" "\<And>s. always K I s \<Longrightarrow> R (Inl StorageError) s"
  shows "leads (always K I) (and_then (peek w f) g) R"
  unfolding leads_def
proof (intro allI impI)
  fix s assume s: "always K I s"
  then have next_state: "always K I (enter_store (sr_store s) s)" by (auto simp: always_def enter_store_def)
  from s assms(1) have "f (sr_store s) = Inr v" by (simp add: always_def)
  with next_state assms(2,3) show "case and_then (peek w f) g s of (r, s') \<Rightarrow> R r s'"
    by (auto simp: and_then_def peek_def effect_def leads_def split: answer.split)
qed

lemma leads_then:
  assumes "maintains K I m" "\<And>x. leads (always K I) (g x) R" "\<And>c s. always K I s \<Longrightarrow> R (Inl c) s"
  shows "leads (always K I) (and_then m g) R"
  using leads_maintains [OF assms(1)] assms(2,3)
  by (intro leads_and_then [where M = "\<lambda>_. always K I"]) (auto simp: leads_def split: sum.split)

text \<open>Before the swap nothing changes where the previous release is.\<close>

lemma no_pending_recovery:
  "leads (always K (installed old c)) (recoverInterruptedSkillRollbacks w names ws) (\<lambda>_. always K (installed old c))"
  unfolding recoverInterruptedSkillRollbacks_def
  by (rule leads_case, rule leads_lift, assumption, rule leads_read_then [where v = "[]"]) (auto simp: installed_def intro: leads_lift)

lemma read_current:
  assumes "manifest_id (sw_parse w) (Some old) = Inr (Some (trim c))"
  shows "leads (always K (installed old c)) (readActiveBundlePointer w) (\<lambda>_. always K (installed old c))"
proof -
  have same: "leads (always K (installed old c)) (recoverRejectedActivation w (trim c)) (\<lambda>_. always K (installed old c))"
    unfolding recoverRejectedActivation_def readBundleManifestId_def
    by (rule leads_read_then [where v = "Some (trim c)"]) (auto simp: installed_def assms intro: leads_lift)
  have manifest: "leads (always K (installed old c))
      (and_then (peek w (\<lambda>st. required (members_in (sw_parse w) (st_files st ActiveRelease) ''BUNDLE.json'') ManifestMissing)) (\<lambda>kvs.
       if map_of kvs ''bundleId'' \<noteq> Some (JStr (trim c)) then lift_result (Inl ManifestMismatch)
       else lift_result (Inr (Some (trim c))))) (\<lambda>_. always K (installed old c))"
    by (rule leads_maintains) (intro inv_intros)
  have recovered: "leads (always K (installed old c)) (and_then (recoverRejectedActivation w (trim c)) (\<lambda>_.
       and_then (peek w (\<lambda>st. required (members_in (sw_parse w) (st_files st ActiveRelease) ''BUNDLE.json'') ManifestMissing)) (\<lambda>kvs.
       if map_of kvs ''bundleId'' \<noteq> Some (JStr (trim c)) then lift_result (Inl ManifestMismatch)
       else lift_result (Inr (Some (trim c)))))) (\<lambda>_. always K (installed old c))"
    by (rule leads_and_then [where M = "\<lambda>_. always K (installed old c)"], rule leads_weaken, rule same) (auto split: sum.split intro: manifest)
  show ?thesis
    unfolding readActiveBundlePointer_def Let_def
    by (rule leads_read_then [where v = "Some c"]) (auto simp: installed_def intro: leads_lift recovered)
qed

lemma finish_keeps:
  "leads (settled old (Inr r)) (and_then (ask (\<lambda>n. (sw_uuid w n, sw_now w n))) (\<lambda>(uuid, completed).
     and_then (keep_receipt w i (fst r) (c uuid completed)) (\<lambda>_. lift_result (Inr (v uuid completed)))))
     (\<lambda>_. always (kept_release old) (kept_release old))"
proof (rule leads_and_then [where M = "\<lambda>_. settled old (Inr r)"], goal_cases)
  case 1
  show ?case by (auto simp: leads_def ask_def settled_def always_def split: prod.split install_status.split)
next
  case (2 z)
  have "leads (settled old (Inr r)) (and_then (keep_receipt w i (fst r) d) (\<lambda>_. lift_result (Inr e)))
      (\<lambda>_. always (kept_release old) (kept_release old))" for d e
    by (rule leads_and_then [where M = "\<lambda>_. always (kept_release old) (kept_release old)"], rule leads_weaken, rule keep_receipt_keeps)
      (auto split: sum.split intro: leads_lift)
  then show ?case by (cases z) simp
qed

lemma settled_then:
  assumes "leads P m (settled old)" "\<And>r. leads (settled old (Inr r)) (g r) (\<lambda>_. always (kept_release old) (kept_release old))"
  shows "leads P (and_then m g) (\<lambda>_. always (kept_release old) (kept_release old))"
  by (rule leads_and_then [where M = "\<lambda>r. settled old (Inr r)"], rule leads_weaken, rule assms(1))
    (auto simp: settled_def split: sum.split intro: assms(2))

lemma unswapped_then:
  assumes "leads (always (kept_release old) (installed old c)) m (\<lambda>_. always (kept_release old) (installed old c))"
    and "\<And>v. leads (always (kept_release old) (installed old c)) (g v) (\<lambda>_. always (kept_release old) (kept_release old))"
  shows "leads (always (kept_release old) (installed old c)) (and_then m g) (\<lambda>_. always (kept_release old) (kept_release old))"
  by (rule leads_and_then [where M = "\<lambda>_. always (kept_release old) (installed old c)"], rule leads_weaken, rule assms(1))
    (auto split: sum.split dest: always_kept intro: assms(2))

lemma swapped_then:
  assumes "\<And>v. leads (always (kept_release old) (in_rollback old)) (g v) (\<lambda>_. always (kept_release old) (kept_release old))"
  shows "leads (always (kept_release old) (installed old c)) (and_then (swap_release w i) g) (\<lambda>_. always (kept_release old) (kept_release old))"
  by (rule leads_and_then [where M = "\<lambda>_. always (kept_release old) (in_rollback old)"], rule leads_weaken, rule swap_release_keeps)
    (auto split: sum.split dest: always_kept intro: assms)

lemma previous_kept:
  assumes "manifest_id (sw_parse w) (Some old) = Inr (Some (trim c))"
  shows "leads (always (kept_release old) (installed old c)) (installSkillBundle w x) (\<lambda>_. always (kept_release old) (kept_release old))"
  unfolding installSkillBundle_def Let_def
  by (intro unswapped_then swapped_then settled_then smoke_settled later_settled finish_keeps no_pending_recovery
      read_current [OF assms] leads_maintains [of _ "installed old c"] inv_intros) simp_all

subsection \<open>Recovery\<close>

lemma working_effect: "sw_answer w = (\<lambda>_. Works) \<Longrightarrow> effect w act broken s = (case act (sr_store s) of (r, st) \<Rightarrow> (r, enter_store st s))"
  by (simp add: effect_def)

lemma working_calls:
  assumes "sw_answer w = (\<lambda>_. Works)"
  shows "peek w f s = (f (sr_store s), enter_store (sr_store s) s)"
    "remove_at w p s = (Inr (), enter_store (put_at p None (sr_store s)) s)"
    "st_files (sr_store s) p = Some t \<Longrightarrow> replaces (st_files (sr_store s) q) t
      \<Longrightarrow> rename_to w p q s = (Inr (), enter_store (put_at p None (put_at q (Some t) (sr_store s))) s)"
    "st_files (sr_store s) p = None \<Longrightarrow> rename_to w p q s = (Inl NoEntry, enter_store (sr_store s) s)"
    "exists_at w p s = (Inr (st_files (sr_store s) p \<noteq> None), enter_store (sr_store s) s)"
  by (simp_all add: working_effect [OF assms] peek_def remove_at_def rename_to_def exists_at_def)

lemma and_then_step: "m s = (Inr v, s1) \<Longrightarrow> and_then m f s = f v s1" "m s = (Inl e, s1) \<Longrightarrow> and_then m f s = (Inl e, s1)"
  by (simp_all add: and_then_def)

end
