(* ===== verification/Skill_Activation.thy ===== *)
theory Skill_Activation
  imports Skill_Runs
begin

text \<open>
  The activation of native skills when one call fails: staging, setting aside, placing, and undoing.
\<close>

subsection \<open>All or nothing\<close>

text \<open>At most one call to the file system fails.\<close>

definition single_failure :: "skill_world \<Rightarrow> bool" where
  "single_failure w = (\<exists>k. \<forall>n. n \<noteq> k \<longrightarrow> sw_answer w n = Works)"

definition quiet_from :: "skill_world \<Rightarrow> nat \<Rightarrow> bool" where
  "quiet_from w n = (\<forall>m \<ge> n. sw_answer w m = Works)"

lemma failure_then_calm: "single_failure w \<Longrightarrow> sw_answer w n = Breaks t \<Longrightarrow> quiet_from w (Suc n)"
  unfolding single_failure_def quiet_from_def by (metis answer.distinct(1) not_less_eq_eq order_refl)

lemma effect_cases:
  assumes "effect w act broken s = (r, s')"
  obtains st where "act (sr_store s) = (r, st)" "s' = enter_store st s"
    | t where "sw_answer w (sr_calls s) = Breaks t" "r = Inl StorageError" "s' = enter_store (broken t (sr_store s)) s"
  using assms by (auto simp: effect_def split: answer.splits prod.splits)

text \<open>The middle of a swap: \<open>A\<close> are the skills in their places, \<open>B\<close> those set aside.\<close>

definition swapping :: "(string \<Rightarrow> tree option) \<Rightarrow> (string \<Rightarrow> tree) \<Rightarrow> string list \<Rightarrow> skill_run \<Rightarrow> bool" where
  "swapping orig new todo s = (let A = set (sr_activated s); B = set (sr_backedUp s); files = st_files (sr_store s) in
     (\<forall>k. files (NativeSkill k) = (if k \<in> A then Some (new k) else if k \<in> B then None else orig k))
     \<and> (\<forall>k. files (SetAside k) = (if k \<in> B then orig k else None))
     \<and> (\<forall>k \<in> B. orig k \<noteq> None) \<and> (\<forall>k \<in> A. k \<in> B \<or> orig k = None)
     \<and> (\<forall>k \<in> set todo. files (Staged k) = Some (new k) \<and> k \<notin> A) \<and> distinct (sr_backedUp s))"

definition native :: "skill_run \<Rightarrow> string \<Rightarrow> tree option" where
  "native s k = st_files (sr_store s) (NativeSkill k)"

lemma swapping_enter [simp]: "st = sr_store s \<Longrightarrow> swapping orig new todo (enter_store st s) = swapping orig new todo s"
  by (simp add: swapping_def)

lemma native_enter [simp]: "st = sr_store s \<Longrightarrow> native (enter_store st s) = native s"
  by (simp add: native_def fun_eq_iff)

lemma set_aside_step:
  assumes "single_failure w" "swapping orig new todo s" "sr_activated s = []" "k \<notin> set (sr_backedUp s)" "set_aside_skill w k s = (r, s')"
  shows "swapping orig new todo s' \<and> sr_activated s' = [] \<and> set (sr_backedUp s') \<subseteq> insert k (set (sr_backedUp s)) \<and>
     (case r of Inl _ \<Rightarrow> quiet_from w (sr_calls s') | Inr _ \<Rightarrow> native s' k = None \<and> (\<forall>j. native s j = None \<longrightarrow> native s' j = None))"
proof -
  have here: "native s k = orig k" using assms(2-4) by (simp add: swapping_def native_def Let_def)
  from assms(5) obtain r1 s1 where one: "exists_at w (NativeSkill k) s = (r1, s1)"
    and rest: "(case r1 of Inl c \<Rightarrow> (Inl c, s1) | Inr there \<Rightarrow> (if \<not> there then lift_result (Inr ())
       else and_then (rename_to w (NativeSkill k) (SetAside k)) (\<lambda>_ s. (Inr (), s\<lparr>sr_backedUp := k # sr_backedUp s\<rparr>))) s1) = (r, s')"
    by (auto simp: set_aside_skill_def and_then_def split: prod.splits sum.splits)
  from one have "s1 = enter_store (sr_store s) s \<and> (r1 = Inr (native s k \<noteq> None) \<or> r1 = Inl StorageError \<and> (\<exists>t. sw_answer w (sr_calls s) = Breaks t))"
    unfolding exists_at_def peek_def by (auto elim!: effect_cases simp: native_def)
  then consider "r1 = Inl StorageError" "s1 = enter_store (sr_store s) s" "quiet_from w (sr_calls s1)"
    | "r1 = Inr (native s k \<noteq> None)" "s1 = enter_store (sr_store s) s"
    using failure_then_calm [OF assms(1)] by auto
  then show ?thesis
  proof cases
    case 1
    with rest assms show ?thesis by auto
  next
    case 2
    show ?thesis
    proof (cases "native s k")
      case None
      with 2 rest assms show ?thesis by (auto simp: lift_result_def)
    next
      case (Some t)
      then obtain r2 s2 where two: "rename_to w (NativeSkill k) (SetAside k) s1 = (r2, s2)" by fastforce
      from 2 Some rest two have result: "(r, s') = (case r2 of Inl c \<Rightarrow> (Inl c, s2) | Inr _ \<Rightarrow> (Inr (), s2\<lparr>sr_backedUp := k # sr_backedUp s2\<rparr>))"
        by (auto simp: and_then_def split: sum.splits)
      have free: "st_files (sr_store s) (SetAside k) = None" using assms(2,4) by (simp add: swapping_def Let_def)
      from two show ?thesis
        unfolding rename_to_def
      proof (cases rule: effect_cases)
        case (1 st)
        with 2 Some free have st: "r2 = Inr ()" "st = put_at (NativeSkill k) None (put_at (SetAside k) (Some t) (sr_store s))"
          by (auto simp: native_def replaces_def)
        with result 1 2 have s': "r = Inr ()" "s' = (enter_store st s1)\<lparr>sr_backedUp := k # sr_backedUp s\<rparr>" by auto
        from Some here have "orig k = Some t" by simp
        with st 2 Some s' assms(2-4) show ?thesis by (auto simp: swapping_def Let_def put_at_def native_def)
      next
        case (2 u)
        with \<open>s1 = enter_store (sr_store s) s\<close> result failure_then_calm [OF assms(1), of "sr_calls s1"] assms show ?thesis by auto
      qed
    qed
  qed
qed

lemma set_aside_all:
  assumes "single_failure w" "swapping orig new todo s" "sr_activated s = []" "distinct ids" "set ids \<inter> set (sr_backedUp s) = {}"
    and "for_each (set_aside_skill w) ids s = (r, s')"
  shows "swapping orig new todo s' \<and> sr_activated s' = [] \<and> set (sr_backedUp s') \<subseteq> set ids \<union> set (sr_backedUp s) \<and>
     (case r of Inl _ \<Rightarrow> quiet_from w (sr_calls s') | Inr _ \<Rightarrow> (\<forall>k. k \<in> set ids \<or> native s k = None \<longrightarrow> native s' k = None))"
  using assms(2-6)
proof (induction ids arbitrary: s)
  case (Cons k ids)
  obtain r1 s1 where one: "set_aside_skill w k s = (r1, s1)" by fastforce
  note step = set_aside_step [OF assms(1) Cons.prems(1,2) _ one]
  from Cons.prems(4) have new: "k \<notin> set (sr_backedUp s)" by auto
  show ?case
  proof (cases r1)
    case (Inl c)
    with one Cons.prems(5) have "r = Inl c" "s' = s1" by (simp_all add: and_then_def)
    with step [OF new] Inl show ?thesis by auto
  next
    case (Inr u)
    with one Cons.prems(5) have rest: "for_each (set_aside_skill w) ids s1 = (r, s')" by (simp add: and_then_def)
    from step [OF new] Cons.prems(3,4) have "set ids \<inter> set (sr_backedUp s1) = {}" by auto
    with Cons.IH [OF _ _ _ _ rest] step [OF new] Cons.prems(3) Inr show ?thesis by (auto split: sum.splits)
  qed
qed (auto simp: lift_result_def split: sum.split)

lemma place_step:
  assumes "single_failure w" "swapping orig new (k # todo) s" "native s k = None" "k \<notin> set todo" "place_skill w k s = (r, s')"
  shows "sr_backedUp s' = sr_backedUp s \<and> (\<forall>j. j \<noteq> k \<longrightarrow> native s' j = native s j) \<and>
     (case r of Inl _ \<Rightarrow> swapping orig new (k # todo) s' \<and> quiet_from w (sr_calls s')
      | Inr _ \<Rightarrow> swapping orig new todo s' \<and> set (sr_activated s') = insert k (set (sr_activated s)))"
proof -
  obtain r1 s1 where one: "rename_to w (Staged k) (NativeSkill k) s = (r1, s1)" by fastforce
  with assms(5) have result: "(r, s') = (case r1 of Inl c \<Rightarrow> (Inl c, s1) | Inr _ \<Rightarrow> (Inr (), s1\<lparr>sr_activated := k # sr_activated s1\<rparr>))"
    by (auto simp: place_skill_def and_then_def split: sum.splits)
  from assms(2,3) have staged: "st_files (sr_store s) (Staged k) = Some (new k)" "k \<notin> set (sr_activated s)"
      "k \<in> set (sr_backedUp s) \<or> orig k = None"
    by (auto simp: swapping_def Let_def native_def split: if_splits)
  from one show ?thesis
    unfolding rename_to_def
  proof (cases rule: effect_cases)
    case (1 st)
    with staged assms(3) have st: "r1 = Inr ()" "st = put_at (Staged k) None (put_at (NativeSkill k) (Some (new k)) (sr_store s))"
      by (auto simp: native_def replaces_def)
    with result 1 have s': "r = Inr ()" "s' = (enter_store st s)\<lparr>sr_activated := k # sr_activated s\<rparr>" by auto
    with st staged assms(2,4) show ?thesis by (auto simp: swapping_def Let_def put_at_def native_def)
  next
    case (2 t)
    with result failure_then_calm [OF assms(1) 2(1)] assms(2) show ?thesis by auto
  qed
qed

lemma place_all:
  assumes "single_failure w" "swapping orig new ids s" "\<forall>k \<in> set ids. native s k = None" "distinct ids" "for_each (place_skill w) ids s = (r, s')"
  shows "sr_backedUp s' = sr_backedUp s \<and>
     (case r of Inl _ \<Rightarrow> swapping orig new [] s' \<and> quiet_from w (sr_calls s')
      | Inr _ \<Rightarrow> swapping orig new [] s' \<and> set (sr_activated s') = set ids \<union> set (sr_activated s))"
  using assms(2-5)
proof (induction ids arbitrary: s)
  case (Cons k ids)
  obtain r1 s1 where one: "place_skill w k s = (r1, s1)" by fastforce
  from Cons.prems have step: "sr_backedUp s1 = sr_backedUp s \<and> (\<forall>j. j \<noteq> k \<longrightarrow> native s1 j = native s j) \<and>
     (case r1 of Inl _ \<Rightarrow> swapping orig new (k # ids) s1 \<and> quiet_from w (sr_calls s1)
      | Inr _ \<Rightarrow> swapping orig new ids s1 \<and> set (sr_activated s1) = insert k (set (sr_activated s)))"
    by (intro place_step [OF assms(1) _ _ _ one]) auto
  show ?case
  proof (cases r1)
    case (Inl c)
    with one Cons.prems(4) have "r = Inl c" "s' = s1" by (simp_all add: and_then_def)
    moreover from Inl step have "swapping orig new [] s1" by (auto simp: swapping_def Let_def)
    ultimately show ?thesis using step Inl by auto
  next
    case (Inr u)
    with one Cons.prems(4) have rest: "for_each (place_skill w) ids s1 = (r, s')" by (simp add: and_then_def)
    have empty: "\<forall>j \<in> set ids. native s1 j = None" using step Cons.prems(2,3) by auto
    from Cons.IH [OF _ empty _ rest] step Cons.prems(3) Inr show ?thesis by (auto split: sum.splits)
  qed
qed (auto simp: lift_result_def split: sum.split)

text \<open>Without another failure the swap is undone.\<close>

lemma quiet_from_call: "quiet_from w (sr_calls s) \<Longrightarrow> effect w act broken s = (case act (sr_store s) of (r, st) \<Rightarrow> (r, enter_store st s))"
  by (simp add: effect_def quiet_from_def)

lemma quiet_from_later: "quiet_from w n \<Longrightarrow> quiet_from w (Suc n)"
  by (simp add: quiet_from_def)

lemma remove_all:
  assumes "quiet_from w (sr_calls s)"
  shows "\<exists>s'. for_each (\<lambda>k. remove_at w (NativeSkill k)) ids s = (Inr (), s') \<and> quiet_from w (sr_calls s')
     \<and> (\<forall>k. native s' k = (if k \<in> set ids then None else native s k)) \<and> (\<forall>k. st_files (sr_store s') (SetAside k) = st_files (sr_store s) (SetAside k))"
  using assms
proof (induction ids arbitrary: s)
  case (Cons k ids)
  then have "remove_at w (NativeSkill k) s = (Inr (), enter_store (put_at (NativeSkill k) None (sr_store s)) s)"
    by (simp add: remove_at_def quiet_from_call)
  moreover from Cons.IH [of "enter_store (put_at (NativeSkill k) None (sr_store s)) s"] Cons.prems obtain s' where
    "for_each (\<lambda>k. remove_at w (NativeSkill k)) ids (enter_store (put_at (NativeSkill k) None (sr_store s)) s) = (Inr (), s')"
    "quiet_from w (sr_calls s')" "\<forall>j. native s' j = (if j \<in> set (k # ids) then None else native s j)"
    "\<forall>j. st_files (sr_store s') (SetAside j) = st_files (sr_store s) (SetAside j)"
    by (auto simp: quiet_from_later put_at_def native_def)
  ultimately show ?case by (auto simp: and_then_def)
qed (simp add: lift_result_def)

lemma return_all:
  assumes "quiet_from w (sr_calls s)" "distinct ids" "\<forall>k \<in> set ids. native s k = None \<and> st_files (sr_store s) (SetAside k) \<noteq> None"
  shows "\<exists>s'. for_each (\<lambda>k. rename_to w (SetAside k) (NativeSkill k)) ids s = (Inr (), s') \<and> quiet_from w (sr_calls s')
     \<and> (\<forall>k. native s' k = (if k \<in> set ids then st_files (sr_store s) (SetAside k) else native s k))"
  using assms
proof (induction ids arbitrary: s)
  case (Cons k ids)
  from Cons.prems(3) obtain t where t: "st_files (sr_store s) (SetAside k) = Some t" "native s k = None" by auto
  let ?st = "put_at (SetAside k) None (put_at (NativeSkill k) (Some t) (sr_store s))"
  from t Cons.prems(1) have one: "rename_to w (SetAside k) (NativeSkill k) s = (Inr (), enter_store ?st s)"
    by (simp add: rename_to_def quiet_from_call replaces_def native_def)
  have files: "st_files (sr_store (enter_store ?st s)) (SetAside j) = (if j = k then None else st_files (sr_store s) (SetAside j))"
      "native (enter_store ?st s) j = (if j = k then Some t else native s j)" for j
    by (simp_all add: put_at_def native_def)
  have "quiet_from w (sr_calls (enter_store ?st s))" using Cons.prems(1) by (simp add: quiet_from_later)
  moreover have "\<forall>j \<in> set ids. native (enter_store ?st s) j = None \<and> st_files (sr_store (enter_store ?st s)) (SetAside j) \<noteq> None"
    using Cons.prems(2,3) files by auto
  ultimately obtain s' where "for_each (\<lambda>k. rename_to w (SetAside k) (NativeSkill k)) ids (enter_store ?st s) = (Inr (), s')" "quiet_from w (sr_calls s')"
      "\<forall>j. native s' j = (if j \<in> set ids then st_files (sr_store (enter_store ?st s)) (SetAside j) else native (enter_store ?st s) j)"
    using Cons.IH [of "enter_store ?st s"] Cons.prems(2) by auto
  with one files t Cons.prems(2) show ?case by (auto simp: and_then_def)
qed (simp add: lift_result_def)

lemma swap_undone:
  assumes "quiet_from w (sr_calls s)" "swapping orig new todo s" "swap_back w s = (r, s')"
  shows "r = Inr () \<and> native s' = orig \<and> quiet_from w (sr_calls s')"
proof -
  obtain s1 where one: "for_each (\<lambda>k. remove_at w (NativeSkill k)) (sr_activated s) s = (Inr (), s1)" "quiet_from w (sr_calls s1)"
      "\<forall>k. native s1 k = (if k \<in> set (sr_activated s) then None else native s k)"
      "\<forall>k. st_files (sr_store s1) (SetAside k) = st_files (sr_store s) (SetAside k)"
    using remove_all [OF assms(1)] by blast
  have here: "native s k = (if k \<in> set (sr_activated s) then Some (new k) else if k \<in> set (sr_backedUp s) then None else orig k)"
      "st_files (sr_store s) (SetAside k) = (if k \<in> set (sr_backedUp s) then orig k else None)"
      "k \<in> set (sr_backedUp s) \<Longrightarrow> orig k \<noteq> None" "k \<in> set (sr_activated s) \<Longrightarrow> k \<in> set (sr_backedUp s) \<or> orig k = None" for k
    using assms(2) by (auto simp: swapping_def Let_def native_def)
  have "\<forall>k \<in> set (sr_backedUp s). native s1 k = None \<and> st_files (sr_store s1) (SetAside k) \<noteq> None"
    using one here by auto
  moreover have "distinct (sr_backedUp s)" using assms(2) by (simp add: swapping_def Let_def)
  ultimately obtain s2 where two: "for_each (\<lambda>k. rename_to w (SetAside k) (NativeSkill k)) (sr_backedUp s) s1 = (Inr (), s2)" "quiet_from w (sr_calls s2)"
      "\<forall>k. native s2 k = (if k \<in> set (sr_backedUp s) then st_files (sr_store s1) (SetAside k) else native s1 k)"
    using return_all [OF one(2)] by blast
  from one two assms(3) have "r = Inr ()" "s' = s2" by (auto simp: swap_back_def and_then_def)
  moreover have "native s2 k = orig k" for k using two(3) one(3,4) here [of k] by (auto split: if_splits)
  ultimately show ?thesis using two(2) by auto
qed

text \<open>Staging changes nothing but what is staged.\<close>

definition but_staged :: "skill_store \<Rightarrow> skill_store \<Rightarrow> bool" where
  "but_staged st st' = (\<forall>p. (\<forall>k. p \<noteq> Staged k) \<longrightarrow> st_files st' p = st_files st p)"

definition staged_tree :: "activation \<Rightarrow> skill_store \<Rightarrow> string \<Rightarrow> tree option" where
  "staged_tree a st k = (case in_release (av_release a) k st of
     Some (Dir es) \<Rightarrow> Some (Dir (AList.update MARKER (File (marker_text a k)) es)) | _ \<Rightarrow> None)"

lemma but_staged_release: "but_staged st st' \<Longrightarrow> in_release b k st' = in_release b k st"
  by (simp add: but_staged_def in_release_def)

lemma but_staged_put: "but_staged st st' \<Longrightarrow> but_staged st (put_at (Staged k) t st')"
  by (simp add: but_staged_def put_at_def)

lemma stage_step:
  assumes "but_staged st (sr_store s)" "st_files (sr_store s) (Staged k) = None" "stage_skill w a k s = (r, s')"
  shows "but_staged st (sr_store s') \<and> sr_activated s' = sr_activated s \<and> sr_backedUp s' = sr_backedUp s
     \<and> (\<forall>j. j \<noteq> k \<longrightarrow> st_files (sr_store s') (Staged j) = st_files (sr_store s) (Staged j))
     \<and> (is_ok r \<longrightarrow> staged_tree a st k \<noteq> None \<and> st_files (sr_store s') (Staged k) = staged_tree a st k)"
proof -
  obtain r1 s1 where one: "copy_to w (in_release (av_release a) k) (Staged k) s = (r1, s1)" by fastforce
  have copied: "but_staged st (sr_store s1) \<and> sr_activated s1 = sr_activated s \<and> sr_backedUp s1 = sr_backedUp s
     \<and> (\<forall>j. j \<noteq> k \<longrightarrow> st_files (sr_store s1) (Staged j) = st_files (sr_store s) (Staged j))
     \<and> (is_ok r1 \<longrightarrow> in_release (av_release a) k st \<noteq> None \<and> st_files (sr_store s1) (Staged k) = in_release (av_release a) k st)"
    using one unfolding copy_to_def
  proof (cases rule: effect_cases)
    case (1 st1)
    with assms(1,2) show ?thesis
      by (auto simp: but_staged_release [OF assms(1)] but_staged_put put_at_def [of "Staged k"] but_staged_def split: option.splits)
  next
    case (2 t)
    with assms(1,2) show ?thesis by (auto simp: but_staged_put) (simp_all add: put_at_def)
  qed
  show ?thesis
  proof (cases r1)
    case (Inl c)
    with one assms(3) have "r = Inl c" "s' = s1" by (simp_all add: stage_skill_def and_then_def)
    with copied show ?thesis by simp
  next
    case (Inr u)
    with one assms(3) have two: "write_in w (Staged k) MARKER (marker_text a k) s1 = (r, s')" by (simp add: stage_skill_def and_then_def)
    then show ?thesis
      unfolding write_in_def
    proof (cases rule: effect_cases)
      case (1 st2)
      with copied Inr show ?thesis
        by (auto simp: staged_tree_def but_staged_put split: option.splits tree.splits) (auto simp: put_at_def)
    next
      case (2 t)
      with copied show ?thesis
        by (auto simp: but_staged_put split: option.splits tree.splits) (auto simp: put_at_def)
    qed
  qed
qed

lemma stage_all:
  assumes "but_staged st (sr_store s)" "distinct ids" "\<forall>k \<in> set ids. st_files (sr_store s) (Staged k) = None" "for_each (stage_skill w a) ids s = (r, s')"
  shows "but_staged st (sr_store s') \<and> sr_activated s' = sr_activated s \<and> sr_backedUp s' = sr_backedUp s
     \<and> (\<forall>j. j \<notin> set ids \<longrightarrow> st_files (sr_store s') (Staged j) = st_files (sr_store s) (Staged j))
     \<and> (is_ok r \<longrightarrow> (\<forall>k \<in> set ids. staged_tree a st k \<noteq> None \<and> st_files (sr_store s') (Staged k) = staged_tree a st k))"
  using assms
proof (induction ids arbitrary: s)
  case (Cons k ids)
  obtain r1 s1 where one: "stage_skill w a k s = (r1, s1)" by fastforce
  note step = stage_step [OF Cons.prems(1) _ one]
  from Cons.prems(3) have free: "st_files (sr_store s) (Staged k) = None" by simp
  show ?case
  proof (cases r1)
    case (Inl c)
    with one Cons.prems(4) have "r = Inl c" "s' = s1" by (simp_all add: and_then_def)
    with step [OF free] show ?thesis by simp
  next
    case (Inr u)
    with one Cons.prems(4) have rest: "for_each (stage_skill w a) ids s1 = (r, s')" by (simp add: and_then_def)
    from step [OF free] Cons.prems(2,3) have "\<forall>j \<in> set ids. st_files (sr_store s1) (Staged j) = None" by auto
    with Cons.IH [OF _ _ _ rest] step [OF free] Cons.prems(2) Inr show ?thesis by auto
  qed
qed (simp add: lift_result_def)

text \<open>What an activation makes of the native skills.\<close>

definition shared_skills :: "(string \<Rightarrow> json option) \<Rightarrow> activation \<Rightarrow> skill_store \<Rightarrow> string list" where
  "shared_skills parse a st = filter (\<lambda>k. check_native parse a k (st_files st (NativeSkill k)) = Inr True) (affected a)"

definition activated_skills :: "(string \<Rightarrow> json option) \<Rightarrow> activation \<Rightarrow> skill_store \<Rightarrow> string \<Rightarrow> tree option" where
  "activated_skills parse a st k =
     (if k \<in> set (shared_skills parse a st) \<or> k \<notin> set (affected a) then st_files st (NativeSkill k)
      else if k \<in> set (av_skillIds a) then staged_tree a st k else None)"

lemma check_natives_value:
  "check_natives w a ids s = (Inr shared, s') \<Longrightarrow>
     shared = filter (\<lambda>k. check_native (sw_parse w) a k (st_files (sr_store s) (NativeSkill k)) = Inr True) ids"
proof (induction ids arbitrary: s shared)
  case (Cons k ids)
  from Cons.prems obtain b s1 others where step: "peek w (\<lambda>st. check_native (sw_parse w) a k (st_files st (NativeSkill k))) s = (Inr b, s1)"
      "check_natives w a ids s1 = (Inr others, s')" "shared = (if b then k # others else others)"
    by (auto simp: and_then_ok)
  with peek_ok [OF step(1)] Cons.IH [OF step(2)] show ?case by (cases b) auto
qed simp

text \<open>The swap ends in the new skills, or in a state that the repair turns back.\<close>

lemma swap_result:
  assumes "single_failure w" "distinct (av_skillIds a)" "sr_activated s = []" "sr_backedUp s = []"
    and "\<And>k. st_files (sr_store s) (Staged k) = None" "\<And>k. st_files (sr_store s) (SetAside k) = None"
    and "swap_skills w a shared s = (r, s')" "shared = shared_skills (sw_parse w) a (sr_store s)"
  shows "case r of Inr _ \<Rightarrow> native s' = activated_skills (sw_parse w) a (sr_store s)
    | Inl _ \<Rightarrow> native s' = native s \<and> sr_activated s' = [] \<and> sr_backedUp s' = []
        \<or> quiet_from w (sr_calls s') \<and> (\<exists>new todo. swapping (native s) new todo s')"
proof -
  let ?own = "filter (\<lambda>k. k \<notin> set shared)" and ?new = "\<lambda>k. the (staged_tree a (sr_store s) k)"
  obtain r1 s1 where one: "for_each (stage_skill w a) (?own (av_skillIds a)) s = (r1, s1)" by fastforce
  have stage: "but_staged (sr_store s) (sr_store s1) \<and> sr_activated s1 = [] \<and> sr_backedUp s1 = []
     \<and> (is_ok r1 \<longrightarrow> (\<forall>k \<in> set (?own (av_skillIds a)). staged_tree a (sr_store s) k \<noteq> None
          \<and> st_files (sr_store s1) (Staged k) = staged_tree a (sr_store s) k))"
    using stage_all [OF _ _ _ one, of "sr_store s"] assms(2-5) by (auto simp: but_staged_def)
  then have native1: "native s1 = native s" by (simp add: but_staged_def native_def fun_eq_iff)
  show ?thesis
  proof (cases r1)
    case (Inl c)
    with one assms(7) have "r = Inl c" "s' = s1" by (simp_all add: swap_skills_def Let_def and_then_def)
    with stage native1 show ?thesis by simp
  next
    case (Inr u)
    obtain r2 s2 where two: "for_each (set_aside_skill w) (?own (affected a)) s1 = (r2, s2)" by fastforce
    from stage Inr assms(6) have "swapping (native s) ?new (?own (av_skillIds a)) s1"
      by (auto simp: swapping_def Let_def but_staged_def native_def)
    from set_aside_all [OF assms(1) this _ _ _ two] stage
    have aside: "swapping (native s) ?new (?own (av_skillIds a)) s2 \<and> sr_activated s2 = [] \<and> set (sr_backedUp s2) \<subseteq> set (?own (affected a))
       \<and> (case r2 of Inl _ \<Rightarrow> quiet_from w (sr_calls s2) | Inr _ \<Rightarrow> (\<forall>k. k \<in> set (?own (affected a)) \<or> native s1 k = None \<longrightarrow> native s2 k = None))"
      by (simp add: affected_def unique_list_set)
    show ?thesis
    proof (cases r2)
      case (Inl c)
      with one two \<open>r1 = Inr u\<close> assms(7) have "r = Inl c" "s' = s2" by (simp_all add: swap_skills_def Let_def and_then_def)
      with aside Inl show ?thesis by auto
    next
      case (Inr v)
      with one two \<open>r1 = Inr u\<close> assms(7) have three: "for_each (place_skill w) (?own (av_skillIds a)) s2 = (r, s')"
        by (simp add: swap_skills_def Let_def and_then_def)
      have "\<forall>k \<in> set (?own (av_skillIds a)). native s2 k = None" using aside Inr by (auto simp: affected_all)
      from place_all [OF assms(1) _ this _ three, of "native s" ?new] aside assms(2)
      have placed: "sr_backedUp s' = sr_backedUp s2 \<and> (case r of Inl _ \<Rightarrow> swapping (native s) ?new [] s' \<and> quiet_from w (sr_calls s')
          | Inr _ \<Rightarrow> swapping (native s) ?new [] s' \<and> set (sr_activated s') = set (?own (av_skillIds a)))" by (cases r) simp_all
      show ?thesis
      proof (cases r)
        case (Inr z)
        have "native s' k = activated_skills (sw_parse w) a (sr_store s) k" for k
        proof -
          from placed Inr have here: "native s' k = (if k \<in> set (?own (av_skillIds a)) then Some (?new k)
              else if k \<in> set (sr_backedUp s2) then None else native s k)"
            by (simp add: swapping_def Let_def native_def)
          from aside \<open>r2 = Inr v\<close> have "k \<in> set (?own (affected a)) \<Longrightarrow> k \<in> set (sr_backedUp s2) \<or> native s k = None"
            by (auto simp: swapping_def Let_def native_def split: if_splits)
          with here aside stage \<open>r1 = Inr u\<close> show ?thesis
            by (auto simp: activated_skills_def assms(8) [symmetric] affected_all native_def split: if_splits)
        qed
        with Inr show ?thesis by (simp add: fun_eq_iff)
      qed (use placed in auto)
    qed
  qed
qed

lemma no_transaction_same [simp]:
  "st_files (no_transaction st) (NativeSkill k) = st_files st (NativeSkill k)" "in_release b k (no_transaction st) = in_release b k st"
  by (simp_all add: no_transaction_def in_release_def)

lemma activated_no_transaction [simp]: "activated_skills parse a (no_transaction st) = activated_skills parse a st"
  by (simp add: activated_skills_def shared_skills_def staged_tree_def fun_eq_iff)

lemma touch_cases: "touch w s = (r, s') \<Longrightarrow> sr_store s' = sr_store s \<and> sr_activated s' = sr_activated s \<and> sr_backedUp s' = sr_backedUp s"
  unfolding touch_def peek_def by (erule effect_cases) auto

text \<open>The part of an activation that is followed by repair and cleanup.\<close>

lemma repaired_swap:
  assumes "single_failure w" "distinct (av_skillIds a)" "sr_activated s = []" "sr_backedUp s = []" "sr_store s = no_transaction st"
    and "finally_do (repairing (swap_skills w a (shared_skills (sw_parse w) a st)) (swap_back w)) (effect w (\<lambda>st. (Inr (), no_transaction st)) (\<lambda>_ st. st)) s = (r, s')"
  shows "r \<noteq> Inr () \<and> native s' = native s \<or> native s' = activated_skills (sw_parse w) a st"
proof -
  obtain r1 s1 where one: "swap_skills w a (shared_skills (sw_parse w) a st) s = (r1, s1)" by fastforce
  have fresh: "st_files (sr_store s) (Staged k) = None" "st_files (sr_store s) (SetAside k) = None" for k
    using assms(5) by (simp_all add: no_transaction_def)
  have same: "shared_skills (sw_parse w) a st = shared_skills (sw_parse w) a (sr_store s)"
    using assms(5) by (simp add: shared_skills_def)
  have result: "case r1 of Inr _ \<Rightarrow> native s1 = activated_skills (sw_parse w) a st
    | Inl _ \<Rightarrow> native s1 = native s \<and> sr_activated s1 = [] \<and> sr_backedUp s1 = []
        \<or> quiet_from w (sr_calls s1) \<and> (\<exists>new todo. swapping (native s) new todo s1)"
    using swap_result [OF assms(1-4) fresh one same] assms(5) by (cases r1) simp_all
  have cleanup: "native s4 = native s3" if "effect w (\<lambda>st. (Inr (), no_transaction st)) (\<lambda>_ st. st) s3 = (r3, s4)" for s3 r3 s4
    using that by (rule effect_cases) (auto simp: native_def fun_eq_iff)
  have undone: "native s2 = native s" if "r1 = Inl c" "swap_back w s1 = (r2, s2)" for c r2 s2
    using result that swap_undone [of w s1 "native s" _ _ r2 s2] by (auto simp: swap_back_def and_then_def lift_result_def)
  show ?thesis
  proof (cases r1)
    case (Inl c)
    obtain r2 s2 where two: "swap_back w s1 = (r2, s2)" by fastforce
    then obtain c' where rep: "repairing (swap_skills w a (shared_skills (sw_parse w) a st)) (swap_back w) s = (Inl c', s2)"
      using one Inl by (cases r2) (auto simp: repairing_def)
    obtain r3 s3 where three: "effect w (\<lambda>st. (Inr (), no_transaction st)) (\<lambda>_ st. st) s2 = (r3, s3)" by fastforce
    from assms(6) rep three have "r \<noteq> Inr ()" "s' = s3" by (auto simp: finally_do_def split: sum.splits)
    with cleanup [OF three] undone [OF Inl two] show ?thesis by simp
  next
    case (Inr u)
    then have rep: "repairing (swap_skills w a (shared_skills (sw_parse w) a st)) (swap_back w) s = (r1, s1)"
      using one by (simp add: repairing_def)
    obtain r3 s3 where three: "effect w (\<lambda>st. (Inr (), no_transaction st)) (\<lambda>_ st. st) s1 = (r3, s3)" by fastforce
    from assms(6) rep three have "s' = s3" by (auto simp: finally_do_def split: sum.splits)
    with cleanup [OF three] result Inr show ?thesis by simp
  qed
qed

lemma check_natives_native: "check_natives w a ids s = (r, s') \<Longrightarrow> sr_store s' = sr_store s"
proof (induction ids arbitrary: s r)
  case (Cons k ids)
  obtain r1 s1 where one: "peek w (\<lambda>st. check_native (sw_parse w) a k (st_files st (NativeSkill k))) s = (r1, s1)" by fastforce
  then have "sr_store s1 = sr_store s" unfolding peek_def by (rule effect_cases) auto
  with one Cons show ?case by (cases r1) (auto simp: and_then_def lift_result_def split: prod.splits sum.splits)
qed (simp add: lift_result_def)

end
