(* ===== verification/Skill_Safety.thy ===== *)
theory Skill_Safety
  imports Skill_Activation
begin

text \<open>
  The properties of skill installation: skills of others, the previous release, recovery after a crash,
  activation, and what an authorization rests on, with an instance on which each was run.
\<close>

subsection \<open>Installation\<close>

text \<open>
  C35. The skills of others stay.  Whatever operations run for whatever workspaces, however calls to
  the file system fail, and wherever the process dies: an entry of the provider's skill directory that
  is not managed by the fabric, or that belongs to another workspace than all of these, is there
  unchanged, in the end and after every single call.
\<close>

theorem foreign_skills_kept:
  assumes "list_all (\<lambda>op. foreign_skill (sw_parse w) (operation_workspace op) k t) ops" "st_files st (NativeSkill k) = Some t"
    and "s = fold (perform_operation w) ops (begin_run st)"
  shows "list_all (\<lambda>st. st_files st (NativeSkill k) = Some t) (sr_store s # sr_past s)"
proof -
  have "always (has_skill k t) (has_skill k t) (fold (perform_operation w) ops r)"
    if "always (has_skill k t) (has_skill k t) r" "list_all (\<lambda>op. foreign_skill (sw_parse w) (operation_workspace op) k t) ops" for ops r
    using that by (induction ops arbitrary: r) (simp_all add: others_kept_operation)
  from this [of "begin_run st" ops] assms have "always (has_skill k t) (has_skill k t) s" by (simp add: has_skill_def)
  then have "has_skill k t (sr_store s)" "list_all (has_skill k t) (sr_past s)" by (simp_all add: always_def)
  then show ?thesis by (simp add: has_skill_def [abs_def])
qed



text \<open>
  C37. Activation is all or nothing.  Whichever single call to the file system fails, even while
  skills are moved or while the moves are undone: an activation that throws leaves every native skill
  as it was, or has put the new skills in place and failed to clean up; one that returns has put them
  in place, shared skills and all others untouched.
\<close>

theorem activation_all_or_nothing:
  assumes "single_failure w" "distinct (av_skillIds a)" "activateNativeSkills w a (begin_run st) = (r, s)"
  shows "(\<lambda>k. st_files (sr_store s) (NativeSkill k)) = activated_skills (sw_parse w) a st
    \<or> r \<noteq> Inr () \<and> (\<lambda>k. st_files (sr_store s) (NativeSkill k)) = (\<lambda>k. st_files st (NativeSkill k))"
proof -
  have native: "(\<lambda>k. st_files (sr_store s) (NativeSkill k)) = native s" for s by (simp add: native_def fun_eq_iff)
  obtain r1 s1 where one: "touch w (begin_run st) = (r1, s1)" by fastforce
  obtain r2 s2 where two: "check_natives w a (affected a) s1 = (r2, s2)" by fastforce
  have stores: "sr_store s1 = st" "sr_store s2 = st"
    using touch_cases [OF one] check_natives_native [OF two] by (simp_all add: begin_run_def)
  let ?s3 = "snd (begin_activation s2)"
  obtain r4 s4 where four: "touch w ?s3 = (r4, s4)" by fastforce
  obtain r5 s5 where five: "touch w s4 = (r5, s5)" by fastforce
  have later: "sr_store s4 = no_transaction st" "sr_store s5 = no_transaction st" "sr_activated s5 = []" "sr_backedUp s5 = []"
    using touch_cases [OF four] touch_cases [OF five] stores by (simp_all add: begin_activation_def)
  have unchanged: "native s1 = native (begin_run st)" "native s2 = native (begin_run st)" "native s4 = native (begin_run st)" "native s5 = native (begin_run st)"
    using stores later by (simp_all add: native_def fun_eq_iff begin_run_def)
  have run: "activateNativeSkills w a (begin_run st) = (case r1 of Inl c \<Rightarrow> (Inl c, s1) | Inr _ \<Rightarrow>
     case r2 of Inl c \<Rightarrow> (Inl c, s2) | Inr shared \<Rightarrow> case r4 of Inl c \<Rightarrow> (Inl c, s4) | Inr _ \<Rightarrow> case r5 of Inl c \<Rightarrow> (Inl c, s5) | Inr _ \<Rightarrow>
     finally_do (repairing (swap_skills w a shared) (swap_back w)) (effect w (\<lambda>st. (Inr (), no_transaction st)) (\<lambda>_ st. st)) s5)"
    using one two four five
    by (auto simp: activateNativeSkills_def and_then_def begin_activation_def split: sum.splits)
  have shared: "r2 = Inr v \<Longrightarrow> v = shared_skills (sw_parse w) a st" for v
    using check_natives_value two stores(1) unfolding shared_skills_def by blast
  have "r \<noteq> Inr () \<and> native s = native (begin_run st) \<or> native s = activated_skills (sw_parse w) a st"
  proof (cases "is_ok r1 \<and> is_ok r2 \<and> is_ok r4 \<and> is_ok r5")
    case True
    with run shared assms(3) have "finally_do (repairing (swap_skills w a (shared_skills (sw_parse w) a st)) (swap_back w))
        (effect w (\<lambda>st. (Inr (), no_transaction st)) (\<lambda>_ st. st)) s5 = (r, s)"
      by (auto simp: is_ok_iff)
    from repaired_swap [OF assms(1,2) later(3,4,2) this] unchanged show ?thesis by simp
  next
    case False
    with run assms(3) unchanged show ?thesis by (auto simp: is_ok_def split: sum.splits)
  qed
  then show ?thesis by (auto simp: native native_def begin_run_def fun_eq_iff)
qed

subsection \<open>The authorization of a task\<close>

lemma recover_pointer: "maintains K (\<lambda>st. pointer_text st = v) (recoverRejectedActivation w b)"
proof -
  have "blind (\<lambda>st. pointer_text st = v) p" if "p \<noteq> ActiveBundle" for p
    using that by (simp add: blind_def pointer_text_def put_at_def)
  then show ?thesis unfolding recoverRejectedActivation_def by (intro inv_intros) simp_all
qed

lemma read_pointer_ok:
  assumes "readActiveBundlePointer w s = (Inr (Some b), s')"
  shows "\<exists>c. pointer_text (sr_store s') = Inr (Some c) \<and> trim c = b \<and> b \<noteq> []"
proof -
  from assms obtain c s1 s2 where c: "pointer_text (sr_store s) = Inr (Some c)" "sr_store s1 = sr_store s" "trim c \<noteq> []"
      "recoverRejectedActivation w (trim c) s1 = (Inr (), s2)" "b = trim c" "sr_store s' = sr_store s2"
    by (auto simp: readActiveBundlePointer_def and_then_ok Let_def split: option.splits if_splits dest!: peek_ok)
  have "always (\<lambda>_. True) (\<lambda>st. pointer_text st = Inr (Some c)) s1" using c by (simp add: always_def list_all_iff)
  from keeps_run [OF recover_pointer [unfolded maintains_def] this c(4)] c show ?thesis by (simp add: always_def)
qed

lemma map_sum_some: "map_sum id Some r = Inr (Some v) \<longleftrightarrow> r = Inr v"
  by (cases r) auto

text \<open>
  C39. An authorization is backed.  Tasks run under a bundle only if the pointer names it and the
  active release holds a bundle of that name that the server signed over its own hash, for this agent,
  device, workspace and provider, not expired, and a receipt that this device signed when it was
  activated, for the same bundle and endpoint, whose hash is the protected one.
\<close>

theorem authorization_backed:
  assumes "getActiveSkillBundleAuthorization w h keys names ep expected now s = (Inr (Some a), s')"
  shows "\<exists>bundle rcpt. file_text (st_files (sr_store s') ActiveBundle) \<in> {Inr (Some c) | c. trim c = aa_bundleId a}
    \<and> members_in (sw_parse w) (st_files (sr_store s') ActiveRelease) ''AUTHORIZATION.json'' = Inr (Some bundle)
    \<and> members_in (sw_parse w) (st_files (sr_store s') ActiveRelease) ''INSTALL_RECEIPT.json'' = Inr (Some rcpt)
    \<and> backed h keys ep expected (aa_bundleId a) bundle rcpt now now \<and> aa_bundleHash a = map_of bundle ''bundleHash''"
proof -
  from assms obtain b s1 s2 s3 bd rcpt where run: "readActiveBundlePointer w s1 = (Inr (Some b), s2)"
      "read_active w ''AUTHORIZATION.json'' s2 = (Inr bd, s3)" "read_active w ''INSTALL_RECEIPT.json'' s3 = (Inr rcpt, s')"
      "check_authorization h keys ep expected b bd rcpt now now = Inr a"
    by (auto simp: getActiveSkillBundleAuthorization_def and_then_ok map_sum_some split: option.splits)
  from run(2,3) have "members_in (sw_parse w) (st_files (sr_store s') ActiveRelease) ''AUTHORIZATION.json'' = Inr (Some bd)"
      "members_in (sw_parse w) (st_files (sr_store s') ActiveRelease) ''INSTALL_RECEIPT.json'' = Inr (Some rcpt)" "sr_store s' = sr_store s2"
    by (auto simp: read_active_def required_def dest!: peek_ok split: sum.splits option.splits)
  with read_pointer_ok [OF run(1)] check_authorization_backed [OF run(4)] check_authorization_ok(6) [OF run(4)] show ?thesis
    by (auto simp: pointer_text_def authorization_of_def)
qed

text \<open>An installation that is interrupted while it writes the pointer can leave none: the bundle is then not known any more.\<close>

lemma torn_pointer_reads_as_none:
  assumes "pointer_text st = Inr (Some c)" "trim c = []" "sw_answer w = (\<lambda>_. Works)"
  shows "fst (readActiveBundlePointer w (begin_run st)) = Inr None"
  using assms by (simp add: readActiveBundlePointer_def and_then_def working_calls [OF assms(3)] begin_run_def lift_result_def Let_def)

text \<open>A smoke command that cannot be started leaves the new skills and the new release where they are.\<close>

lemma smoke_throw_leaves_release:
  assumes "it_smokeCommandId x = Some command" "sw_smoke w (sr_calls s) command = Inl c"
  shows "\<exists>s'. smoke_step w x restore checks s = (Inl c, s') \<and> sr_store s' = sr_store s"
  using assms by (simp add: smoke_step_def and_then_def ask_def lift_result_def)

text \<open>When the undoing of an activation fails, the cleanup deletes the skills that were set aside.\<close>

lemma failed_restore_discards:
  assumes "repairing m (swap_back w) s = (Inl c, s1)" "sw_answer w (sr_calls s1) = Works"
  shows "\<exists>s'. finally_do (repairing m (swap_back w)) (effect w (\<lambda>st. (Inr (), no_transaction st)) (\<lambda>_ st. st)) s = (Inl c, s')
    \<and> native s' = native s1 \<and> st_files (sr_store s') (SetAside k) = None"
  using assms by (simp add: finally_do_def effect_def native_def fun_eq_iff no_transaction_def)

subsection \<open>Instances\<close>

definition demo_skill_endpoint :: skill_endpoint where
  "demo_skill_endpoint = \<lparr>sk_organizationId = ''o'', sk_organizationAgentId = ''g'', sk_deviceId = ''d'', sk_workspaceId = ''w'', sk_provider = Codex\<rparr>"

definition sealed :: "string \<Rightarrow> string \<Rightarrow> members \<Rightarrow> members" where
  "sealed key name kvs = (let hashed = kvs @ [(name, JStr (objectDigest demo_host (JObj kvs)))] in
     hashed @ [(''signature'', JStr (key @ canonicalize (collation demo_host) (JObj hashed)))])"

definition demo_bundle :: members where
  "demo_bundle = sealed ''server'' ''bundleHash'' [(''schema'', JStr ''dharma.skill-bundle/v2''), (''bundleId'', JStr ''b1''),
     (''organizationId'', JStr ''o''), (''operation'', JStr ''clear''), (''skills'', JArr []), (''expiresAt'', JStr ''900''),
     (''targetSelectors'', JObj [(''organizationAgentIds'', JArr []), (''deviceIds'', JArr [JStr ''d'']), (''workspaceIds'', JArr [JStr ''w'']),
        (''providers'', JArr [JStr ''codex''])])]"

definition demo_install_receipt :: members where
  "demo_install_receipt = sealed ''device'' ''receiptHash'' [(''bundleId'', JStr ''b1''), (''organizationId'', JStr ''o''), (''deviceId'', JStr ''d''),
     (''workspaceId'', JStr ''w''), (''provider'', JStr ''codex''), (''status'', JStr ''active''), (''startedAt'', JStr ''100''), (''completedAt'', JStr ''200'')]"

definition demo_release :: tree where
  "demo_release = Dir [(''BUNDLE.json'', File ''manifest''), (''AUTHORIZATION.json'', File ''bundle''), (''INSTALL_RECEIPT.json'', File ''receipt'')]"

definition demo_json :: "string \<Rightarrow> json option" where
  "demo_json s = Some (case map_of [(''manifest'', JObj [(''bundleId'', JStr ''b1'')]), (''bundle'', JObj demo_bundle), (''receipt'', JObj demo_install_receipt)] s of
     Some v \<Rightarrow> v | None \<Rightarrow> JObj [(''bundleId'', JStr ''b1''), (''skillIds'', JArr [])])"

definition demo_skill_world :: "(nat \<Rightarrow> answer) \<Rightarrow> skill_world" where
  "demo_skill_world answers = \<lparr>sw_answer = answers, sw_parse = demo_json, sw_now = int, sw_uuid = (\<lambda>n. ''u''), sw_source = (\<lambda>_ _. None),
     sw_smoke = (\<lambda>_ _. Inl StorageError), sw_activation = (\<lambda>_. Inl [])\<rparr>"

definition demo_store :: "tree option \<Rightarrow> tree option \<Rightarrow> skill_store" where
  "demo_store active rollback = \<lparr>st_files = (\<lambda>p. case p of ActiveBundle \<Rightarrow> Some (File ''b1'') | ActiveRelease \<Rightarrow> active
     | RollbackRelease \<Rightarrow> rollback | ReleaseDir b \<Rightarrow> if b = ''b2'' then Some (Dir [(''s'', Dir [])]) else None
     | NativeSkill k \<Rightarrow> if k = ''mine'' then Some (Dir []) else None | _ \<Rightarrow> None), st_rollbacks = []\<rparr>"

lemma demo_skill_world_simps [simp]: "sw_answer (demo_skill_world f) = f" "sw_parse (demo_skill_world f) = demo_json"
  by (simp_all add: demo_skill_world_def)

lemma demo_trim_id: "trim ''b1'' = ''b1''"
  by code_simp

lemma demo_manifest: "manifest_id demo_json (Some demo_release) = Inr (Some ''b1'')"
  by (simp add: manifest_id_def members_in_def text_in_def entry_of_def demo_release_def file_text_def members_of_def demo_json_def)

lemma demo_store_files [simp]:
  "st_files (demo_store x y) ActiveRelease = x" "st_files (demo_store x y) RollbackRelease = y" "st_rollbacks (demo_store x y) = []"
  "pointer_text (demo_store x y) = Inr (Some ''b1'')" "st_files (demo_store x y) (NativeSkill ''mine'') = Some (Dir [])"
  by (simp_all add: demo_store_def pointer_text_def file_text_def)

definition demo_install :: "string install_input" where
  "demo_install = \<lparr>it_host = demo_host, it_bundle = demo_bundle, it_sourceDirectory = ''/src'', it_policyOrganization = ''o'',
     it_automaticInstall = True, it_fullPolicy = False, it_serverKey = ''server'', it_deviceSign = (\<lambda>t. ''device'' @ t),
     it_endpoint = demo_skill_endpoint, it_smokeCommandId = None, it_approved = False, it_checksActivation = True, it_names = [''mine'']\<rparr>"

definition demo_activation :: activation where
  "demo_activation = \<lparr>av_release = ''b2'', av_bundleId = ''b2'', av_workspaceId = ''w'', av_bootstrap = None, av_skillIds = [''s''], av_removeIds = []\<rparr>"

definition fails_at :: "nat \<Rightarrow> nat \<Rightarrow> answer" where
  "fails_at k n = (if n = k then Breaks None else Works)"

theorem foreign_skills_kept_witness:
  "\<exists>s. s = fold (perform_operation (demo_skill_world (fails_at 17))) [InstallBundle demo_install, RollBackBundle [''mine''] ''w'' demo_install_receipt]
       (begin_run (demo_store (Some demo_release) None))
     \<and> list_all (\<lambda>st. st_files st (NativeSkill ''mine'') = Some (Dir [])) (sr_store s # sr_past s)"
proof -
  have "foreign_skill demo_json ''w'' ''mine'' (Dir [])" by (simp add: foreign_skill_def entry_of_def)
  moreover have "sk_workspaceId (it_endpoint demo_install) = ''w''" by (simp add: demo_install_def demo_skill_endpoint_def)
  ultimately have "list_all (\<lambda>op. foreign_skill (sw_parse (demo_skill_world (fails_at 17))) (operation_workspace op) ''mine'' (Dir []))
      [InstallBundle demo_install, RollBackBundle [''mine''] ''w'' demo_install_receipt]" by simp
  from foreign_skills_kept [OF this demo_store_files(5) refl] show ?thesis by blast
qed



theorem activation_all_or_nothing_witness:
  "\<exists>r s. activateNativeSkills (demo_skill_world (fails_at 7)) demo_activation (begin_run (demo_store None None)) = (r, s)
     \<and> ((\<lambda>k. st_files (sr_store s) (NativeSkill k)) = activated_skills demo_json demo_activation (demo_store None None)
        \<or> r \<noteq> Inr () \<and> (\<lambda>k. st_files (sr_store s) (NativeSkill k)) = (\<lambda>k. st_files (demo_store None None) (NativeSkill k)))"
proof -
  obtain r s where run: "activateNativeSkills (demo_skill_world (fails_at 7)) demo_activation (begin_run (demo_store None None)) = (r, s)"
    by fastforce
  have "single_failure (demo_skill_world (fails_at 7))" by (auto simp: single_failure_def fails_at_def intro: exI [of _ 7])
  moreover have "distinct (av_skillIds demo_activation)" by (simp add: demo_activation_def)
  ultimately show ?thesis using activation_all_or_nothing [OF _ _ run] run by auto
qed

lemma demo_active_members:
  "members_in demo_json (Some demo_release) ''BUNDLE.json'' = Inr (Some [(''bundleId'', JStr ''b1'')])"
  "members_in demo_json (Some demo_release) ''AUTHORIZATION.json'' = Inr (Some demo_bundle)"
  "members_in demo_json (Some demo_release) ''INSTALL_RECEIPT.json'' = Inr (Some demo_install_receipt)"
  by (simp_all add: members_in_def text_in_def entry_of_def demo_release_def file_text_def members_of_def demo_json_def)

lemma sealed_signed:
  assumes "''signature'' \<notin> fst ` set kvs" "name \<noteq> ''signature''"
  shows "signed_by demo_host key (sealed key name kvs)"
proof -
  have "except_members [''signature''] (sealed key name kvs) = kvs @ [(name, JStr (objectDigest demo_host (JObj kvs)))]"
    using assms by (force simp: except_members_def sealed_def Let_def filter_id_conv)
  moreover have "map_of (sealed key name kvs) ''signature'' = Some (JStr (key @ canonicalize (collation demo_host) (JObj (kvs @ [(name, JStr (objectDigest demo_host (JObj kvs)))]))))"
    using assms by (auto simp: sealed_def Let_def map_add_def map_of_eq_None_iff [symmetric] split: option.splits)
  ultimately show ?thesis by (simp add: signed_by_def verifyCanonicalObject_def)
qed

lemma sealed_hash:
  assumes "''signature'' \<notin> fst ` set kvs" "name \<notin> fst ` set kvs" "name \<noteq> ''signature''"
  shows "map_of (sealed key name kvs) name = Some (JStr (objectDigest demo_host (JObj (except_members [''signature'', name] (sealed key name kvs)))))"
proof -
  have "except_members [''signature'', name] (sealed key name kvs) = kvs"
    using assms by (force simp: except_members_def sealed_def Let_def filter_id_conv)
  moreover have "map_of kvs name = None" using assms by (auto simp: map_of_eq_None_iff)
  ultimately show ?thesis using assms(3) by (auto simp: sealed_def Let_def map_add_def)
qed

lemma sealed_member: "k \<in> fst ` set kvs \<Longrightarrow> map_of (sealed key name kvs) k = map_of kvs k"
  by (auto simp: sealed_def Let_def map_add_def dest!: weak_map_of_SomeI split: option.splits)

lemma demo_authorized:
  "check_authorization demo_host (''server'', ''device'') demo_skill_endpoint (member demo_install_receipt ''receiptHash'') ''b1''
     demo_bundle demo_install_receipt (Some 500) (Some 500) = Inr (authorization_of ''b1'' demo_bundle demo_install_receipt)"
proof -
  have signed: "signed_by demo_host ''server'' demo_bundle" "signed_by demo_host ''device'' demo_install_receipt"
    unfolding demo_bundle_def demo_install_receipt_def by (rule sealed_signed; simp)+
  have hashes: "map_of demo_bundle ''bundleHash'' = Some (JStr (objectDigest demo_host (JObj (except_members [''signature'', ''bundleHash''] demo_bundle))))"
      "map_of demo_install_receipt ''receiptHash'' = Some (JStr (objectDigest demo_host (JObj (except_members [''signature'', ''receiptHash''] demo_install_receipt))))"
    unfolding demo_bundle_def demo_install_receipt_def by (rule sealed_hash; simp)+
  have parts: "map_of demo_bundle ''schema'' = Some (JStr ''dharma.skill-bundle/v2'')" "map_of demo_bundle ''bundleId'' = Some (JStr ''b1'')"
      "map_of demo_bundle ''expiresAt'' = Some (JStr ''900'')"
      "map_of demo_bundle ''targetSelectors'' = Some (JObj [(''organizationAgentIds'', JArr []), (''deviceIds'', JArr [JStr ''d'']),
          (''workspaceIds'', JArr [JStr ''w'']), (''providers'', JArr [JStr ''codex''])])"
    unfolding demo_bundle_def by (subst sealed_member; simp)+
  have rcpt: "map_of demo_install_receipt ''bundleId'' = Some (JStr ''b1'')" "map_of demo_install_receipt ''organizationId'' = Some (JStr ''o'')"
      "map_of demo_install_receipt ''deviceId'' = Some (JStr ''d'')" "map_of demo_install_receipt ''workspaceId'' = Some (JStr ''w'')"
      "map_of demo_install_receipt ''provider'' = Some (JStr ''codex'')" "map_of demo_install_receipt ''status'' = Some (JStr ''active'')"
      "map_of demo_install_receipt ''startedAt'' = Some (JStr ''100'')" "map_of demo_install_receipt ''completedAt'' = Some (JStr ''200'')"
    unfolding demo_install_receipt_def by (subst sealed_member; simp)+
  have times: "demo_parse ''900'' = Some 900" "demo_parse ''100'' = Some 100" "demo_parse ''200'' = Some 200" by code_simp+
  have verified: "verifySkillBundle demo_host demo_bundle ''server'' (Some 500) = Inr ()"
    using signed hashes parts times by (simp add: verifySkillBundle_def expiry_error_def truthy_def Let_def calculateBundleHash_def
        selectors_ok_def selector_def nonempty_text_def)
  have targets: "assertBundleTargetsEndpoint demo_bundle demo_skill_endpoint = Inr ()"
    using parts by (simp add: assertBundleTargetsEndpoint_def assertTargetSelector_def selector_def demo_skill_endpoint_def)
  have receipt: "verifyInstallReceipt demo_host demo_install_receipt ''device'' ''b1'' demo_skill_endpoint (Some 500) = Inr ()"
    using signed hashes rcpt times by (simp add: verifyInstallReceipt_def Let_def parsed_time_def endpoint_members_def demo_skill_endpoint_def)
  from verified targets receipt parts hashes show ?thesis by (simp add: check_authorization_def member_def)
qed

theorem authorization_backed_witness:
  "\<exists>a s' rcpt. getActiveSkillBundleAuthorization (demo_skill_world (\<lambda>_. Works)) demo_host (''server'', ''device'') [] demo_skill_endpoint
       (member demo_install_receipt ''receiptHash'') (Some 500) (begin_run (demo_store (Some demo_release) None)) = (Inr (Some a), s')
     \<and> backed demo_host (''server'', ''device'') demo_skill_endpoint (member demo_install_receipt ''receiptHash'') (aa_bundleId a)
         demo_bundle rcpt (Some 500) (Some 500)"
proof -
  let ?w = "demo_skill_world (\<lambda>_. Works)" and ?s = "begin_run (demo_store (Some demo_release) None)"
  have "skill_name ''w''" by code_simp
  then have "\<exists>s'. getActiveSkillBundleAuthorization ?w demo_host (''server'', ''device'') [] demo_skill_endpoint
      (member demo_install_receipt ''receiptHash'') (Some 500) ?s = (Inr (Some (authorization_of ''b1'' demo_bundle demo_install_receipt)), s')
      \<and> sr_store s' = demo_store (Some demo_release) None"
    by (simp add: getActiveSkillBundleAuthorization_def recoverInterruptedSkillRollbacks_def readActiveBundlePointer_def Let_def
        recoverRejectedActivation_def readBundleManifestId_def read_active_def and_then_def working_calls lift_result_def begin_run_def
        demo_trim_id demo_manifest demo_active_members required_def demo_authorized demo_skill_endpoint_def [THEN arg_cong, of sk_workspaceId])
  then obtain s' where run: "getActiveSkillBundleAuthorization ?w demo_host (''server'', ''device'') [] demo_skill_endpoint
      (member demo_install_receipt ''receiptHash'') (Some 500) ?s = (Inr (Some (authorization_of ''b1'' demo_bundle demo_install_receipt)), s')"
      "sr_store s' = demo_store (Some demo_release) None" by blast
  from authorization_backed [OF run(1)] run(2) demo_active_members have
    "\<exists>rcpt. backed demo_host (''server'', ''device'') demo_skill_endpoint (member demo_install_receipt ''receiptHash'')
       (aa_bundleId (authorization_of ''b1'' demo_bundle demo_install_receipt)) demo_bundle rcpt (Some 500) (Some 500)" by auto
  with run(1) show ?thesis by blast
qed

end
