(* ===== verification/Spec2Isabelle.thy ===== *)
theory Spec2Isabelle
  imports Decisions Trust_Keyset Executor Vault_Retention Lifecycle_Adapter Skill_Safety
begin

text \<open>
  Dharma Agent Fabric: a verification library.

  \<^bold>\<open>The program.\<close> The fabric lets an organization send signed tasks to coding agents on its members'
  machines.  A server signs keysets, policies, decisions and tasks; a device verifies them, runs an
  admitted task in a git worktree of its own, and keeps evidence and session records in an encrypted
  local vault.  Provider sessions leave the device only as redacted capsules; events of a customer's
  systems become handoffs of approved state; skills are installed from signed bundles.  This library
  models the parts that decide and the parts that remember: what is accepted under a signature, what a
  task may touch, when it may start and when it counts as done, what a capsule or a handoff can hold,
  and what journal, vault, adapter and skill directories hold after any sequence of operations,
  failures included.

  \<^bold>\<open>Theories and sources.\<close> Definitions have the names of the functions and types they model.
  \<^item> \<open>Fabric_Prelude\<close>, \<open>Runs\<close>: results, JavaScript numbers with NaN, strings, maps; operations over a
    state that return or throw (\<open>and_then\<close>), their postconditions and invariants (\<open>post\<close>, \<open>keeps\<close>);
    the locale \<open>advancing_store\<close> of stores whose entries only move forward.
  \<^item> \<open>Canonical_Json\<close>, \<open>Parsed_Json\<close>, \<open>Host\<close>: packages/contracts/src/index.ts, \<open>canonicalValue\<close>,
    \<open>canonicalize\<close>, \<open>sha256\<close>, \<open>verifyCanonicalObject\<close>; reading of untyped values; the services of
    Node.js as the fields of a record.  The locale \<open>key_order\<close> holds what is used of \<open>localeCompare\<close>.
  \<^item> \<open>Trust_Keyset\<close>, \<open>Decisions\<close>: packages/contracts/src/index.ts, the server signing keyset, action
    decisions and their acknowledgements, protocol envelopes, session questions.
  \<^item> \<open>Paths\<close>, \<open>Org_Policy\<close>: packages/policy/src/index.ts, containment of paths, the organization policy and
    its authorization, registered commands.
  \<^item> \<open>Task_Scope\<close>, \<open>Receipts\<close>, \<open>Journal\<close>, \<open>Instructions\<close>, \<open>Artifacts\<close>, \<open>Executor\<close>:
    packages/task-runner/src/index.ts, from the scope of a task to \<open>executeTask\<close>.
  \<^item> \<open>Vault_Blobs\<close>, \<open>Vault_Bindings\<close>, \<open>Vault_Setup\<close>, \<open>Setup_Handoff\<close>, \<open>Vault_Sessions\<close>, \<open>Vault_Capsules\<close>,
    \<open>Vault_Retention\<close>: packages/local-vault/src/index.ts with setupReadiness.ts and setupSessionHandoff.ts,
    the encrypted blob store, the bindings of provider sessions with leases and renewals, the setup
    journal, the handoff of a setup session, the exports, offers and replies of a session, the captured
    trajectories, and the retention of raw evidence.
  \<^item> \<open>Patterns\<close>, \<open>Redaction\<close>, \<open>Capsule_Build\<close>: packages/evidence-reduction/src/index.ts, a matcher for its
    regular expressions, the redaction of texts and values, and the capsule of a provider session.
  \<^item> \<open>Lifecycle_Event\<close>, \<open>Lifecycle_Adapter\<close>: packages/lifecycle-adapter/src/index.ts and its schema, the
    handoff prepared from an event, and the adapter with its state database and its lease.
  \<^item> \<open>Skill_Bundles\<close>, \<open>Skill_Install\<close>: packages/skill-manager/src/index.ts, signed bundles and receipts,
    the managed files of a workspace, activation, recovery, installation and rollback.  \<open>Skill_Runs\<close>,
    \<open>Skill_Activation\<close> and \<open>Skill_Safety\<close> hold the reasoning about their runs and the properties.

  \<^bold>\<open>State.\<close> A directory of JSON files is a map from task to record, with \<open>Garbled\<close> for text that does
  not parse.  A SQLite table is a map from its primary key to a record; a unique index is a second map.
  The vault is its tables with the files below \<open>blobs\<close>; theories that add tables extend the record.
  Policies are objects in a heap, because verification is remembered per object.  The skill directories
  are a map from the places that the program names to trees of files.

  \<^bold>\<open>Errors and effects.\<close> A function that throws returns \<open>Inl\<close> of an error; every \<open>throw\<close> and early
  return is a branch.  Clocks, random bytes, file systems and processes are arguments: a world answers
  the \<open>n\<close>-th question, so no assumption is made about what changes between two of them.

  \<^bold>\<open>Concurrency.\<close> An \<open>await\<close> of the vault is a call of \<open>meanwhile n\<close>, an arbitrary change by everything
  else; between two SQL statements of one synchronous section, \<open>gap\<close> is what other processes execute.
  A single statement is atomic, and \<open>begin immediate\<close> excludes other processes.  The lifecycle adapters
  are a step relation over one database: adapters of any processes of any machines run, die and start
  again between any two steps.  A run of the skill manager remembers the files after every call
  (\<open>sr_past\<close>); these are what a crash can leave, and a call that fails may leave its target half done.

  \<^bold>\<open>What is proved.\<close>
  \<^item> Canonical texts are equal exactly for values of equal meaning, so a signature binds the meaning
    (C1); a chain of keysets accepted by a device starts at its pin and advances by one generation (C2);
    a decision releases one action (C3); content leaves a device only under a live server authorization (C4).
  \<^item> Textual path checks equal checks on path segments (C5); written paths and artifacts stay inside the
    policy (C6, C8); the journal never goes back (C7).
  \<^item> \<open>executeTask\<close> starts nothing without an admitted task and a release (C9), reports completion only
    when everything ran (C10), and runs a task once (C11).
  \<^item> What is put into the blob store is read back, and recovery makes files and rows agree after every
    interruption (C12 to C14); bindings, leases, setup operations, handoffs and session records keep their
    invariants under the statements of all processes (C15 to C21).  \<open>Vault_Setup\<close> refines a map of
    write-once cells (C17).
  \<^item> Every run of the retention of raw evidence ends (C22), and a batch that fails or is interrupted loses
    nothing (C23); a capture is stored as a whole or not at all (C24).
  \<^item> Redaction reaches every depth of a value (C25).  A capsule is within its size (C27), holds provider
    payloads only redacted (C29), and without the customer's authorization depends on the records only
    through their kinds, times, sizes, error marks and classes found (C28).  Sizes are exact (C26).
  \<^item> One lifecycle adapter runs at a time (C30); the requests for an event are always the same bytes, and
    are authorised (C31, C32); what was handled stays handled, and rows say what happened (C33, C34).
  \<^item> Skills of others are never touched (C35), the previous release is never lost (C36), activation is all
    or nothing when one call fails (C37), the next reading undoes an interrupted installation (C38), tasks
    run under a bundle only with signatures of server and device (C39), and a hash names the files (C40).
  Lemmas named in the manifest's findings show where the code fails: for example \<open>imported_file_lost\<close>
  (\<open>putFile\<close> against the recovery of another process), \<open>acknowledged_and_quarantined\<close> (a reply acknowledged
  while it is quarantined), \<open>inherited_names_accepted\<close> (names that JavaScript objects inherit), and the
  second case of C38 (a crash that leaves no active release).

  \<^bold>\<open>Parameters.\<close> SHA-256, Ed25519, AES-GCM, HMAC, \<open>Date.parse\<close>, \<open>toISOString\<close>, \<open>JSON.parse\<close>, the URL and PEM
  parsers, the collation, the formats of ajv and the validators of the contracts are arguments; so are the
  transport and the authorization of the lifecycle adapter, and of the skill manager the source
  directory, the smoke command and the activation check.  What a theorem needs of them
  is a named hypothesis (\<open>aead_law\<close>, \<open>vault_laws\<close>, \<open>reads_back\<close>, \<open>key_order\<close>); where two texts must be
  told apart by their digest the conclusion offers a collision instead.  Strings have code units up to
  \<open>0xFF\<close> and numbers are integers.  No fuel is used: loops are recursions on lists, and the retention loop is a
  \<open>partial_function\<close> whose runs are proved to end.

  \<^bold>\<open>Not modelled.\<close> The effect fence of a scoped vault, the spawning and limits of processes, win32
  paths; of the skill manager the admission scope of its host, the reader of repository knowledge and
  the readers of bundle identifiers for upgrades, and names of skills and releases that are not single
  names.  The packages listed as not modelled in the manifest (relay client, provider adapters, command
  line, keychain adapters, SDK) are input and output around these parts.
\<close>

end
